(* ===== verification/Go_Prelude.thy ===== *)
theory Go_Prelude
  imports Main "HOL-Library.Word"
begin

text \<open>
  Shared vocabulary of the development: Go's byte slices as lists of 8-bit words, the
  big-endian reads and writes of \<^verbatim>\<open>encoding/binary\<close>, slices and \<^verbatim>\<open>copy\<close>, and
  the lemmas about them that every packet proof uses.
\<close>

unbundle bit_operations_syntax

type_synonym byte = "8 word"
type_synonym bytes = "8 word list"
type_synonym u16 = "16 word"
type_synonym u32 = "32 word"

named_theorems wire \<comment> \<open>reads and writes of big-endian fields\<close>

section \<open>Big-endian fields\<close>

definition be16 :: "byte \<Rightarrow> byte \<Rightarrow> u16" where
  "be16 a b = push_bit 8 (ucast a) OR ucast b"

definition hi8 :: "u16 \<Rightarrow> byte" where
  "hi8 w = ucast (drop_bit 8 w)"

definition lo8 :: "u16 \<Rightarrow> byte" where
  "lo8 w = ucast w"

definition be32 :: "byte \<Rightarrow> byte \<Rightarrow> byte \<Rightarrow> byte \<Rightarrow> u32" where
  "be32 a b c d =
     push_bit 24 (ucast a) OR push_bit 16 (ucast b) OR push_bit 8 (ucast c) OR ucast d"

definition get16 :: "bytes \<Rightarrow> nat \<Rightarrow> u16" where
  "get16 xs i = be16 (xs ! i) (xs ! (i + 1))"

definition get32 :: "bytes \<Rightarrow> nat \<Rightarrow> u32" where
  "get32 xs i = be32 (xs ! i) (xs ! (i + 1)) (xs ! (i + 2)) (xs ! (i + 3))"

definition put16 :: "bytes \<Rightarrow> nat \<Rightarrow> u16 \<Rightarrow> bytes" where
  "put16 xs i w = xs[i := hi8 w, i + 1 := lo8 w]"

definition byte_at :: "u32 \<Rightarrow> nat \<Rightarrow> byte" where
  "byte_at w n = ucast (drop_bit n w)"

definition put32 :: "bytes \<Rightarrow> nat \<Rightarrow> u32 \<Rightarrow> bytes" where
  "put32 xs i w =
     xs[i := byte_at w 24, i + 1 := byte_at w 16, i + 2 := byte_at w 8, i + 3 := byte_at w 0]"

definition bslice :: "bytes \<Rightarrow> nat \<Rightarrow> nat \<Rightarrow> bytes" where
  \<comment> \<open>Go's \<^verbatim>\<open>xs[lo:hi]\<close>, for \<open>lo \<le> hi \<le> length xs\<close>\<close>
  "bslice xs lo hi = take (hi - lo) (drop lo xs)"

definition copy_at :: "bytes \<Rightarrow> nat \<Rightarrow> nat \<Rightarrow> bytes \<Rightarrow> bytes" where
  \<comment> \<open>\<^verbatim>\<open>copy(xs[lo:hi], src)\<close>: as many bytes as both slices hold\<close>
  "copy_at xs lo hi src =
     take lo xs @ take (hi - lo) src @ drop (lo + min (hi - lo) (length src)) xs"

definition splice :: "bytes \<Rightarrow> nat \<Rightarrow> bytes \<Rightarrow> bytes" where
  \<comment> \<open>the slice at offset \<open>lo\<close> after it was mutated to \<open>ys\<close> in place\<close>
  "splice xs lo ys = take lo xs @ ys @ drop (lo + length ys) xs"

lemma be16_hi_lo [simp, wire]: "be16 (hi8 w) (lo8 w) = w"
  by (rule bit_word_eqI)
     (auto simp: be16_def hi8_def lo8_def bit_or_iff bit_push_bit_iff bit_ucast_iff
        bit_drop_bit_eq)

lemma be32_bytes [simp, wire]:
  "be32 (byte_at w 24) (byte_at w 16) (byte_at w 8) (byte_at w 0) = w"
proof (rule bit_word_eqI)
  fix n assume "n < LENGTH(32)"
  then consider "n < 8" | "8 \<le> n" "n < 16" | "16 \<le> n" "n < 24" | "24 \<le> n" "n < 32"
    by force
  then show "bit (be32 (byte_at w 24) (byte_at w 16) (byte_at w 8) (byte_at w 0)) n = bit w n"
    by cases
       (auto simp: be32_def byte_at_def bit_or_iff bit_push_bit_iff bit_ucast_iff
          bit_drop_bit_eq)
qed

lemma unat_byte_lt [simp]: "unat (a :: byte) < 256"
proof -
  have "unat a < 2 ^ LENGTH(8)" by (rule unsigned_less)
  then show ?thesis by simp
qed

lemma unat_u16_lt [simp]: "unat (a :: u16) < 65536"
proof -
  have "unat a < 2 ^ LENGTH(16)" by (rule unsigned_less)
  then show ?thesis by simp
qed

lemma unat_u32_lt [simp]: "unat (a :: u32) < 4294967296"
proof -
  have "unat a < 2 ^ LENGTH(32)" by (rule unsigned_less)
  then show ?thesis by simp
qed

lemma take_bit_unat_u32 [simp]: "take_bit 32 (unat (a :: u32)) = unat a"
  by (simp add: take_bit_nat_eq_self_iff)

lemma unat_ucast_8_16 [simp]: "unat (ucast (a :: byte) :: u16) = unat a"
  using unat_byte_lt [of a] by (simp add: unsigned_ucast_eq take_bit_nat_eq_self_iff del: unat_byte_lt)

lemma unat_ucast_8_32 [simp]: "unat (ucast (a :: byte) :: u32) = unat a"
  using unat_byte_lt [of a] by (simp add: unsigned_ucast_eq take_bit_nat_eq_self_iff del: unat_byte_lt)

lemma unat_ucast_16_32 [simp]: "unat (ucast (a :: u16) :: u32) = unat a"
  using unat_u16_lt [of a] by (simp add: unsigned_ucast_eq take_bit_nat_eq_self_iff del: unat_u16_lt)

lemma unat_be16: "unat (be16 a b) = 256 * unat a + unat b"
proof -
  have lt: "unat a < 256" "unat b < 256" by simp_all
  have eq: "be16 a b = push_bit 8 (ucast a) + ucast b"
    unfolding be16_def
    by (rule disjunctive_add [symmetric])
       (auto simp: bit_push_bit_iff bit_ucast_iff dest: bit_imp_le_length)
  have "unat (push_bit 8 (ucast a :: u16)) = 256 * unat a"
    using lt by (simp add: push_bit_eq_mult unat_word_ariths del: unat_byte_lt)
  then show ?thesis
    using lt by (simp add: eq unat_word_ariths del: unat_byte_lt)
qed

section \<open>Slices\<close>

lemma length_bslice [simp]: "length (bslice xs lo hi) = min (hi - lo) (length xs - lo)"
  by (simp add: bslice_def)

lemma nth_bslice [simp]: "lo + i < hi \<Longrightarrow> hi \<le> length xs \<Longrightarrow> bslice xs lo hi ! i = xs ! (lo + i)"
  by (simp add: bslice_def)

lemma bslice_self [simp]: "bslice xs 0 (length xs) = xs"
  by (simp add: bslice_def)

lemma length_splice [simp]: "lo + length ys \<le> length xs \<Longrightarrow> length (splice xs lo ys) = length xs"
  by (simp add: splice_def)

lemma nth_splice [simp]:
  assumes "lo + length ys \<le> length xs" and "i < length xs"
  shows "splice xs lo ys ! i = (if lo \<le> i \<and> i < lo + length ys then ys ! (i - lo) else xs ! i)"
  using assms by (auto simp: splice_def nth_append min_def)

lemma copy_at_splice: "length src = hi - lo \<Longrightarrow> lo \<le> hi \<Longrightarrow> copy_at xs lo hi src = splice xs lo src"
  by (simp add: copy_at_def splice_def)

lemma bslice_splice_same [simp]:
  "lo + length ys \<le> length xs \<Longrightarrow> hi = lo + length ys \<Longrightarrow> bslice (splice xs lo ys) lo hi = ys"
  by (rule nth_equalityI) auto

lemma bslice_splice_other:
  assumes "lo + length ys \<le> length xs" and "hi' \<le> lo \<or> lo + length ys \<le> lo'" and "hi' \<le> length xs"
  shows "bslice (splice xs lo ys) lo' hi' = bslice xs lo' hi'"
  using assms by (intro nth_equalityI) auto

lemma length_put16 [simp]: "length (put16 xs i w) = length xs"
  by (simp add: put16_def)

lemma nth_put16 [simp]:
  "i + 1 < length xs \<Longrightarrow> put16 xs i w ! j = (if j = i then hi8 w else if j = i + 1 then lo8 w else xs ! j)"
  by (simp add: put16_def nth_list_update)

lemma length_put32 [simp]: "length (put32 xs i w) = length xs"
  by (simp add: put32_def)

lemma nth_put32 [simp]:
  "i + 3 < length xs \<Longrightarrow> put32 xs i w ! j =
     (if j = i then byte_at w 24 else if j = i + 1 then byte_at w 16
      else if j = i + 2 then byte_at w 8 else if j = i + 3 then byte_at w 0 else xs ! j)"
  by (simp add: put32_def nth_list_update)

lemma get16_cong:
  assumes "\<And>k. k < 2 \<Longrightarrow> xs ! (i + k) = ys ! (i + k)"
  shows "get16 xs i = get16 ys i"
  using assms [of 0] assms [of 1] by (simp add: get16_def)

lemma get32_cong:
  assumes "\<And>k. k < 4 \<Longrightarrow> xs ! (i + k) = ys ! (i + k)"
  shows "get32 xs i = get32 ys i"
  using assms [of 0] assms [of 1] assms [of 2] assms [of 3] by (simp add: get32_def)

lemma put16_zero: "xs[i := 0, i + 1 := 0] = put16 xs i 0"
  by (simp add: put16_def hi8_def lo8_def)

lemma ucast_be16: "push_bit 8 (ucast a) OR ucast b = (ucast (be16 a b) :: u32)"
  by (rule bit_word_eqI)
     (auto simp: be16_def bit_or_iff bit_push_bit_iff bit_ucast_iff dest: bit_imp_le_length)

lemma bslice_4:
  assumes "hi = lo + 4" "hi \<le> length xs"
  shows "bslice xs lo hi = [xs ! lo, xs ! (lo + 1), xs ! (lo + 2), xs ! (lo + 3)]"
  using assms by (intro nth_equalityI) (auto simp: less_Suc_eq numeral_eq_Suc)

lemma get16_value: "xs ! i = hi8 w \<Longrightarrow> xs ! (i + 1) = lo8 w \<Longrightarrow> get16 xs i = w"
  by (simp add: get16_def be16_hi_lo)

lemma get32_value:
  "xs ! i = byte_at w 24 \<Longrightarrow> xs ! (i + 1) = byte_at w 16 \<Longrightarrow> xs ! (i + 2) = byte_at w 8 \<Longrightarrow>
   xs ! (i + 3) = byte_at w 0 \<Longrightarrow> get32 xs i = w"
  by (simp add: get32_def be32_bytes)

lemma list_update_Cons_numeral [simp]:
  "(x # xs)[numeral v := y] = x # xs[pred_numeral v := y]"
  by (simp add: numeral_eq_Suc)

lemma length_4E:
  assumes "length xs = 4" obtains a b c d where "xs = [a, b, c, d]"
proof -
  from assms obtain a b c d where "xs = [a, b, c, d]"
    by (auto simp: numeral_eq_Suc length_Suc_conv)
  then show ?thesis by (rule that)
qed

section \<open>Association lists\<close>

lemma distinct_key_unique:
  assumes "distinct (map fst xs)" "(k, v) \<in> set xs" "y \<in> set xs" "fst y = k"
  shows "y = (k, v)"
proof (cases y)
  case (Pair a w)
  with assms(3,4) have "a = k" "(k, w) \<in> set xs" by simp_all
  then have "w = v" by (intro eq_key_imp_eq_value [OF assms(1) _ assms(2)])
  with Pair \<open>a = k\<close> show ?thesis by simp
qed

lemma length_filter_key:
  "distinct (map fst xs) \<Longrightarrow> (k, v) \<in> set xs \<Longrightarrow> Suc (length (filter (\<lambda>x. fst x \<noteq> k) xs)) = length xs"
proof (induction xs)
  case (Cons x xs)
  show ?case
  proof (cases "fst x = k")
    case True
    with Cons.prems(1) have "\<forall>y\<in>set xs. fst y \<noteq> k" by (auto simp: rev_image_eqI)
    then have "filter (\<lambda>x. fst x \<noteq> k) xs = xs" by (simp add: filter_id_conv)
    with True show ?thesis by simp
  next
    case False
    with Cons show ?thesis by auto
  qed
qed simp

end
