(* ===== verification/Go_Strings.thy ===== *)
theory Go_Strings
  imports Go_Prelude "HOL-Library.Char_ord"
begin

text \<open>
  The parts of Go's \<^verbatim>\<open>strings\<close>, \<^verbatim>\<open>strconv\<close> and \<^verbatim>\<open>fmt\<close> that the program uses.  A Go string is
  its list of bytes, here a \<open>string\<close> (HOL's 8-bit characters); the Unicode-aware functions are
  modelled on ASCII, the only text the modelled code treats specially.
\<close>

section \<open>Digits and numbers\<close>

definition digitChar :: "nat \<Rightarrow> char" where
  "digitChar n = char_of (48 + n)"

definition isDigit :: "char \<Rightarrow> bool" where
  "isDigit c \<longleftrightarrow> 48 \<le> (of_char c :: nat) \<and> (of_char c :: nat) \<le> 57"

definition digitVal :: "char \<Rightarrow> nat" where
  "digitVal c = of_char c - 48"

fun showNat :: "nat \<Rightarrow> string" where
  "showNat n = (if n < 10 then [digitChar n] else showNat (n div 10) @ [digitChar (n mod 10)])"

declare showNat.simps [simp del]

definition showInt :: "int \<Rightarrow> string" where
  "showInt i = (if i < 0 then ''-'' @ showNat (nat (- i)) else showNat (nat i))"

definition readDigits :: "string \<Rightarrow> nat" where
  "readDigits s = foldl (\<lambda>acc c. acc * 10 + digitVal c) 0 s"

definition atoiNat :: "string \<Rightarrow> nat option" where
  \<comment> \<open>\<^verbatim>\<open>strconv.Atoi\<close> on a string without sign, for numbers in range\<close>
  "atoiNat s = (if s \<noteq> [] \<and> list_all isDigit s then Some (readDigits s) else None)"

definition hexChar :: "nat \<Rightarrow> char" where
  "hexChar n = (if n < 10 then char_of (48 + n) else char_of (87 + n))"

definition hex02 :: "byte \<Rightarrow> string" where
  "hex02 b = [hexChar (unat b div 16), hexChar (unat b mod 16)]"

definition hexEncode :: "bytes \<Rightarrow> string" where
  "hexEncode bs = concat (map hex02 bs)"

lemma of_digitChar [simp]: "n < 10 \<Longrightarrow> (of_char (digitChar n) :: nat) = 48 + n"
  by (simp add: digitChar_def)

lemma isDigit_digitChar [simp]: "n < 10 \<Longrightarrow> isDigit (digitChar n)"
  by (simp add: isDigit_def)

lemma digitVal_digitChar [simp]: "n < 10 \<Longrightarrow> digitVal (digitChar n) = n"
  by (simp add: digitVal_def)

lemma showNat_digits [simp]: "list_all isDigit (showNat n)"
  by (induction n rule: showNat.induct) (subst showNat.simps, auto)

lemma showNat_not_Nil [simp]: "showNat n \<noteq> []"
  by (subst showNat.simps) auto

lemma readDigits_append [simp]: "readDigits (s @ [c]) = readDigits s * 10 + digitVal c"
  by (simp add: readDigits_def)

lemma readDigits_showNat [simp]: "readDigits (showNat n) = n"
proof (induction n rule: showNat.induct)
  case (1 n)
  show ?case
  proof (cases "n < 10")
    case True
    then show ?thesis by (subst showNat.simps) (simp add: readDigits_def)
  next
    case False
    then show ?thesis using 1 by (subst showNat.simps) simp
  qed
qed

lemma atoiNat_showNat [simp]: "atoiNat (showNat n) = Some n"
  by (simp add: atoiNat_def)

lemma showNat_inject [simp]: "showNat m = showNat n \<longleftrightarrow> m = n"
  by (metis readDigits_showNat)

lemma not_in_showNat: "\<not> isDigit c \<Longrightarrow> c \<notin> set (showNat n)"
  using showNat_digits [of n] by (auto simp: list_all_iff)

lemma of_hexChar: "n < 16 \<Longrightarrow> (of_char (hexChar n) :: nat) = (if n < 10 then 48 + n else 87 + n)"
  by (simp add: hexChar_def)

lemma hexChar_inject:
  assumes "m < 16" "n < 16" "hexChar m = hexChar n"
  shows "m = n"
proof -
  have "(of_char (hexChar m) :: nat) = of_char (hexChar n)" using assms(3) by simp
  then show ?thesis using assms(1,2) by (auto simp: of_hexChar split: if_splits)
qed

lemma hex02_inject [simp]: "hex02 a = hex02 b \<longleftrightarrow> a = b"
proof
  assume eq: "hex02 a = hex02 b"
  have lt: "unat a div 16 < 16" "unat b div 16 < 16" "unat a mod 16 < 16" "unat b mod 16 < 16"
    using unat_byte_lt [of a] unat_byte_lt [of b] by (simp_all del: unat_byte_lt)
  from eq have "hexChar (unat a div 16) = hexChar (unat b div 16)"
    "hexChar (unat a mod 16) = hexChar (unat b mod 16)"
    by (simp_all add: hex02_def)
  then have "unat a div 16 = unat b div 16" "unat a mod 16 = unat b mod 16"
    using hexChar_inject lt by blast+
  then have "unat a = unat b" by (metis div_mult_mod_eq)
  then show "a = b" by (simp only: unsigned_word_eqI)
qed simp

lemma length_hex02 [simp]: "length (hex02 b) = 2"
  by (simp add: hex02_def)

lemma hexEncode_inject [simp]: "hexEncode xs = hexEncode ys \<longleftrightarrow> xs = ys"
proof
  show "hexEncode xs = hexEncode ys \<Longrightarrow> xs = ys"
  proof (induction xs arbitrary: ys)
    case Nil
    then show ?case by (cases ys) (auto simp: hexEncode_def hex02_def)
  next
    case (Cons x xs)
    then obtain y ys' where ys: "ys = y # ys'"
      by (cases ys) (auto simp: hexEncode_def hex02_def)
    with Cons.prems have "hex02 x @ hexEncode xs = hex02 y @ hexEncode ys'"
      by (simp add: hexEncode_def)
    then have "hex02 x = hex02 y" "hexEncode xs = hexEncode ys'"
      by (auto simp: append_eq_append_conv)
    then show ?case using Cons.IH ys by simp
  qed
qed simp

lemma length_hexEncode [simp]: "length (hexEncode xs) = 2 * length xs"
  by (induction xs) (simp_all add: hexEncode_def)

definition isHexLower :: "char \<Rightarrow> bool" where
  "isHexLower c \<longleftrightarrow> isDigit c \<or> 97 \<le> (of_char c :: nat) \<and> (of_char c :: nat) \<le> 102"

lemma hexChar_isHex: "n < 16 \<Longrightarrow> isHexLower (hexChar n)"
  by (simp add: isHexLower_def isDigit_def of_hexChar)

lemma hex02_isHex: "c \<in> set (hex02 b) \<Longrightarrow> isHexLower c"
proof -
  have "unat b div 16 < 16" "unat b mod 16 < 16"
    using unat_byte_lt [of b] by (simp_all del: unat_byte_lt)
  then show "c \<in> set (hex02 b) \<Longrightarrow> isHexLower c"
    by (auto simp: hex02_def intro: hexChar_isHex)
qed

section \<open>Searching and splitting\<close>

definition HasPrefix :: "string \<Rightarrow> string \<Rightarrow> bool" where
  "HasPrefix s p \<longleftrightarrow> take (length p) s = p"

definition HasSuffix :: "string \<Rightarrow> string \<Rightarrow> bool" where
  "HasSuffix s p \<longleftrightarrow> length p \<le> length s \<and> drop (length s - length p) s = p"

definition TrimPrefix :: "string \<Rightarrow> string \<Rightarrow> string" where
  "TrimPrefix s p = (if HasPrefix s p then drop (length p) s else s)"

definition TrimSuffix :: "string \<Rightarrow> string \<Rightarrow> string" where
  "TrimSuffix s p = (if HasSuffix s p then take (length s - length p) s else s)"

fun IndexByte :: "'a list \<Rightarrow> 'a \<Rightarrow> nat option" where
  \<comment> \<open>\<open>None\<close> for Go's -1\<close>
  "IndexByte [] c = None"
| "IndexByte (x # xs) c = (if x = c then Some 0 else map_option Suc (IndexByte xs c))"

fun ContainsStr :: "string \<Rightarrow> string \<Rightarrow> bool" where
  "ContainsStr s sub = (HasPrefix s sub \<or> (case s of [] \<Rightarrow> False | _ # r \<Rightarrow> ContainsStr r sub))"

declare ContainsStr.simps [simp del]

fun splitOn :: "'a \<Rightarrow> 'a list \<Rightarrow> 'a list list" where
  \<comment> \<open>\<^verbatim>\<open>strings.Split\<close> by a one-byte separator\<close>
  "splitOn c [] = [[]]"
| "splitOn c (x # xs) =
     (if x = c then [] # splitOn c xs
      else case splitOn c xs of [] \<Rightarrow> [[x]] | w # ws \<Rightarrow> (x # w) # ws)"

fun joinWith :: "'a list \<Rightarrow> 'a list list \<Rightarrow> 'a list" where
  "joinWith sep [] = []"
| "joinWith sep [w] = w"
| "joinWith sep (w # ws) = w @ sep @ joinWith sep ws"

definition isSpaceChar :: "char \<Rightarrow> bool" where
  \<comment> \<open>\<^verbatim>\<open>unicode.IsSpace\<close> on ASCII\<close>
  "isSpaceChar c \<longleftrightarrow> (of_char c :: nat) \<in> {9, 10, 11, 12, 13, 32}"

definition TrimSpace :: "string \<Rightarrow> string" where
  "TrimSpace s = rev (dropWhile isSpaceChar (rev (dropWhile isSpaceChar s)))"

definition wordsOf :: "string \<Rightarrow> string list" where
  \<comment> \<open>\<^verbatim>\<open>strings.Fields\<close>\<close>
  "wordsOf s = filter (\<lambda>w. w \<noteq> []) (foldr (\<lambda>c acc.
     if isSpaceChar c then [] # acc
     else case acc of [] \<Rightarrow> [[c]] | w # ws \<Rightarrow> (c # w) # ws) s [[]])"

definition scanLines :: "string \<Rightarrow> string list" where
  \<comment> \<open>\<^verbatim>\<open>bufio.Scanner\<close> on lines; it stops at a line that does not fit its buffer of 64 KiB\<close>
  "scanLines s =
     (let ls = splitOn CHR 0x0A s; ls1 = (if last ls = [] then butlast ls else ls) in
      map (\<lambda>l. TrimSuffix l [CHR 0x0D]) (takeWhile (\<lambda>l. length l < 65536) ls1))"

definition lowerChar :: "char \<Rightarrow> char" where
  "lowerChar c = (if 65 \<le> (of_char c :: nat) \<and> (of_char c :: nat) \<le> 90 then char_of ((of_char c :: nat) + 32) else c)"

definition ToLower :: "string \<Rightarrow> string" where
  "ToLower s = map lowerChar s"

definition EqualFold :: "string \<Rightarrow> string \<Rightarrow> bool" where
  "EqualFold a b \<longleftrightarrow> ToLower a = ToLower b"

definition bytesOf :: "string \<Rightarrow> bytes" where
  "bytesOf s = map of_char s"

definition stringOf :: "bytes \<Rightarrow> string" where
  "stringOf b = map (\<lambda>w. char_of (unat w)) b"

lemma char_of_byte [simp]: "char_of (unat (of_char c :: byte)) = c"
proof -
  have "unat (of_char c :: byte) = unat (of_nat (of_char c) :: byte)"
    by (simp add: of_nat_of_char)
  also have "\<dots> = of_char c" by (simp add: unat_of_nat)
  finally show ?thesis by simp
qed

lemma byte_of_char [simp]: "of_char (char_of (unat (w :: byte))) = w"
proof -
  have "(of_char (char_of (unat w)) :: byte) = of_nat (of_char (char_of (unat w)))"
    by (simp only: of_nat_of_char)
  also have "(of_char (char_of (unat w)) :: nat) = unat w"
    by (simp add: of_char_of take_bit_nat_eq_self_iff)
  finally show ?thesis by simp
qed

lemma length_bytesOf: "length (bytesOf s) = length s"
  by (simp add: bytesOf_def)

lemma stringOf_bytesOf [simp]: "stringOf (bytesOf s) = s"
  by (simp add: stringOf_def bytesOf_def map_idI)

lemma bytesOf_stringOf [simp]: "bytesOf (stringOf b) = b"
  by (simp add: stringOf_def bytesOf_def map_idI)

lemma IndexByte_None: "IndexByte s c = None \<longleftrightarrow> c \<notin> set s"
  by (induction s) auto

lemma IndexByte_append: "c \<notin> set a \<Longrightarrow> IndexByte (a @ c # b) c = Some (length a)"
  by (induction a) auto

lemma splitOn_not_Nil [simp]: "splitOn c s \<noteq> []"
  by (induction s) (auto split: list.splits)

lemma joinWith_splitOn: "joinWith [c] (splitOn c s) = s"
proof (induction s)
  case (Cons x xs)
  obtain w ws where sp: "splitOn c xs = w # ws" using splitOn_not_Nil by (cases "splitOn c xs") auto
  then show ?case using Cons by (cases ws) auto
qed simp

lemma splitOn_noSep: "w \<in> set (splitOn c s) \<Longrightarrow> c \<notin> set w"
proof (induction s arbitrary: w)
  case (Cons x xs)
  obtain v vs where sp: "splitOn c xs = v # vs" using splitOn_not_Nil by (cases "splitOn c xs") auto
  with Cons show ?case by (auto split: if_splits)
qed simp

lemma splitOn_single: "c \<notin> set w \<Longrightarrow> splitOn c w = [w]"
  by (induction w) auto

lemma splitOn_Cons: "c \<notin> set w \<Longrightarrow> splitOn c (w @ c # s) = w # splitOn c s"
  by (induction w) auto

lemma splitOn_joinWith:
  "ws \<noteq> [] \<Longrightarrow> (\<And>w. w \<in> set ws \<Longrightarrow> c \<notin> set w) \<Longrightarrow> splitOn c (joinWith [c] ws) = ws"
proof (induction ws rule: induct_list012)
  case (2 w)
  then show ?case by (simp add: splitOn_single)
next
  case (3 w v ws)
  then show ?case by (simp add: splitOn_Cons)
qed simp

text \<open>Two strings that end in a separator-free field agree on the field and on what precedes it.\<close>

lemma last_field_inject:
  assumes "a @ c # f = b @ c # g" and "c \<notin> set f" and "c \<notin> set g"
  shows "a = b \<and> f = g"
proof -
  have eq: "rev f @ c # rev a = rev g @ c # rev b"
    using arg_cong [OF assms(1), of rev] by simp
  have "length (rev f) = length (rev g)"
    using IndexByte_append [of c "rev f" "rev a"] IndexByte_append [of c "rev g" "rev b"] assms(2,3) eq
    by simp
  with eq have "rev f = rev g" "c # rev a = c # rev b"
    by (auto simp del: length_rev)
  then show ?thesis by simp
qed

lemma first_field_inject:
  assumes "f @ c # a = g @ c # b" and "c \<notin> set f" and "c \<notin> set g"
  shows "f = g \<and> a = b"
proof -
  have "length f = length g"
    using IndexByte_append [of c f a] IndexByte_append [of c g b] assms by simp
  with assms(1) show ?thesis by (simp add: append_eq_append_conv)
qed

lemma HasPrefix_append [simp]: "HasPrefix (p @ s) p"
  by (simp add: HasPrefix_def)

lemma ContainsStr_append: "ContainsStr (a @ p @ b) p"
proof (induction a)
  case Nil
  show ?case by (subst ContainsStr.simps) simp
next
  case (Cons x a)
  then show ?case by (subst ContainsStr.simps) simp
qed

definition unlines :: "string list \<Rightarrow> string" where
  \<comment> \<open>each line ended by a newline\<close>
  "unlines ls = concat (map (\<lambda>l. l @ [CHR 0x0A]) ls)"

lemma unlines_simps [simp]:
  "unlines [] = []"
  "unlines (l # ls) = l @ CHR 0x0A # unlines ls"
  "unlines (ls @ ms) = unlines ls @ unlines ms"
  by (simp_all add: unlines_def)

lemma splitOn_unlines: "(\<And>l. l \<in> set ls \<Longrightarrow> CHR 0x0A \<notin> set l) \<Longrightarrow> splitOn CHR 0x0A (unlines ls) = ls @ [[]]"
  by (induction ls) (simp_all add: splitOn_Cons)

lemma lowerChar_idem [simp]: "lowerChar (lowerChar c) = lowerChar c"
  by (auto simp: lowerChar_def)

lemma ToLower_idem [simp]: "ToLower (ToLower s) = ToLower s"
  by (simp add: ToLower_def)

lemma length_ToLower [simp]: "length (ToLower s) = length s"
  by (simp add: ToLower_def)

lemma dropWhile_hd: "dropWhile P xs = y # ys \<Longrightarrow> \<not> P y"
  by (induction xs) (auto split: if_splits)

lemma dropWhile_twice: "dropWhile P (dropWhile P xs) = dropWhile P xs"
  by (induction xs) auto

lemma TrimSpace_idem [simp]: "TrimSpace (TrimSpace s) = TrimSpace s"
proof -
  let ?a = "dropWhile isSpaceChar s"
  let ?b = "rev (dropWhile isSpaceChar (rev ?a))"
  obtain zs where "rev ?a = zs @ dropWhile isSpaceChar (rev ?a)"
    by (metis takeWhile_dropWhile_id)
  then have a: "?a = ?b @ rev zs" by (metis rev_append rev_rev_ident)
  have "dropWhile isSpaceChar ?b = ?b"
  proof (cases "?b")
    case (Cons x xs)
    with a have "?a = x # (xs @ rev zs)" by simp
    then have "\<not> isSpaceChar x" by (rule dropWhile_hd)
    then show ?thesis unfolding Cons by simp
  next
    case Nil
    show ?thesis unfolding Nil by simp
  qed
  then show ?thesis by (simp add: TrimSpace_def dropWhile_twice)
qed

end
