(* ===== verification/Go_Net.thy ===== *)
theory Go_Net
  imports Go_Strings
begin

text \<open>
  The parts of Go's \<^verbatim>\<open>net\<close> package that the program uses on addresses: \<^verbatim>\<open>net.IP\<close> as 4 or 16
  bytes, its classification predicates, \<^verbatim>\<open>ParseIP\<close>, \<^verbatim>\<open>IP.String\<close>, \<^verbatim>\<open>SplitHostPort\<close>.
\<close>

section \<open>Addresses and their classes\<close>

definition v4prefix :: bytes where
  "v4prefix = replicate 10 0 @ [0xff, 0xff]"

definition To4 :: "bytes \<Rightarrow> bytes" where
  \<comment> \<open>\<^verbatim>\<open>net.IP.To4\<close>: the 4-byte form, \<open>[]\<close> for nil\<close>
  "To4 ip =
     (if length ip = 4 then ip
      else if length ip = 16 \<and> take 12 ip = v4prefix then drop 12 ip
      else [])"

definition ipEqual :: "bytes \<Rightarrow> bytes \<Rightarrow> bool" where
  "ipEqual a b =
     (if length a = length b then a = b
      else if length a = 4 \<and> length b = 16 then take 12 b = v4prefix \<and> a = drop 12 b
      else if length a = 16 \<and> length b = 4 then take 12 a = v4prefix \<and> drop 12 a = b
      else False)"

definition IPv4 :: "byte \<Rightarrow> byte \<Rightarrow> byte \<Rightarrow> byte \<Rightarrow> bytes" where
  "IPv4 a b c d = v4prefix @ [a, b, c, d]"

definition IPv6loopback :: bytes where "IPv6loopback = replicate 15 0 @ [1]"
definition IPv6unspecified :: bytes where "IPv6unspecified = replicate 16 0"

definition IsUnspecified :: "bytes \<Rightarrow> bool" where
  "IsUnspecified ip \<longleftrightarrow> ipEqual ip (IPv4 0 0 0 0) \<or> ipEqual ip IPv6unspecified"

definition IsLoopback :: "bytes \<Rightarrow> bool" where
  "IsLoopback ip = (if To4 ip \<noteq> [] then To4 ip ! 0 = 127 else ipEqual ip IPv6loopback)"

definition IsPrivate :: "bytes \<Rightarrow> bool" where
  "IsPrivate ip = (let v = To4 ip in
     if v \<noteq> [] then
       v ! 0 = 10 \<or> (v ! 0 = 172 \<and> v ! 1 AND 0xf0 = 16) \<or> (v ! 0 = 192 \<and> v ! 1 = 168)
     else length ip = 16 \<and> ip ! 0 AND 0xfe = 0xfc)"

definition IsMulticast :: "bytes \<Rightarrow> bool" where
  "IsMulticast ip = (let v = To4 ip in
     if v \<noteq> [] then v ! 0 AND 0xf0 = 0xe0 else length ip = 16 \<and> ip ! 0 = 0xff)"

definition IsLinkLocalMulticast :: "bytes \<Rightarrow> bool" where
  "IsLinkLocalMulticast ip = (let v = To4 ip in
     if v \<noteq> [] then v ! 0 = 224 \<and> v ! 1 = 0 \<and> v ! 2 = 0
     else length ip = 16 \<and> ip ! 0 = 0xff \<and> ip ! 1 AND 0x0f = 2)"

definition IsLinkLocalUnicast :: "bytes \<Rightarrow> bool" where
  "IsLinkLocalUnicast ip = (let v = To4 ip in
     if v \<noteq> [] then v ! 0 = 169 \<and> v ! 1 = 254
     else length ip = 16 \<and> ip ! 0 = 0xfe \<and> ip ! 1 AND 0xc0 = 0x80)"

section \<open>Text form\<close>

definition parseOctet :: "string \<Rightarrow> byte option" where
  "parseOctet s =
     (if s \<noteq> [] \<and> list_all isDigit s \<and> length s \<le> 3 \<and> (length s > 1 \<longrightarrow> hd s \<noteq> CHR ''0'') \<and>
         readDigits s \<le> 255
      then Some (of_nat (readDigits s)) else None)"

definition parseDotted :: "string \<Rightarrow> bytes option" where
  "parseDotted s =
     (case splitOn CHR ''.'' s of
        [a, b, c, d] \<Rightarrow>
          (case (parseOctet a, parseOctet b, parseOctet c, parseOctet d) of
             (Some w, Some x, Some y, Some z) \<Rightarrow> Some [w, x, y, z]
           | _ \<Rightarrow> None)
      | _ \<Rightarrow> None)"

definition hexVal :: "char \<Rightarrow> nat option" where
  "hexVal c = (let n = of_char c in
     if 48 \<le> n \<and> n \<le> 57 then Some (n - 48)
     else if 97 \<le> n \<and> n \<le> 102 then Some (n - 87)
     else if 65 \<le> n \<and> n \<le> 70 then Some (n - 55) else None)"

fun hexRun :: "string \<Rightarrow> nat \<Rightarrow> nat \<times> nat \<times> string" where
  \<comment> \<open>value and length of the leading hex digits, and the rest\<close>
  "hexRun [] acc = (acc, 0, [])"
| "hexRun (c # s) acc =
     (case hexVal c of None \<Rightarrow> (acc, 0, c # s)
      | Some v \<Rightarrow> (case hexRun s (acc * 16 + v) of (a, n, r) \<Rightarrow> (a, Suc n, r)))"

fun parse6 :: "nat \<Rightarrow> bytes \<Rightarrow> nat option \<Rightarrow> string \<Rightarrow> (bytes \<times> nat option \<times> string) option" where
  \<comment> \<open>the loop of \<^verbatim>\<open>netip.parseIPv6\<close>: groups left, bytes so far, ellipsis position, input\<close>
  "parse6 0 ip ell s = Some (ip, ell, s)"
| "parse6 (Suc k) ip ell s =
     (let (v, n, r) = hexRun s 0 in
      if n = 0 \<or> n > 4 then None
      else if r \<noteq> [] \<and> hd r = CHR ''.'' then
        (if ell = None \<and> length ip \<noteq> 12 then None
         else if length ip + 4 > 16 then None
         else case parseDotted s of None \<Rightarrow> None | Some q \<Rightarrow> Some (ip @ q, ell, []))
      else let ip = ip @ [of_nat (v div 256), of_nat (v mod 256)] in
      if r = [] then Some (ip, ell, [])
      else if hd r \<noteq> CHR '':'' \<or> length r = 1 then None
      else let r = tl r in
      if hd r = CHR '':'' then
        (if ell \<noteq> None then None
         else if tl r = [] then Some (ip, Some (length ip), [])
         else parse6 k ip (Some (length ip)) (tl r))
      else parse6 k ip ell r)"

definition parseColon :: "string \<Rightarrow> bytes option" where
  "parseColon s =
     (let (ell, s') = (if HasPrefix s ''::'' then (Some 0, drop 2 s) else (None, s)) in
      if ell \<noteq> None \<and> s' = [] then Some (replicate 16 0)
      else case parse6 8 [] ell s' of
        None \<Rightarrow> None
      | Some (ip, e, r) \<Rightarrow>
          if r \<noteq> [] then None
          else if length ip < 16 then
            (case e of None \<Rightarrow> None
             | Some p \<Rightarrow> Some (take p ip @ replicate (16 - length ip) 0 @ drop p ip))
          else if e \<noteq> None then None else Some ip)"

fun firstMark :: "string \<Rightarrow> char option" where
  "firstMark [] = None"
| "firstMark (c # s) = (if c = CHR ''.'' \<or> c = CHR '':'' \<or> c = CHR ''%'' then Some c else firstMark s)"

definition ParseIP :: "string \<Rightarrow> bytes option" where
  \<comment> \<open>the 16-byte form of a valid literal without zone\<close>
  "ParseIP s =
     (case firstMark s of
        Some c \<Rightarrow>
          (if c = CHR ''.'' then map_option ((@) v4prefix) (parseDotted s)
           else if c = CHR '':'' \<and> CHR ''%'' \<notin> set s then parseColon s else None)
      | None \<Rightarrow> None)"

definition dotted :: "bytes \<Rightarrow> string" where
  "dotted ip = joinWith ''.'' (map (\<lambda>b. showNat (unat b)) ip)"

fun showHex :: "nat \<Rightarrow> string" where
  "showHex n = (if n < 16 then [hexChar n] else showHex (n div 16) @ [hexChar (n mod 16)])"

declare showHex.simps [simp del]

fun groups6 :: "bytes \<Rightarrow> nat list" where
  "groups6 (a # b # r) = (256 * unat a + unat b) # groups6 r"
| "groups6 _ = []"

definition zeroRun :: "nat list \<Rightarrow> nat \<Rightarrow> nat" where
  "zeroRun gs i = length (takeWhile (\<lambda>g. g = 0) (drop i gs))"

definition bestRun :: "nat list \<Rightarrow> nat \<times> nat" where
  \<comment> \<open>start and length of the first longest run of at least two zero groups, length 0 if none\<close>
  "bestRun gs = foldl (\<lambda>(st, ln) i. let l = zeroRun gs i in if l \<ge> 2 \<and> l > ln then (i, l) else (st, ln))
                  (0, 0) [0..<length gs]"

definition colonHex :: "bytes \<Rightarrow> string" where
  "colonHex ip =
     (let gs = groups6 ip; (st, ln) = bestRun gs in
      if ln = 0 then joinWith '':'' (map showHex gs)
      else joinWith '':'' (map showHex (take st gs)) @ ''::'' @
           joinWith '':'' (map showHex (drop (st + ln) gs)))"

definition ipString :: "bytes \<Rightarrow> string" where
  \<comment> \<open>\<^verbatim>\<open>net.IP.String\<close>\<close>
  "ipString ip =
     (if ip = [] then ''<nil>''
      else if To4 ip \<noteq> [] then dotted (To4 ip)
      else if length ip = 16 then colonHex ip
      else ''?'' @ hexEncode ip)"

section \<open>Host and port\<close>

definition LastIndexByte :: "'a list \<Rightarrow> 'a \<Rightarrow> nat option" where
  "LastIndexByte s c = map_option (\<lambda>k. length s - 1 - k) (IndexByte (rev s) c)"

definition SplitHostPort :: "string \<Rightarrow> (string \<times> string) option" where
  "SplitHostPort hp =
     (case LastIndexByte hp CHR '':'' of
        None \<Rightarrow> None
      | Some i \<Rightarrow>
          (if hd hp = CHR ''['' then
             (case IndexByte hp CHR '']'' of
                None \<Rightarrow> None
              | Some e \<Rightarrow>
                  if e + 1 \<noteq> i then None
                  else if CHR ''['' \<in> set (drop 1 hp) \<or> CHR '']'' \<in> set (drop (e + 1) hp) then None
                  else Some (take (e - 1) (drop 1 hp), drop (i + 1) hp))
           else if CHR '':'' \<in> set (take i hp) then None
           else if CHR ''['' \<in> set hp \<or> CHR '']'' \<in> set hp then None
           else Some (take i hp, drop (i + 1) hp)))"

section \<open>Lemmas\<close>

lemma To4_4 [simp]: "length ip = 4 \<Longrightarrow> To4 ip = ip"
  by (simp add: To4_def)

lemma To4_IPv4 [simp]: "length v = 4 \<Longrightarrow> To4 (v4prefix @ v) = v"
  by (simp add: To4_def v4prefix_def)

lemma To4_length: "To4 ip \<noteq> [] \<Longrightarrow> length (To4 ip) = 4"
  by (auto simp: To4_def split: if_splits)

lemma To4_idem [simp]: "To4 (To4 ip) = To4 ip"
  by (auto simp: To4_def)

lemma parseDotted_length: "parseDotted s = Some q \<Longrightarrow> length q = 4"
  by (auto simp: parseDotted_def split: list.splits option.splits)

lemma showNat_length_octet: "n < 256 \<Longrightarrow> length (showNat n) \<le> 3"
proof -
  assume "n < 256"
  then show ?thesis
    by (subst showNat.simps, subst showNat.simps, subst showNat.simps) (auto simp: div_mult2_eq [symmetric])
qed

lemma hd_showNat: "10 \<le> n \<Longrightarrow> hd (showNat n) \<noteq> CHR ''0''"
proof (induction n rule: showNat.induct)
  case (1 n)
  show ?case
  proof (cases "n div 10 < 10")
    case True
    have "hd (showNat n) = digitChar (n div 10)"
      using True 1 by (subst showNat.simps, subst showNat.simps) auto
    moreover have "digitChar (n div 10) \<noteq> CHR ''0''"
    proof
      assume "digitChar (n div 10) = CHR ''0''"
      then have "(of_char (digitChar (n div 10)) :: nat) = of_char CHR ''0''" by simp
      with True 1 show False by simp
    qed
    ultimately show ?thesis by simp
  next
    case False
    then show ?thesis using 1 by (subst showNat.simps) auto
  qed
qed

lemma parseOctet_showNat [simp]: "parseOctet (showNat (unat b)) = Some b"
proof -
  have "unat b \<le> 255" using unat_byte_lt [of b] by linarith
  moreover have "length (showNat (unat b)) > 1 \<Longrightarrow> 10 \<le> unat b"
    by (rule ccontr) (subst (asm) showNat.simps, simp)
  ultimately show ?thesis
    using showNat_length_octet [of "unat b"] hd_showNat [of "unat b"] by (auto simp: parseOctet_def)
qed

lemma parseDotted_dotted:
  assumes "length ip = 4"
  shows "parseDotted (dotted ip) = Some ip"
proof -
  obtain a b c d where ip: "ip = [a, b, c, d]" by (rule length_4E [OF assms])
  have n: "CHR ''.'' \<notin> set (showNat k)" for k
    by (rule not_in_showNat) (simp add: isDigit_def)
  have "splitOn CHR ''.'' (dotted ip) = map (\<lambda>b. showNat (unat b)) ip"
    unfolding dotted_def by (rule splitOn_joinWith) (auto simp: ip n)
  then show ?thesis by (simp add: parseDotted_def ip)
qed

lemma firstMark_append: "firstMark s = None \<Longrightarrow> firstMark (s @ r) = firstMark r"
  by (induction s) (auto split: if_splits)

lemma firstMark_showNat [simp]: "firstMark (showNat n @ r) = firstMark r"
proof (rule firstMark_append)
  have "firstMark s = None" if "list_all isDigit s" for s
    using that by (induction s) (auto simp: isDigit_def)
  then show "firstMark (showNat n) = None" by simp
qed

text \<open>Reading back what \<^verbatim>\<open>IP.String\<close> prints of an IPv4 address.\<close>

lemma ParseIP_dotted:
  assumes "length ip = 4"
  shows "ParseIP (dotted ip) = Some (v4prefix @ ip)"
proof -
  obtain a b c d where ip: "ip = [a, b, c, d]" by (rule length_4E [OF assms])
  have "firstMark (dotted ip) = Some CHR ''.''" by (simp add: dotted_def ip)
  then show ?thesis using parseDotted_dotted [OF assms] by (simp add: ParseIP_def)
qed

lemma dotted_inject:
  assumes "length a = 4" "length b = 4" "dotted a = dotted b"
  shows "a = b"
  using parseDotted_dotted [OF assms(1)] parseDotted_dotted [OF assms(2)] assms(3)
  by (metis option.inject)

lemma LastIndexByte_append: "c \<notin> set b \<Longrightarrow> LastIndexByte (a @ c # b) c = Some (length a)"
  using IndexByte_append [of c "rev b" "rev a"] by (simp add: LastIndexByte_def)

lemma SplitHostPort_plain:
  assumes "host \<noteq> []" and "set host \<inter> {CHR '':'', CHR ''['', CHR '']''} = {}"
    and "set port \<inter> {CHR '':'', CHR ''['', CHR '']''} = {}"
  shows "SplitHostPort (host @ '':'' @ port) = Some (host, port)"
proof -
  have "LastIndexByte (host @ CHR '':'' # port) CHR '':'' = Some (length host)"
    using assms(3) by (intro LastIndexByte_append) auto
  moreover have "hd (host @ CHR '':'' # port) \<noteq> CHR ''[''"
    using assms(1,2) by (cases host) auto
  ultimately show ?thesis using assms(2,3) by (auto simp: SplitHostPort_def)
qed

end
