(* ===== verification/Packet.thy ===== *)
theory Packet
  imports Go_Net
begin

text \<open>
  The relay's IPv4 codec (\<^verbatim>\<open>relay/relay/nat_packet.go\<close>): parsing of IPv4 packets with a TCP
  or UDP header, in-place rewriting of the source or destination, the Internet checksums, and
  the builders of the packets the relay synthesises.  A packet is a \<open>bytes\<close>; a Go function that
  mutates its slice is a function that returns the new slice.  Lengths and offsets are \<open>nat\<close>
  (Go's \<^verbatim>\<open>int\<close>, bounded by the slice), wire fields keep their width.
\<close>

section \<open>Constants and the parsed header\<close>

abbreviation (input) ipv4MinHeaderLen :: nat where "ipv4MinHeaderLen \<equiv> 20"
abbreviation (input) ipv4ProtoTCP :: byte where "ipv4ProtoTCP \<equiv> 6"
abbreviation (input) ipv4ProtoUDP :: byte where "ipv4ProtoUDP \<equiv> 17"
abbreviation (input) tcpMinHeaderLen :: nat where "tcpMinHeaderLen \<equiv> 20"
abbreviation (input) udpHeaderLen :: nat where "udpHeaderLen \<equiv> 8"
abbreviation (input) tcpFlagFIN :: byte where "tcpFlagFIN \<equiv> 1"
abbreviation (input) tcpFlagSYN :: byte where "tcpFlagSYN \<equiv> 2"
abbreviation (input) tcpFlagRST :: byte where "tcpFlagRST \<equiv> 4"
abbreviation (input) tcpFlagPSH :: byte where "tcpFlagPSH \<equiv> 8"
abbreviation (input) tcpFlagACK :: byte where "tcpFlagACK \<equiv> 16"

datatype nat_error =
    ErrNATPortExhausted
  | ErrSSRFBlocked
  | ErrUnsupportedProto
  | ErrInvalidPacket
  | ErrShuttingDown
  | ErrDial

record parsedPacket =
  headerLen :: nat
  totalLen :: nat
  proto :: byte
  srcIP :: bytes
  dstIP :: bytes
  srcPort :: u16
  dstPort :: u16
  tcpSeq :: u32
  tcpAck :: u32
  tcpFlags :: byte
  tcpWindow :: u16
  tcpDataOff :: nat
  l4Offset :: nat
  payloadOffset :: nat

definition payload :: "parsedPacket \<Rightarrow> bytes \<Rightarrow> bytes" where
  "payload p pkt =
     (if payloadOffset p \<ge> totalLen p then [] else bslice pkt (payloadOffset p) (totalLen p))"

section \<open>Parsing\<close>

definition parseIPv4 :: "bytes \<Rightarrow> nat_error + parsedPacket" where
  "parseIPv4 pkt =
     (if length pkt < ipv4MinHeaderLen then Inl ErrInvalidPacket
      else let version = drop_bit 4 (pkt ! 0) in
      if version = 6 then Inl ErrUnsupportedProto
      else if version \<noteq> 4 then Inl ErrInvalidPacket
      else let ihl = unat (pkt ! 0 AND 0x0f) * 4 in
      if ihl < ipv4MinHeaderLen \<or> length pkt < ihl then Inl ErrInvalidPacket
      else let tl = unat (get16 pkt 2) in
      if tl < ihl \<or> length pkt < tl then Inl ErrInvalidPacket
      else
        let p = \<lparr>headerLen = ihl, totalLen = tl, proto = pkt ! 9,
                 srcIP = bslice pkt 12 16, dstIP = bslice pkt 16 20,
                 srcPort = 0, dstPort = 0, tcpSeq = 0, tcpAck = 0, tcpFlags = 0,
                 tcpWindow = 0, tcpDataOff = 0, l4Offset = ihl, payloadOffset = 0\<rparr> in
        if proto p = ipv4ProtoTCP then
          (if tl < ihl + tcpMinHeaderLen then Inl ErrInvalidPacket
           else
             let off = unat (drop_bit 4 (pkt ! (ihl + 12))) * 4 in
             if off < tcpMinHeaderLen \<or> tl < ihl + off then Inl ErrInvalidPacket
             else Inr (p\<lparr>srcPort := get16 pkt ihl, dstPort := get16 pkt (ihl + 2),
                         tcpSeq := get32 pkt (ihl + 4), tcpAck := get32 pkt (ihl + 8),
                         tcpDataOff := off, tcpFlags := pkt ! (ihl + 13),
                         tcpWindow := get16 pkt (ihl + 14),
                         payloadOffset := ihl + off\<rparr>))
        else if proto p = ipv4ProtoUDP then
          (if tl < ihl + udpHeaderLen then Inl ErrInvalidPacket
           else Inr (p\<lparr>srcPort := get16 pkt ihl, dstPort := get16 pkt (ihl + 2),
                       payloadOffset := ihl + udpHeaderLen\<rparr>))
        else Inl ErrUnsupportedProto)"

section \<open>Checksums\<close>

fun checksumLoop :: "u32 \<Rightarrow> bytes \<Rightarrow> u32" where
  "checksumLoop acc (a # b # rest) =
     checksumLoop (acc + (push_bit 8 (ucast a) OR ucast b)) rest"
| "checksumLoop acc [a] = acc + push_bit 8 (ucast a)"
| "checksumLoop acc [] = acc"

definition checksumRaw :: "bytes \<Rightarrow> u32" where
  "checksumRaw data = checksumLoop 0 data"

definition foldCarry :: "u32 \<Rightarrow> u32" where
  "foldCarry s = drop_bit 16 s + (s AND 0xffff)"

lemma unat_foldCarry: "unat (foldCarry s) = unat s div 65536 + unat s mod 65536"
proof -
  have a: "unat (drop_bit 16 s) = unat s div 65536"
    unfolding unsigned_drop_bit_eq by (simp add: drop_bit_eq_div)
  have "unat (s AND mask 16) = unat (take_bit 16 s)"
    by (simp only: take_bit_eq_mask)
  also have "\<dots> = unat s mod 65536"
    unfolding unsigned_take_bit_eq by (simp add: take_bit_eq_mod)
  finally have b: "unat (s AND 0xffff) = unat s mod 65536"
    by (simp add: mask_numeral)
  have "unat s div 65536 < 65536"
    by (rule less_mult_imp_div_less) simp
  then have "unat s div 65536 + unat s mod 65536 < 4294967296"
    using mod_less_divisor [of 65536 "unat s"] by linarith
  then show ?thesis
    by (simp add: foldCarry_def unat_word_ariths a b)
qed

function onesComplement :: "u32 \<Rightarrow> u16" where
  "onesComplement s =
     (if s > 0xffff then onesComplement (foldCarry s) else NOT (ucast s))"
  by pat_completeness auto
termination
proof (relation "measure unat")
  fix s :: u32 assume "s > 0xffff"
  then have "unat s > 65535" by (simp add: word_less_nat_alt)
  then have "unat s div 65536 + unat s mod 65536 < unat s"
    using div_mult_mod_eq [of "unat s" 65536] by linarith
  then show "(foldCarry s, s) \<in> measure unat" by (simp add: unat_foldCarry)
qed simp

declare onesComplement.simps [simp del]

definition pseudoHeaderSum :: "bytes \<Rightarrow> bytes \<Rightarrow> byte \<Rightarrow> nat \<Rightarrow> u32" where
  "pseudoHeaderSum src dst pr l4Len =
     (push_bit 8 (ucast (src ! 0)) OR ucast (src ! 1)) +
     (push_bit 8 (ucast (src ! 2)) OR ucast (src ! 3)) +
     (push_bit 8 (ucast (dst ! 0)) OR ucast (dst ! 1)) +
     (push_bit 8 (ucast (dst ! 2)) OR ucast (dst ! 3)) +
     ucast pr + of_nat l4Len"

definition recalcIPv4Checksum :: "bytes \<Rightarrow> bytes" where
  "recalcIPv4Checksum hdr0 =
     (let hdr = hdr0[10 := 0, 11 := 0] in put16 hdr 10 (onesComplement (checksumRaw hdr)))"

definition recalcTCPChecksum :: "bytes \<Rightarrow> parsedPacket \<Rightarrow> bytes" where
  "recalcTCPChecksum pkt p =
     (let tcpLen = totalLen p - headerLen p;
          tcp = (bslice pkt (l4Offset p) (l4Offset p + tcpLen))[16 := 0, 17 := 0];
          s = pseudoHeaderSum (bslice pkt 12 16) (bslice pkt 16 20) ipv4ProtoTCP tcpLen
              + checksumRaw tcp
      in splice pkt (l4Offset p) (put16 tcp 16 (onesComplement s)))"

definition recalcUDPChecksum :: "bytes \<Rightarrow> parsedPacket \<Rightarrow> bytes" where
  "recalcUDPChecksum pkt p =
     (let udpLen = totalLen p - headerLen p;
          udp = (bslice pkt (l4Offset p) (l4Offset p + udpLen))[6 := 0, 7 := 0];
          s = pseudoHeaderSum (bslice pkt 12 16) (bslice pkt 16 20) ipv4ProtoUDP udpLen
              + checksumRaw udp;
          r = onesComplement s;
          r' = (if r = 0 then 0xffff else r)
      in splice pkt (l4Offset p) (put16 udp 6 r'))"

definition recalcL4Checksum :: "bytes \<Rightarrow> parsedPacket \<Rightarrow> bytes" where
  "recalcL4Checksum pkt p =
     (if proto p = ipv4ProtoTCP then recalcTCPChecksum pkt p
      else if proto p = ipv4ProtoUDP then recalcUDPChecksum pkt p
      else pkt)"

section \<open>Rewriting\<close>

definition rewriteSource :: "bytes \<Rightarrow> parsedPacket \<Rightarrow> bytes \<Rightarrow> u16 \<Rightarrow> bytes" where
  "rewriteSource pkt p newIP newPort =
     (let pkt1 = copy_at pkt 12 16 (To4 newIP);
          pkt2 = put16 pkt1 (l4Offset p) newPort;
          pkt3 = splice pkt2 0 (recalcIPv4Checksum (bslice pkt2 0 (headerLen p)))
      in recalcL4Checksum pkt3 p)"

definition rewriteDest :: "bytes \<Rightarrow> parsedPacket \<Rightarrow> bytes \<Rightarrow> u16 \<Rightarrow> bytes" where
  "rewriteDest pkt p newIP newPort =
     (let pkt1 = copy_at pkt 16 20 (To4 newIP);
          pkt2 = put16 pkt1 (l4Offset p + 2) newPort;
          pkt3 = splice pkt2 0 (recalcIPv4Checksum (bslice pkt2 0 (headerLen p)))
      in recalcL4Checksum pkt3 p)"

section \<open>Builders\<close>

definition buildTCPPacket ::
  "bytes \<Rightarrow> bytes \<Rightarrow> u16 \<Rightarrow> u16 \<Rightarrow> bytes \<Rightarrow> byte \<Rightarrow> u32 \<Rightarrow> u32 \<Rightarrow> u16 \<Rightarrow> bytes" where
  "buildTCPPacket src dst sport dport data flags sq ak window =
     (let ipHL = 20; tcpHL = 20;
          tl = ipHL + tcpHL + length data;
          pkt = (replicate tl 0)[0 := 0x45];
          pkt = put16 pkt 2 (of_nat tl);
          pkt = pkt[8 := 64, 9 := ipv4ProtoTCP];
          pkt = copy_at pkt 12 16 (To4 src);
          pkt = copy_at pkt 16 20 (To4 dst);
          tcp = bslice pkt ipHL tl;
          tcp = put16 tcp 0 sport;
          tcp = put16 tcp 2 dport;
          tcp = put32 tcp 4 sq;
          tcp = put32 tcp 8 ak;
          tcp = tcp[12 := push_bit 4 (of_nat (tcpHL div 4)), 13 := flags];
          tcp = put16 tcp 14 window;
          tcp = (if length data > 0 then copy_at tcp tcpHL (length tcp) data else tcp);
          pkt = splice pkt ipHL tcp;
          pkt = splice pkt 0 (recalcIPv4Checksum (bslice pkt 0 ipHL));
          p = \<lparr>headerLen = ipHL, totalLen = tl, proto = ipv4ProtoTCP, srcIP = [], dstIP = [],
               srcPort = 0, dstPort = 0, tcpSeq = 0, tcpAck = 0, tcpFlags = 0, tcpWindow = 0,
               tcpDataOff = 0, l4Offset = ipHL, payloadOffset = 0\<rparr>
      in recalcTCPChecksum pkt p)"

definition buildUDPPacket :: "bytes \<Rightarrow> bytes \<Rightarrow> u16 \<Rightarrow> u16 \<Rightarrow> bytes \<Rightarrow> bytes" where
  "buildUDPPacket src dst sport dport data =
     (let ipHL = 20;
          udpLen = udpHeaderLen + length data;
          tl = ipHL + udpLen;
          pkt = (replicate tl 0)[0 := 0x45];
          pkt = put16 pkt 2 (of_nat tl);
          pkt = pkt[8 := 64, 9 := ipv4ProtoUDP];
          pkt = copy_at pkt 12 16 (To4 src);
          pkt = copy_at pkt 16 20 (To4 dst);
          udp = bslice pkt ipHL tl;
          udp = put16 udp 0 sport;
          udp = put16 udp 2 dport;
          udp = put16 udp 4 (of_nat udpLen);
          udp = (if length data > 0 then copy_at udp udpHeaderLen (length udp) data else udp);
          pkt = splice pkt ipHL udp;
          pkt = splice pkt 0 (recalcIPv4Checksum (bslice pkt 0 ipHL));
          p = \<lparr>headerLen = ipHL, totalLen = tl, proto = ipv4ProtoUDP, srcIP = [], dstIP = [],
               srcPort = 0, dstPort = 0, tcpSeq = 0, tcpAck = 0, tcpFlags = 0, tcpWindow = 0,
               tcpDataOff = 0, l4Offset = ipHL, payloadOffset = 0\<rparr>
      in recalcUDPChecksum pkt p)"

end
