(* ===== verification/PortPool.thy ===== *)
theory PortPool
  imports Packet "HOL-Library.Multiset"
begin

text \<open>
  The NAT's port pool (\<^verbatim>\<open>relay/relay/nat_portpool.go\<close>): a stack of free ports and the set of
  allocated ones.  The mutex makes each operation atomic, so an operation is a function on the
  pool.  \<^verbatim>\<open>rand.Shuffle\<close> is the parameter \<open>shuffle\<close> of the constructor.  The locale
  \<open>port_allocator\<close> states what the NAT relies on.
\<close>

section \<open>The pool\<close>

record portPool =
  free :: "u16 list"
  allocated :: "u16 set"

definition newPortPool :: "(u16 list \<Rightarrow> u16 list) \<Rightarrow> u16 \<Rightarrow> u16 \<Rightarrow> portPool" where
  "newPortPool shuffle lo hi =
     (let n = unat hi + 1 - unat lo;
          ports = map (\<lambda>i. lo + of_nat i) [0..<n]
      in \<lparr>free = shuffle ports, allocated = {}\<rparr>)"

definition allocate :: "portPool \<Rightarrow> nat_error + u16 \<times> portPool" where
  "allocate p =
     (if free p = [] then Inl ErrNATPortExhausted
      else let port = last (free p) in
           Inr (port, p\<lparr>free := butlast (free p), allocated := insert port (allocated p)\<rparr>))"

definition release :: "portPool \<Rightarrow> u16 \<Rightarrow> portPool" where
  "release p port =
     (if port \<notin> allocated p then p
      else p\<lparr>allocated := allocated p - {port}, free := free p @ [port]\<rparr>)"

definition available :: "portPool \<Rightarrow> nat" where
  "available p = length (free p)"

section \<open>The contract\<close>

text \<open>
  An allocator hands out leases: a lease is in use until it is released, a port in use is never
  handed out, and the ports in use and the available ones are always the same range.
\<close>

locale port_allocator =
  fixes alloc :: "'p \<Rightarrow> nat_error + u16 \<times> 'p"
    and rel :: "'p \<Rightarrow> u16 \<Rightarrow> 'p"
    and inUse :: "'p \<Rightarrow> u16 set"
    and avail :: "'p \<Rightarrow> u16 set"
    and pool_ok :: "'p \<Rightarrow> bool"
  assumes alloc_Inr: "pool_ok p \<Longrightarrow> alloc p = Inr (port, p') \<Longrightarrow>
      pool_ok p' \<and> port \<in> avail p \<and> inUse p' = insert port (inUse p) \<and> avail p' = avail p - {port}"
    and alloc_Inl: "alloc p = Inl e \<Longrightarrow> avail p = {} \<and> e = ErrNATPortExhausted"
    and rel_ok: "pool_ok p \<Longrightarrow> pool_ok (rel p port) \<and> inUse (rel p port) = inUse p - {port} \<and>
      avail (rel p port) = avail p \<union> (inUse p \<inter> {port})"
    and disjoint: "pool_ok p \<Longrightarrow> inUse p \<inter> avail p = {}"
begin

lemma alloc_fresh: "pool_ok p \<Longrightarrow> alloc p = Inr (port, p') \<Longrightarrow> port \<notin> inUse p"
  using alloc_Inr disjoint by blast

lemma range_alloc: "pool_ok p \<Longrightarrow> alloc p = Inr (port, p') \<Longrightarrow> inUse p' \<union> avail p' = inUse p \<union> avail p"
  using alloc_Inr [of p port p'] by auto

lemma range_rel: "pool_ok p \<Longrightarrow> inUse (rel p port) \<union> avail (rel p port) = inUse p \<union> avail p"
  using rel_ok [of p port] by auto

lemma rel_alloc:
  assumes "pool_ok p" "alloc p = Inr (port, p')"
  shows "inUse (rel p' port) = inUse p" "avail (rel p' port) = avail p"
  using assms alloc_Inr [OF assms] alloc_fresh [OF assms] rel_ok [of p' port] by auto

lemma alloc_rel:
  assumes "pool_ok p" "alloc p = Inr (port, p')"
  shows "pool_ok (rel p' port)"
  using assms alloc_Inr [OF assms] rel_ok by blast

text \<open>Leases held by a table: the ports of its entries are distinct and are the ports in use.\<close>

definition leases :: "('k \<times> 'e) list \<Rightarrow> ('e \<Rightarrow> u16) \<Rightarrow> 'p \<Rightarrow> bool" where
  "leases tab portOf p \<longleftrightarrow>
     pool_ok p \<and> distinct (map (portOf \<circ> snd) tab) \<and> set (map (portOf \<circ> snd) tab) = inUse p"

lemma leases_insert:
  assumes "leases tab portOf p" "alloc p = Inr (portOf e, p')"
  shows "leases (tab @ [(k, e)]) portOf p'"
proof -
  have ok: "pool_ok p" using assms(1) by (simp add: leases_def)
  have "pool_ok p'" "inUse p' = insert (portOf e) (inUse p)" "portOf e \<notin> inUse p"
    using alloc_Inr [OF ok assms(2)] alloc_fresh [OF ok assms(2)] by simp_all
  with assms(1) show ?thesis by (simp add: leases_def)
qed

lemma leases_cong:
  assumes "\<And>k e. (k, e) \<in> set tab \<Longrightarrow> portOf e = portOf' e"
  shows "leases tab portOf p = leases tab portOf' p"
proof -
  have "map (portOf \<circ> snd) tab = map (portOf' \<circ> snd) tab"
    using assms by (auto intro!: map_cong)
  then show ?thesis by (simp only: leases_def)
qed

lemma leases_undo:
  assumes "leases tab portOf p" "alloc p = Inr (port, p')"
  shows "leases tab portOf (rel p' port)"
  using assms rel_alloc [of p port p'] alloc_rel [of p port p'] by (simp add: leases_def)

lemma leases_remove:
  assumes "leases tab portOf p" "(k, e) \<in> set tab" "distinct (map fst tab)"
  shows "leases (filter (\<lambda>x. fst x \<noteq> k) tab) portOf (rel p (portOf e))"
proof -
  have d: "distinct (map (portOf \<circ> snd) tab)" "set (map (portOf \<circ> snd) tab) = inUse p" "pool_ok p"
    using assms(1) by (auto simp: leases_def)
  have inj: "inj_on (portOf \<circ> snd) (set tab)" using d(1) by (simp add: distinct_map)
  have key: "x = (k, e)" if "x \<in> set tab" "fst x = k" for x
    using distinct_key_unique [OF assms(3,2) that] .
  have "set (map (portOf \<circ> snd) (filter (\<lambda>x. fst x \<noteq> k) tab)) = inUse p - {portOf e}"
  proof -
    have "{x \<in> set tab. fst x \<noteq> k} = set tab - {(k, e)}" using assms(2) by (auto dest: key)
    moreover have "(portOf \<circ> snd) ` (set tab - {(k, e)}) = (portOf \<circ> snd) ` set tab - (portOf \<circ> snd) ` {(k, e)}"
      using assms(2) by (intro inj_on_image_set_diff [OF inj]) auto
    ultimately show ?thesis unfolding d(2) [symmetric] by simp
  qed
  moreover have "distinct (map (portOf \<circ> snd) (filter (\<lambda>x. fst x \<noteq> k) tab))"
    using d(1) by (rule distinct_map_filter)
  ultimately show ?thesis using rel_ok [OF d(3)] by (simp add: leases_def)
qed

end

section \<open>The pool satisfies the contract\<close>

definition poolOk :: "portPool \<Rightarrow> bool" where
  "poolOk p \<longleftrightarrow> distinct (free p) \<and> set (free p) \<inter> allocated p = {}"

lemma distinct_last: "distinct xs \<Longrightarrow> xs \<noteq> [] \<Longrightarrow> set (butlast xs) = set xs - {last xs}"
  by (induction xs rule: rev_induct) auto

lemma allocate_Inr:
  assumes "poolOk p" and "allocate p = Inr (port, p')"
  shows "poolOk p' \<and> port \<in> set (free p) \<and> allocated p' = insert port (allocated p) \<and>
    set (free p') = set (free p) - {port}"
  using assms distinct_last [of "free p"]
  by (auto simp: allocate_def poolOk_def Let_def distinct_butlast split: if_splits)

interpretation pp: port_allocator allocate release allocated "\<lambda>p. set (free p)" poolOk
proof unfold_locales
  show "poolOk p \<Longrightarrow> allocate p = Inr (port, p') \<Longrightarrow>
    poolOk p' \<and> port \<in> set (free p) \<and> allocated p' = insert port (allocated p) \<and>
    set (free p') = set (free p) - {port}" for p port p'
    by (rule allocate_Inr)
  show "allocate p = Inl e \<Longrightarrow> set (free p) = {} \<and> e = ErrNATPortExhausted" for p e
    by (auto simp: allocate_def Let_def split: if_splits)
  show "poolOk p \<Longrightarrow> poolOk (release p port) \<and> allocated (release p port) = allocated p - {port} \<and>
    set (free (release p port)) = set (free p) \<union> allocated p \<inter> {port}" for p port
    by (auto simp: release_def poolOk_def)
  show "poolOk p \<Longrightarrow> allocated p \<inter> set (free p) = {}" for p
    by (auto simp: poolOk_def)
qed

lemma newPortPool_ports:
  fixes lo hi :: u16
  assumes "lo \<le> hi"
  shows "set (map (\<lambda>i. lo + of_nat i) [0..<unat hi + 1 - unat lo]) = {lo..hi}"
    and "distinct (map (\<lambda>i. lo + of_nat i) [0..<unat hi + 1 - unat lo])"
proof -
  let ?n = "unat hi + 1 - unat lo"
  have le: "unat lo \<le> unat hi" using assms by (simp add: word_le_nat_alt)
  have val: "unat (lo + of_nat i) = unat lo + i" if "i < ?n" for i
  proof -
    have "unat lo + i < 65536" using that unat_u16_lt [of hi] le by linarith
    then show ?thesis by (simp add: unat_word_ariths unat_of_nat)
  qed
  show "distinct (map (\<lambda>i. lo + of_nat i) [0..<?n])"
    by (auto simp: distinct_map intro!: inj_onI dest!: arg_cong [where f = unat] simp: val)
  show "set (map (\<lambda>i. lo + of_nat i) [0..<?n]) = {lo..hi}"
  proof (intro set_eqI iffI)
    fix x assume "x \<in> set (map (\<lambda>i. lo + of_nat i) [0..<?n])"
    then obtain i where "i < ?n" "x = lo + of_nat i" by auto
    then show "x \<in> {lo..hi}" using val [of i] le by (auto simp: word_le_nat_alt)
  next
    fix x assume "x \<in> {lo..hi}"
    then have b: "unat lo \<le> unat x" "unat x \<le> unat hi" by (auto simp: word_le_nat_alt)
    then have "unat x - unat lo < ?n" by linarith
    moreover from this have "x = lo + of_nat (unat x - unat lo)"
      using val [of "unat x - unat lo"] b by (intro unsigned_word_eqI) simp
    ultimately show "x \<in> set (map (\<lambda>i. lo + of_nat i) [0..<?n])" by auto
  qed
qed

lemma newPortPool_ok:
  assumes "\<And>xs. mset (shuffle xs) = mset xs" and "lo \<le> hi"
  shows "poolOk (newPortPool shuffle lo hi)" "allocated (newPortPool shuffle lo hi) = {}"
    "set (free (newPortPool shuffle lo hi)) = {lo..hi}"
proof -
  have "distinct (shuffle xs) = distinct xs" "set (shuffle xs) = set xs" for xs
    using assms(1) [of xs] mset_eq_imp_distinct_iff mset_eq_setD by blast+
  then show "poolOk (newPortPool shuffle lo hi)" "allocated (newPortPool shuffle lo hi) = {}"
    "set (free (newPortPool shuffle lo hi)) = {lo..hi}"
    using newPortPool_ports [OF assms(2)]
    by (simp_all add: newPortPool_def Let_def poolOk_def del: set_map)
qed

end
