(* ===== verification/SSRF.thy ===== *)
theory SSRF
  imports Go_Net
begin

text \<open>
  The relay's SSRF filter (\<^verbatim>\<open>isBlockedIP\<close> and \<^verbatim>\<open>resolveAndValidateConnect\<close> of
  \<^verbatim>\<open>relay/relay/connect_handler.go\<close>): which destinations the NAT and the CONNECT proxy refuse.
  DNS lookup and service-name lookup are the parameters \<open>lookupIP\<close> and \<open>lookupPort\<close>.
\<close>

definition isBlockedIP :: "bytes \<Rightarrow> bool" where
  "isBlockedIP ip0 =
     (let ip = (if To4 ip0 \<noteq> [] then To4 ip0 else ip0) in
      IsLoopback ip \<or> IsPrivate ip \<or> IsLinkLocalUnicast ip \<or> IsLinkLocalMulticast ip \<or>
      IsMulticast ip \<or> IsUnspecified ip \<or> ipEqual ip (IPv4 255 255 255 255))"

datatype connect_error =
    ErrInvalidTarget
  | ErrEmptyHostPort
  | ErrResolve
  | ErrBlockedDestination
  | ErrInvalidPort

definition resolveAndValidateConnect ::
  "(string \<Rightarrow> bytes list option) \<Rightarrow> (string \<Rightarrow> nat option) \<Rightarrow> string \<Rightarrow> connect_error + bytes \<times> nat" where
  "resolveAndValidateConnect lookupIP lookupPort target =
     (case SplitHostPort target of
        None \<Rightarrow> Inl ErrInvalidTarget
      | Some (host, port) \<Rightarrow>
          if host = [] \<or> port = [] then Inl ErrEmptyHostPort
          else
            let ip = (case ParseIP host of
                        Some p \<Rightarrow> Some p
                      | None \<Rightarrow> (case lookupIP host of
                                   None \<Rightarrow> None
                                 | Some ips \<Rightarrow> if ips = [] then None else Some (hd ips))) in
            case ip of
              None \<Rightarrow> Inl ErrResolve
            | Some a \<Rightarrow>
                if isBlockedIP a then Inl ErrBlockedDestination
                else case lookupPort port of
                  None \<Rightarrow> Inl ErrInvalidPort
                | Some n \<Rightarrow> Inr (a, n))"

section \<open>Masks on address bytes\<close>

lemma and_mask_byte:
  "b AND 0xf0 = 16 \<longleftrightarrow> 16 \<le> unat b \<and> unat b \<le> 31"
  "b AND 0xf0 = 0xe0 \<longleftrightarrow> 224 \<le> unat b \<and> unat b \<le> 239"
  for b :: byte
proof -
  have shape: "b AND 0xf0 = push_bit 4 (drop_bit 4 b)"
  proof -
    have "b AND NOT (mask 4) = push_bit 4 (drop_bit 4 b)"
      by (rule bit_word_eqI)
        (auto simp: bit_and_iff bit_push_bit_iff bit_drop_bit_eq bit_not_iff bit_mask_iff)
    moreover have "NOT (mask 4) = (0xf0 :: byte)" by (simp add: mask_numeral)
    ultimately show ?thesis by simp
  qed
  have "unat (b AND 0xf0) = unat b div 16 * 16"
  proof -
    have "unat (drop_bit 4 b) = unat b div 16"
      unfolding unsigned_drop_bit_eq by (simp add: drop_bit_eq_div take_bit_nat_eq_self_iff [THEN iffD2])
    moreover have "unat b div 16 * 16 < 256" using unat_byte_lt [of b] by linarith
    ultimately show ?thesis
      unfolding shape by (simp add: push_bit_eq_mult unat_word_ariths)
  qed
  then have n: "b AND 0xf0 = w \<longleftrightarrow> unat b div 16 * 16 = unat w" for w
    by (metis unsigned_word_eqI)
  show "b AND 0xf0 = 16 \<longleftrightarrow> 16 \<le> unat b \<and> unat b \<le> 31"
    "b AND 0xf0 = 0xe0 \<longleftrightarrow> 224 \<le> unat b \<and> unat b \<le> 239"
    unfolding n by simp_all linarith+
qed

section \<open>What is blocked\<close>

definition v4Forbidden :: "nat \<Rightarrow> nat \<Rightarrow> nat \<Rightarrow> nat \<Rightarrow> bool" where
  \<comment> \<open>the IPv4 blocks that an exit relay must not reach, as numeric ranges\<close>
  "v4Forbidden a b c d \<longleftrightarrow>
     a = 127 \<or> a = 10 \<or> (a = 172 \<and> 16 \<le> b \<and> b \<le> 31) \<or> (a = 192 \<and> b = 168) \<or>
     (a = 169 \<and> b = 254) \<or> (224 \<le> a \<and> a \<le> 239) \<or> (a = 0 \<and> b = 0 \<and> c = 0 \<and> d = 0) \<or>
     (a = 255 \<and> b = 255 \<and> c = 255 \<and> d = 255)"

lemma unat_eq_numeral:
  "b = 0 \<longleftrightarrow> unat b = 0" "b = 10 \<longleftrightarrow> unat b = 10" "b = 127 \<longleftrightarrow> unat b = 127" "b = 172 \<longleftrightarrow> unat b = 172"
  "b = 192 \<longleftrightarrow> unat b = 192" "b = 168 \<longleftrightarrow> unat b = 168" "b = 169 \<longleftrightarrow> unat b = 169"
  "b = 254 \<longleftrightarrow> unat b = 254" "b = 224 \<longleftrightarrow> unat b = 224" "b = 255 \<longleftrightarrow> unat b = 255" for b :: byte
  by (simp_all add: word_unat_eq_iff)

lemma isBlockedIP_4:
  assumes "To4 ip = [a, b, c, d]"
  shows "isBlockedIP ip \<longleftrightarrow> v4Forbidden (unat a) (unat b) (unat c) (unat d)"
proof -
  have "replicate 12 (0 :: byte) = replicate 10 0 @ [0, 0]"
    using replicate_add [of 10 2 "0 :: byte"] by (simp add: numeral_2_eq_2)
  then have z: "replicate 12 (0 :: byte) \<noteq> replicate 10 0 @ [255, 255]" by simp
  have "IsLoopback [a, b, c, d] \<longleftrightarrow> a = 127" "IsMulticast [a, b, c, d] \<longleftrightarrow> a AND 0xf0 = 0xe0"
    "IsPrivate [a, b, c, d] \<longleftrightarrow> a = 10 \<or> (a = 172 \<and> b AND 0xf0 = 16) \<or> (a = 192 \<and> b = 168)"
    "IsLinkLocalUnicast [a, b, c, d] \<longleftrightarrow> a = 169 \<and> b = 254"
    "IsLinkLocalMulticast [a, b, c, d] \<longleftrightarrow> a = 224 \<and> b = 0 \<and> c = 0"
    by (simp_all add: IsLoopback_def IsMulticast_def IsPrivate_def IsLinkLocalUnicast_def
        IsLinkLocalMulticast_def)
  moreover have "ipEqual [a, b, c, d] (IPv4 255 255 255 255) \<longleftrightarrow> a = 255 \<and> b = 255 \<and> c = 255 \<and> d = 255"
    by (simp add: ipEqual_def IPv4_def v4prefix_def)
  moreover have "IsUnspecified [a, b, c, d] \<longleftrightarrow> a = 0 \<and> b = 0 \<and> c = 0 \<and> d = 0"
    using z by (simp add: IsUnspecified_def ipEqual_def IPv4_def v4prefix_def IPv6unspecified_def)
  ultimately have "isBlockedIP ip \<longleftrightarrow> a = 127 \<or> (a = 10 \<or> (a = 172 \<and> b AND 0xf0 = 16) \<or> (a = 192 \<and> b = 168)) \<or>
     (a = 169 \<and> b = 254) \<or> (a = 224 \<and> b = 0 \<and> c = 0) \<or> a AND 0xf0 = 0xe0 \<or>
     (a = 0 \<and> b = 0 \<and> c = 0 \<and> d = 0) \<or> (a = 255 \<and> b = 255 \<and> c = 255 \<and> d = 255)"
    using assms by (simp add: isBlockedIP_def)
  also have "\<dots> \<longleftrightarrow> v4Forbidden (unat a) (unat b) (unat c) (unat d)"
  proof -
    have "unat a = 224 \<Longrightarrow> 224 \<le> unat a \<and> unat a \<le> 239" by simp
    then show ?thesis unfolding and_mask_byte unfolding unat_eq_numeral v4Forbidden_def by blast
  qed
  finally show ?thesis .
qed


section \<open>Properties\<close>

text \<open>
  the SSRF filter blocks exactly the loopback, private, link-local, multicast, unspecified
  and broadcast IPv4 addresses, whether the address comes as 4 bytes or as an IPv6-mapped
  16-byte form.
\<close>

theorem isBlockedIP_ranges:
  assumes "length (To4 ip) = 4"
  shows "isBlockedIP ip \<longleftrightarrow>
    v4Forbidden (unat (To4 ip ! 0)) (unat (To4 ip ! 1)) (unat (To4 ip ! 2)) (unat (To4 ip ! 3))"
proof -
  obtain a b c d where "To4 ip = [a, b, c, d]" by (rule length_4E [OF assms])
  then show ?thesis using isBlockedIP_4 by simp
qed

theorem isBlockedIP_ranges_witness:
  "isBlockedIP (v4prefix @ [127, 0, 0, 1]) \<and> \<not> isBlockedIP [8, 8, 8, 8]"
  using isBlockedIP_ranges [of "v4prefix @ [127, 0, 0, 1]"] isBlockedIP_ranges [of "[8, 8, 8, 8]"]
  by (simp add: v4Forbidden_def)

text \<open>
  Whatever the resolver answers, the CONNECT proxy dials only an address that passed the
  filter, and that address is the literal of the target or the first answer for its host: the
  checked address is the dialled one.
\<close>

theorem connect_dials_checked_address:
  assumes "resolveAndValidateConnect lookupIP lookupPort target = Inr (ip, port)"
  shows "\<not> isBlockedIP ip \<and>
    (\<exists>host p. SplitHostPort target = Some (host, p) \<and> host \<noteq> [] \<and> p \<noteq> [] \<and> lookupPort p = Some port \<and>
       (ParseIP host = Some ip \<or> ParseIP host = None \<and> (\<exists>ips. lookupIP host = Some (ip # ips))))"
  using assms
  by (auto simp: resolveAndValidateConnect_def Let_def neq_Nil_conv
      split: option.splits prod.splits if_splits)

theorem connect_dials_checked_address_witness:
  "\<not> isBlockedIP (v4prefix @ [8, 8, 8, 8])"
proof -
  have "resolveAndValidateConnect (\<lambda>_. None) (\<lambda>_. Some 443) ''8.8.8.8:443'' =
      Inr (v4prefix @ [8, 8, 8, 8], 443)"
    by code_simp
  from connect_dials_checked_address [OF this] show ?thesis by simp
qed

end
