(* ===== verification/NatTable.thy ===== *)
theory NatTable
  imports PortPool SSRF
begin

text \<open>
  The relay's NAT (\<^verbatim>\<open>relay/relay/nat_table.go\<close>).  The state \<open>nat\<close> holds the two lookup maps, the
  heap of entries they point to, the port pool, the counters, the sessions with the packets
  queued for each client and the bytes written to upstream sockets.  Every method is a function
  on the state; what the outside world answers during one call (clock, dial, random ISN, socket
  write) is the record \<open>natEnv\<close>.  Entry identifiers play the role of Go's pointers, and an
  entry's socket has the identifier of the entry.

  A reverse channel is an unbounded queue here: in the code a full channel blocks the sender
  until the client drains it (back-pressure), it does not drop.
\<close>

section \<open>State\<close>

type_synonym sessionID = string

record natEntry =
  session :: sessionID
  eSrcIP :: bytes
  eDstIP :: bytes
  eSrcPort :: u16
  eDstPort :: u16
  natPort :: u16
  eProto :: byte
  lastSeen :: int
  conn :: "nat option"
  tcpState :: nat
  clientISN :: u32
  relayISN :: u32
  clientSeqNext :: u32
  relaySeqNext :: u32

abbreviation (input) tcpStateEstablished :: nat where "tcpStateEstablished \<equiv> 2"
abbreviation (input) tcpStateFINWait :: nat where "tcpStateFINWait \<equiv> 3"
abbreviation (input) tcpStateClosed :: nat where "tcpStateClosed \<equiv> 4"
abbreviation (input) natTCPWindow :: u16 where "natTCPWindow \<equiv> 65535"
abbreviation (input) natMaxTCPPayload :: nat where "natMaxTCPPayload \<equiv> 1380"
abbreviation (input) natMaxUDPPayload :: nat where "natMaxUDPPayload \<equiv> 1392"
abbreviation (input) dnsPort :: u16 where "dnsPort \<equiv> 53"

record nat_state =
  relayIP :: bytes
  pool :: portPool
  heap :: "nat \<Rightarrow> natEntry"
  nextEntry :: nat
  byTuple :: "(string \<times> nat) list"
  byNATPort :: "u16 \<Rightarrow> nat option"
  entriesCount :: int
  portsUsed :: int
  stopped :: bool
  sessions :: "sessionID \<Rightarrow> nat option"
  chans :: "nat \<Rightarrow> bytes list"
  doneClosed :: "nat set"
  nextChan :: nat
  written :: "(nat \<times> bytes) list"
  openConns :: "nat set"

record natEnv =
  sweepClock :: int
  clock :: int
  dialOK :: bool
  isn :: "u32 option"
  writeOK :: bool

definition emptyEntry :: natEntry where
  "emptyEntry = \<lparr>session = [], eSrcIP = [], eDstIP = [], eSrcPort = 0, eDstPort = 0, natPort = 0,
     eProto = 0, lastSeen = 0, conn = None, tcpState = 0, clientISN = 0, relayISN = 0,
     clientSeqNext = 0, relaySeqNext = 0\<rparr>"

definition NewNAT :: "(u16 list \<Rightarrow> u16 list) \<Rightarrow> bytes \<Rightarrow> nat_state" where
  "NewNAT shuffle ip =
     \<lparr>relayIP = To4 ip, pool = newPortPool shuffle 10000 60000, heap = (\<lambda>_. emptyEntry), nextEntry = 0,
      byTuple = [], byNATPort = (\<lambda>_. None), entriesCount = 0, portsUsed = 0, stopped = False,
      sessions = (\<lambda>_. None), chans = (\<lambda>_. []), doneClosed = {}, nextChan = 0, written = [],
      openConns = {}\<rparr>"

definition ttl :: "natEntry \<Rightarrow> int" where
  \<comment> \<open>nanoseconds\<close>
  "ttl e = (if eProto e = ipv4ProtoTCP then 300 else 120) * 1000000000"

section \<open>Keys\<close>

definition tupleKey :: "sessionID \<Rightarrow> bytes \<Rightarrow> u16 \<Rightarrow> bytes \<Rightarrow> u16 \<Rightarrow> byte \<Rightarrow> string" where
  "tupleKey sid src sport dst dport pr =
     (let s = To4 src; d = To4 dst in
      sid @ ''/'' @ hex02 (s ! 0) @ hex02 (s ! 1) @ hex02 (s ! 2) @ hex02 (s ! 3) @ '':'' @
      showNat (unat sport) @ ''>'' @
      hex02 (d ! 0) @ hex02 (d ! 1) @ hex02 (d ! 2) @ hex02 (d ! 3) @ '':'' @ showNat (unat dport) @
      ''/'' @ showNat (unat pr))"

record tunnelSession =
  tsID :: string
  tsIPHash :: string
  tsOpenedAt :: int

definition sessionKey :: "tunnelSession \<Rightarrow> sessionID" where
  "sessionKey s = (if tsID s \<noteq> [] then tsID s else tsIPHash s @ ''@'' @ showInt (tsOpenedAt s))"

section \<open>Helpers on the state\<close>

definition modEntry :: "nat_state \<Rightarrow> nat \<Rightarrow> (natEntry \<Rightarrow> natEntry) \<Rightarrow> nat_state" where
  "modEntry n i f = n\<lparr>heap := (heap n)(i := f (heap n i))\<rparr>"

definition sendToSession :: "nat_state \<Rightarrow> sessionID \<Rightarrow> bytes \<Rightarrow> nat_state" where
  "sendToSession n sid pkt =
     (case sessions n sid of
        None \<Rightarrow> n
      | Some c \<Rightarrow> n\<lparr>chans := (chans n)(c := chans n c @ [pkt])\<rparr>)"

definition closeConn :: "nat_state \<Rightarrow> nat \<Rightarrow> nat_state" where
  "closeConn n i = (case conn (heap n i) of None \<Rightarrow> n | Some c \<Rightarrow> n\<lparr>openConns := openConns n - {c}\<rparr>)"

section \<open>Eviction\<close>

definition evictEntry :: "nat_state \<Rightarrow> string \<Rightarrow> nat \<Rightarrow> nat_state" where
  "evictEntry n key i =
     (let e = heap n i;
          n1 = n\<lparr>byTuple := filter (\<lambda>x. fst x \<noteq> key) (byTuple n)\<rparr>;
          n2 = n1\<lparr>byNATPort := (byNATPort n1)(natPort e := None)\<rparr>;
          n3 = closeConn n2 i;
          n4 = n3\<lparr>pool := release (pool n3) (natPort e)\<rparr>
      in n4\<lparr>entriesCount := entriesCount n4 - 1, portsUsed := portsUsed n4 - 1\<rparr>)"

definition evictIf :: "(natEntry \<Rightarrow> bool) \<Rightarrow> (string \<times> nat) list \<Rightarrow> nat_state \<Rightarrow> nat_state" where
  \<comment> \<open>\<^verbatim>\<open>entriesByTuple.Range\<close> with a callback that evicts the entries satisfying a test\<close>
  "evictIf P kvs n = foldl (\<lambda>n (k, i). if P (heap n i) then evictEntry n k i else n) n kvs"

definition closeSessionEntries :: "nat_state \<Rightarrow> sessionID \<Rightarrow> nat_state" where
  "closeSessionEntries n sid = evictIf (\<lambda>e. session e = sid) (byTuple n) n"

definition sweepOnce :: "nat_state \<Rightarrow> int \<Rightarrow> nat_state" where
  "sweepOnce n now = evictIf (\<lambda>e. now - lastSeen e > ttl e) (byTuple n) n"

definition Shutdown :: "nat_state \<Rightarrow> nat_state" where
  "Shutdown n0 =
     (let n = n0\<lparr>stopped := True\<rparr> in
      foldl (\<lambda>n (k, i).
         let e = heap n i;
             n1 = closeConn n i;
             n2 = n1\<lparr>byTuple := filter (\<lambda>x. fst x \<noteq> k) (byTuple n1)\<rparr>;
             n3 = n2\<lparr>byNATPort := (byNATPort n2)(natPort e := None)\<rparr>;
             n4 = n3\<lparr>pool := release (pool n3) (natPort e)\<rparr>
         in n4\<lparr>entriesCount := entriesCount n4 - 1, portsUsed := portsUsed n4 - 1\<rparr>) n (byTuple n))"

section \<open>Sessions\<close>

definition OpenSession :: "nat_state \<Rightarrow> tunnelSession \<Rightarrow> nat_state \<times> nat" where
  \<comment> \<open>returns the identifier of the fresh channel\<close>
  "OpenSession n s =
     (let c = nextChan n in
      (n\<lparr>sessions := (sessions n)(sessionKey s := Some c), chans := (chans n)(c := []),
         nextChan := Suc c\<rparr>, c))"

definition cleanupSession :: "nat_state \<Rightarrow> sessionID \<Rightarrow> nat \<Rightarrow> nat_state" where
  \<comment> \<open>the cleanup closure of channel \<open>c\<close>; \<^verbatim>\<open>sync.Once\<close> runs it at most once\<close>
  "cleanupSession n sid c =
     (if c \<in> doneClosed n then n
      else
        let n1 = n\<lparr>sessions := (sessions n)(sid := None)\<rparr>;
            n2 = n1\<lparr>doneClosed := insert c (doneClosed n1)\<rparr>
        in closeSessionEntries n2 sid)"

section \<open>Connections\<close>

definition openTCP :: "natEnv \<Rightarrow> nat_state \<Rightarrow> nat \<Rightarrow> parsedPacket \<Rightarrow> bool \<times> nat_state" where
  "openTCP env n i p =
     (let e = heap n i in
      if \<not> dialOK env then
        (False,
         if tcpFlags p AND tcpFlagSYN \<noteq> 0
         then sendToSession n (session e)
                (buildTCPPacket (eDstIP e) (eSrcIP e) (eDstPort e) (eSrcPort e) []
                   (tcpFlagRST OR tcpFlagACK) 0 (tcpSeq p + 1) 0)
         else n)
      else
        let r = (case isn env of Some w \<Rightarrow> w | None \<Rightarrow> relayISN e);
            n1 = modEntry (n\<lparr>openConns := insert i (openConns n)\<rparr>) i
                   (\<lambda>e. e\<lparr>conn := Some i, clientISN := tcpSeq p, relayISN := r,
                          clientSeqNext := tcpSeq p + 1, relaySeqNext := r + 1,
                          tcpState := tcpStateEstablished\<rparr>);
            synack = buildTCPPacket (eDstIP e) (eSrcIP e) (eDstPort e) (eSrcPort e) []
                       (tcpFlagSYN OR tcpFlagACK) r (tcpSeq p + 1) natTCPWindow
        in (True, sendToSession n1 (session e) synack))"

definition openUDP :: "natEnv \<Rightarrow> nat_state \<Rightarrow> nat \<Rightarrow> bool \<times> nat_state" where
  "openUDP env n i =
     (if \<not> dialOK env then (False, n)
      else (True, modEntry (n\<lparr>openConns := insert i (openConns n)\<rparr>) i (\<lambda>e. e\<lparr>conn := Some i\<rparr>)))"

definition openConnection :: "natEnv \<Rightarrow> nat_state \<Rightarrow> nat \<Rightarrow> parsedPacket \<Rightarrow> bool \<times> nat_state" where
  "openConnection env n i p =
     (if eProto (heap n i) = ipv4ProtoTCP then openTCP env n i p
      else if eProto (heap n i) = ipv4ProtoUDP then openUDP env n i
      else (False, n))"

section \<open>Forward path\<close>

definition connWrite :: "natEnv \<Rightarrow> nat_state \<Rightarrow> nat \<Rightarrow> bytes \<Rightarrow> bool \<times> nat_state" where
  \<comment> \<open>\<^verbatim>\<open>conn.Write\<close>: a closed socket rejects the write\<close>
  "connWrite env n c data =
     (if writeOK env \<and> c \<in> openConns n then (True, n\<lparr>written := written n @ [(c, data)]\<rparr>)
      else (False, n))"

definition forwardTCPData :: "natEnv \<Rightarrow> nat_state \<Rightarrow> nat \<Rightarrow> parsedPacket \<Rightarrow> bytes \<Rightarrow> nat_state" where
  "forwardTCPData env n i p pkt =
     (let data = payload p pkt in
      if data = [] then n
      else case conn (heap n i) of
        None \<Rightarrow> n
      | Some c \<Rightarrow>
          if tcpSeq p \<noteq> clientSeqNext (heap n i) then n
          else case connWrite env n c data of
            (False, n1) \<Rightarrow> n1
          | (True, n1) \<Rightarrow>
              let n2 = modEntry n1 i (\<lambda>e. e\<lparr>clientSeqNext := tcpSeq p + of_nat (length data)\<rparr>);
                  e = heap n2 i;
                  ackPkt = buildTCPPacket (eDstIP e) (eSrcIP e) (eDstPort e) (eSrcPort e) []
                             tcpFlagACK (relaySeqNext e) (clientSeqNext e) natTCPWindow
              in sendToSession n2 (session e) ackPkt)"

definition forwardUDPData :: "natEnv \<Rightarrow> nat_state \<Rightarrow> nat \<Rightarrow> parsedPacket \<Rightarrow> bytes \<Rightarrow> nat_state" where
  "forwardUDPData env n i p pkt =
     (let data = payload p pkt in
      if data = [] then n
      else case conn (heap n i) of
        None \<Rightarrow> n
      | Some c \<Rightarrow> snd (connWrite env n c data))"

definition handleTCPPacket :: "natEnv \<Rightarrow> nat_state \<Rightarrow> nat \<Rightarrow> parsedPacket \<Rightarrow> bytes \<Rightarrow> nat_state" where
  "handleTCPPacket env n i p pkt =
     (if tcpState (heap n i) = tcpStateClosed then n
      else if tcpFlags p AND tcpFlagRST \<noteq> 0 then
        closeConn (modEntry n i (\<lambda>e. e\<lparr>tcpState := tcpStateClosed\<rparr>)) i
      else if tcpFlags p AND tcpFlagFIN \<noteq> 0 then
        (let n1 = modEntry n i (\<lambda>e. e\<lparr>clientSeqNext := tcpSeq p + 1, tcpState := tcpStateFINWait\<rparr>);
             e = heap n1 i;
             finack = buildTCPPacket (eDstIP e) (eSrcIP e) (eDstPort e) (eSrcPort e) []
                        (tcpFlagFIN OR tcpFlagACK) (relaySeqNext e) (clientSeqNext e) natTCPWindow
         in closeConn (sendToSession n1 (session e) finack) i)
      else if payload p pkt \<noteq> [] then forwardTCPData env n i p pkt
      else n)"

definition forwardNew :: "natEnv \<Rightarrow> nat_state \<Rightarrow> nat \<Rightarrow> parsedPacket \<Rightarrow> bytes \<Rightarrow> nat_state" where
  "forwardNew env n i p pkt =
     (if eProto (heap n i) = ipv4ProtoTCP then
        (if tcpFlags p AND tcpFlagSYN = 0 then forwardTCPData env n i p pkt else n)
      else if eProto (heap n i) = ipv4ProtoUDP then forwardUDPData env n i p pkt
      else n)"

definition forwardExisting :: "natEnv \<Rightarrow> nat_state \<Rightarrow> nat \<Rightarrow> parsedPacket \<Rightarrow> bytes \<Rightarrow> nat_state" where
  "forwardExisting env n i p pkt =
     (if eProto (heap n i) = ipv4ProtoTCP then handleTCPPacket env n i p pkt
      else if eProto (heap n i) = ipv4ProtoUDP then forwardUDPData env n i p pkt
      else n)"

section \<open>Translate, Forward and Reverse\<close>

definition translateNew ::
  "natEnv \<Rightarrow> nat_state \<Rightarrow> sessionID \<Rightarrow> string \<Rightarrow> parsedPacket \<Rightarrow> bytes \<Rightarrow> u16 \<Rightarrow> (nat_error + bytes) \<times> nat_state" where
  \<comment> \<open>the part of \<open>Translate\<close> after a port was allocated\<close>
  "translateNew env n sid key p pkt port =
     (let i = nextEntry n;
          entry = emptyEntry\<lparr>session := sid, eSrcIP := srcIP p, eDstIP := dstIP p, eSrcPort := srcPort p,
                    eDstPort := dstPort p, natPort := port, eProto := proto p, lastSeen := clock env\<rparr>;
          n1 = n\<lparr>heap := (heap n)(i := entry), nextEntry := Suc i\<rparr>
      in case openConnection env n1 i p of
           (False, n2) \<Rightarrow> (Inl ErrDial, n2\<lparr>pool := release (pool n2) port\<rparr>)
         | (True, n2) \<Rightarrow>
             let n3 = n2\<lparr>byTuple := byTuple n2 @ [(key, i)], byNATPort := (byNATPort n2)(port := Some i),
                         entriesCount := entriesCount n2 + 1, portsUsed := portsUsed n2 + 1\<rparr>;
                 pkt' = rewriteSource pkt p (relayIP n3) port
             in (Inr pkt', forwardNew env n3 i p pkt'))"

definition Translate :: "natEnv \<Rightarrow> nat_state \<Rightarrow> sessionID \<Rightarrow> bytes \<Rightarrow> (nat_error + bytes) \<times> nat_state" where
  "Translate env n sid pkt =
     (if stopped n then (Inl ErrShuttingDown, n)
      else case parseIPv4 pkt of
        Inl e \<Rightarrow> (Inl e, n)
      | Inr p \<Rightarrow>
          if isBlockedIP (dstIP p) then (Inl ErrSSRFBlocked, n)
          else
            let key = tupleKey sid (srcIP p) (srcPort p) (dstIP p) (dstPort p) (proto p) in
            case map_of (byTuple n) key of
              Some i \<Rightarrow>
                let n1 = modEntry n i (\<lambda>e. e\<lparr>lastSeen := clock env\<rparr>);
                    pkt' = rewriteSource pkt p (relayIP n1) (natPort (heap n1 i))
                in (Inr pkt', forwardExisting env n1 i p pkt')
            | None \<Rightarrow>
                (case allocate (pool n) of
                   Inr (port, pl) \<Rightarrow> translateNew env (n\<lparr>pool := pl\<rparr>) sid key p pkt port
                 | Inl _ \<Rightarrow>
                     let n1 = sweepOnce n (sweepClock env) in
                     case allocate (pool n1) of
                       Inl _ \<Rightarrow> (Inl ErrNATPortExhausted, n1)
                     | Inr (port, pl) \<Rightarrow> translateNew env (n1\<lparr>pool := pl\<rparr>) sid key p pkt port))"

definition Reverse :: "natEnv \<Rightarrow> nat_state \<Rightarrow> bytes \<Rightarrow> (nat_error + bytes \<times> sessionID) \<times> nat_state" where
  "Reverse env n pkt =
     (case parseIPv4 pkt of
        Inl e \<Rightarrow> (Inl e, n)
      | Inr p \<Rightarrow>
          (case byNATPort n (dstPort p) of
             None \<Rightarrow> (Inl ErrInvalidPacket, n)
           | Some i \<Rightarrow>
               let e = heap n i in
               (Inr (rewriteDest pkt p (eSrcIP e) (eSrcPort e), session e),
                modEntry n i (\<lambda>e. e\<lparr>lastSeen := clock env\<rparr>))))"

definition Stats :: "nat_state \<Rightarrow> int \<times> int" where
  "Stats n = (entriesCount n, portsUsed n)"

section \<open>DNS interception\<close>

definition dnsMessage :: "parsedPacket \<Rightarrow> bytes \<Rightarrow> bytes option" where
  \<comment> \<open>the guards of \<open>tryDNSIntercept\<close>: the DNS message a packet carries\<close>
  "dnsMessage p pkt =
     (if dstPort p \<noteq> dnsPort then None
      else if proto p \<noteq> ipv4ProtoUDP \<and> proto p \<noteq> ipv4ProtoTCP then None
      else let data = payload p pkt in
      if data = [] then None
      else if proto p = ipv4ProtoTCP then
        (if length data < 2 then None
         else let msgLen = unat (get16 data 0) in
           if length data < 2 + msgLen then None else Some (bslice data 2 (2 + msgLen)))
      else Some data)"

definition dnsReply :: "parsedPacket \<Rightarrow> bytes \<Rightarrow> bytes" where
  "dnsReply p resp =
     (if proto p = ipv4ProtoUDP
      then buildUDPPacket (dstIP p) (srcIP p) (dstPort p) (srcPort p) resp
      else
        let tcpPayload = [of_nat (length resp div 256), of_nat (length resp)] @ resp in
        buildTCPPacket (dstIP p) (srcIP p) (dstPort p) (srcPort p) tcpPayload
          (tcpFlagPSH OR tcpFlagACK) 0 0 natTCPWindow)"

definition tryDNSIntercept ::
  "(bytes \<Rightarrow> bytes option) \<Rightarrow> nat_state \<Rightarrow> tunnelSession \<Rightarrow> bytes \<Rightarrow> bool \<times> nat_state" where
  "tryDNSIntercept resolve n s pkt =
     (case parseIPv4 pkt of
        Inl _ \<Rightarrow> (False, n)
      | Inr p \<Rightarrow>
          (case dnsMessage p pkt of
             None \<Rightarrow> (False, n)
           | Some q \<Rightarrow>
               (case resolve q of
                  None \<Rightarrow> (False, n)
                | Some resp \<Rightarrow>
                    if resp = [] then (False, n)
                    else (True, sendToSession n (sessionKey s) (dnsReply p resp)))))"

definition Forward ::
  "(bytes \<Rightarrow> bytes option) option \<Rightarrow> natEnv \<Rightarrow> nat_state \<Rightarrow> tunnelSession \<Rightarrow> bytes \<Rightarrow> nat_error option \<times> nat_state" where
  "Forward resolver env n s pkt =
     (let (hit, n1) = (case resolver of None \<Rightarrow> (False, n) | Some r \<Rightarrow> tryDNSIntercept r n s pkt) in
      if hit then (None, n1)
      else case Translate env n1 (sessionKey s) pkt of
        (Inl e, n2) \<Rightarrow> (Some e, n2)
      | (Inr _, n2) \<Rightarrow> (None, n2))"

section \<open>Reverse path: the socket readers\<close>

definition tcpReverseStep :: "natEnv \<Rightarrow> nat_state \<Rightarrow> nat \<Rightarrow> bytes \<Rightarrow> bool \<Rightarrow> nat_state" where
  \<comment> \<open>one turn of \<open>tcpReverseLoop\<close>: \<^verbatim>\<open>conn.Read\<close> returned \<open>data\<close> and, if \<open>err\<close>, an error\<close>
  "tcpReverseStep env n i data err =
     (let n1 =
        (if data = [] then n
         else
           let e = heap n i;
               n0 = modEntry n i (\<lambda>e. e\<lparr>relaySeqNext := relaySeqNext e + of_nat (length data)\<rparr>);
               pkt = buildTCPPacket (eDstIP e) (eSrcIP e) (eDstPort e) (eSrcPort e) data
                       (tcpFlagPSH OR tcpFlagACK) (relaySeqNext e) (clientSeqNext e) natTCPWindow
           in modEntry (sendToSession n0 (session e) pkt) i (\<lambda>e. e\<lparr>lastSeen := clock env\<rparr>))
      in
      if \<not> err then n1
      else
        let e = heap n1 i;
            n2 = modEntry n1 i (\<lambda>e. e\<lparr>tcpState := tcpStateClosed\<rparr>)
        in if tcpState e = tcpStateEstablished \<or> tcpState e = tcpStateFINWait
           then sendToSession n2 (session e)
                  (buildTCPPacket (eDstIP e) (eSrcIP e) (eDstPort e) (eSrcPort e) []
                     (tcpFlagFIN OR tcpFlagACK) (relaySeqNext e) (clientSeqNext e) natTCPWindow)
           else n2)"

fun tcpReverseLoop :: "nat_state \<Rightarrow> nat \<Rightarrow> (natEnv \<times> bytes \<times> bool) list \<Rightarrow> nat_state" where
  \<comment> \<open>the loop over the successive results of \<^verbatim>\<open>conn.Read\<close>; it ends at the first error\<close>
  "tcpReverseLoop n i [] = n"
| "tcpReverseLoop n i ((env, data, err) # rs) =
     (let n1 = tcpReverseStep env n i (take natMaxTCPPayload data) err in
      if err then n1 else tcpReverseLoop n1 i rs)"

definition udpReverseStep :: "natEnv \<Rightarrow> nat_state \<Rightarrow> nat \<Rightarrow> bytes \<Rightarrow> nat_state" where
  "udpReverseStep env n i data =
     (if data = [] then n
      else
        let e = heap n i;
            pkt = buildUDPPacket (eDstIP e) (eSrcIP e) (eDstPort e) (eSrcPort e) data
        in modEntry (sendToSession n (session e) pkt) i (\<lambda>e. e\<lparr>lastSeen := clock env\<rparr>))"

fun udpReverseLoop :: "nat_state \<Rightarrow> nat \<Rightarrow> (natEnv \<times> bytes \<times> bool) list \<Rightarrow> nat_state" where
  "udpReverseLoop n i [] = n"
| "udpReverseLoop n i ((env, data, err) # rs) =
     (let n1 = udpReverseStep env n i (take natMaxUDPPayload data) in
      if err then n1 else udpReverseLoop n1 i rs)"

end
