(* ===== verification/Packet_Props.thy ===== *)
theory Packet_Props
  imports Packet
begin

text \<open>
  Correctness of the IPv4 codec: the checksum routines produce headers that a receiver's
  verification accepts, rewriting changes the addressed fields and nothing else, and what the
  builders emit parses back to the fields it was built from.
\<close>

section \<open>One's-complement arithmetic\<close>

lemma checksumLoop_acc: "checksumLoop acc d = acc + checksumLoop 0 d"
proof (induction d arbitrary: acc rule: induct_list012)
  case (3 a b rest)
  show ?case
    using 3(1)[of "acc + (push_bit 8 (ucast a) OR ucast b)"] 3(1)[of "push_bit 8 (ucast a) OR ucast b"]
    by (simp add: ac_simps)
qed simp_all

lemma checksumRaw_simps [simp]:
  "checksumRaw [] = 0"
  "checksumRaw [a] = push_bit 8 (ucast a)"
  "checksumRaw (a # b # rest) = ucast (be16 a b) + checksumRaw rest"
  using checksumLoop_acc [of "push_bit 8 (ucast a) OR ucast b" rest]
  by (simp_all add: checksumRaw_def ucast_be16)

lemma checksumRaw_put16:
  "even i \<Longrightarrow> i + 1 < length d \<Longrightarrow> checksumRaw (put16 d i w) = checksumRaw (put16 d i 0) + ucast w"
proof (induction d arbitrary: i rule: induct_list012)
  case (3 a b rest)
  show ?case
  proof (cases i)
    case 0
    have "be16 (hi8 0) (lo8 0) = 0" by (rule be16_hi_lo)
    with 0 show ?thesis by (simp add: put16_def)
  next
    case (Suc k)
    with 3(3) obtain j where i: "i = Suc (Suc j)" by (metis even_Suc not0_implies_Suc odd_pos neq0_conv even_zero)
    have "put16 (a # b # rest) i v = a # b # put16 rest j v" for v
      by (simp add: put16_def i)
    with 3(1)[of j] 3(3,4) i show ?thesis by (simp add: ac_simps)
  qed
qed simp_all

lemma unat_plus_u32_le: "unat (a + b :: u32) \<le> unat a + unat b"
  by (metis unat_add_lem order_refl unat_word_ariths(1) mod_less_eq_dividend)

lemma checksumRaw_le: "unat (checksumRaw d) \<le> 65535 * ((length d + 1) div 2)"
proof (induction d rule: induct_list012)
  case (2 x)
  have "push_bit 8 (ucast x) OR ucast (0 :: byte) = (ucast (be16 x 0) :: u32)" by (rule ucast_be16)
  then have "unat (push_bit 8 (ucast x) :: u32) = unat (be16 x 0)" by simp
  with unat_u16_lt [of "be16 x 0"] show ?case by (simp del: unat_u16_lt)
next
  case (3 a b rest)
  have "unat (checksumRaw (a # b # rest)) \<le> unat (be16 a b) + unat (checksumRaw rest)"
    using unat_plus_u32_le [of "ucast (be16 a b)" "checksumRaw rest"] by simp
  with 3(1) unat_u16_lt [of "be16 a b"] show ?case by (simp del: unat_u16_lt)
qed simp

lemma onesComplement_spec:
  "unat (NOT (onesComplement s)) mod 65535 = unat s mod 65535 \<and> (NOT (onesComplement s) = 0 \<longleftrightarrow> s = 0)"
proof (induction s rule: onesComplement.induct)
  case (1 s)
  show ?case
  proof (cases "s > 0xffff")
    case True
    have fold: "unat (foldCarry s) = unat s div 65536 + unat s mod 65536" by (rule unat_foldCarry)
    have "unat s = 65535 * (unat s div 65536) + (unat s div 65536 + unat s mod 65536)"
      using div_mult_mod_eq [of "unat s" 65536] by linarith
    then have "unat s mod 65535 = (unat s div 65536 + unat s mod 65536) mod 65535"
      by (metis mod_mult_self4)
    moreover have "foldCarry s = 0 \<longleftrightarrow> s = 0"
    proof -
      have "foldCarry s = 0 \<longleftrightarrow> unat (foldCarry s) = 0" by (simp only: unsigned_eq_0_iff)
      also have "\<dots> \<longleftrightarrow> unat s = 0"
        unfolding fold using div_mult_mod_eq [of "unat s" 65536] by auto
      finally show ?thesis by (simp only: unsigned_eq_0_iff)
    qed
    ultimately show ?thesis
      using "1.IH" [OF True] True fold by (subst (1 2) onesComplement.simps) simp
  next
    case False
    then have "unat s < 65536" by (simp add: word_less_nat_alt)
    then have "unat (ucast s :: u16) = unat s"
      by (simp add: unsigned_ucast_eq take_bit_nat_eq_self_iff)
    moreover from this have "(ucast s :: u16) = 0 \<longleftrightarrow> s = 0"
      by (metis unsigned_eq_0_iff)
    ultimately show ?thesis
      using False by (subst (1 2) onesComplement.simps) simp
  qed
qed

lemma unat_NOT_u16: "unat (NOT w :: u16) = 65535 - unat w"
proof -
  have "NOT w = -1 - w" by (simp add: not_eq_complement)
  moreover have "w \<le> -1" by simp
  ultimately show ?thesis by (simp add: unat_sub unsigned_minus_1_eq_mask mask_eq_exp_minus_1)
qed


text \<open>
  The fact behind every checksum of the relay: adding the complement of the folded sum makes
  the receiver's fold all ones, i.e. its complement zero.
\<close>

lemma onesComplement_zero_iff: "onesComplement s = 0 \<longleftrightarrow> s \<noteq> 0 \<and> unat s mod 65535 = 0"
proof -
  let ?f = "NOT (onesComplement s)"
  have spec: "unat ?f mod 65535 = unat s mod 65535" "?f = 0 \<longleftrightarrow> s = 0"
    using onesComplement_spec by blast+
  have f: "unat ?f = 65535 - unat (onesComplement s)" by (rule unat_NOT_u16)
  have lt: "unat (onesComplement s) < 65536" by simp
  have "onesComplement s = 0 \<longleftrightarrow> unat (onesComplement s) = 0" by (simp only: unsigned_eq_0_iff)
  also have "\<dots> \<longleftrightarrow> unat ?f \<noteq> 0 \<and> unat ?f mod 65535 = 0"
    using f lt by (cases "unat (onesComplement s) = 0") auto
  also have "unat ?f \<noteq> 0 \<longleftrightarrow> s \<noteq> 0" using spec(2) by (simp only: unsigned_eq_0_iff)
  finally show ?thesis using spec(1) by simp
qed

lemma onesComplement_cancel:
  assumes "unat s + 65535 < 2 ^ 32"
  shows "onesComplement (s + ucast (onesComplement s)) = 0"
proof -
  let ?c = "onesComplement s"
  have f: "unat (NOT ?c) = 65535 - unat ?c" by (rule unat_NOT_u16)
  have spec: "unat (NOT ?c) mod 65535 = unat s mod 65535" "NOT ?c = 0 \<longleftrightarrow> s = 0"
    using onesComplement_spec by blast+
  have lt: "unat ?c < 65536" by simp
  have plus: "unat (s + ucast ?c) = unat s + unat ?c"
  proof -
    have "unat s + unat ?c < 4294967296" using assms lt by (simp del: unat_u16_lt)
    then show ?thesis by (simp add: unat_word_ariths)
  qed
  have "(unat s + unat ?c) mod 65535 = (65535 - unat ?c + unat ?c) mod 65535"
    using spec(1) f by (metis mod_add_left_eq)
  then have m: "(unat s + unat ?c) mod 65535 = 0" using lt by simp
  have "unat s + unat ?c \<noteq> 0"
  proof
    assume z: "unat s + unat ?c = 0"
    then have "unat (NOT ?c) = 65535" using f by simp
    moreover have "NOT ?c = 0" using z spec(2) by (simp add: unsigned_eq_0_iff)
    ultimately show False by simp
  qed
  with m plus show ?thesis
    unfolding onesComplement_zero_iff plus by (metis plus unsigned_0)
qed

lemma checksum_field_valid:
  assumes "even i" and "i + 1 < length d" and "length d \<le> 65535" and "unat e \<le> 65535 * 6"
    and "onesComplement (e + checksumRaw (put16 d i 0)) = c \<or>
         onesComplement (e + checksumRaw (put16 d i 0)) = 0 \<and> c = 0xffff"
  shows "onesComplement (e + checksumRaw (put16 d i c)) = 0"
proof -
  let ?s = "e + checksumRaw (put16 d i 0)"
  have "unat ?s \<le> unat e + unat (checksumRaw (put16 d i 0))" by (rule unat_plus_u32_le)
  also have "\<dots> \<le> 65535 * 6 + 65535 * ((length d + 1) div 2)"
    using assms(4) checksumRaw_le [of "put16 d i 0"] by simp
  also have "\<dots> \<le> 65535 * 6 + 65535 * 32768" using assms(3) by simp
  finally have b: "unat ?s + 65535 < 2 ^ 32" by simp
  have eq: "e + checksumRaw (put16 d i c) = ?s + ucast c"
    using checksumRaw_put16 [OF assms(1,2), of c] by (simp add: ac_simps)
  from assms(5) show ?thesis
  proof
    assume "onesComplement ?s = c"
    then show ?thesis using onesComplement_cancel [OF b] by (simp only: eq)
  next
    assume z: "onesComplement ?s = 0 \<and> c = 0xffff"
    then have s: "?s \<noteq> 0" "unat ?s mod 65535 = 0" by (simp_all add: onesComplement_zero_iff)
    have "unat (?s + ucast c) = unat ?s + 65535" using b z by (simp add: unat_word_ariths)
    moreover from this have "?s + ucast c \<noteq> 0" by (metis add_is_0 unsigned_0 zero_neq_numeral)
    ultimately show ?thesis using s by (simp only: eq onesComplement_zero_iff) simp
  qed
qed


section \<open>Checksum routines\<close>

lemma unat_pseudoHeaderSum:
  assumes "l4Len \<le> 65535"
  shows "unat (pseudoHeaderSum s d pr l4Len) \<le> 65535 * 6"
proof -
  have h: "unat (ucast (be16 a b) :: u32) \<le> 65535" for a b
    using unat_u16_lt [of "be16 a b"] unfolding unat_ucast_16_32 by linarith
  have p: "unat (ucast pr :: u32) \<le> 65535" using unat_byte_lt [of pr] unfolding unat_ucast_8_32 by linarith
  have l: "unat (of_nat l4Len :: u32) \<le> 65535"
    using assms by (simp add: unat_of_nat)
  have step: "unat (x + y) \<le> m + 65535" if "unat x \<le> m" "unat y \<le> 65535" for x y :: u32 and m
    using unat_plus_u32_le [of x y] that by linarith
  show ?thesis
    unfolding pseudoHeaderSum_def ucast_be16
    using step [OF step [OF step [OF step [OF step [OF h h] h] h] p] l] by simp
qed

definition headerValid :: "bytes \<Rightarrow> bool" where
  \<comment> \<open>a receiver's RFC 1071 check of an IPv4 header\<close>
  "headerValid hdr \<longleftrightarrow> onesComplement (checksumRaw hdr) = 0"

definition l4Valid :: "bytes \<Rightarrow> parsedPacket \<Rightarrow> bool" where
  \<comment> \<open>a receiver's check of the TCP or UDP checksum over the pseudo header and the segment\<close>
  "l4Valid pkt p \<longleftrightarrow>
     onesComplement (pseudoHeaderSum (bslice pkt 12 16) (bslice pkt 16 20) (proto p)
                       (totalLen p - headerLen p)
                     + checksumRaw (bslice pkt (l4Offset p) (totalLen p))) = 0"

lemma length_recalcIPv4Checksum [simp]: "length (recalcIPv4Checksum h) = length h"
  by (simp add: recalcIPv4Checksum_def Let_def)

lemma nth_recalcIPv4Checksum:
  "12 \<le> length h \<Longrightarrow> i \<noteq> 10 \<Longrightarrow> i \<noteq> 11 \<Longrightarrow> recalcIPv4Checksum h ! i = h ! i"
  by (simp add: recalcIPv4Checksum_def Let_def)

lemma recalcIPv4Checksum_valid:
  assumes "12 \<le> length h" and "length h \<le> 65535"
  shows "headerValid (recalcIPv4Checksum h)"
proof -
  let ?z = "h[10 := 0, 11 := 0]"
  let ?c = "onesComplement (checksumRaw ?z)"
  have z: "put16 ?z 10 0 = ?z"
    using assms by (intro nth_equalityI) (auto simp: put16_def hi8_def lo8_def nth_list_update)
  have "onesComplement (0 + checksumRaw (put16 ?z 10 ?c)) = 0"
  proof (rule checksum_field_valid)
    show "onesComplement (0 + checksumRaw (put16 ?z 10 0)) = ?c \<or>
      onesComplement (0 + checksumRaw (put16 ?z 10 0)) = 0 \<and> ?c = 0xffff"
      by (simp only: z) simp
  qed (use assms in auto)
  then show ?thesis
    by (simp add: headerValid_def recalcIPv4Checksum_def Let_def)
qed

lemma proto_neq [simp]: "(6 :: byte) \<noteq> 17" "(17 :: byte) \<noteq> 6"
  by simp_all

definition l4Shape :: "bytes \<Rightarrow> parsedPacket \<Rightarrow> bool" where
  \<comment> \<open>what the checksum routines need of a parsed packet\<close>
  "l4Shape pkt p \<longleftrightarrow>
     20 \<le> l4Offset p \<and> l4Offset p = headerLen p \<and> totalLen p \<le> length pkt \<and> totalLen p \<le> 65535 \<and>
     (proto p = 6 \<and> headerLen p + 20 \<le> totalLen p \<or> proto p = 17 \<and> headerLen p + 8 \<le> totalLen p)"

definition ckOff :: "parsedPacket \<Rightarrow> nat" where
  \<comment> \<open>where the L4 checksum field lies\<close>
  "ckOff p = l4Offset p + (if proto p = 6 then 16 else 6)"

lemma recalcL4_facts:
  assumes "l4Shape pkt p"
  shows length_recalcL4: "length (recalcL4Checksum pkt p) = length pkt"
    and nth_recalcL4: "i < length pkt \<Longrightarrow> i \<noteq> ckOff p \<Longrightarrow> i \<noteq> ckOff p + 1 \<Longrightarrow>
          recalcL4Checksum pkt p ! i = pkt ! i"
  using assms
  by (auto simp: l4Shape_def recalcL4Checksum_def recalcTCPChecksum_def recalcUDPChecksum_def
        ckOff_def Let_def nth_list_update)


lemma recalcL4_valid:
  assumes "l4Shape pkt p"
  shows "l4Valid (recalcL4Checksum pkt p) p"
proof -
  let ?len = "totalLen p - headerLen p"
  let ?k = "if proto p = 6 then 16 else (6 :: nat)"
  let ?seg = "(bslice pkt (l4Offset p) (totalLen p))"
  let ?z = "?seg[?k := 0, ?k + 1 := 0]"
  let ?e = "pseudoHeaderSum (bslice pkt 12 16) (bslice pkt 16 20) (proto p) ?len"
  let ?r = "onesComplement (?e + checksumRaw ?z)"
  define c where "c = (if proto p = 17 \<and> ?r = 0 then 0xffff else ?r)"
  have sh: "l4Offset p = headerLen p" "20 \<le> headerLen p" "headerLen p + ?len = totalLen p"
      "totalLen p \<le> length pkt" "totalLen p \<le> 65535" "?k + 1 < ?len" "proto p = 6 \<or> proto p = 17"
    using assms by (auto simp: l4Shape_def)
  have z: "put16 ?z ?k 0 = ?z"
    using sh by (intro nth_equalityI) (auto simp: put16_def hi8_def lo8_def nth_list_update)
  have off: "l4Offset p + ?len = totalLen p" using sh by simp
  have rc: "recalcL4Checksum pkt p = splice pkt (l4Offset p) (put16 ?z ?k c)"
    using sh(7)
  proof
    assume "proto p = 6"
    then show ?thesis by (simp add: recalcL4Checksum_def recalcTCPChecksum_def Let_def c_def off)
  next
    assume "proto p = 17"
    then show ?thesis by (simp add: recalcL4Checksum_def recalcUDPChecksum_def Let_def c_def off)
  qed
  have e: "unat ?e \<le> 65535 * 6" by (rule unat_pseudoHeaderSum) (use sh in linarith)
  have "onesComplement (?e + checksumRaw (put16 ?z ?k c)) = 0"
  proof (rule checksum_field_valid)
    show "onesComplement (?e + checksumRaw (put16 ?z ?k 0)) = c \<or>
      onesComplement (?e + checksumRaw (put16 ?z ?k 0)) = 0 \<and> c = 0xffff"
      unfolding z c_def by auto
  qed (use sh e in auto)
  moreover have "bslice (splice pkt (l4Offset p) (put16 ?z ?k c)) (l4Offset p) (totalLen p) = put16 ?z ?k c"
    using sh by (intro bslice_splice_same) auto
  moreover have "bslice (splice pkt (l4Offset p) (put16 ?z ?k c)) 12 16 = bslice pkt 12 16"
    "bslice (splice pkt (l4Offset p) (put16 ?z ?k c)) 16 20 = bslice pkt 16 20"
    using sh by (auto intro!: bslice_splice_other)
  ultimately show ?thesis unfolding l4Valid_def rc by simp
qed

section \<open>What parsing guarantees\<close>

lemma parseIPv4_InrD:
  assumes "parseIPv4 pkt = Inr p"
  shows "20 \<le> length pkt \<and> drop_bit 4 (pkt ! 0) = 4 \<and> headerLen p = unat (pkt ! 0 AND 0x0f) * 4 \<and>
    20 \<le> headerLen p \<and> headerLen p \<le> length pkt \<and> totalLen p = unat (get16 pkt 2) \<and>
    headerLen p \<le> totalLen p \<and> totalLen p \<le> length pkt \<and> l4Offset p = headerLen p \<and>
    proto p = pkt ! 9 \<and> srcIP p = bslice pkt 12 16 \<and> dstIP p = bslice pkt 16 20 \<and>
    srcPort p = get16 pkt (headerLen p) \<and> dstPort p = get16 pkt (headerLen p + 2)"
  using assms by (auto simp: parseIPv4_def Let_def split: if_splits)

lemma parseIPv4_l4D:
  assumes "parseIPv4 pkt = Inr p"
  shows "proto p = 6 \<and> headerLen p + 20 \<le> totalLen p \<and>
       tcpDataOff p = unat (drop_bit 4 (pkt ! (headerLen p + 12))) * 4 \<and> 20 \<le> tcpDataOff p \<and>
       headerLen p + tcpDataOff p \<le> totalLen p \<and> payloadOffset p = headerLen p + tcpDataOff p \<and>
       tcpSeq p = get32 pkt (headerLen p + 4) \<and> tcpAck p = get32 pkt (headerLen p + 8) \<and>
       tcpFlags p = pkt ! (headerLen p + 13) \<and> tcpWindow p = get16 pkt (headerLen p + 14)
     \<or> proto p = 17 \<and> headerLen p + 8 \<le> totalLen p \<and> payloadOffset p = headerLen p + 8 \<and>
       tcpDataOff p = 0 \<and> tcpSeq p = 0 \<and> tcpAck p = 0 \<and> tcpFlags p = 0 \<and> tcpWindow p = 0"
  using assms by (auto simp: parseIPv4_def Let_def split: if_splits)

lemma parseIPv4_shape: "parseIPv4 pkt = Inr p \<Longrightarrow> l4Shape pkt p"
  using parseIPv4_InrD [of pkt p] parseIPv4_l4D [of pkt p] unat_u16_lt [of "get16 pkt 2"]
  by (auto simp: l4Shape_def simp del: unat_u16_lt)

lemma parseIPv4_TCP:
  assumes "20 \<le> length pkt" "drop_bit 4 (pkt ! 0) = 4" "h = unat (pkt ! 0 AND 0x0f) * 4"
    "20 \<le> h" "h \<le> length pkt" "tlen = unat (get16 pkt 2)" "tlen \<le> length pkt" "pkt ! 9 = 6"
    "off = unat (drop_bit 4 (pkt ! (h + 12))) * 4" "20 \<le> off" "h + off \<le> tlen"
  shows "parseIPv4 pkt = Inr \<lparr>headerLen = h, totalLen = tlen, proto = 6, srcIP = bslice pkt 12 16,
    dstIP = bslice pkt 16 20, srcPort = get16 pkt h, dstPort = get16 pkt (h + 2),
    tcpSeq = get32 pkt (h + 4), tcpAck = get32 pkt (h + 8), tcpFlags = pkt ! (h + 13),
    tcpWindow = get16 pkt (h + 14), tcpDataOff = off, l4Offset = h, payloadOffset = h + off\<rparr>"
proof -
  have "\<not> length pkt < 20" "\<not> (h < 20 \<or> length pkt < h)" "\<not> (tlen < h \<or> length pkt < tlen)"
    "\<not> tlen < h + 20" "\<not> (off < 20 \<or> tlen < h + off)"
    using assms(1,4,5,7,10,11) by linarith+
  then show ?thesis
    unfolding parseIPv4_def Let_def
    by (simp add: assms(2,8) assms(3) [symmetric] assms(6) [symmetric] assms(9) [symmetric])
qed

lemma parseIPv4_UDP:
  assumes "20 \<le> length pkt" "drop_bit 4 (pkt ! 0) = 4" "h = unat (pkt ! 0 AND 0x0f) * 4"
    "20 \<le> h" "h \<le> length pkt" "tlen = unat (get16 pkt 2)" "tlen \<le> length pkt" "pkt ! 9 = 17"
    "h + 8 \<le> tlen"
  shows "parseIPv4 pkt = Inr \<lparr>headerLen = h, totalLen = tlen, proto = 17, srcIP = bslice pkt 12 16,
    dstIP = bslice pkt 16 20, srcPort = get16 pkt h, dstPort = get16 pkt (h + 2),
    tcpSeq = 0, tcpAck = 0, tcpFlags = 0, tcpWindow = 0, tcpDataOff = 0, l4Offset = h,
    payloadOffset = h + 8\<rparr>"
proof -
  have "\<not> length pkt < 20" "\<not> (h < 20 \<or> length pkt < h)" "\<not> (tlen < h \<or> length pkt < tlen)"
    "\<not> tlen < h + 8"
    using assms(1,4,5,7,9) by linarith+
  then show ?thesis
    unfolding parseIPv4_def Let_def
    by (simp add: assms(2,8) assms(3) [symmetric] assms(6) [symmetric])
qed

text \<open>
  A packet that agrees with a parsed one except in the address, port and checksum fields parses
  to the same header with the new addresses and ports.
\<close>

lemma parseIPv4_cong:
  assumes p: "parseIPv4 pkt = Inr p" and len: "length pkt' = length pkt"
    and same: "\<And>i. i < length pkt \<Longrightarrow> i \<notin> {10..19} \<Longrightarrow>
      i \<notin> {headerLen p..<headerLen p + 4} \<Longrightarrow> i \<noteq> ckOff p \<Longrightarrow> i \<noteq> ckOff p + 1 \<Longrightarrow> pkt' ! i = pkt ! i"
  shows "parseIPv4 pkt' = Inr (p\<lparr>srcIP := bslice pkt' 12 16, dstIP := bslice pkt' 16 20,
           srcPort := get16 pkt' (headerLen p), dstPort := get16 pkt' (headerLen p + 2)\<rparr>)"
proof -
  note f = parseIPv4_InrD [OF p]
  let ?h = "headerLen p"
  have b: "20 \<le> length pkt" "20 \<le> ?h" "?h \<le> length pkt" "l4Offset p = ?h" "totalLen p \<le> length pkt"
    using f by blast+
  have b6: "?h + 20 \<le> length pkt" if "proto p = 6"
    using parseIPv4_l4D [OF p] that b(5) by auto
  have low: "pkt' ! 0 = pkt ! 0" "pkt' ! 2 = pkt ! 2" "pkt' ! 3 = pkt ! 3" "pkt' ! 9 = pkt ! 9"
    using b by (auto intro!: same simp: ckOff_def)
  have high: "pkt' ! (?h + k) = pkt ! (?h + k)" if "proto p = 6" "4 \<le> k" "k < 16" for k
    using b b6 that by (intro same) (auto simp: ckOff_def)
  have g2: "get16 pkt' 2 = get16 pkt 2" using low by (simp add: get16_def)
  have tcp: "get32 pkt' (?h + 4) = get32 pkt (?h + 4)" "get32 pkt' (?h + 8) = get32 pkt (?h + 8)"
    "pkt' ! (?h + 12) = pkt ! (?h + 12)" "pkt' ! (?h + 13) = pkt ! (?h + 13)"
    "get16 pkt' (?h + 14) = get16 pkt (?h + 14)" if "proto p = 6"
  proof -
    show "get32 pkt' (?h + 4) = get32 pkt (?h + 4)"
      by (rule get32_cong) (simp add: add.assoc high [OF that])
    show "get32 pkt' (?h + 8) = get32 pkt (?h + 8)"
      by (rule get32_cong) (simp add: add.assoc high [OF that])
    show "get16 pkt' (?h + 14) = get16 pkt (?h + 14)"
      by (rule get16_cong) (simp add: add.assoc high [OF that])
  qed (simp_all add: high [OF that])
  have g: "drop_bit 4 (pkt ! 0) = 4" "?h = unat (pkt ! 0 AND 0x0f) * 4" "totalLen p = unat (get16 pkt 2)"
    "proto p = pkt ! 9" "totalLen p \<le> length pkt"
    using f by blast+
  from parseIPv4_l4D [OF p]
  show ?thesis
  proof
    assume c: "proto p = 6 \<and> ?h + 20 \<le> totalLen p \<and>
       tcpDataOff p = unat (drop_bit 4 (pkt ! (?h + 12))) * 4 \<and> 20 \<le> tcpDataOff p \<and>
       ?h + tcpDataOff p \<le> totalLen p \<and> payloadOffset p = ?h + tcpDataOff p \<and>
       tcpSeq p = get32 pkt (?h + 4) \<and> tcpAck p = get32 pkt (?h + 8) \<and>
       tcpFlags p = pkt ! (?h + 13) \<and> tcpWindow p = get16 pkt (?h + 14)"
    then have t: "proto p = 6" by blast
    from g(4) t have n: "pkt ! 9 = 6" by metis
    have "parseIPv4 pkt' = Inr \<lparr>headerLen = ?h, totalLen = totalLen p, proto = 6,
      srcIP = bslice pkt' 12 16, dstIP = bslice pkt' 16 20, srcPort = get16 pkt' ?h,
      dstPort = get16 pkt' (?h + 2), tcpSeq = get32 pkt' (?h + 4), tcpAck = get32 pkt' (?h + 8),
      tcpFlags = pkt' ! (?h + 13), tcpWindow = get16 pkt' (?h + 14), tcpDataOff = tcpDataOff p,
      l4Offset = ?h, payloadOffset = ?h + tcpDataOff p\<rparr>"
    proof (rule parseIPv4_TCP)
      show "?h + tcpDataOff p \<le> totalLen p" "20 \<le> tcpDataOff p"
        "tcpDataOff p = unat (drop_bit 4 (pkt' ! (?h + 12))) * 4"
        unfolding tcp [OF t] using c by blast+
    qed (unfold low g2 len, (fact b g n)+)
    moreover from b c have "l4Offset p = ?h" "payloadOffset p = ?h + tcpDataOff p"
      "tcpSeq p = get32 pkt (?h + 4)" "tcpAck p = get32 pkt (?h + 8)"
      "tcpFlags p = pkt ! (?h + 13)" "tcpWindow p = get16 pkt (?h + 14)"
      by blast+
    ultimately show ?thesis
      by (simp add: t tcp [OF t])
  next
    assume c: "proto p = 17 \<and> ?h + 8 \<le> totalLen p \<and> payloadOffset p = ?h + 8 \<and>
       tcpDataOff p = 0 \<and> tcpSeq p = 0 \<and> tcpAck p = 0 \<and> tcpFlags p = 0 \<and> tcpWindow p = 0"
    then have u: "proto p = 17" by blast
    from g(4) u have n: "pkt ! 9 = 17" by metis
    have "parseIPv4 pkt' = Inr \<lparr>headerLen = ?h, totalLen = totalLen p, proto = 17,
      srcIP = bslice pkt' 12 16, dstIP = bslice pkt' 16 20, srcPort = get16 pkt' ?h,
      dstPort = get16 pkt' (?h + 2), tcpSeq = 0, tcpAck = 0, tcpFlags = 0, tcpWindow = 0,
      tcpDataOff = 0, l4Offset = ?h, payloadOffset = ?h + 8\<rparr>"
    proof (rule parseIPv4_UDP)
      show "?h + 8 \<le> totalLen p" using c by blast
    qed (unfold low g2 len, (fact b g n)+)
    moreover from b c have "l4Offset p = ?h" "payloadOffset p = ?h + 8"
      "tcpSeq p = 0" "tcpAck p = 0" "tcpFlags p = 0" "tcpWindow p = 0" "tcpDataOff p = 0"
      by blast+
    ultimately show ?thesis
      by (simp add: u)
  qed
qed

section \<open>Rewriting\<close>

text \<open>The common tail of both rewriters: the two checksums are recomputed.\<close>

abbreviation refresh :: "bytes \<Rightarrow> parsedPacket \<Rightarrow> bytes" where
  "refresh pkt p \<equiv>
     recalcL4Checksum (splice pkt 0 (recalcIPv4Checksum (bslice pkt 0 (headerLen p)))) p"

lemma refresh_facts:
  assumes "l4Shape pkt p"
  shows length_refresh: "length (refresh pkt p) = length pkt"
    and nth_refresh: "i < length pkt \<Longrightarrow> i \<noteq> 10 \<Longrightarrow> i \<noteq> 11 \<Longrightarrow> i \<noteq> ckOff p \<Longrightarrow> i \<noteq> ckOff p + 1 \<Longrightarrow>
          refresh pkt p ! i = pkt ! i"
    and headerValid_refresh: "headerValid (bslice (refresh pkt p) 0 (headerLen p))"
    and l4Valid_refresh: "l4Valid (refresh pkt p) p"
proof -
  let ?h = "recalcIPv4Checksum (bslice pkt 0 (headerLen p))"
  let ?q = "splice pkt 0 ?h"
  have b: "20 \<le> headerLen p" "headerLen p \<le> length pkt" "headerLen p \<le> 65535"
    using assms by (auto simp: l4Shape_def)
  have lq: "length ?q = length pkt" by simp
  have sh: "l4Shape ?q p" using assms by (simp add: l4Shape_def)
  show "length (refresh pkt p) = length pkt" using length_recalcL4 [OF sh] by simp
  show "l4Valid (refresh pkt p) p" by (rule recalcL4_valid [OF sh])
  have q: "?q ! i = (if i < headerLen p then ?h ! i else pkt ! i)" if "i < length pkt" for i
    using that b by simp
  show "refresh pkt p ! i = pkt ! i" if "i < length pkt" "i \<noteq> 10" "i \<noteq> 11" "i \<noteq> ckOff p" "i \<noteq> ckOff p + 1"
    using that b nth_recalcL4 [OF sh, of i] by (simp add: nth_recalcIPv4Checksum)
  have ck: "headerLen p \<le> ckOff p" using assms by (simp add: l4Shape_def ckOff_def)
  have "bslice (refresh pkt p) 0 (headerLen p) = ?h"
  proof (rule nth_equalityI)
    show "length (bslice (refresh pkt p) 0 (headerLen p)) = length ?h"
      using b length_recalcL4 [OF sh] by simp
    fix i assume "i < length (bslice (refresh pkt p) 0 (headerLen p))"
    then have i: "i < headerLen p" using b length_recalcL4 [OF sh] by simp
    have "refresh pkt p ! i = ?q ! i"
      using i b ck by (intro nth_recalcL4 [OF sh]) auto
    then show "bslice (refresh pkt p) 0 (headerLen p) ! i = ?h ! i"
      using i b length_recalcL4 [OF sh] by simp
  qed
  then show "headerValid (bslice (refresh pkt p) 0 (headerLen p))"
    using recalcIPv4Checksum_valid [of "bslice pkt 0 (headerLen p)"] b by simp
qed

text \<open>
  What a receiver of the packet \<open>pkt'\<close> sees: it parses to \<open>p'\<close>, and both its checksums hold.
\<close>

definition accepted :: "bytes \<Rightarrow> parsedPacket \<Rightarrow> bool" where
  "accepted pkt' p' \<longleftrightarrow>
     parseIPv4 pkt' = Inr p' \<and> headerValid (bslice pkt' 0 (headerLen p')) \<and> l4Valid pkt' p'"

lemma payload_update [simp]:
  "payload (p\<lparr>srcIP := a, srcPort := b\<rparr>) pkt = payload p pkt"
  "payload (p\<lparr>dstIP := a, dstPort := b\<rparr>) pkt = payload p pkt"
  by (simp_all add: payload_def)

lemma l4Valid_update [simp]:
  "l4Valid pkt (p\<lparr>srcIP := a, srcPort := b\<rparr>) = l4Valid pkt p"
  "l4Valid pkt (p\<lparr>dstIP := a, dstPort := b\<rparr>) = l4Valid pkt p"
  by (simp_all add: l4Valid_def)


lemma rewriteSource_facts:
  assumes p: "parseIPv4 pkt = Inr p" and ip: "length (To4 ip) = 4"
  shows rewriteSource_accepted: "accepted (rewriteSource pkt p ip port) (p\<lparr>srcIP := To4 ip, srcPort := port\<rparr>)"
    and rewriteSource_nth: "i < length pkt \<Longrightarrow> i \<notin> {12..<16} \<Longrightarrow> i \<notin> {l4Offset p..<l4Offset p + 2} \<Longrightarrow>
      i \<notin> {10, 11, ckOff p, ckOff p + 1} \<Longrightarrow> rewriteSource pkt p ip port ! i = pkt ! i"
    and rewriteSource_length: "length (rewriteSource pkt p ip port) = length pkt"
proof -
  let ?h = "headerLen p"
  let ?q = "put16 (splice pkt 12 (To4 ip)) (?h) port"
  let ?r = "rewriteSource pkt p ip port"
  have sh: "l4Shape pkt p" by (rule parseIPv4_shape [OF p])
  have b: "20 \<le> ?h" "l4Offset p = ?h" "?h + 8 \<le> length pkt" "?h \<le> length pkt" "?h + 6 \<le> ckOff p"
    using sh by (auto simp: l4Shape_def ckOff_def)
  have lq: "length ?q = length pkt" using b ip by simp
  have shq: "l4Shape ?q p" using sh lq by (simp add: l4Shape_def)
  have r: "?r = refresh ?q p"
    using b ip by (simp add: rewriteSource_def Let_def copy_at_splice)
  have lr: "length ?r = length pkt" using length_refresh [OF shq] lq by (simp add: r)
  then show "length (rewriteSource pkt p ip port) = length pkt" .
  have n: "?r ! i = ?q ! i" if "i < length pkt" "i \<noteq> 10" "i \<noteq> 11" "i \<noteq> ckOff p" "i \<noteq> ckOff p + 1" for i
    unfolding r using that lq by (intro nth_refresh [OF shq]) auto
  have nq: "?q ! i = (if i = ?h then hi8 port else if i = ?h + 1 then lo8 port
      else if 12 \<le> i \<and> i < 16 then To4 ip ! (i - 12) else pkt ! i)" if "i < length pkt" for i
    using that b ip by simp
  show same: "rewriteSource pkt p ip port ! i = pkt ! i" if "i < length pkt" "i \<notin> {12..<16}"
      "i \<notin> {l4Offset p..<l4Offset p + 2}" "i \<notin> {10, 11, ckOff p, ckOff p + 1}" for i
  proof -
    have "?r ! i = ?q ! i" using that by (intro n) auto
    also have "\<dots> = pkt ! i" using that b by (subst nq) auto
    finally show ?thesis .
  qed
  have parse: "parseIPv4 ?r = Inr (p\<lparr>srcIP := bslice ?r 12 16, dstIP := bslice ?r 16 20,
      srcPort := get16 ?r ?h, dstPort := get16 ?r (?h + 2)\<rparr>)"
    using b by (intro parseIPv4_cong [OF p lr]) (auto intro!: same)
  have addr: "bslice ?r 12 16 = To4 ip"
    using b ip lr by (intro nth_equalityI) (auto simp: n nq)
  have other: "bslice ?r 16 20 = dstIP p"
  proof -
    have "dstIP p = bslice pkt 16 20" using parseIPv4_InrD [OF p] by blast
    moreover have "bslice ?r 16 20 = bslice pkt 16 20"
      using b lr by (intro nth_equalityI) (auto intro!: same)
    ultimately show ?thesis by simp
  qed
  have port: "get16 ?r (?h) = port"
  proof -
    have "?r ! (?h) = hi8 port" "?r ! (?h + 1) = lo8 port"
      using b n [of "?h"] n [of "?h + 1"] nq [of "?h"] nq [of "?h + 1"] by simp_all
    then show ?thesis by (simp only: get16_def be16_hi_lo)
  qed
  have oport: "get16 ?r (?h + 2) = dstPort p"
  proof -
    have "dstPort p = get16 pkt (?h + 2)" using parseIPv4_InrD [OF p] by blast
    moreover have "get16 ?r (?h + 2) = get16 pkt (?h + 2)"
      using b by (intro get16_cong) (auto intro!: same)
    ultimately show ?thesis by simp
  qed
  show "accepted (rewriteSource pkt p ip port) (p\<lparr>srcIP := To4 ip, srcPort := port\<rparr>)"
    using headerValid_refresh [OF shq, folded r] l4Valid_refresh [OF shq, folded r] parse
    unfolding accepted_def addr other port oport by simp
qed

lemma rewriteDest_facts:
  assumes p: "parseIPv4 pkt = Inr p" and ip: "length (To4 ip) = 4"
  shows rewriteDest_accepted: "accepted (rewriteDest pkt p ip port) (p\<lparr>dstIP := To4 ip, dstPort := port\<rparr>)"
    and rewriteDest_nth: "i < length pkt \<Longrightarrow> i \<notin> {16..<20} \<Longrightarrow> i \<notin> {l4Offset p + 2..<l4Offset p + 2 + 2} \<Longrightarrow>
      i \<notin> {10, 11, ckOff p, ckOff p + 1} \<Longrightarrow> rewriteDest pkt p ip port ! i = pkt ! i"
    and rewriteDest_length: "length (rewriteDest pkt p ip port) = length pkt"
proof -
  let ?h = "headerLen p"
  let ?q = "put16 (splice pkt 16 (To4 ip)) (?h + 2) port"
  let ?r = "rewriteDest pkt p ip port"
  have sh: "l4Shape pkt p" by (rule parseIPv4_shape [OF p])
  have b: "20 \<le> ?h" "l4Offset p = ?h" "?h + 8 \<le> length pkt" "?h \<le> length pkt" "?h + 6 \<le> ckOff p"
    using sh by (auto simp: l4Shape_def ckOff_def)
  have lq: "length ?q = length pkt" using b ip by simp
  have shq: "l4Shape ?q p" using sh lq by (simp add: l4Shape_def)
  have r: "?r = refresh ?q p"
    using b ip by (simp add: rewriteDest_def Let_def copy_at_splice)
  have lr: "length ?r = length pkt" using length_refresh [OF shq] lq by (simp add: r)
  then show "length (rewriteDest pkt p ip port) = length pkt" .
  have n: "?r ! i = ?q ! i" if "i < length pkt" "i \<noteq> 10" "i \<noteq> 11" "i \<noteq> ckOff p" "i \<noteq> ckOff p + 1" for i
    unfolding r using that lq by (intro nth_refresh [OF shq]) auto
  have nq: "?q ! i = (if i = ?h + 2 then hi8 port else if i = ?h + 2 + 1 then lo8 port
      else if 16 \<le> i \<and> i < 20 then To4 ip ! (i - 16) else pkt ! i)" if "i < length pkt" for i
    using that b ip by simp
  show same: "rewriteDest pkt p ip port ! i = pkt ! i" if "i < length pkt" "i \<notin> {16..<20}"
      "i \<notin> {l4Offset p + 2..<l4Offset p + 2 + 2}" "i \<notin> {10, 11, ckOff p, ckOff p + 1}" for i
  proof -
    have "?r ! i = ?q ! i" using that by (intro n) auto
    also have "\<dots> = pkt ! i" using that b by (subst nq) auto
    finally show ?thesis .
  qed
  have parse: "parseIPv4 ?r = Inr (p\<lparr>srcIP := bslice ?r 12 16, dstIP := bslice ?r 16 20,
      srcPort := get16 ?r ?h, dstPort := get16 ?r (?h + 2)\<rparr>)"
    using b by (intro parseIPv4_cong [OF p lr]) (auto intro!: same)
  have addr: "bslice ?r 16 20 = To4 ip"
    using b ip lr by (intro nth_equalityI) (auto simp: n nq)
  have other: "bslice ?r 12 16 = srcIP p"
  proof -
    have "srcIP p = bslice pkt 12 16" using parseIPv4_InrD [OF p] by blast
    moreover have "bslice ?r 12 16 = bslice pkt 12 16"
      using b lr by (intro nth_equalityI) (auto intro!: same)
    ultimately show ?thesis by simp
  qed
  have port: "get16 ?r (?h + 2) = port"
  proof -
    have "?r ! (?h + 2) = hi8 port" "?r ! (?h + 2 + 1) = lo8 port"
      using b n [of "?h + 2"] n [of "?h + 2 + 1"] nq [of "?h + 2"] nq [of "?h + 2 + 1"] by simp_all
    then show ?thesis by (simp only: get16_def be16_hi_lo)
  qed
  have oport: "get16 ?r (?h) = srcPort p"
  proof -
    have "srcPort p = get16 pkt (?h)" using parseIPv4_InrD [OF p] by blast
    moreover have "get16 ?r (?h) = get16 pkt (?h)"
      using b by (intro get16_cong) (auto intro!: same)
    ultimately show ?thesis by simp
  qed
  show "accepted (rewriteDest pkt p ip port) (p\<lparr>dstIP := To4 ip, dstPort := port\<rparr>)"
    using headerValid_refresh [OF shq, folded r] l4Valid_refresh [OF shq, folded r] parse
    unfolding accepted_def addr other port oport by simp
qed

lemma payloadOffset_bounds:
  assumes "parseIPv4 pkt = Inr p"
  shows "ckOff p + 2 \<le> payloadOffset p" "headerLen p + 8 \<le> payloadOffset p" "totalLen p \<le> length pkt"
    "l4Offset p = headerLen p" "20 \<le> headerLen p" "payloadOffset p \<le> totalLen p"
  using parseIPv4_InrD [OF assms] parseIPv4_l4D [OF assms] by (auto simp: ckOff_def)

lemma payload_cong:
  assumes "length pkt' = length pkt" "totalLen p \<le> length pkt"
    "\<And>i. payloadOffset p \<le> i \<Longrightarrow> i < totalLen p \<Longrightarrow> pkt' ! i = pkt ! i"
  shows "payload p pkt' = payload p pkt"
  using assms by (auto simp: payload_def intro!: nth_equalityI)

lemma rewriteSource_payload:
  assumes p: "parseIPv4 pkt = Inr p" and ip: "length (To4 ip) = 4"
  shows "payload p (rewriteSource pkt p ip port) = payload p pkt"
  using payloadOffset_bounds [OF p]
  by (intro payload_cong rewriteSource_length [OF p ip] rewriteSource_nth [OF p ip]) auto

lemma rewriteDest_payload:
  assumes p: "parseIPv4 pkt = Inr p" and ip: "length (To4 ip) = 4"
  shows "payload p (rewriteDest pkt p ip port) = payload p pkt"
  using payloadOffset_bounds [OF p]
  by (intro payload_cong rewriteDest_length [OF p ip] rewriteDest_nth [OF p ip]) auto


section \<open>Builders\<close>

lemma replicate_frame:
  "replicate (20 + 20 + n) (0 :: byte) = [0,0,0,0,0,0,0,0,0,0,0,0,0,0,0,0,0,0,0,0,0,0,0,0,0,0,0,0,0,0,0,0,0,0,0,0,0,0,0,0] @ replicate n 0"
  "replicate (20 + (8 + n)) (0 :: byte) = [0,0,0,0,0,0,0,0,0,0,0,0,0,0,0,0,0,0,0,0,0,0,0,0,0,0,0,0] @ replicate n 0"
  unfolding replicate_add by (simp_all add: numeral_eq_Suc)

definition ipHeader :: "bytes \<Rightarrow> bytes \<Rightarrow> byte \<Rightarrow> u16 \<Rightarrow> bytes" where
  "ipHeader src dst pr tlen =
     [0x45, 0, hi8 tlen, lo8 tlen, 0, 0, 0, 0, 64, pr, 0, 0] @ To4 src @ To4 dst"

definition tcpHeader :: "u16 \<Rightarrow> u16 \<Rightarrow> byte \<Rightarrow> u32 \<Rightarrow> u32 \<Rightarrow> u16 \<Rightarrow> bytes" where
  "tcpHeader sport dport flags sq ak window =
     [hi8 sport, lo8 sport, hi8 dport, lo8 dport,
      byte_at sq 24, byte_at sq 16, byte_at sq 8, byte_at sq 0,
      byte_at ak 24, byte_at ak 16, byte_at ak 8, byte_at ak 0,
      0x50, flags, hi8 window, lo8 window, 0, 0, 0, 0]"

definition udpHeader :: "u16 \<Rightarrow> u16 \<Rightarrow> u16 \<Rightarrow> bytes" where
  "udpHeader sport dport ulen = [hi8 sport, lo8 sport, hi8 dport, lo8 dport, hi8 ulen, lo8 ulen, 0, 0]"

abbreviation frameInfo :: "byte \<Rightarrow> nat \<Rightarrow> parsedPacket" where
  "frameInfo pr tlen \<equiv> \<lparr>headerLen = 20, totalLen = tlen, proto = pr, srcIP = [], dstIP = [],
     srcPort = 0, dstPort = 0, tcpSeq = 0, tcpAck = 0, tcpFlags = 0, tcpWindow = 0,
     tcpDataOff = 0, l4Offset = 20, payloadOffset = 0\<rparr>"

lemma buildTCPPacket_eq:
  assumes s: "length (To4 src) = 4" and d: "length (To4 dst) = 4" 
  shows "buildTCPPacket src dst sport dport data flags sq ak window = 
    refresh (ipHeader src dst 6 (of_nat (20 + 20 + length data)) @ 
       tcpHeader sport dport flags sq ak window @ data) (frameInfo 6 (20 + 20 + length data))"
proof -
  define w :: u16 where "w = of_nat (20 + 20 + length data)"
  obtain s0 s1 s2 s3 where s: "To4 src = [s0, s1, s2, s3]" by (rule length_4E [OF s])
  obtain d0 d1 d2 d3 where d: "To4 dst = [d0, d1, d2, d3]" by (rule length_4E [OF d])
  have o: "push_bit 4 (of_nat (20 div 4)) = (0x50 :: byte)" by simp
  show ?thesis
  unfolding buildTCPPacket_def Let_def recalcL4Checksum_def w_def [symmetric] replicate_frame ipHeader_def tcpHeader_def s d o
  by (simp add: put16_def put32_def copy_at_def splice_def bslice_def)
qed

lemma buildUDPPacket_eq:
  assumes s: "length (To4 src) = 4" and d: "length (To4 dst) = 4"
  shows "buildUDPPacket src dst sport dport data =
    refresh (ipHeader src dst 17 (of_nat (20 + (8 + length data))) @
       udpHeader sport dport (of_nat (8 + length data)) @ data) (frameInfo 17 (20 + (8 + length data)))"
proof -
  define w :: u16 where "w = of_nat (20 + (8 + length data))"
  define v :: u16 where "v = of_nat (8 + length data)"
  obtain s0 s1 s2 s3 where s: "To4 src = [s0, s1, s2, s3]" by (rule length_4E [OF s])
  obtain d0 d1 d2 d3 where d: "To4 dst = [d0, d1, d2, d3]" by (rule length_4E [OF d])
  show ?thesis
    unfolding buildUDPPacket_def Let_def recalcL4Checksum_def w_def [symmetric] v_def [symmetric]
      replicate_frame ipHeader_def udpHeader_def s d
    by (simp add: put16_def put32_def copy_at_def splice_def bslice_def)
qed

text \<open>What the builders' checksum pass leaves unchanged: everything but the checksum bytes.\<close>

lemma frame_facts:
  assumes q: "pkt = refresh q (frameInfo pr tlen)" and l: "length q = tlen" "tlen \<le> 65535"
    and pr: "pr = 6 \<and> 40 \<le> tlen \<or> pr = 17 \<and> 28 \<le> tlen"
  shows frame_length: "length pkt = tlen"
    and frame_nth: "i < tlen \<Longrightarrow> i \<notin> {10, 11, if pr = 6 then 36 else 26, if pr = 6 then 37 else 27} \<Longrightarrow> pkt ! i = q ! i"
    and frame_valid: "headerValid (bslice pkt 0 20)"
    and frame_l4: "l4Valid pkt (frameInfo pr tlen)"
proof -
  have sh: "l4Shape q (frameInfo pr tlen)" using l pr by (auto simp: l4Shape_def)
  show "length pkt = tlen" using length_refresh [OF sh] l q by simp
  show "headerValid (bslice pkt 0 20)" using headerValid_refresh [OF sh] q by simp
  show "l4Valid pkt (frameInfo pr tlen)" using l4Valid_refresh [OF sh] q by simp
  show "pkt ! i = q ! i" if "i < tlen" "i \<notin> {10, 11, if pr = 6 then 36 else 26, if pr = 6 then 37 else 27}" for i
    using nth_refresh [OF sh, of i] that l q by (auto simp: ckOff_def split: if_splits)
qed

lemma buildTCPPacket_correct:
  assumes s: "length (To4 src) = 4" and d: "length (To4 dst) = 4" and n: "40 + length data \<le> 65535"
  shows "accepted (buildTCPPacket src dst sport dport data flags sq ak window)
           \<lparr>headerLen = 20, totalLen = 40 + length data, proto = 6, srcIP = To4 src, dstIP = To4 dst,
            srcPort = sport, dstPort = dport, tcpSeq = sq, tcpAck = ak, tcpFlags = flags,
            tcpWindow = window, tcpDataOff = 20, l4Offset = 20, payloadOffset = 40\<rparr>"
    and "bslice (buildTCPPacket src dst sport dport data flags sq ak window) 40 (40 + length data) = data"
proof -
  let ?q = "ipHeader src dst 6 (of_nat (20 + 20 + length data)) @
       tcpHeader sport dport flags sq ak window @ data"
  let ?n = "20 + 20 + length data"
  let ?r = "buildTCPPacket src dst sport dport data flags sq ak window"
  obtain s0 s1 s2 s3 where S: "To4 src = [s0, s1, s2, s3]" by (rule length_4E [OF s])
  obtain d0 d1 d2 d3 where D: "To4 dst = [d0, d1, d2, d3]" by (rule length_4E [OF d])
  have r: "?r = refresh ?q (frameInfo 6 ?n)" by (rule buildTCPPacket_eq [OF s d])
  have lq: "length ?q = ?n" by (simp add: ipHeader_def tcpHeader_def S D)
  note f = frame_facts [OF r lq]
  have lr: "length ?r = ?n" using n by (intro f(1)) auto
  have nth: "?r ! i = ?q ! i" if "i < ?n" "i \<notin> {10, 11, 36, 37}" for i
    using that n by (intro f(2)) auto
  have w: "unat (of_nat ?n :: u16) = ?n" by (subst unat_of_nat) (use n in simp)
  have "get16 ?r 2 = of_nat ?n"
    by (rule get16_value) (simp_all add: nth ipHeader_def)
  with w have g2: "unat (get16 ?r 2) = ?n" by metis
  have a: "bslice ?r 12 16 = To4 src" "bslice ?r 16 20 = To4 dst"
    using lr by (simp_all add: bslice_4 S D nth ipHeader_def)
  have "parseIPv4 ?r = Inr \<lparr>headerLen = 20, totalLen = ?n, proto = 6, srcIP = bslice ?r 12 16,
      dstIP = bslice ?r 16 20, srcPort = get16 ?r 20, dstPort = get16 ?r (20 + 2),
      tcpSeq = get32 ?r (20 + 4), tcpAck = get32 ?r (20 + 8), tcpFlags = ?r ! (20 + 13),
      tcpWindow = get16 ?r (20 + 14), tcpDataOff = 20, l4Offset = 20, payloadOffset = 20 + 20\<rparr>"
    by (rule parseIPv4_TCP) (simp_all add: lr g2 nth ipHeader_def tcpHeader_def S D)
  moreover have "get16 ?r 20 = sport" "get16 ?r (20 + 2) = dport" "get16 ?r (20 + 14) = window"
    by (rule get16_value; simp add: nth ipHeader_def tcpHeader_def S D)+
  moreover have "get32 ?r (20 + 4) = sq" "get32 ?r (20 + 8) = ak"
    by (rule get32_value; simp add: nth ipHeader_def tcpHeader_def S D)+
  moreover have "?r ! (20 + 13) = flags" by (simp add: nth ipHeader_def tcpHeader_def S D)
  ultimately show "accepted ?r
           \<lparr>headerLen = 20, totalLen = 40 + length data, proto = 6, srcIP = To4 src, dstIP = To4 dst,
            srcPort = sport, dstPort = dport, tcpSeq = sq, tcpAck = ak, tcpFlags = flags,
            tcpWindow = window, tcpDataOff = 20, l4Offset = 20, payloadOffset = 40\<rparr>"
    using f(3,4) n a by (simp add: accepted_def l4Valid_def)
  show "bslice ?r 40 (40 + length data) = data"
    using lr by (auto intro!: nth_equalityI simp: nth ipHeader_def tcpHeader_def S D)
qed


lemma buildUDPPacket_correct:
  assumes s: "length (To4 src) = 4" and d: "length (To4 dst) = 4" and n: "28 + length data \<le> 65535"
  shows "accepted (buildUDPPacket src dst sport dport data)
           \<lparr>headerLen = 20, totalLen = 28 + length data, proto = 17, srcIP = To4 src, dstIP = To4 dst,
            srcPort = sport, dstPort = dport, tcpSeq = 0, tcpAck = 0, tcpFlags = 0,
            tcpWindow = 0, tcpDataOff = 0, l4Offset = 20, payloadOffset = 28\<rparr>"
    and "bslice (buildUDPPacket src dst sport dport data) 28 (28 + length data) = data"
    and "get16 (buildUDPPacket src dst sport dport data) 24 = of_nat (8 + length data)"
proof -
  let ?q = "ipHeader src dst 17 (of_nat (20 + (8 + length data))) @
       udpHeader sport dport (of_nat (8 + length data)) @ data"
  let ?n = "20 + (8 + length data)"
  let ?r = "buildUDPPacket src dst sport dport data"
  obtain s0 s1 s2 s3 where S: "To4 src = [s0, s1, s2, s3]" by (rule length_4E [OF s])
  obtain d0 d1 d2 d3 where D: "To4 dst = [d0, d1, d2, d3]" by (rule length_4E [OF d])
  have r: "?r = refresh ?q (frameInfo 17 ?n)" by (rule buildUDPPacket_eq [OF s d])
  have lq: "length ?q = ?n" by (simp add: ipHeader_def udpHeader_def S D)
  note f = frame_facts [OF r lq]
  have lr: "length ?r = ?n" using n by (intro f(1)) auto
  have nth: "?r ! i = ?q ! i" if "i < ?n" "i \<notin> {10, 11, 26, 27}" for i
    using that n by (intro f(2)) auto
  have w: "unat (of_nat ?n :: u16) = ?n" by (subst unat_of_nat) (use n in simp)
  have "get16 ?r 2 = of_nat ?n"
    by (rule get16_value) (simp_all add: nth ipHeader_def)
  with w have g2: "unat (get16 ?r 2) = ?n" by metis
  have a: "bslice ?r 12 16 = To4 src" "bslice ?r 16 20 = To4 dst"
    using lr by (simp_all add: bslice_4 S D nth ipHeader_def)
  have "parseIPv4 ?r = Inr \<lparr>headerLen = 20, totalLen = ?n, proto = 17, srcIP = bslice ?r 12 16,
      dstIP = bslice ?r 16 20, srcPort = get16 ?r 20, dstPort = get16 ?r (20 + 2),
      tcpSeq = 0, tcpAck = 0, tcpFlags = 0, tcpWindow = 0, tcpDataOff = 0, l4Offset = 20,
      payloadOffset = 20 + 8\<rparr>"
    by (rule parseIPv4_UDP) (simp_all add: lr g2 nth ipHeader_def udpHeader_def S D)
  moreover have "get16 ?r 20 = sport" "get16 ?r (20 + 2) = dport"
    by (rule get16_value; simp add: nth ipHeader_def udpHeader_def S D)+
  ultimately show "accepted ?r
           \<lparr>headerLen = 20, totalLen = 28 + length data, proto = 17, srcIP = To4 src, dstIP = To4 dst,
            srcPort = sport, dstPort = dport, tcpSeq = 0, tcpAck = 0, tcpFlags = 0,
            tcpWindow = 0, tcpDataOff = 0, l4Offset = 20, payloadOffset = 28\<rparr>"
    using f(3,4) n a by (simp add: accepted_def l4Valid_def)
  show "bslice ?r 28 (28 + length data) = data"
    using lr by (auto intro!: nth_equalityI simp: nth ipHeader_def udpHeader_def S D)
  show "get16 ?r 24 = of_nat (8 + length data)"
    by (rule get16_value) (simp_all add: nth ipHeader_def udpHeader_def S D)
qed

lemma length_buildTCPPacket:
  assumes "length (To4 src) = 4" "length (To4 dst) = 4" "40 + length data \<le> 65535"
  shows "length (buildTCPPacket src dst sport dport data flags sq ak window) = 40 + length data"
proof -
  have "length (buildTCPPacket src dst sport dport data flags sq ak window) = 20 + 20 + length data"
    unfolding buildTCPPacket_eq [OF assms(1,2)]
    by (rule frame_length [OF refl]) (use assms in \<open>auto simp: ipHeader_def tcpHeader_def\<close>)
  then show ?thesis by simp
qed

section \<open>Properties\<close>

text \<open>
  rewriting the source of a parsed packet gives a packet that a receiver accepts (it parses,
  and its IPv4 header checksum and its TCP or UDP checksum hold): every field is the old one
  except the source address and port, which are the new ones, and the payload is unchanged.
\<close>

theorem rewriteSource_correct:
  assumes "parseIPv4 pkt = Inr p" and "length (To4 newIP) = 4"
  shows "accepted (rewriteSource pkt p newIP newPort) (p\<lparr>srcIP := To4 newIP, srcPort := newPort\<rparr>) \<and>
         payload p (rewriteSource pkt p newIP newPort) = payload p pkt \<and>
         length (rewriteSource pkt p newIP newPort) = length pkt"
  using rewriteSource_accepted [OF assms] rewriteSource_payload [OF assms]
    rewriteSource_length [OF assms] by blast

definition sampleDNS :: bytes where
  \<comment> \<open>a UDP packet 10.8.0.2:4000 \<open>\<rightarrow>\<close> 1.1.1.1:53 carrying three bytes\<close>
  "sampleDNS = [0x45, 0, 0, 31, 0, 0, 0, 0, 64, 17, 0x6e, 0xc3, 10, 8, 0, 2, 1, 1, 1, 1,
                0x0f, 0xa0, 0, 53, 0, 11, 0xdf, 0xf5, 1, 2, 3]"

definition sampleInfo :: parsedPacket where
  "sampleInfo = \<lparr>headerLen = 20, totalLen = 31, proto = 17, srcIP = [10, 8, 0, 2],
     dstIP = [1, 1, 1, 1], srcPort = 4000, dstPort = 53, tcpSeq = 0, tcpAck = 0, tcpFlags = 0,
     tcpWindow = 0, tcpDataOff = 0, l4Offset = 20, payloadOffset = 28\<rparr>"

lemma sample_parse: "parseIPv4 sampleDNS = Inr sampleInfo"
  by code_simp

theorem rewriteSource_correct_witness:
  "accepted (rewriteSource sampleDNS sampleInfo [192, 0, 2, 1] 20000)
     (sampleInfo\<lparr>srcIP := [192, 0, 2, 1], srcPort := 20000\<rparr>) \<and>
   payload sampleInfo (rewriteSource sampleDNS sampleInfo [192, 0, 2, 1] 20000) = [1, 2, 3]"
proof -
  have "To4 [192, 0, 2, 1] = [192, 0, 2, 1]" "payload sampleInfo sampleDNS = [1, 2, 3]"
    by code_simp+
  then show ?thesis
    using rewriteSource_correct [OF sample_parse, of "[192, 0, 2, 1]" 20000] by simp
qed

text \<open>
  Rewriting the destination (the return path, towards the client's tunnel address) gives a
  packet that a receiver accepts, with exactly the destination address and port replaced and
  the payload unchanged.
\<close>

theorem rewriteDest_correct:
  assumes "parseIPv4 pkt = Inr p" and "length (To4 newIP) = 4"
  shows "accepted (rewriteDest pkt p newIP newPort) (p\<lparr>dstIP := To4 newIP, dstPort := newPort\<rparr>) \<and>
         payload p (rewriteDest pkt p newIP newPort) = payload p pkt \<and>
         length (rewriteDest pkt p newIP newPort) = length pkt"
  using rewriteDest_accepted [OF assms] rewriteDest_payload [OF assms]
    rewriteDest_length [OF assms] by blast

theorem rewriteDest_correct_witness:
  "accepted (rewriteDest sampleDNS sampleInfo [10, 8, 0, 9] 4001)
     (sampleInfo\<lparr>dstIP := [10, 8, 0, 9], dstPort := 4001\<rparr>) \<and>
   payload sampleInfo (rewriteDest sampleDNS sampleInfo [10, 8, 0, 9] 4001) = [1, 2, 3]"
proof -
  have "To4 [10, 8, 0, 9] = [10, 8, 0, 9]" "payload sampleInfo sampleDNS = [1, 2, 3]"
    by code_simp+
  then show ?thesis
    using rewriteDest_correct [OF sample_parse, of "[10, 8, 0, 9]" 4001] by simp
qed

text \<open>
  The TCP packets that the relay synthesises (SYN-ACK, data and FIN segments) parse back to
  the addresses, ports, sequence numbers, flags and window they were built from, carry the
  payload, and pass both checksum verifications, for every payload that fits an IPv4 packet.
\<close>

theorem buildTCPPacket_roundtrip:
  assumes "length (To4 src) = 4" and "length (To4 dst) = 4" and "40 + length data \<le> 65535"
  shows "\<exists>p. accepted (buildTCPPacket src dst sport dport data flags sq ak window) p \<and>
           srcIP p = To4 src \<and> dstIP p = To4 dst \<and> proto p = 6 \<and> srcPort p = sport \<and>
           dstPort p = dport \<and> tcpSeq p = sq \<and> tcpAck p = ak \<and> tcpFlags p = flags \<and>
           tcpWindow p = window \<and>
           payload p (buildTCPPacket src dst sport dport data flags sq ak window) = data"
  by (rule exI, intro conjI, rule buildTCPPacket_correct(1) [OF assms])
     (simp_all add: payload_def buildTCPPacket_correct(2) [OF assms])

theorem buildTCPPacket_roundtrip_witness:
  "\<exists>p. accepted (buildTCPPacket [1, 1, 1, 1] [10, 8, 0, 2] 443 4000 [7, 8] 24 100 200 65535) p \<and>
     payload p (buildTCPPacket [1, 1, 1, 1] [10, 8, 0, 2] 443 4000 [7, 8] 24 100 200 65535) = [7, 8]"
proof -
  have "length (To4 [1, 1, 1, 1]) = 4" "length (To4 [10, 8, 0, 2]) = 4"
    "40 + length [7 :: byte, 8] \<le> 65535"
    by (simp_all add: To4_def)
  from buildTCPPacket_roundtrip [OF this] show ?thesis by blast
qed

text \<open>
  The UDP packets that the relay synthesises (return datagrams and intercepted DNS answers)
  parse back to the addresses and ports they were built from, announce the right UDP length,
  carry the payload, and pass both checksum verifications.
\<close>

theorem buildUDPPacket_roundtrip:
  assumes "length (To4 src) = 4" and "length (To4 dst) = 4" and "28 + length data \<le> 65535"
  shows "\<exists>p. accepted (buildUDPPacket src dst sport dport data) p \<and>
           srcIP p = To4 src \<and> dstIP p = To4 dst \<and> proto p = 17 \<and> srcPort p = sport \<and>
           dstPort p = dport \<and> payload p (buildUDPPacket src dst sport dport data) = data \<and>
           get16 (buildUDPPacket src dst sport dport data) (l4Offset p + 4) = of_nat (8 + length data)"
  by (rule exI, intro conjI, rule buildUDPPacket_correct(1) [OF assms])
     (use buildUDPPacket_correct(3) [OF assms] in
       \<open>simp_all add: payload_def buildUDPPacket_correct(2) [OF assms]\<close>)

theorem buildUDPPacket_roundtrip_witness:
  "\<exists>p. accepted (buildUDPPacket [1, 1, 1, 1] [10, 8, 0, 2] 53 4000 [1, 2, 3]) p \<and>
     payload p (buildUDPPacket [1, 1, 1, 1] [10, 8, 0, 2] 53 4000 [1, 2, 3]) = [1, 2, 3]"
proof -
  have "length (To4 [1, 1, 1, 1]) = 4" "length (To4 [10, 8, 0, 2]) = 4"
    "28 + length [1 :: byte, 2, 3] \<le> 65535"
    by (simp_all add: To4_def)
  from buildUDPPacket_roundtrip [OF this] show ?thesis by blast
qed

end
