(* ===== verification/NatTable_Props.thy ===== *)
theory NatTable_Props
  imports NatTable Packet_Props
begin

text \<open>
  Correctness of the NAT table: the invariant of its reachable states, isolation of flows and
  sessions, the round trip through \<open>Translate\<close> and \<open>Reverse\<close>, expiry, and the TCP forwarding.
\<close>

named_theorems nat_frame \<comment> \<open>operations that leave the lookup tables alone\<close>

section \<open>Injectivity of the lookup key\<close>

lemma tupleKey_slots:
  assumes "tupleKey s1 a1 p1 b1 q1 r1 = tupleKey s2 a2 p2 b2 q2 r2"
    and "length (To4 a1) = 4" "length (To4 a2) = 4" "length (To4 b1) = 4" "length (To4 b2) = 4"
  shows "s1 = s2 \<and> To4 a1 = To4 a2 \<and> p1 = p2 \<and> To4 b1 = To4 b2 \<and> q1 = q2 \<and> r1 = r2"
proof -
  define hx where "hx ip = hex02 (To4 ip ! 0) @ hex02 (To4 ip ! 1) @ hex02 (To4 ip ! 2) @ hex02 (To4 ip ! 3)" for ip
  define mid where "mid a p b q = hx a @ '':'' @ showNat (unat p) @ ''>'' @ hx b @ '':'' @ showNat (unat q)"
    for a b :: bytes and p q :: u16
  have key: "tupleKey s a p b q r = (s @ ''/'' @ mid a p b q) @ CHR ''/'' # showNat (unat r)" for s a p b q r
    by (simp add: tupleKey_def Let_def mid_def hx_def)
  have num: "CHR ''/'' \<notin> set (showNat k)" "CHR '':'' \<notin> set (showNat k)" "CHR ''>'' \<notin> set (showNat k)" for k
    by (rule not_in_showNat; simp add: isDigit_def)+
  have hex: "CHR ''/'' \<notin> set (hx ip)" "CHR '':'' \<notin> set (hx ip)" "CHR ''>'' \<notin> set (hx ip)" for ip
    by (auto simp: hx_def isHexLower_def isDigit_def dest!: hex02_isHex)
  have nosl: "CHR ''/'' \<notin> set (mid a p b q)" for a p b q
    by (simp add: mid_def num hex)
  have hxinj: "To4 a = To4 b" if h: "hx a = hx b" "length (To4 a) = 4" "length (To4 b) = 4" for a b
  proof -
    obtain w x y z where a: "To4 a = [w, x, y, z]" by (rule length_4E [OF h(2)])
    obtain w' x' y' z' where b: "To4 b = [w', x', y', z']" by (rule length_4E [OF h(3)])
    from h(1) have "hexEncode [w, x, y, z] = hexEncode [w', x', y', z']"
      by (simp add: hx_def a b hexEncode_def)
    then show ?thesis by (simp add: a b)
  qed
  from assms(1) have "(s1 @ ''/'' @ mid a1 p1 b1 q1) @ CHR ''/'' # showNat (unat r1) =
      (s2 @ ''/'' @ mid a2 p2 b2 q2) @ CHR ''/'' # showNat (unat r2)"
    by (simp only: key)
  then have 0: "s1 @ ''/'' @ mid a1 p1 b1 q1 = s2 @ ''/'' @ mid a2 p2 b2 q2 \<and>
      showNat (unat r1) = showNat (unat r2)"
    by (rule last_field_inject) (rule num)+
  then have r: "showNat (unat r1) = showNat (unat r2)" by blast
  from 0 have "s1 @ CHR ''/'' # mid a1 p1 b1 q1 = s2 @ CHR ''/'' # mid a2 p2 b2 q2" by simp
  then have "s1 = s2 \<and> mid a1 p1 b1 q1 = mid a2 p2 b2 q2"
    by (rule last_field_inject) (rule nosl)+
  then have s: "s1 = s2" and m: "mid a1 p1 b1 q1 = mid a2 p2 b2 q2" by blast+
  from m have a: "hx a1 = hx a2" and
    m2: "showNat (unat p1) @ CHR ''>'' # hx b1 @ '':'' @ showNat (unat q1) =
      showNat (unat p2) @ CHR ''>'' # hx b2 @ '':'' @ showNat (unat q2)"
    using first_field_inject [of "hx a1" "CHR '':''" _ "hx a2"] hex(2) by (simp_all add: mid_def)
  from m2 have p: "showNat (unat p1) = showNat (unat p2)" and
    m3: "hx b1 @ CHR '':'' # showNat (unat q1) = hx b2 @ CHR '':'' # showNat (unat q2)"
    using first_field_inject [OF m2 num(3) num(3)] by simp_all
  from m3 have b: "hx b1 = hx b2" and q: "showNat (unat q1) = showNat (unat q2)"
    using first_field_inject [OF m3 hex(2) hex(2)] by simp_all
  show ?thesis
    using s a p b q r hxinj assms(2-) by (simp add: word_unat_eq_iff)
qed

section \<open>The invariant\<close>

definition entryOk :: "nat_state \<Rightarrow> nat \<Rightarrow> bool" where
  "entryOk n i \<longleftrightarrow> (let e = heap n i in
     length (eSrcIP e) = 4 \<and> length (eDstIP e) = 4 \<and> (eProto e = 6 \<or> eProto e = 17) \<and>
     \<not> isBlockedIP (eDstIP e))"

definition keyOf :: "natEntry \<Rightarrow> string" where
  "keyOf e = tupleKey (session e) (eSrcIP e) (eSrcPort e) (eDstIP e) (eDstPort e) (eProto e)"

definition portOf :: "nat_state \<Rightarrow> nat \<Rightarrow> u16" where
  "portOf n i = natPort (heap n i)"

definition natInv :: "nat_state \<Rightarrow> bool" where
  "natInv n \<longleftrightarrow>
     distinct (map fst (byTuple n)) \<and>
     (\<forall>(k, i) \<in> set (byTuple n). i < nextEntry n \<and> k = keyOf (heap n i)) \<and>
     (\<forall>i < nextEntry n. entryOk n i) \<and>
     (\<forall>port i. byNATPort n port = Some i \<longleftrightarrow> (\<exists>k. (k, i) \<in> set (byTuple n) \<and> portOf n i = port)) \<and>
     pp.leases (byTuple n) (portOf n) (pool n) \<and>
     allocated (pool n) \<union> set (free (pool n)) = {10000..60000} \<and>
     entriesCount n = int (length (byTuple n)) \<and> portsUsed n = int (length (byTuple n)) \<and>
     (\<forall>(c, d) \<in> set (written n). c < nextEntry n) \<and>
     (\<forall>i. conn (heap n i) = None \<or> conn (heap n i) = Some i \<and> i < nextEntry n) \<and>
     length (relayIP n) = 4"

lemma natInvI:
  assumes "distinct (map fst (byTuple n))"
    and "\<And>k i. (k, i) \<in> set (byTuple n) \<Longrightarrow> i < nextEntry n \<and> k = keyOf (heap n i)"
    and "\<And>i. i < nextEntry n \<Longrightarrow> entryOk n i"
    and "\<And>port i. byNATPort n port = Some i \<longleftrightarrow> (\<exists>k. (k, i) \<in> set (byTuple n) \<and> portOf n i = port)"
    and "pp.leases (byTuple n) (portOf n) (pool n)"
    and "allocated (pool n) \<union> set (free (pool n)) = {10000..60000}"
    and "entriesCount n = int (length (byTuple n))" and "portsUsed n = int (length (byTuple n))"
    and "\<And>c d. (c, d) \<in> set (written n) \<Longrightarrow> c < nextEntry n"
    and "\<And>i. conn (heap n i) = None \<or> conn (heap n i) = Some i \<and> i < nextEntry n"
    and "length (relayIP n) = 4"
  shows "natInv n"
  unfolding natInv_def using assms by (intro conjI) blast+

lemma natInvD:
  assumes "natInv n"
  shows "distinct (map fst (byTuple n))"
    and "(k, i) \<in> set (byTuple n) \<Longrightarrow> i < nextEntry n"
    and "(k, i) \<in> set (byTuple n) \<Longrightarrow> k = keyOf (heap n i)"
    and "i < nextEntry n \<Longrightarrow> entryOk n i"
    and "byNATPort n port = Some i \<longleftrightarrow> (\<exists>k. (k, i) \<in> set (byTuple n) \<and> portOf n i = port)"
    and "pp.leases (byTuple n) (portOf n) (pool n)"
    and "allocated (pool n) \<union> set (free (pool n)) = {10000..60000}"
    and "entriesCount n = int (length (byTuple n))" and "portsUsed n = int (length (byTuple n))"
    and "(c, d) \<in> set (written n) \<Longrightarrow> c < nextEntry n"
    and "conn (heap n i) = None \<or> conn (heap n i) = Some i \<and> i < nextEntry n"
    and "length (relayIP n) = 4"
  using assms unfolding natInv_def by blast+

lemma natInv_port_inj:
  assumes "natInv n" "(k, i) \<in> set (byTuple n)" "(k', j) \<in> set (byTuple n)" "portOf n i = portOf n j"
  shows "(k, i) = (k', j)"
proof -
  have "distinct (map (portOf n \<circ> snd) (byTuple n))"
    using natInvD(6) [OF assms(1)] by (simp add: pp.leases_def)
  then have "inj_on (portOf n \<circ> snd) (set (byTuple n))" by (simp add: distinct_map)
  from inj_onD [OF this _ assms(2,3)] show ?thesis using assms(4) by simp
qed

text \<open>What an operation may change without touching the tables.\<close>

definition static :: "natEntry \<Rightarrow> sessionID \<times> bytes \<times> bytes \<times> u16 \<times> u16 \<times> u16 \<times> byte" where
  "static e = (session e, eSrcIP e, eDstIP e, eSrcPort e, eDstPort e, natPort e, eProto e)"

definition frame :: "nat_state \<Rightarrow> nat_state \<Rightarrow> bool" where
  "frame n n' \<longleftrightarrow>
     byTuple n' = byTuple n \<and> byNATPort n' = byNATPort n \<and> pool n' = pool n \<and>
     nextEntry n' = nextEntry n \<and> entriesCount n' = entriesCount n \<and> portsUsed n' = portsUsed n \<and>
     relayIP n' = relayIP n \<and> stopped n' = stopped n \<and>
     (\<forall>i. static (heap n' i) = static (heap n i) \<and> conn (heap n' i) = conn (heap n i)) \<and>
     (\<forall>c d. (c, d) \<in> set (written n') \<longrightarrow> (c, d) \<in> set (written n) \<or> (\<exists>i. conn (heap n i) = Some c))"

lemma frame_refl [nat_frame, simp]: "frame n n"
  by (simp add: frame_def)

lemma frame_trans [trans]: "frame a b \<Longrightarrow> frame b c \<Longrightarrow> frame a c"
  unfolding frame_def by metis

lemma frame_modEntry [nat_frame]:
  "frame n m \<Longrightarrow> (\<And>e. static (f e) = static e \<and> conn (f e) = conn e) \<Longrightarrow> frame n (modEntry m i f)"
  by (auto simp: frame_def modEntry_def)

lemma frame_sendToSession [nat_frame]: "frame n m \<Longrightarrow> frame n (sendToSession m s pkt)"
  by (auto simp: frame_def sendToSession_def split: option.splits)

lemma frame_closeConn [nat_frame]: "frame n m \<Longrightarrow> frame n (closeConn m i)"
  by (auto simp: frame_def closeConn_def split: option.splits)

lemma frame_static:
  assumes "frame n n'"
  shows "keyOf (heap n' i) = keyOf (heap n i)" "portOf n' i = portOf n i" "entryOk n' i = entryOk n i"
    "session (heap n' i) = session (heap n i)" "eProto (heap n' i) = eProto (heap n i)"
    "eSrcIP (heap n' i) = eSrcIP (heap n i)" "eSrcPort (heap n' i) = eSrcPort (heap n i)"
proof -
  have "static (heap n' i) = static (heap n i)" using assms by (simp add: frame_def)
  then show "keyOf (heap n' i) = keyOf (heap n i)" "portOf n' i = portOf n i" "entryOk n' i = entryOk n i"
    "session (heap n' i) = session (heap n i)" "eProto (heap n' i) = eProto (heap n i)"
    "eSrcIP (heap n' i) = eSrcIP (heap n i)" "eSrcPort (heap n' i) = eSrcPort (heap n i)"
    by (simp_all add: static_def keyOf_def portOf_def entryOk_def Let_def)
qed

lemma natInv_frame:
  assumes "natInv n" and "frame n n'"
  shows "natInv n'"
proof -
  note f = assms(2) [unfolded frame_def]
  have eq: "byTuple n' = byTuple n" "byNATPort n' = byNATPort n" "pool n' = pool n"
    "nextEntry n' = nextEntry n" "entriesCount n' = entriesCount n" "portsUsed n' = portsUsed n"
    "relayIP n' = relayIP n"
    using f by blast+
  have st: "portOf n' = portOf n" by (rule ext) (rule frame_static [OF assms(2)])
  show ?thesis
  proof (rule natInvI)
    fix c d assume "(c, d) \<in> set (written n')"
    then have "(c, d) \<in> set (written n) \<or> (\<exists>i. conn (heap n i) = Some c)" using f by blast
    then show "c < nextEntry n'"
      using natInvD(10) [OF assms(1)] natInvD(11) [OF assms(1)] eq(4)
      by (metis option.distinct(1) option.inject)
  next
    fix i show "conn (heap n' i) = None \<or> conn (heap n' i) = Some i \<and> i < nextEntry n'"
      using f natInvD(11) [OF assms(1), of i] by metis
  qed (use natInvD(1-9,12) [OF assms(1)] in \<open>simp_all add: eq st frame_static [OF assms(2)]\<close>)
qed

section \<open>The forwarding operations only write to sockets and queues\<close>

lemma frame_connWrite:
  assumes "conn (heap n i) = Some c"
  shows "frame n (snd (connWrite env n c d))"
  using assms by (auto simp: connWrite_def frame_def)

lemma frame_forwardTCPData [nat_frame]: "frame n (forwardTCPData env n i p pkt)"
proof (cases "conn (heap n i)")
  case (Some c)
  obtain ok m where w: "connWrite env n c (payload p pkt) = (ok, m)" by fastforce
  then have "frame n m" using frame_connWrite [OF Some, of env "payload p pkt"] by simp
  then show ?thesis
    by (cases ok) (simp_all add: forwardTCPData_def Let_def Some w nat_frame static_def)
qed (simp add: forwardTCPData_def Let_def)

lemma frame_forwardUDPData [nat_frame]: "frame n (forwardUDPData env n i p pkt)"
  by (auto simp: forwardUDPData_def Let_def intro: frame_connWrite split: option.splits)

lemma frame_handleTCPPacket [nat_frame]: "frame n (handleTCPPacket env n i p pkt)"
  by (simp add: handleTCPPacket_def Let_def nat_frame static_def)

lemma frame_forwardNew [nat_frame]: "frame n (forwardNew env n i p pkt)"
  by (simp add: forwardNew_def frame_forwardTCPData frame_forwardUDPData)

lemma frame_forwardExisting [nat_frame]: "frame n (forwardExisting env n i p pkt)"
  by (simp add: forwardExisting_def frame_handleTCPPacket frame_forwardUDPData)

lemma frame_tcpReverseStep [nat_frame]: "frame n (tcpReverseStep env n i data err)"
  by (simp add: tcpReverseStep_def Let_def nat_frame static_def)

lemma frame_tcpReverseLoop [nat_frame]: "frame n (tcpReverseLoop n i rs)"
  by (induction n i rs rule: tcpReverseLoop.induct)
     (auto simp: Let_def intro: frame_trans frame_tcpReverseStep)

lemma frame_udpReverseStep [nat_frame]: "frame n (udpReverseStep env n i data)"
  by (simp add: udpReverseStep_def Let_def nat_frame static_def)

lemma frame_udpReverseLoop [nat_frame]: "frame n (udpReverseLoop n i rs)"
  by (induction n i rs rule: udpReverseLoop.induct)
     (auto simp: Let_def intro: frame_trans frame_udpReverseStep)

lemma frame_Reverse [nat_frame]: "frame n (snd (Reverse env n pkt))"
  by (auto simp: Reverse_def Let_def static_def intro!: frame_modEntry split: sum.splits option.splits)

lemma frame_tryDNSIntercept [nat_frame]: "frame n (snd (tryDNSIntercept r n s pkt))"
  by (auto simp: tryDNSIntercept_def frame_sendToSession split: sum.splits option.splits)

section \<open>Eviction\<close>

lemma closeConn_fields [simp]:
  "byTuple (closeConn n i) = byTuple n" "byNATPort (closeConn n i) = byNATPort n"
  "pool (closeConn n i) = pool n" "heap (closeConn n i) = heap n" "nextEntry (closeConn n i) = nextEntry n"
  "entriesCount (closeConn n i) = entriesCount n" "portsUsed (closeConn n i) = portsUsed n"
  "relayIP (closeConn n i) = relayIP n" "stopped (closeConn n i) = stopped n"
  "written (closeConn n i) = written n" "sessions (closeConn n i) = sessions n"
  "chans (closeConn n i) = chans n" "doneClosed (closeConn n i) = doneClosed n"
  "nextChan (closeConn n i) = nextChan n"
  by (simp_all add: closeConn_def split: option.splits)

lemma evictEntry_fields [simp]:
  "byTuple (evictEntry n k i) = filter (\<lambda>x. fst x \<noteq> k) (byTuple n)"
  "byNATPort (evictEntry n k i) = (byNATPort n)(portOf n i := None)"
  "pool (evictEntry n k i) = release (pool n) (portOf n i)"
  "heap (evictEntry n k i) = heap n" "nextEntry (evictEntry n k i) = nextEntry n"
  "entriesCount (evictEntry n k i) = entriesCount n - 1"
  "portsUsed (evictEntry n k i) = portsUsed n - 1"
  "relayIP (evictEntry n k i) = relayIP n" "stopped (evictEntry n k i) = stopped n"
  "written (evictEntry n k i) = written n" "sessions (evictEntry n k i) = sessions n"
  "chans (evictEntry n k i) = chans n" "doneClosed (evictEntry n k i) = doneClosed n"
  by (simp_all add: evictEntry_def Let_def portOf_def closeConn_def split: option.splits)

lemma natInv_evict:
  assumes inv: "natInv n" and mem: "(k, i) \<in> set (byTuple n)"
  shows "natInv (evictEntry n k i)"
proof (rule natInvI)
  let ?n = "evictEntry n k i"
  note d = natInvD [OF inv]
  have po: "portOf ?n = portOf n" by (rule ext) (simp add: portOf_def)
  show "distinct (map fst (byTuple ?n))" using d(1) by (simp add: distinct_map_filter)
  show "pp.leases (byTuple ?n) (portOf ?n) (pool ?n)"
    unfolding po using pp.leases_remove [OF d(6) mem d(1)] by simp
  show "allocated (pool ?n) \<union> set (free (pool ?n)) = {10000..60000}"
    using d(6,7) pp.range_rel [of "pool n" "portOf n i"] by (simp add: pp.leases_def)
  show "byNATPort ?n port = Some j \<longleftrightarrow> (\<exists>k'. (k', j) \<in> set (byTuple ?n) \<and> portOf ?n j = port)" for port j
  proof (cases "port = portOf n i")
    case True
    have "(k', j) \<in> set (byTuple n) \<Longrightarrow> portOf n j = port \<Longrightarrow> k' = k" for k'
      using natInv_port_inj [OF inv _ mem] True by blast
    then show ?thesis using True unfolding po by auto
  next
    case False
    have "(k', j) \<in> set (byTuple n) \<Longrightarrow> k' = k \<Longrightarrow> j = i" for k'
      using eq_key_imp_eq_value [OF d(1) _ mem] by blast
    then show ?thesis using False d(5) [of port j] unfolding po by auto
  qed
  show "entriesCount ?n = int (length (byTuple ?n))" "portsUsed ?n = int (length (byTuple ?n))"
    using d(8,9) length_filter_key [OF d(1) mem] by simp_all
qed (use natInvD(2-4,10-12) [OF inv] in \<open>auto simp: entryOk_def\<close>)

text \<open>A range over the table with an evicting callback keeps exactly the entries that fail the test.\<close>

lemma evictIf_facts:
  assumes "natInv n" and "set kvs \<subseteq> set (byTuple n)" and "distinct (map fst kvs)"
  shows "natInv (evictIf P kvs n) \<and>
    byTuple (evictIf P kvs n) = filter (\<lambda>x. x \<in> set kvs \<longrightarrow> \<not> P (heap n (snd x))) (byTuple n) \<and>
    heap (evictIf P kvs n) = heap n \<and> nextEntry (evictIf P kvs n) = nextEntry n \<and>
    sessions (evictIf P kvs n) = sessions n \<and> chans (evictIf P kvs n) = chans n \<and>
    relayIP (evictIf P kvs n) = relayIP n \<and> stopped (evictIf P kvs n) = stopped n \<and>
    written (evictIf P kvs n) = written n"
  using assms
proof (induction kvs arbitrary: n)
  case Nil
  then show ?case by (simp add: evictIf_def)
next
  case (Cons x kvs)
  obtain k i where x: "x = (k, i)" by fastforce
  have mem: "(k, i) \<in> set (byTuple n)" and sub: "set kvs \<subseteq> set (byTuple n)"
    and dist: "distinct (map fst kvs)" and fresh: "k \<notin> fst ` set kvs"
    using Cons.prems x by auto
  let ?m = "if P (heap n i) then evictEntry n k i else n"
  have step: "evictIf P (x # kvs) n = evictIf P kvs ?m" by (simp add: evictIf_def x)
  have inv: "natInv ?m" using natInv_evict [OF Cons.prems(1) mem] Cons.prems(1) by simp
  have sub': "set kvs \<subseteq> set (byTuple ?m)" using sub fresh by (auto simp: rev_image_eqI)
  note IH = Cons.IH [OF inv sub' dist]
  have key: "y = (k, i)" if "y \<in> set (byTuple n)" "fst y = k" for y
    using distinct_key_unique [OF natInvD(1) [OF Cons.prems(1)] mem that] .
  have "filter (\<lambda>y. y \<in> set kvs \<longrightarrow> \<not> P (heap ?m (snd y))) (byTuple ?m) =
      filter (\<lambda>y. y \<in> set (x # kvs) \<longrightarrow> \<not> P (heap n (snd y))) (byTuple n)"
  proof (cases "P (heap n i)")
    case True
    have "filter (\<lambda>y. (y \<in> set kvs \<longrightarrow> \<not> P (heap n (snd y))) \<and> fst y \<noteq> k) (byTuple n) =
        filter (\<lambda>y. y \<in> set (x # kvs) \<longrightarrow> \<not> P (heap n (snd y))) (byTuple n)"
      using True x by (intro filter_cong) (auto dest: key)
    then show ?thesis using True by (simp add: filter_filter conj_commute)
  next
    case False
    then show ?thesis using x by (auto intro: filter_cong)
  qed
  then show ?case using IH unfolding step by (cases "P (heap n i)") simp_all
qed


lemma evictIf_table:
  assumes "natInv n"
  shows natInv_evictIf: "natInv (evictIf P (byTuple n) n)"
    and byTuple_evictIf: "byTuple (evictIf P (byTuple n) n) = filter (\<lambda>x. \<not> P (heap n (snd x))) (byTuple n)"
    and evictIf_same: "heap (evictIf P (byTuple n) n) = heap n"
      "nextEntry (evictIf P (byTuple n) n) = nextEntry n"
      "sessions (evictIf P (byTuple n) n) = sessions n" "chans (evictIf P (byTuple n) n) = chans n"
      "relayIP (evictIf P (byTuple n) n) = relayIP n" "stopped (evictIf P (byTuple n) n) = stopped n"
      "written (evictIf P (byTuple n) n) = written n"
proof -
  note f = evictIf_facts [OF assms order_refl natInvD(1) [OF assms], of P]
  show "natInv (evictIf P (byTuple n) n)" using f by blast
  show "heap (evictIf P (byTuple n) n) = heap n"
      "nextEntry (evictIf P (byTuple n) n) = nextEntry n"
      "sessions (evictIf P (byTuple n) n) = sessions n" "chans (evictIf P (byTuple n) n) = chans n"
      "relayIP (evictIf P (byTuple n) n) = relayIP n" "stopped (evictIf P (byTuple n) n) = stopped n"
      "written (evictIf P (byTuple n) n) = written n"
    using f by blast+
  have "byTuple (evictIf P (byTuple n) n) =
      filter (\<lambda>x. x \<in> set (byTuple n) \<longrightarrow> \<not> P (heap n (snd x))) (byTuple n)"
    using f by blast
  also have "\<dots> = filter (\<lambda>x. \<not> P (heap n (snd x))) (byTuple n)"
    by (rule filter_cong) auto
  finally show "byTuple (evictIf P (byTuple n) n) = filter (\<lambda>x. \<not> P (heap n (snd x))) (byTuple n)" .
qed

lemma natInv_update [simp]:
  "natInv (n\<lparr>stopped := b\<rparr>) = natInv n" "natInv (n\<lparr>sessions := s\<rparr>) = natInv n"
  "natInv (n\<lparr>chans := c\<rparr>) = natInv n" "natInv (n\<lparr>doneClosed := dc\<rparr>) = natInv n"
  "natInv (n\<lparr>nextChan := nc\<rparr>) = natInv n" "natInv (n\<lparr>openConns := oc\<rparr>) = natInv n"
proof -
  have "portOf (n\<lparr>stopped := b\<rparr>) = portOf n" "portOf (n\<lparr>sessions := s\<rparr>) = portOf n"
    "portOf (n\<lparr>chans := c\<rparr>) = portOf n" "portOf (n\<lparr>doneClosed := dc\<rparr>) = portOf n"
    "portOf (n\<lparr>nextChan := nc\<rparr>) = portOf n" "portOf (n\<lparr>openConns := oc\<rparr>) = portOf n"
    by (rule ext; simp add: portOf_def)+
  then show "natInv (n\<lparr>stopped := b\<rparr>) = natInv n" "natInv (n\<lparr>sessions := s\<rparr>) = natInv n"
    "natInv (n\<lparr>chans := c\<rparr>) = natInv n" "natInv (n\<lparr>doneClosed := dc\<rparr>) = natInv n"
    "natInv (n\<lparr>nextChan := nc\<rparr>) = natInv n" "natInv (n\<lparr>openConns := oc\<rparr>) = natInv n"
    by (simp_all add: natInv_def entryOk_def)
qed

lemma Shutdown_evicts:
  "Shutdown n = evictIf (\<lambda>_. True) (byTuple n) (n\<lparr>stopped := True\<rparr>)"
proof -
  have "(\<lambda>n (k, i). let e = heap n i; n1 = closeConn n i;
         n2 = n1\<lparr>byTuple := filter (\<lambda>x. fst x \<noteq> k) (byTuple n1)\<rparr>;
         n3 = n2\<lparr>byNATPort := (byNATPort n2)(natPort e := None)\<rparr>;
         n4 = n3\<lparr>pool := release (pool n3) (natPort e)\<rparr>
       in n4\<lparr>entriesCount := entriesCount n4 - 1, portsUsed := portsUsed n4 - 1\<rparr>)
     = (\<lambda>n (k, i). if True then evictEntry n k i else n)"
    by (intro ext) (auto simp: evictEntry_def Let_def closeConn_def split: option.splits)
  then show ?thesis by (simp add: Shutdown_def evictIf_def Let_def)
qed

section \<open>New entries\<close>

lemma openConnection_facts:
  assumes "openConnection env n i p = (ok, n')"
  shows "byTuple n' = byTuple n \<and> byNATPort n' = byNATPort n \<and> pool n' = pool n \<and>
     nextEntry n' = nextEntry n \<and> entriesCount n' = entriesCount n \<and> portsUsed n' = portsUsed n \<and>
     relayIP n' = relayIP n \<and> stopped n' = stopped n \<and> written n' = written n \<and>
     (\<forall>j. static (heap n' j) = static (heap n j)) \<and>
     (\<forall>j. conn (heap n' j) = (if ok \<and> j = i then Some i else conn (heap n j)))"
  using assms
  by (auto simp: openConnection_def openTCP_def openUDP_def Let_def modEntry_def sendToSession_def
      static_def split: if_splits option.splits)

lemma natInv_translateNew:
  assumes inv: "natInv n" and al: "allocate (pool n) = Inr (port, pl)"
    and fresh: "map_of (byTuple n) key = None"
    and key: "key = tupleKey sid (srcIP p) (srcPort p) (dstIP p) (dstPort p) (proto p)"
    and p: "parseIPv4 pkt = Inr p" and nb: "\<not> isBlockedIP (dstIP p)"
  shows "natInv (snd (translateNew env (n\<lparr>pool := pl\<rparr>) sid key p pkt port))"
proof -
  note d = natInvD [OF inv]
  let ?i = "nextEntry n"
  let ?e = "emptyEntry\<lparr>session := sid, eSrcIP := srcIP p, eDstIP := dstIP p, eSrcPort := srcPort p,
                    eDstPort := dstPort p, natPort := port, eProto := proto p, lastSeen := clock env\<rparr>"
  let ?n1 = "n\<lparr>pool := pl, heap := (heap n)(?i := ?e), nextEntry := Suc ?i\<rparr>"
  obtain ok n2 where oc: "openConnection env ?n1 ?i p = (ok, n2)" by fastforce
  note f = openConnection_facts [OF oc]
  have len: "length (srcIP p) = 4" "length (dstIP p) = 4" "proto p = 6 \<or> proto p = 17"
    using parseIPv4_InrD [OF p] parseIPv4_l4D [OF p] by auto
  have old: "heap ?n1 j = heap n j" if "j < ?i" for j using that by simp
  have st: "static (heap n2 j) = static (heap ?n1 j)" for j using f by blast
  have ok1: "entryOk n2 j" if "j < Suc ?i" for j
  proof (cases "j = ?i")
    case True
    then show ?thesis using st [of j] len nb by (simp add: static_def entryOk_def Let_def)
  next
    case False
    then have "static (heap n2 j) = static (heap n j)" using st [of j] by simp
    then show ?thesis using d(4) [of j] False that by (simp add: static_def entryOk_def Let_def)
  qed
  have keyEq: "keyOf (heap n2 ?i) = key" using st [of ?i] key by (simp add: static_def keyOf_def)
  have keyOld: "keyOf (heap n2 j) = keyOf (heap n j)" "portOf n2 j = portOf n j" if "j < ?i" for j
    using st [of j] that by (simp_all add: static_def keyOf_def portOf_def)
  have portNew: "portOf n2 ?i = port" using st [of ?i] by (simp add: static_def portOf_def)
  have conns: "conn (heap n2 j) = None \<or> conn (heap n2 j) = Some j \<and> j < Suc ?i" for j
    using f d(11) [of j] by (auto simp: emptyEntry_def split: if_splits)
  have wr: "c < Suc ?i" if "(c, dt) \<in> set (written n2)" for c dt
    using that f d(10) [of c dt] by auto
  have feq: "byTuple n2 = byTuple n" "entriesCount n2 = entriesCount n" "portsUsed n2 = portsUsed n"
    "relayIP n2 = relayIP n" "nextEntry n2 = Suc ?i" "written n2 = written n"
    using f by simp_all
  have tab: "j < Suc ?i \<and> k = keyOf (heap n2 j)" if "(k, j) \<in> set (byTuple n)" for k j
    using d(2,3) [OF that] keyOld(1) [of j] by simp
  have lease: "pp.leases (byTuple n) (portOf n2) (pool n)"
    using d(2,6) pp.leases_cong [of "byTuple n" "portOf n2" "portOf n" "pool n"] keyOld(2) by metis
  show ?thesis
  proof (cases ok)
    case False
    let ?r = "n2\<lparr>pool := release (pool n2) port\<rparr>"
    have res: "snd (translateNew env (n\<lparr>pool := pl\<rparr>) sid key p pkt port) = ?r"
      using oc False by (simp add: translateNew_def Let_def)
    have po: "portOf ?r = portOf n2" by (rule ext) (simp add: portOf_def)
    have ok: "poolOk (pool n)" using d(6) by (simp add: pp.leases_def)
    show ?thesis
      unfolding res
    proof (rule natInvI)
      show "pp.leases (byTuple ?r) (portOf ?r) (pool ?r)"
        unfolding po using f pp.leases_undo [OF lease al] by simp
      show "allocated (pool ?r) \<union> set (free (pool ?r)) = {10000..60000}"
        using f d(7) pp.rel_alloc [OF ok al] by simp
      show "byNATPort ?r q = Some j \<longleftrightarrow> (\<exists>k. (k, j) \<in> set (byTuple ?r) \<and> portOf ?r j = q)" for q j
        unfolding po using f d(5) [of q j] d(2) keyOld(2) by auto
    qed (use d(1,8,9,12) ok1 wr conns tab in \<open>simp_all add: feq entryOk_def\<close>)
  next
    case True
    let ?t = "n2\<lparr>byTuple := byTuple n2 @ [(key, ?i)], byNATPort := (byNATPort n2)(port := Some ?i),
                 entriesCount := entriesCount n2 + 1, portsUsed := portsUsed n2 + 1\<rparr>"
    have po: "portOf ?t = portOf n2" by (rule ext) (simp add: portOf_def)
    have ok: "poolOk (pool n)" using d(6) by (simp add: pp.leases_def)
    have notused: "port \<notin> allocated (pool n)" by (rule pp.alloc_fresh [OF ok al])
    have oldport: "portOf n j \<noteq> port" if "(k, j) \<in> set (byTuple n)" for k j
    proof -
      have "portOf n j \<in> (portOf n \<circ> snd) ` set (byTuple n)" using that by force
      then show ?thesis using d(6) notused by (auto simp: pp.leases_def)
    qed
    have inv: "natInv ?t"
    proof (rule natInvI)
      show "distinct (map fst (byTuple ?t))"
        using f d(1) fresh by (simp add: map_of_eq_None_iff)
      show "pp.leases (byTuple ?t) (portOf ?t) (pool ?t)"
        unfolding po using f pp.leases_insert [OF lease, of ?i pl key] al portNew by simp
      show "allocated (pool ?t) \<union> set (free (pool ?t)) = {10000..60000}"
        using f d(7) pp.range_alloc [OF ok al] by simp
      show "byNATPort ?t q = Some j \<longleftrightarrow> (\<exists>k. (k, j) \<in> set (byTuple ?t) \<and> portOf ?t j = q)" for q j
      proof (cases "q = port")
        case True
        then show ?thesis
          unfolding po using f d(2) oldport keyOld(2) portNew by (auto 4 4)
      next
        case False
        then show ?thesis
          unfolding po using f d(2) d(5) [of q j] keyOld(2) portNew by auto
      qed
    qed (use d(8,9,12) ok1 wr conns tab keyEq in \<open>auto simp: feq entryOk_def\<close>)
    have res: "snd (translateNew env (n\<lparr>pool := pl\<rparr>) sid key p pkt port) =
        forwardNew env ?t ?i p (rewriteSource pkt p (relayIP n2) port)"
      using oc True by (simp add: translateNew_def Let_def)
    show ?thesis unfolding res by (rule natInv_frame [OF inv frame_forwardNew])
  qed
qed

lemma natInv_Translate:
  assumes inv: "natInv n"
  shows "natInv (snd (Translate env n sid pkt))"
proof (cases "stopped n \<or> (\<exists>e. parseIPv4 pkt = Inl e)")
  case True
  then show ?thesis using inv by (auto simp: Translate_def)
next
  case False
  then obtain p where p: "parseIPv4 pkt = Inr p" by (metis sum.exhaust)
  let ?key = "tupleKey sid (srcIP p) (srcPort p) (dstIP p) (dstPort p) (proto p)"
  show ?thesis
  proof (cases "isBlockedIP (dstIP p)")
    case True
    then show ?thesis using inv False p by (simp add: Translate_def)
  next
    case nb: False
    show ?thesis
    proof (cases "map_of (byTuple n) ?key")
      case (Some i)
      have "natInv (modEntry n i (\<lambda>e. e\<lparr>lastSeen := clock env\<rparr>))"
        by (rule natInv_frame [OF inv]) (simp add: nat_frame static_def)
      then show ?thesis
        using False p nb Some natInv_frame [OF _ frame_forwardExisting]
        by (simp add: Translate_def Let_def)
    next
      case None
      show ?thesis
      proof (cases "allocate (pool n)")
        case (Inr a)
        then obtain port pl where "allocate (pool n) = Inr (port, pl)" by (metis prod.exhaust)
        then show ?thesis
          using natInv_translateNew [OF inv _ None refl p nb] False p nb None
          by (simp add: Translate_def Let_def)
      next
        case (Inl e)
        let ?m = "sweepOnce n (sweepClock env)"
        have minv: "natInv ?m" using natInv_evictIf [OF inv] by (simp add: sweepOnce_def)
        have none: "map_of (byTuple ?m) ?key = None"
          using None byTuple_evictIf [OF inv] by (auto simp: sweepOnce_def map_of_eq_None_iff)
        show ?thesis
        proof (cases "allocate (pool ?m)")
          case (Inr a)
          then obtain port pl where "allocate (pool ?m) = Inr (port, pl)" by (metis prod.exhaust)
          then show ?thesis
            using natInv_translateNew [OF minv _ none refl p nb] False p nb None Inl
            by (simp add: Translate_def Let_def)
        next
          case inl2: (Inl e2)
          then show ?thesis using minv False p nb None Inl by (simp add: Translate_def Let_def)
        qed
      qed
    qed
  qed
qed

section \<open>Reachable states\<close>

text \<open>One atomic operation of the table: a method call, or one turn of a socket reader.\<close>

inductive nat_step :: "nat_state \<Rightarrow> nat_state \<Rightarrow> bool" where
  open_session: "nat_step n (fst (OpenSession n s))"
| cleanup: "nat_step n (cleanupSession n sid c)"
| translate: "nat_step n (snd (Translate env n sid pkt))"
| forward: "nat_step n (snd (Forward r env n s pkt))"
| reverse: "nat_step n (snd (Reverse env n pkt))"
| sweep: "nat_step n (sweepOnce n now)"
| tcp_read: "nat_step n (tcpReverseStep env n i data err)"
| udp_read: "nat_step n (udpReverseStep env n i data)"
| shutdown: "nat_step n (Shutdown n)"

inductive_cases nat_stepE: "nat_step n n'"

inductive nat_reachable :: "(u16 list \<Rightarrow> u16 list) \<Rightarrow> bytes \<Rightarrow> nat_state \<Rightarrow> bool" for shuffle ip where
  start: "nat_reachable shuffle ip (NewNAT shuffle ip)"
| step: "nat_reachable shuffle ip n \<Longrightarrow> nat_step n n' \<Longrightarrow> nat_reachable shuffle ip n'"

lemma natInv_NewNAT:
  assumes "\<And>xs. mset (shuffle xs) = mset xs" and "length (To4 ip) = 4"
  shows "natInv (NewNAT shuffle ip)"
proof -
  have "(10000 :: u16) \<le> 60000" by simp
  note ok = newPortPool_ok [OF assms(1) this]
  show ?thesis
    using ok assms(2)
    by (simp add: natInv_def NewNAT_def pp.leases_def emptyEntry_def)
qed

lemma natInv_step: "nat_step n n' \<Longrightarrow> natInv n \<Longrightarrow> natInv n'"
proof (induction rule: nat_step.induct)
  case (open_session n s)
  then show ?case by (simp add: OpenSession_def Let_def)
next
  case (cleanup n sid c)
  let ?m = "n\<lparr>sessions := (sessions n)(sid := None), doneClosed := insert c (doneClosed n)\<rparr>"
  have "natInv ?m" using cleanup by simp
  from natInv_evictIf [OF this] show ?case
    using cleanup by (simp add: cleanupSession_def closeSessionEntries_def Let_def)
next
  case (translate n env sid pkt)
  then show ?case by (rule natInv_Translate)
next
  case (forward n r env s pkt)
  obtain hit m where m: "(case r of None \<Rightarrow> (False, n) | Some r \<Rightarrow> tryDNSIntercept r n s pkt) = (hit, m)"
    by fastforce
  have "frame n m"
  proof (cases r)
    case (Some a)
    with m show ?thesis using frame_tryDNSIntercept [of n a s pkt] by simp
  qed (use m in simp)
  then have "natInv m" by (rule natInv_frame [OF forward])
  then show ?case
    using natInv_Translate [of m env "sessionKey s" pkt]
    by (auto simp: Forward_def m split: prod.splits sum.splits)
next
  case (sweep n now)
  then show ?case by (simp add: sweepOnce_def natInv_evictIf)
next
  case (shutdown n)
  then have "natInv (n\<lparr>stopped := True\<rparr>)" by simp
  from natInv_evictIf [OF this, of "\<lambda>_. True"] show ?case by (simp add: Shutdown_evicts)
qed (auto intro: natInv_frame frame_Reverse frame_tcpReverseStep frame_udpReverseStep)

lemma natInv_reachable:
  assumes "\<And>xs. mset (shuffle xs) = mset xs" and "length (To4 ip) = 4" and "nat_reachable shuffle ip n"
  shows "natInv n"
  using assms(3)
proof induction
  case start
  show ?case by (rule natInv_NewNAT [OF assms(1,2)])
next
  case (step n n')
  then show ?case using natInv_step by blast
qed

section \<open>Properties\<close>

text \<open>The first packet of a fresh relay, for the witnesses.\<close>

definition sampleEnv :: natEnv where
  "sampleEnv = \<lparr>sweepClock = 5, clock = 7, dialOK = True, isn = Some 1000, writeOK = True\<rparr>"

lemma allocate_fresh:
  "\<exists>pl. allocate (newPortPool (\<lambda>xs. xs) 10000 60000) = Inr (60000, pl)"
proof -
  have n: "unat (60000 :: u16) + 1 - unat (10000 :: u16) = Suc 50000" by simp
  have "last (map (\<lambda>i. 10000 + of_nat i) [0..<Suc 50000]) = (10000 + of_nat 50000 :: u16)"
    by (simp only: last_map upt_conv_Nil list.map upt_Suc) simp
  then show ?thesis
    unfolding allocate_def newPortPool_def Let_def n by (simp del: upt_Suc upt_rec_numeral)
qed

lemma sample_Translate:
  "\<exists>out n c d. Translate sampleEnv (NewNAT (\<lambda>xs. xs) [192, 0, 2, 1]) ''s'' sampleDNS = (Inr out, n) \<and>
     byTuple n = [(tupleKey ''s'' (srcIP sampleInfo) (srcPort sampleInfo) (dstIP sampleInfo)
       (dstPort sampleInfo) (proto sampleInfo), 0)] \<and> doneClosed n = {} \<and> \<not> stopped n \<and>
     (c, d) \<in> set (written n)"
proof -
  obtain pl where al: "allocate (newPortPool (\<lambda>xs. xs) 10000 60000) = Inr (60000, pl)"
    using allocate_fresh by blast
  have nb: "\<not> isBlockedIP [1, 1, 1, 1]" by code_simp
  have pay: "payload sampleInfo (rewriteSource sampleDNS sampleInfo [192, 0, 2, 1] 60000) = [1, 2, 3]"
  proof -
    have "payload sampleInfo sampleDNS = [1, 2, 3]" by code_simp
    moreover have "length (To4 [192, 0, 2, 1]) = 4" by (simp add: To4_def)
    ultimately show ?thesis using rewriteSource_payload [OF sample_parse, of "[192, 0, 2, 1]" 60000] by simp
  qed
  have info: "dstIP sampleInfo = [1, 1, 1, 1]" "proto sampleInfo = 17"
    by (simp_all add: sampleInfo_def)
  show ?thesis
    by (simp add: Translate_def sample_parse info nb NewNAT_def al translateNew_def Let_def
        openConnection_def openUDP_def sampleEnv_def forwardNew_def forwardUDPData_def modEntry_def
        pay connWrite_def)
qed



text \<open>
  C39: every byte the relay ever wrote to an upstream socket, in any reachable state, went to a
  destination that the SSRF filter allows.
\<close>

theorem nat_never_writes_to_blocked:
  assumes "\<And>xs. mset (shuffle xs) = mset xs" and "length (To4 ip) = 4"
    and "nat_reachable shuffle ip n" and "(c, d) \<in> set (written n)"
  shows "\<not> isBlockedIP (eDstIP (heap n c))"
proof -
  have inv: "natInv n" by (rule natInv_reachable [OF assms(1-3)])
  from natInvD(10) [OF inv assms(4)] have "entryOk n c" by (rule natInvD(4) [OF inv])
  then show ?thesis by (simp add: entryOk_def Let_def)
qed

theorem nat_never_writes_to_blocked_witness:
  "\<exists>n c d. nat_reachable (\<lambda>xs. xs) [192, 0, 2, 1] n \<and> (c, d) \<in> set (written n) \<and>
     \<not> isBlockedIP (eDstIP (heap n c))"
proof -
  let ?n0 = "NewNAT (\<lambda>xs. xs) [192, 0, 2, 1]"
  obtain out n c d where t: "Translate sampleEnv ?n0 ''s'' sampleDNS = (Inr out, n)" and w: "(c, d) \<in> set (written n)"
    using sample_Translate by blast
  have "nat_step ?n0 n" using nat_step.translate [of ?n0 sampleEnv "''s''" sampleDNS] t by simp
  then have r: "nat_reachable (\<lambda>xs. xs) [192, 0, 2, 1] n" by (rule nat_reachable.step [OF nat_reachable.start])
  have "length (To4 [192, 0, 2, 1]) = 4" by (simp add: To4_def)
  from nat_never_writes_to_blocked [OF refl this r w] w r show ?thesis by blast
qed

end
