(* ===== verification/NatFlow_Props.thy ===== *)
theory NatFlow_Props
  imports NatTable_Props
begin

text \<open>
  What the NAT does to flows: the round trip of \<open>Translate\<close> and \<open>Reverse\<close>, expiry, session
  teardown, port exhaustion, and what happens when two goroutines evict the same entry.
\<close>

section \<open>A translated flow\<close>

definition flowOf :: "nat_state \<Rightarrow> nat \<Rightarrow> sessionID \<Rightarrow> parsedPacket \<Rightarrow> u16 \<Rightarrow> bool" where
  \<comment> \<open>entry \<open>i\<close> of the table is the flow of packet \<open>p\<close> in session \<open>sid\<close>, owning \<open>port\<close>\<close>
  "flowOf n i sid p port \<longleftrightarrow>
     static (heap n i) = (sid, srcIP p, dstIP p, srcPort p, dstPort p, port, proto p) \<and>
     byNATPort n port = Some i \<and>
     (tupleKey sid (srcIP p) (srcPort p) (dstIP p) (dstPort p) (proto p), i) \<in> set (byTuple n)"

lemma flowOf_frame: "frame n n' \<Longrightarrow> flowOf n i sid p port \<Longrightarrow> flowOf n' i sid p port"
  by (simp add: flowOf_def frame_def)

lemma translateNew_Inr:
  assumes "translateNew env n sid key p pkt port = (Inr out, n')"
    and "key = tupleKey sid (srcIP p) (srcPort p) (dstIP p) (dstPort p) (proto p)"
  shows "flowOf n' (nextEntry n) sid p port \<and> out = rewriteSource pkt p (relayIP n) port \<and>
    byTuple n' = byTuple n @ [(key, nextEntry n)] \<and>
    (\<forall>j. j \<noteq> nextEntry n \<longrightarrow> static (heap n' j) = static (heap n j))"
proof -
  let ?i = "nextEntry n"
  let ?e = "emptyEntry\<lparr>session := sid, eSrcIP := srcIP p, eDstIP := dstIP p, eSrcPort := srcPort p,
                    eDstPort := dstPort p, natPort := port, eProto := proto p, lastSeen := clock env\<rparr>"
  obtain ok n2 where oc: "openConnection env (n\<lparr>heap := (heap n)(?i := ?e), nextEntry := Suc ?i\<rparr>) ?i p = (ok, n2)"
    by fastforce
  note f = openConnection_facts [OF oc]
  let ?t = "n2\<lparr>byTuple := byTuple n2 @ [(key, ?i)], byNATPort := (byNATPort n2)(port := Some ?i),
                 entriesCount := entriesCount n2 + 1, portsUsed := portsUsed n2 + 1\<rparr>"
  from assms(1) oc have ok: ok by (cases ok) (simp_all add: translateNew_def Let_def)
  have "static (heap n2 ?i) = static ?e" using f by simp
  then have "flowOf ?t ?i sid p port" by (simp add: flowOf_def assms(2) static_def)
  moreover have n': "n' = forwardNew env ?t ?i p (rewriteSource pkt p (relayIP n2) port)"
    and "out = rewriteSource pkt p (relayIP n2) port"
    using assms(1) oc ok by (auto simp: translateNew_def Let_def)
  moreover have "frame ?t n'" unfolding n' by (rule frame_forwardNew)
  then have "byTuple n' = byTuple n @ [(key, ?i)]" "static (heap n' j) = static (heap n2 j)" for j
    using f by (simp_all add: frame_def)
  moreover have "static (heap n2 j) = static (heap n j)" if "j \<noteq> ?i" for j
    using f that by simp
  ultimately show ?thesis using f flowOf_frame [OF frame_forwardNew] by simp
qed

lemma Translate_Inr:
  assumes inv: "natInv n" and tr: "Translate env n sid pkt = (Inr out, n')" and p: "parseIPv4 pkt = Inr p"
  shows "\<exists>i port. flowOf n' i sid p port \<and> out = rewriteSource pkt p (relayIP n) port"
proof -
  let ?key = "tupleKey sid (srcIP p) (srcPort p) (dstIP p) (dstPort p) (proto p)"
  have g: "\<not> stopped n" "\<not> isBlockedIP (dstIP p)"
    using tr p by (auto simp: Translate_def split: if_splits)
  have len: "length (srcIP p) = 4" "length (dstIP p) = 4"
    using parseIPv4_InrD [OF p] by auto
  show ?thesis
  proof (cases "map_of (byTuple n) ?key")
    case (Some i)
    let ?m = "modEntry n i (\<lambda>e. e\<lparr>lastSeen := clock env\<rparr>)"
    have mem: "(?key, i) \<in> set (byTuple n)" using Some by (rule map_of_SomeD)
    have fr: "frame n ?m" by (simp add: nat_frame static_def)
    have "entryOk n i" using natInvD(2,4) [OF inv] mem by blast
    then have l: "length (eSrcIP (heap n i)) = 4" "length (eDstIP (heap n i)) = 4"
      by (simp_all add: entryOk_def Let_def)
    have "keyOf (heap n i) = ?key" using natInvD(3) [OF inv mem] by simp
    then have "static (heap n i) = (sid, srcIP p, dstIP p, srcPort p, dstPort p, portOf n i, proto p)"
      using tupleKey_slots [of "session (heap n i)" "eSrcIP (heap n i)" _ "eDstIP (heap n i)" _ _ sid
          "srcIP p" _ "dstIP p"] len l
      by (simp add: keyOf_def static_def portOf_def)
    moreover have "byNATPort n (portOf n i) = Some i" using natInvD(5) [OF inv] mem by blast
    ultimately have "flowOf n i sid p (portOf n i)" using mem by (simp add: flowOf_def)
    then have "flowOf (forwardExisting env ?m i p x) i sid p (portOf n i)" for x
      by (rule flowOf_frame [OF frame_trans [OF fr frame_forwardExisting]])
    moreover have "natPort (heap ?m i) = portOf n i" "relayIP ?m = relayIP n"
      by (simp_all add: modEntry_def portOf_def)
    ultimately show ?thesis
      using tr g p Some by (auto simp: Translate_def Let_def)
  next
    case None
    show ?thesis
    proof (cases "allocate (pool n)")
      case (Inr a)
      then obtain port pl where "allocate (pool n) = Inr (port, pl)" by (metis prod.exhaust)
      then have "translateNew env (n\<lparr>pool := pl\<rparr>) sid ?key p pkt port = (Inr out, n')"
        using tr g p None by (simp add: Translate_def Let_def)
      from translateNew_Inr [OF this refl] show ?thesis by auto
    next
      case (Inl e)
      let ?s = "sweepOnce n (sweepClock env)"
      obtain port pl where "allocate (pool ?s) = Inr (port, pl)"
        using tr g p None Inl by (cases "allocate (pool ?s)") (auto simp: Translate_def Let_def)
      then have "translateNew env (?s\<lparr>pool := pl\<rparr>) sid ?key p pkt port = (Inr out, n')"
        using tr g p None Inl by (simp add: Translate_def Let_def)
      from translateNew_Inr [OF this refl] show ?thesis
        using evictIf_same(5) [OF inv] by (auto simp: sweepOnce_def)
    qed
  qed
qed

lemma Reverse_flow:
  assumes "flowOf n i sid p port" and "parseIPv4 reply = Inr q" and "dstPort q = port"
  shows "fst (Reverse env n reply) = Inr (rewriteDest reply q (srcIP p) (srcPort p), sid)"
  using assms by (simp add: Reverse_def flowOf_def static_def Let_def)

section \<open>Properties of flows\<close>

text \<open>
  C7: the round trip of a flow.  When a session's packet is translated in a reachable state, the
  packet that leaves the relay is the client's, sent from the relay's address and a NAT port of
  the configured range; and any reply that comes back to this port is delivered to that session,
  addressed to the client's own address and port, with its payload unchanged and valid checksums.
\<close>

theorem translate_reverse_roundtrip:
  assumes "\<And>xs. mset (shuffle xs) = mset xs" and "length (To4 ip) = 4"
    and "nat_reachable shuffle ip n"
    and "Translate env n sid pkt = (Inr out, n')" and "parseIPv4 pkt = Inr p"
  shows "\<exists>port. 10000 \<le> port \<and> port \<le> 60000 \<and>
    accepted out (p\<lparr>srcIP := relayIP n, srcPort := port\<rparr>) \<and> payload p out = payload p pkt \<and>
    (\<forall>env' reply q. parseIPv4 reply = Inr q \<and> dstPort q = port \<longrightarrow>
      (\<exists>back. fst (Reverse env' n' reply) = Inr (back, sid) \<and>
         accepted back (q\<lparr>dstIP := srcIP p, dstPort := srcPort p\<rparr>) \<and>
         payload q back = payload q reply))"
proof -
  have inv: "natInv n" by (rule natInv_reachable [OF assms(1-3)])
  from Translate_Inr [OF inv assms(4,5)] obtain i port
    where fl: "flowOf n' i sid p port" and out: "out = rewriteSource pkt p (relayIP n) port" by blast
  have inv': "natInv n'" using natInv_Translate [OF inv, of env sid pkt] assms(4) by simp
  have rl: "length (relayIP n) = 4" by (rule natInvD(12) [OF inv])
  have sl: "length (srcIP p) = 4" using parseIPv4_InrD [OF assms(5)] by auto
  have "port \<in> allocated (pool n')"
  proof -
    from fl obtain k where "(k, i) \<in> set (byTuple n')" "portOf n' i = port"
      using natInvD(5) [OF inv'] by (auto simp: flowOf_def)
    then have "port \<in> set (map (portOf n' \<circ> snd) (byTuple n'))" by force
    then show ?thesis using natInvD(6) [OF inv'] by (simp add: pp.leases_def)
  qed
  then have "port \<in> {10000..60000}" using natInvD(7) [OF inv'] by blast
  then have "10000 \<le> port \<and> port \<le> 60000" by simp
  moreover have "accepted out (p\<lparr>srcIP := relayIP n, srcPort := port\<rparr>)" "payload p out = payload p pkt"
    using rewriteSource_accepted [OF assms(5)] rewriteSource_payload [OF assms(5)] rl
    unfolding out by (metis To4_4)+
  moreover have "fst (Reverse env' n' reply) = Inr (rewriteDest reply q (srcIP p) (srcPort p), sid) \<and>
      accepted (rewriteDest reply q (srcIP p) (srcPort p)) (q\<lparr>dstIP := srcIP p, dstPort := srcPort p\<rparr>) \<and>
      payload q (rewriteDest reply q (srcIP p) (srcPort p)) = payload q reply"
    if "parseIPv4 reply = Inr q \<and> dstPort q = port" for env' reply q
    using that Reverse_flow [OF fl] rewriteDest_accepted [of reply q "srcIP p"]
      rewriteDest_payload [of reply q "srcIP p"] sl by simp
  ultimately show ?thesis by blast
qed

theorem translate_reverse_roundtrip_witness:
  "\<exists>out n' port. Translate sampleEnv (NewNAT (\<lambda>xs. xs) [192, 0, 2, 1]) ''s'' sampleDNS = (Inr out, n') \<and>
     accepted out (sampleInfo\<lparr>srcIP := [192, 0, 2, 1], srcPort := port\<rparr>)"
proof -
  obtain out n' where t:
      "Translate sampleEnv (NewNAT (\<lambda>xs. xs) [192, 0, 2, 1]) ''s'' sampleDNS = (Inr out, n')"
    using sample_Translate by blast
  have "length (To4 [192, 0, 2, 1]) = 4" by (simp add: To4_def)
  from translate_reverse_roundtrip [OF refl this nat_reachable.start t sample_parse]
  have "\<exists>port. accepted out (sampleInfo\<lparr>srcIP := relayIP (NewNAT (\<lambda>xs. xs) [192, 0, 2, 1]), srcPort := port\<rparr>)"
    by blast
  then show ?thesis using t by (auto simp: NewNAT_def)
qed

section \<open>Expiry, teardown and exhaustion\<close>

definition expired :: "nat_state \<Rightarrow> int \<Rightarrow> nat \<Rightarrow> bool" where
  "expired n now i \<longleftrightarrow> now - lastSeen (heap n i) > (if eProto (heap n i) = 6 then 300 else 120) * 10 ^ 9"

lemma sweepOnce_evictIf: "sweepOnce n now = evictIf (\<lambda>e. now - lastSeen e > ttl e) (byTuple n) n"
  by (simp add: sweepOnce_def)

lemma expired_ttl: "expired n now i \<longleftrightarrow> now - lastSeen (heap n i) > ttl (heap n i)"
  by (simp add: expired_def ttl_def)

lemma sweepOnce_table:
  assumes "natInv n"
  shows "byTuple (sweepOnce n now) = filter (\<lambda>x. \<not> expired n now (snd x)) (byTuple n)"
  using byTuple_evictIf [OF assms] by (simp add: sweepOnce_evictIf expired_ttl)

text \<open>
  a sweep removes exactly the expired flows (TCP idle for more than 300 s, UDP for more than
  120 s), keeps every other flow untouched and in its port, and gives back exactly the ports of
  the removed ones.
\<close>

theorem sweep_exact:
  assumes "\<And>xs. mset (shuffle xs) = mset xs" and "length (To4 ip) = 4"
    and "nat_reachable shuffle ip n"
  shows "byTuple (sweepOnce n now) = filter (\<lambda>(k, i). \<not> expired n now i) (byTuple n) \<and>
    heap (sweepOnce n now) = heap n \<and>
    allocated (pool (sweepOnce n now)) =
      {natPort (heap n i) |k i. (k, i) \<in> set (byTuple n) \<and> \<not> expired n now i}"
proof -
  have inv: "natInv n" by (rule natInv_reachable [OF assms])
  let ?m = "sweepOnce n now"
  have minv: "natInv ?m" using natInv_evictIf [OF inv] by (simp add: sweepOnce_evictIf)
  have h: "heap ?m = heap n" using evictIf_same(1) [OF inv] by (simp add: sweepOnce_evictIf)
  have tab: "byTuple ?m = filter (\<lambda>x. \<not> expired n now (snd x)) (byTuple n)"
    by (rule sweepOnce_table [OF inv])
  have "allocated (pool ?m) = set (map (portOf ?m \<circ> snd) (byTuple ?m))"
    using natInvD(6) [OF minv] by (simp add: pp.leases_def)
  also have "\<dots> = {natPort (heap n i) |k i. (k, i) \<in> set (byTuple n) \<and> \<not> expired n now i}"
    unfolding tab by (force simp: portOf_def h)
  finally show ?thesis using tab h by (simp add: case_prod_unfold)
qed

text \<open>
  closing a tunnel tears down its session completely: no flow of the session remains in the
  table, every flow of another session remains with its port, the session no longer receives
  packets, and its upstream ports are free again.
\<close>

theorem cleanup_isolates:
  assumes "\<And>xs. mset (shuffle xs) = mset xs" and "length (To4 ip) = 4"
    and "nat_reachable shuffle ip n" and "c \<notin> doneClosed n"
  shows "byTuple (cleanupSession n sid c) = filter (\<lambda>(k, i). session (heap n i) \<noteq> sid) (byTuple n) \<and>
    heap (cleanupSession n sid c) = heap n \<and>
    sendToSession (cleanupSession n sid c) sid pkt = cleanupSession n sid c \<and>
    (\<forall>sid'. sid' \<noteq> sid \<longrightarrow> sessions (cleanupSession n sid c) sid' = sessions n sid') \<and>
    (\<forall>(k, i) \<in> set (byTuple n). session (heap n i) = sid \<longrightarrow>
       natPort (heap n i) \<in> set (free (pool (cleanupSession n sid c))))"
proof -
  have inv: "natInv n" by (rule natInv_reachable [OF assms(1-3)])
  let ?m = "n\<lparr>sessions := (sessions n)(sid := None), doneClosed := insert c (doneClosed n)\<rparr>"
  let ?r = "cleanupSession n sid c"
  have minv: "natInv ?m" using inv by simp
  have r: "?r = evictIf (\<lambda>e. session e = sid) (byTuple ?m) ?m"
    using assms(4) by (simp add: cleanupSession_def closeSessionEntries_def Let_def)
  have rinv: "natInv ?r" unfolding r by (rule natInv_evictIf [OF minv])
  have tab: "byTuple ?r = filter (\<lambda>x. session (heap n (snd x)) \<noteq> sid) (byTuple n)"
    unfolding r by (subst byTuple_evictIf [OF minv]) simp
  have h: "heap ?r = heap n" unfolding r by (subst evictIf_same(1) [OF minv]) simp
  have ss: "sessions ?r = (sessions n)(sid := None)" unfolding r by (subst evictIf_same(3) [OF minv]) simp
  have free: "natPort (heap n i) \<in> set (free (pool ?r))"
    if mem: "(k, i) \<in> set (byTuple n)" "session (heap n i) = sid" for k i
  proof -
    have "portOf n i \<in> allocated (pool n)"
    proof -
      have "portOf n i \<in> set (map (portOf n \<circ> snd) (byTuple n))" using mem by force
      then show ?thesis using natInvD(6) [OF inv] by (simp add: pp.leases_def)
    qed
    moreover have "portOf n i \<notin> allocated (pool ?r)"
    proof
      assume "portOf n i \<in> allocated (pool ?r)"
      then have "portOf n i \<in> set (map (portOf ?r \<circ> snd) (byTuple ?r))"
        using natInvD(6) [OF rinv] by (simp add: pp.leases_def)
      then obtain k' j where j: "(k', j) \<in> set (byTuple ?r)" "portOf n j = portOf n i"
        by (auto simp: portOf_def h)
      then have "(k', j) \<in> set (byTuple n)" "session (heap n j) \<noteq> sid" by (auto simp: tab)
      with natInv_port_inj [OF inv _ mem(1)] j mem(2) show False by blast
    qed
    ultimately show ?thesis
      using natInvD(7) [OF inv] natInvD(7) [OF rinv] by (auto simp: portOf_def)
  qed
  show ?thesis
    using tab h ss free by (auto simp: case_prod_unfold sendToSession_def)
qed

lemma allocated_full:
  assumes inv: "natInv n" and "allocate (pool n) = Inl e"
  shows "length (byTuple n) = 50001"
proof -
  have "set (free (pool n)) = {}" using pp.alloc_Inl [OF assms(2)] by blast
  then have "allocated (pool n) = {10000..60000}" using natInvD(7) [OF inv] by simp
  then have s: "set (map (portOf n \<circ> snd) (byTuple n)) = {10000..60000}"
    and d: "distinct (map (portOf n \<circ> snd) (byTuple n))"
    using natInvD(6) [OF inv] by (simp_all add: pp.leases_def)
  have "length (byTuple n) = card (set (map (portOf n \<circ> snd) (byTuple n)))"
    using distinct_card [OF d] by simp
  also have "\<dots> = card {10000..60000 :: u16}" by (simp only: s)
  also have "\<dots> = card (set (map (\<lambda>i. 10000 + of_nat i) [0..<unat (60000 :: u16) + 1 - unat (10000 :: u16)]) :: u16 set)"
    by (subst newPortPool_ports(1)) simp_all
  also have "\<dots> = unat (60000 :: u16) + 1 - unat (10000 :: u16)"
    using distinct_card [OF newPortPool_ports(2) [of 10000 60000]] by simp
  finally show ?thesis by simp
qed

text \<open>
  no false exhaustion: as long as fewer than 50001 flows are open, or one of them has expired
  by the time of the emergency sweep, the NAT does not refuse a packet for lack of ports.
\<close>

theorem no_false_exhaustion:
  assumes "\<And>xs. mset (shuffle xs) = mset xs" and "length (To4 ip) = 4"
    and "nat_reachable shuffle ip n"
    and "length (byTuple n) < 50001 \<or> (\<exists>(k, i) \<in> set (byTuple n). expired n (sweepClock env) i)"
  shows "fst (Translate env n sid pkt) \<noteq> Inl ErrNATPortExhausted"
proof
  assume ex: "fst (Translate env n sid pkt) = Inl ErrNATPortExhausted"
  have inv: "natInv n" by (rule natInv_reachable [OF assms(1-3)])
  let ?m = "sweepOnce n (sweepClock env)"
  have minv: "natInv ?m" using natInv_evictIf [OF inv] by (simp add: sweepOnce_evictIf)
  have no: "fst (translateNew env m sid key p pkt port) \<noteq> Inl ErrNATPortExhausted" for m key p port
    by (simp add: translateNew_def Let_def split: prod.splits bool.splits)
  have parse: "parseIPv4 pkt \<noteq> Inl ErrNATPortExhausted"
    by (simp add: parseIPv4_def Let_def)
  obtain e f where "allocate (pool n) = Inl f" "allocate (pool ?m) = Inl e"
    using ex no parse
    by (auto simp: Translate_def Let_def split: sum.splits prod.splits option.splits if_splits)
  then have len: "length (byTuple n) = 50001" "length (byTuple ?m) = 50001"
    using allocated_full [OF inv] allocated_full [OF minv] by blast+
  then have "\<forall>x\<in>set (byTuple n). \<not> expired n (sweepClock env) (snd x)"
    using sweepOnce_table [OF inv] by (metis filter_id_conv length_filter_less less_irrefl)
  with assms(4) len(1) show False by auto
qed

text \<open>A reachable state with one flow, for the witnesses.\<close>

lemma sample_reachable:
  "\<exists>n k i. nat_reachable (\<lambda>xs. xs) [192, 0, 2, 1] n \<and> (k, i) \<in> set (byTuple n) \<and>
     byTuple n \<noteq> [] \<and> doneClosed n = {} \<and> \<not> stopped n \<and>
     tupleKey ''t'' (srcIP sampleInfo) (srcPort sampleInfo) (dstIP sampleInfo)
       (dstPort sampleInfo) (proto sampleInfo) \<notin> fst ` set (byTuple n)"
proof -
  let ?n0 = "NewNAT (\<lambda>xs. xs) [192, 0, 2, 1]"
  obtain out n c d where t: "Translate sampleEnv ?n0 ''s'' sampleDNS = (Inr out, n)"
    and tab: "byTuple n = [(tupleKey ''s'' (srcIP sampleInfo) (srcPort sampleInfo) (dstIP sampleInfo)
       (dstPort sampleInfo) (proto sampleInfo), 0)]"
    and dc: "doneClosed n = {}" "\<not> stopped n"
    using sample_Translate by blast
  have "nat_step ?n0 n" using nat_step.translate [of ?n0 sampleEnv "''s''" sampleDNS] t by simp
  then have "nat_reachable (\<lambda>xs. xs) [192, 0, 2, 1] n" by (rule nat_reachable.step [OF nat_reachable.start])
  moreover have "tupleKey ''t'' a p b q r \<noteq> tupleKey ''s'' a p b q r" for a p b q r
    by (simp add: tupleKey_def Let_def)
  ultimately show ?thesis using tab dc by auto
qed

lemma To4_relay: "length (To4 [192, 0, 2, 1]) = 4"
  by (simp add: To4_def)

theorem sweep_exact_witness:
  "\<exists>n. nat_reachable (\<lambda>xs. xs) [192, 0, 2, 1] n \<and> byTuple n \<noteq> [] \<and>
     byTuple (sweepOnce n 10) = filter (\<lambda>(k, i). \<not> expired n 10 i) (byTuple n)"
proof -
  obtain n where r: "nat_reachable (\<lambda>xs. xs) [192, 0, 2, 1] n" "byTuple n \<noteq> []"
    using sample_reachable by blast
  from sweep_exact [OF refl To4_relay r(1), of 10] r show ?thesis by blast
qed

theorem cleanup_isolates_witness:
  "\<exists>n. nat_reachable (\<lambda>xs. xs) [192, 0, 2, 1] n \<and> byTuple n \<noteq> [] \<and>
     byTuple (cleanupSession n ''s'' 0) = filter (\<lambda>(k, i). session (heap n i) \<noteq> ''s'') (byTuple n)"
proof -
  obtain n where r: "nat_reachable (\<lambda>xs. xs) [192, 0, 2, 1] n" "byTuple n \<noteq> []" "doneClosed n = {}"
    using sample_reachable by blast
  then have "0 \<notin> doneClosed n" by simp
  from cleanup_isolates [OF refl To4_relay r(1) this, of "''s''"] r show ?thesis by blast
qed

theorem no_false_exhaustion_witness:
  "fst (Translate sampleEnv (NewNAT (\<lambda>xs. xs) [192, 0, 2, 1]) ''s'' sampleDNS) \<noteq> Inl ErrNATPortExhausted"
  by (rule no_false_exhaustion [OF refl To4_relay nat_reachable.start]) (simp add: NewNAT_def)

section \<open>Two goroutines evicting one entry\<close>

text \<open>
  \<^verbatim>\<open>sync.Map.Range\<close> hands out entries without locking them, so the sweeper and a closing session
  (or two sweeps of concurrent \<open>Translate\<close> calls) can both decide to evict the same entry.  When the
  second eviction runs after the port was given to a new flow, it destroys that flow.
\<close>

text \<open>
  a stale eviction breaks the isolation of flows.  If an entry is evicted, a new UDP flow is
  translated, and then the second pending eviction of the old entry runs, the new flow stays in
  the table while its port is free for the next flow and its reverse mapping is gone.
\<close>

theorem stale_eviction_frees_live_port:
  assumes "\<And>xs. mset (shuffle xs) = mset xs" and "length (To4 ip) = 4"
    and "nat_reachable shuffle ip n" and "(k, i) \<in> set (byTuple n)" and "\<not> stopped n" and "dialOK env"
    and "parseIPv4 pkt = Inr p" and "\<not> isBlockedIP (dstIP p)" and "proto p = 17"
    and "key = tupleKey sid (srcIP p) (srcPort p) (dstIP p) (dstPort p) (proto p)"
    and "key \<notin> fst ` set (byTuple n)"
  shows "\<exists>out n' j. Translate env (evictEntry n k i) sid pkt = (Inr out, n') \<and>
    (key, j) \<in> set (byTuple (evictEntry n' k i)) \<and>
    natPort (heap (evictEntry n' k i) j) = natPort (heap n i) \<and>
    natPort (heap n i) \<in> set (free (pool (evictEntry n' k i))) \<and>
    byNATPort (evictEntry n' k i) (natPort (heap n i)) = None \<and>
    entriesCount (evictEntry n' k i) < int (length (byTuple (evictEntry n' k i)))"
proof -
  have inv: "natInv n" by (rule natInv_reachable [OF assms(1-3)])
  let ?m = "evictEntry n k i" and ?port = "portOf n i"
  have minv: "natInv ?m" by (rule natInv_evict [OF inv assms(4)])
  have "?port \<in> set (map (portOf n \<circ> snd) (byTuple n))" using assms(4) by force
  then have lease: "?port \<in> allocated (pool n)" using natInvD(6) [OF inv] by (simp add: pp.leases_def)
  then have fr: "free (pool ?m) = free (pool n) @ [?port]" by (simp add: release_def)
  let ?pl = "\<lparr>free = free (pool n), allocated = insert ?port (allocated (pool ?m))\<rparr>"
  have al: "allocate (pool ?m) = Inr (?port, ?pl)" using fr by (simp add: allocate_def Let_def)
  have "k \<in> fst ` set (byTuple n)" using assms(4) by force
  then have kk: "key \<noteq> k" using assms(11) by metis
  have none: "map_of (byTuple ?m) key = None" using assms(11) by (auto simp: map_of_eq_None_iff)
  let ?r = "translateNew env (?m\<lparr>pool := ?pl\<rparr>) sid key p pkt ?port"
  have tr: "Translate env ?m sid pkt = ?r"
    using assms(5,7,8) al none by (simp add: Translate_def Let_def assms(10))
  obtain out n' where r: "?r = (Inr out, n')"
    using assms(6,9) by (simp add: translateNew_def Let_def openConnection_def openUDP_def)
  let ?j = "nextEntry n"
  have fl: "flowOf n' ?j sid p ?port" using translateNew_Inr [OF r assms(10)] by simp
  have n'inv: "natInv n'"
    using natInv_translateNew [OF minv al none assms(10,7,8), of env] r by simp
  have ij: "i < ?j" by (rule natInvD(2) [OF inv assms(4)])
  have new: "byTuple n' = byTuple ?m @ [(key, ?j)]" "static (heap n' i) = static (heap n i)"
    using translateNew_Inr [OF r assms(10)] ij by auto
  then have p: "portOf n' i = ?port" by (simp add: portOf_def static_def)
  have keep: "byTuple (evictEntry n' k i) = byTuple n'"
    using kk new(1) by (simp add: filter_filter filter_id_conv)
  have pj: "natPort (heap n' ?j) = ?port" using fl by (simp add: flowOf_def static_def)
  have "?port \<in> set (map (portOf n' \<circ> snd) (byTuple n'))" using new(1) pj by (simp add: portOf_def)
  then have "?port \<in> allocated (pool n')" using natInvD(6) [OF n'inv] by (simp add: pp.leases_def)
  then have "?port \<in> set (free (pool (evictEntry n' k i)))" by (simp add: p release_def)
  moreover have "entriesCount (evictEntry n' k i) < int (length (byTuple (evictEntry n' k i)))"
    using natInvD(8) [OF n'inv] unfolding keep by simp
  moreover have "byNATPort (evictEntry n' k i) ?port = None" by (simp add: p)
  moreover have "(key, ?j) \<in> set (byTuple (evictEntry n' k i))" unfolding keep using new(1) by simp
  moreover have "natPort (heap (evictEntry n' k i) ?j) = ?port" using pj by simp
  ultimately show ?thesis using tr r by (auto simp: portOf_def)
qed

theorem stale_eviction_frees_live_port_witness:
  "\<exists>n k i n'. nat_reachable (\<lambda>xs. xs) [192, 0, 2, 1] n \<and> (k, i) \<in> set (byTuple n) \<and>
     (\<exists>out. Translate sampleEnv (evictEntry n k i) ''t'' sampleDNS = (Inr out, n')) \<and>
     (\<exists>key j. (key, j) \<in> set (byTuple (evictEntry n' k i)) \<and>
        natPort (heap (evictEntry n' k i) j) \<in> set (free (pool (evictEntry n' k i))))"
proof -
  let ?n0 = "NewNAT (\<lambda>xs. xs) [192, 0, 2, 1]"
  obtain n k i where r: "nat_reachable (\<lambda>xs. xs) [192, 0, 2, 1] n" "(k, i) \<in> set (byTuple n)" "\<not> stopped n"
    and key: "tupleKey ''t'' (srcIP sampleInfo) (srcPort sampleInfo) (dstIP sampleInfo)
      (dstPort sampleInfo) (proto sampleInfo) \<notin> fst ` set (byTuple n)"
    using sample_reachable by blast
  have "dialOK sampleEnv" by (simp add: sampleEnv_def)
  moreover have "\<not> isBlockedIP (dstIP sampleInfo)" by code_simp
  moreover have "proto sampleInfo = 17" by (simp add: sampleInfo_def)
  ultimately show ?thesis
    using stale_eviction_frees_live_port [OF refl To4_relay r _ sample_parse _ _ refl key] r by metis
qed

end
