(* ===== verification/NatStream_Props.thy ===== *)
theory NatStream_Props
  imports NatFlow_Props
begin

text \<open>
  The byte streams of the NAT: client segments reach the upstream socket in order and once,
  upstream bytes reach the client as contiguous segments, a FIN closes the flow, and DNS queries
  are answered in place.
\<close>

section \<open>Client to upstream\<close>

definition stream :: "nat_state \<Rightarrow> nat \<Rightarrow> bytes" where
  \<comment> \<open>the bytes written to socket \<open>c\<close>, in order\<close>
  "stream n c = concat (map snd (filter (\<lambda>x. fst x = c) (written n)))"

fun inOrder :: "u32 \<Rightarrow> (u32 \<times> bytes) list \<Rightarrow> bytes" where
  \<comment> \<open>the specification: the data of the segments that arrive exactly at the next expected byte\<close>
  "inOrder e [] = []"
| "inOrder e ((s, d) # r) =
     (if d \<noteq> [] \<and> s = e then d @ inOrder (e + of_nat (length d)) r else inOrder e r)"

definition liveFlow :: "nat_state \<Rightarrow> nat \<Rightarrow> bool" where
  "liveFlow n i \<longleftrightarrow> conn (heap n i) = Some i \<and> i \<in> openConns n \<and> tcpState (heap n i) \<noteq> 4"

definition plainSegment :: "parsedPacket \<Rightarrow> bool" where
  "plainSegment p \<longleftrightarrow> tcpFlags p AND 4 = 0 \<and> tcpFlags p AND 1 = 0"

definition feed :: "natEnv \<Rightarrow> nat \<Rightarrow> nat_state \<Rightarrow> (parsedPacket \<times> bytes) list \<Rightarrow> nat_state" where
  "feed env i n ps = foldl (\<lambda>n (p, pkt). handleTCPPacket env n i p pkt) n ps"

lemma sendToSession_fields [simp]:
  "heap (sendToSession n s pkt) = heap n" "written (sendToSession n s pkt) = written n"
  "openConns (sendToSession n s pkt) = openConns n" "byTuple (sendToSession n s pkt) = byTuple n"
  "sessions (sendToSession n s pkt) = sessions n"
  by (simp_all add: sendToSession_def split: option.splits)

lemma modEntry_fields [simp]:
  "heap (modEntry n i f) = (heap n)(i := f (heap n i))" "written (modEntry n i f) = written n"
  "openConns (modEntry n i f) = openConns n" "sessions (modEntry n i f) = sessions n"
  "chans (modEntry n i f) = chans n" "byTuple (modEntry n i f) = byTuple n"
  by (simp_all add: modEntry_def)

lemma handle_plain:
  assumes "liveFlow n i" and "plainSegment p" and "writeOK env"
  shows "liveFlow (handleTCPPacket env n i p pkt) i"
    and "stream (handleTCPPacket env n i p pkt) i =
      (if payload p pkt \<noteq> [] \<and> tcpSeq p = clientSeqNext (heap n i)
       then stream n i @ payload p pkt else stream n i)"
    and "clientSeqNext (heap (handleTCPPacket env n i p pkt) i) =
      (if payload p pkt \<noteq> [] \<and> tcpSeq p = clientSeqNext (heap n i)
       then clientSeqNext (heap n i) + of_nat (length (payload p pkt)) else clientSeqNext (heap n i))"
  using assms
  by (auto simp: handleTCPPacket_def forwardTCPData_def connWrite_def liveFlow_def plainSegment_def
      Let_def stream_def)


definition sampleFlow :: natEntry where
  "sampleFlow = emptyEntry\<lparr>session := ''s'', eSrcIP := [10, 8, 0, 2], eDstIP := [1, 1, 1, 1],
     eSrcPort := 4000, eDstPort := 443, natPort := 20000, eProto := 6, conn := Some 0,
     tcpState := 2, clientSeqNext := 101, relaySeqNext := 501\<rparr>"

definition sampleTable :: nat_state where
  \<comment> \<open>one established TCP flow whose session owns channel 0\<close>
  "sampleTable = \<lparr>relayIP = [192, 0, 2, 1], pool = \<lparr>free = [], allocated = {20000}\<rparr>,
     heap = (\<lambda>_. sampleFlow), nextEntry = 1, byTuple = [(''k'', 0)],
     byNATPort = (\<lambda>p. if p = 20000 then Some 0 else None), entriesCount = 1, portsUsed = 1,
     stopped = False, sessions = (\<lambda>s. if s = ''s'' then Some 0 else None), chans = (\<lambda>_. []),
     doneClosed = {}, nextChan = 1, written = [], openConns = {0}\<rparr>"

definition sampleSeg :: "u32 \<Rightarrow> byte \<Rightarrow> parsedPacket" where
  "sampleSeg sq fl = \<lparr>headerLen = 20, totalLen = 42, proto = 6, srcIP = [10, 8, 0, 2],
     dstIP = [1, 1, 1, 1], srcPort = 4000, dstPort = 443, tcpSeq = sq, tcpAck = 501, tcpFlags = fl,
     tcpWindow = 65535, tcpDataOff = 20, l4Offset = 20, payloadOffset = 40\<rparr>"

definition sampleBytes :: "byte \<Rightarrow> byte \<Rightarrow> bytes" where
  "sampleBytes a b = replicate 40 0 @ [a, b]"

lemma sample_live: "liveFlow sampleTable 0"
  by (simp add: liveFlow_def sampleTable_def sampleFlow_def)


section \<open>Upstream to client\<close>

fun segments :: "u32 \<Rightarrow> bytes list \<Rightarrow> (u32 \<times> bytes) list" where
  \<comment> \<open>contiguous sequence numbers for the chunks read from the socket\<close>
  "segments sq [] = []"
| "segments sq (d # ds) = (sq, d) # segments (sq + of_nat (length d)) ds"

lemma tcpReverseStep_data:
  assumes "data \<noteq> []" and "sessions n (session (heap n i)) = Some c"
  shows "chans (tcpReverseStep env n i data False) = (chans n)(c := chans n c @
      [buildTCPPacket (eDstIP (heap n i)) (eSrcIP (heap n i)) (eDstPort (heap n i)) (eSrcPort (heap n i))
         data 24 (relaySeqNext (heap n i)) (clientSeqNext (heap n i)) 65535])"
    and "heap (tcpReverseStep env n i data False) i =
      (heap n i)\<lparr>relaySeqNext := relaySeqNext (heap n i) + of_nat (length data), lastSeen := clock env\<rparr>"
    and "sessions (tcpReverseStep env n i data False) = sessions n"
  using assms by (simp_all add: tcpReverseStep_def Let_def sendToSession_def)

text \<open>
  the reader of an upstream TCP socket delivers what it reads to the flow's own session and to
  no other: one segment per read, from the original destination to the client, with contiguous
  sequence numbers that start at the flow's next one.
\<close>

theorem tcp_reverse_contiguous:
  assumes "sessions n (session (heap n i)) = Some c"
    and "\<And>env d err. (env, d, err) \<in> set rs \<Longrightarrow> d \<noteq> [] \<and> length d \<le> 1380 \<and> \<not> err"
  shows "chans (tcpReverseLoop n i rs) = (chans n)(c := chans n c @
    map (\<lambda>(sq, d). buildTCPPacket (eDstIP (heap n i)) (eSrcIP (heap n i)) (eDstPort (heap n i))
           (eSrcPort (heap n i)) d 24 sq (clientSeqNext (heap n i)) 65535)
        (segments (relaySeqNext (heap n i)) (map (\<lambda>(env, d, err). d) rs)))"
  using assms
proof (induction rs arbitrary: n)
  case Nil
  then show ?case by simp
next
  case (Cons r rs)
  obtain env d err where r: "r = (env, d, err)" by (metis prod.exhaust)
  have d: "d \<noteq> []" "take 1380 d = d" "\<not> err" using Cons.prems(2) [of env d err] r by auto
  let ?m = "tcpReverseStep env n i d False"
  note st = tcpReverseStep_data [OF d(1) Cons.prems(1), of env]
  have "chans (tcpReverseLoop ?m i rs) = (chans ?m)(c := chans ?m c @
    map (\<lambda>(sq, d). buildTCPPacket (eDstIP (heap ?m i)) (eSrcIP (heap ?m i)) (eDstPort (heap ?m i))
           (eSrcPort (heap ?m i)) d 24 sq (clientSeqNext (heap ?m i)) 65535)
        (segments (relaySeqNext (heap ?m i)) (map (\<lambda>(env, d, err). d) rs)))"
    by (rule Cons.IH) (use st Cons.prems in auto)
  then show ?case using d st by (simp add: r Let_def)
qed

theorem tcp_reverse_contiguous_witness:
  "map (\<lambda>pkt. length pkt) (chans (tcpReverseLoop sampleTable 0
     [(sampleEnv, [1, 2], False), (sampleEnv, [3], False)]) 0) = [42, 41]"
proof -
  let ?rs = "[(sampleEnv, [1, 2], False), (sampleEnv, [3 :: byte], False)]"
  have s: "sessions sampleTable (session (heap sampleTable 0)) = Some 0"
    by (simp add: sampleTable_def sampleFlow_def)
  have rs: "d \<noteq> [] \<and> length d \<le> 1380 \<and> \<not> err" if "(env, d, err) \<in> set ?rs" for env d err
    using that by auto
  have f: "eDstIP (heap sampleTable 0) = [1, 1, 1, 1]" "eSrcIP (heap sampleTable 0) = [10, 8, 0, 2]"
    "relaySeqNext (heap sampleTable 0) = 501" "chans sampleTable 0 = []"
    by (simp_all add: sampleTable_def sampleFlow_def)
  have "length (buildTCPPacket [1, 1, 1, 1] [10, 8, 0, 2] a b d 24 sq ak w) = 40 + length d"
    if "length d \<le> 10" for a b d sq ak w
    using that by (intro length_buildTCPPacket) simp_all
  moreover have "chans (tcpReverseLoop sampleTable 0 ?rs) 0 =
    map (\<lambda>(sq, d). buildTCPPacket [1, 1, 1, 1] [10, 8, 0, 2] (eDstPort (heap sampleTable 0))
       (eSrcPort (heap sampleTable 0)) d 24 sq (clientSeqNext (heap sampleTable 0)) 65535)
      (segments 501 (map (\<lambda>(env, d, err). d) ?rs))"
    using fun_cong [OF tcp_reverse_contiguous [where rs = ?rs, OF s rs], where x = 0] by (simp only: f fun_upd_same append_Nil)
  ultimately show ?thesis by (simp del: tcpReverseLoop.simps)
qed

section \<open>End of a flow\<close>

text \<open>
  a FIN that carries data loses it.  The relay acknowledges one byte, answers FIN+ACK and
  closes the upstream socket without writing the payload of the segment.
\<close>

theorem fin_payload_is_dropped:
  assumes "liveFlow n i" and "tcpFlags p AND 4 = 0" and "tcpFlags p AND 1 \<noteq> 0"
    and "payload p pkt \<noteq> []" and "tcpSeq p = clientSeqNext (heap n i)"
    and "sessions n (session (heap n i)) = Some c"
  shows "stream (handleTCPPacket env n i p pkt) i = stream n i \<and>
    i \<notin> openConns (handleTCPPacket env n i p pkt) \<and>
    last (chans (handleTCPPacket env n i p pkt) c) =
      buildTCPPacket (eDstIP (heap n i)) (eSrcIP (heap n i)) (eDstPort (heap n i)) (eSrcPort (heap n i))
        [] 17 (relaySeqNext (heap n i)) (tcpSeq p + 1) 65535"
  using assms
  by (simp add: handleTCPPacket_def liveFlow_def Let_def stream_def closeConn_def sendToSession_def)

theorem fin_payload_is_dropped_witness:
  "stream (handleTCPPacket sampleEnv sampleTable 0 (sampleSeg 101 17) (sampleBytes 1 2)) 0 = []"
proof -
  have "stream sampleTable 0 = []" by (simp add: stream_def sampleTable_def)
  moreover have "stream (handleTCPPacket sampleEnv sampleTable 0 (sampleSeg 101 17) (sampleBytes 1 2)) 0 =
      stream sampleTable 0"
    using fin_payload_is_dropped [OF sample_live, of "sampleSeg 101 17" "sampleBytes 1 2" 0 sampleEnv]
    by (simp add: payload_def sampleSeg_def sampleBytes_def bslice_def sampleTable_def sampleFlow_def)
  ultimately show ?thesis by simp
qed

section \<open>DNS interception\<close>

text \<open>
  a DNS query over UDP is answered inside the relay: the client receives exactly one packet,
  valid, from the DNS server it addressed to its own address and port, carrying the resolver's
  answer; nothing is written upstream and no NAT entry is made.
\<close>

theorem dns_answered_in_place:
  assumes "parseIPv4 pkt = Inr p" and "proto p = 17" and "dstPort p = 53"
    and "payload p pkt \<noteq> []" and "resolve (payload p pkt) = Some resp" and "resp \<noteq> []"
    and "28 + length resp \<le> 65535" and "sessions n (sessionKey s) = Some c"
  shows "\<exists>reply q. fst (Forward (Some resolve) env n s pkt) = None \<and>
    snd (Forward (Some resolve) env n s pkt) = n\<lparr>chans := (chans n)(c := chans n c @ [reply])\<rparr> \<and>
    accepted reply q \<and> srcIP q = dstIP p \<and> dstIP q = srcIP p \<and> srcPort q = 53 \<and>
    dstPort q = srcPort p \<and> payload q reply = resp"
proof -
  let ?reply = "buildUDPPacket (dstIP p) (srcIP p) 53 (srcPort p) resp"
  have len: "length (To4 (dstIP p)) = 4" "length (To4 (srcIP p)) = 4"
      "To4 (dstIP p) = dstIP p" "To4 (srcIP p) = srcIP p"
    using parseIPv4_InrD [OF assms(1)] by auto
  obtain q where "accepted ?reply q" "srcIP q = dstIP p" "dstIP q = srcIP p" "srcPort q = 53"
      "dstPort q = srcPort p" "payload q ?reply = resp"
    using buildUDPPacket_correct [OF len(1,2) assms(7), of 53 "srcPort p"] len(3,4)
    by (force simp: payload_def)
  moreover have "Forward (Some resolve) env n s pkt =
      (None, n\<lparr>chans := (chans n)(c := chans n c @ [?reply])\<rparr>)"
    using assms
    by (simp add: Forward_def tryDNSIntercept_def dnsMessage_def dnsReply_def sendToSession_def Let_def)
  ultimately show ?thesis by auto
qed

theorem dns_answered_in_place_witness:
  "\<exists>reply q. snd (Forward (Some (\<lambda>_. Some [9])) sampleEnv sampleTable
       \<lparr>tsID = ''s'', tsIPHash = [], tsOpenedAt = 0\<rparr> sampleDNS) =
       sampleTable\<lparr>chans := (chans sampleTable)(0 := [reply])\<rparr> \<and> payload q reply = [9]"
proof -
  have "proto sampleInfo = 17" "dstPort sampleInfo = 53" "payload sampleInfo sampleDNS \<noteq> []"
    by code_simp+
  moreover have "sessions sampleTable (sessionKey \<lparr>tsID = ''s'', tsIPHash = [], tsOpenedAt = 0\<rparr>) = Some 0"
    "chans sampleTable 0 = []"
    by (simp_all add: sampleTable_def sessionKey_def)
  ultimately show ?thesis
    using dns_answered_in_place [OF sample_parse, of "\<lambda>_. Some [9]" "[9]" sampleTable _ 0 sampleEnv]
    by fastforce
qed

end
