(* ===== verification/Base64.thy ===== *)
theory Base64
  imports Go_Strings
begin

text \<open>
  Go's \<^verbatim>\<open>encoding/base64\<close> for the two encodings the program uses: \<^verbatim>\<open>StdEncoding\<close> (padded) and
  \<^verbatim>\<open>RawURLEncoding\<close> (URL alphabet, no padding).  Decoding ignores carriage returns and line
  feeds and, like Go's non-strict decoders, the unused trailing bits.
\<close>

datatype b64variant = Std | RawURL

definition sextetChar :: "b64variant \<Rightarrow> nat \<Rightarrow> char" where
  "sextetChar v n =
     (if n < 26 then char_of (65 + n) else if n < 52 then char_of (71 + n)
      else if n < 62 then char_of (n - 4)
      else if n = 62 then (if v = Std then CHR ''+'' else CHR ''-'')
      else (if v = Std then CHR ''/'' else CHR ''_''))"

definition sextetVal :: "b64variant \<Rightarrow> char \<Rightarrow> nat option" where
  "sextetVal v c = (let n = of_char c in
     if 65 \<le> n \<and> n \<le> 90 then Some (n - 65)
     else if 97 \<le> n \<and> n \<le> 122 then Some (n - 71)
     else if 48 \<le> n \<and> n \<le> 57 then Some (n + 4)
     else if c = (if v = Std then CHR ''+'' else CHR ''-'') then Some 62
     else if c = (if v = Std then CHR ''/'' else CHR ''_'') then Some 63
     else None)"

fun b64enc :: "b64variant \<Rightarrow> bytes \<Rightarrow> string" where
  "b64enc v [] = []"
| "b64enc v [a] =
     (let n = unat a * 16 in
      [sextetChar v (n div 64), sextetChar v (n mod 64)] @ (if v = Std then ''=='' else []))"
| "b64enc v [a, b] =
     (let n = (unat a * 256 + unat b) * 4 in
      [sextetChar v (n div 4096), sextetChar v (n div 64 mod 64), sextetChar v (n mod 64)] @
      (if v = Std then ''='' else []))"
| "b64enc v (a # b # c # r) =
     (let n = unat a * 65536 + unat b * 256 + unat c in
      [sextetChar v (n div 262144), sextetChar v (n div 4096 mod 64), sextetChar v (n div 64 mod 64),
       sextetChar v (n mod 64)] @ b64enc v r)"

definition octet :: "nat \<Rightarrow> byte" where
  "octet n = of_nat (n mod 256)"

fun b64dec :: "b64variant \<Rightarrow> string \<Rightarrow> bytes option" where
  "b64dec v [] = Some []"
| "b64dec v [w, x] =
     (if v = Std then None
      else case (sextetVal v w, sextetVal v x) of
        (Some a, Some b) \<Rightarrow> Some [octet ((a * 64 + b) div 16)]
      | _ \<Rightarrow> None)"
| "b64dec v [w, x, y] =
     (if v = Std then None
      else case (sextetVal v w, sextetVal v x, sextetVal v y) of
        (Some a, Some b, Some c) \<Rightarrow>
          (let n = (a * 64 + b) * 64 + c in Some [octet (n div 1024), octet (n div 4)])
      | _ \<Rightarrow> None)"
| "b64dec v (w # x # y # z # r) =
     (case (sextetVal v w, sextetVal v x) of
        (Some a, Some b) \<Rightarrow>
          (if v = Std \<and> y = CHR ''='' then
             (if z = CHR ''='' \<and> r = [] then Some [octet ((a * 64 + b) div 16)] else None)
           else (case sextetVal v y of
             None \<Rightarrow> None
           | Some c \<Rightarrow>
               if v = Std \<and> z = CHR ''='' then
                 (if r = [] then
                    (let n = (a * 64 + b) * 64 + c in Some [octet (n div 1024), octet (n div 4)])
                  else None)
               else (case sextetVal v z of
                 None \<Rightarrow> None
               | Some d \<Rightarrow>
                   (let n = ((a * 64 + b) * 64 + c) * 64 + d in
                    map_option (\<lambda>bs. octet (n div 65536) # octet (n div 256) # octet n # bs)
                      (b64dec v r)))))
      | _ \<Rightarrow> None)"
| "b64dec v _ = None"

definition b64decode :: "b64variant \<Rightarrow> string \<Rightarrow> bytes option" where
  "b64decode v s = b64dec v (filter (\<lambda>c. c \<noteq> CHR 0x0A \<and> c \<noteq> CHR 0x0D) s)"

section \<open>Round trip\<close>

lemma all_below_64: "(\<And>k. k \<in> set [0..<64] \<Longrightarrow> P k) \<Longrightarrow> n < 64 \<Longrightarrow> P n"
  by simp

lemma sextet_roundtrip [simp]: "n < 64 \<Longrightarrow> sextetVal v (sextetChar v n) = Some n"
proof -
  assume n: "n < 64"
  consider "n < 26" | "26 \<le> n" "n < 52" | "52 \<le> n" "n < 62" | "n = 62" | "n = 63" using n by linarith
  then show ?thesis
    by cases (auto simp: sextetVal_def sextetChar_def Let_def)
qed

lemma sextetChar_alphabet:
  assumes "n < 64"
  shows "sextetChar v n \<noteq> CHR ''='' \<and> sextetChar v n \<noteq> CHR 0x0A \<and> sextetChar v n \<noteq> CHR 0x0D \<and>
    sextetChar v n \<noteq> CHR ''.''"
proof -
  have "sextetVal v (sextetChar v n) = Some n" using assms by simp
  moreover have "sextetVal v CHR ''='' = None" "sextetVal v CHR 0x0A = None" "sextetVal v CHR 0x0D = None"
    "sextetVal v CHR ''.'' = None"
    by (cases v; simp add: sextetVal_def Let_def)+
  ultimately show ?thesis by auto
qed

lemma octet_unat: "n mod 256 = unat b \<Longrightarrow> octet n = b"
  by (simp add: octet_def)

lemma sextets:
  fixes n :: nat
  shows "n div 64 * 64 + n mod 64 = n"
    and "(n div 4096 * 64 + n div 64 mod 64) * 64 + n mod 64 = n"
    and "((n div 262144 * 64 + n div 4096 mod 64) * 64 + n div 64 mod 64) * 64 + n mod 64 = n"
proof -
  have d: "n div 4096 = n div 64 div 64" "n div 262144 = n div 64 div 64 div 64"
    by (simp_all add: div_mult2_eq [symmetric])
  show "n div 64 * 64 + n mod 64 = n" by (rule div_mult_mod_eq)
  then show 2: "(n div 4096 * 64 + n div 64 mod 64) * 64 + n mod 64 = n"
    unfolding d by (simp only: div_mult_mod_eq)
  show "((n div 262144 * 64 + n div 4096 mod 64) * 64 + n div 64 mod 64) * 64 + n mod 64 = n"
    unfolding d by (simp only: div_mult_mod_eq)
qed

lemma div_base: "c < 256 \<Longrightarrow> (x * 256 + c) div 256 = (x :: nat)"
  by simp

lemma b64dec_enc: "b64dec v (b64enc v bs) = Some bs"
proof (induction v bs rule: b64enc.induct)
  case (2 v a)
  let ?n = "unat a * 16"
  have lt: "unat a < 256" by simp
  have b: "?n div 64 < 64" "?n mod 64 < 64" using lt by (simp_all add: less_mult_imp_div_less)
  have "octet (?n div 16) = a" by (rule octet_unat) simp
  then show ?case using b sextets(1) [of ?n] by (cases v) (simp_all add: Let_def)
next
  case (3 v a b)
  let ?n = "(unat a * 256 + unat b) * 4"
  have lt: "unat a < 256" "unat b < 256" by simp_all
  then have "?n < 64 * 4096" by presburger
  then have b: "?n div 4096 < 64" "?n div 64 mod 64 < 64" "?n mod 64 < 64"
    by (simp_all add: less_mult_imp_div_less)
  have d: "?n div 4 = unat a * 256 + unat b" "?n div 1024 = unat a"
  proof -
    show 4: "?n div 4 = unat a * 256 + unat b" by simp
    have "?n div 1024 = ?n div 4 div 256" by (simp add: div_mult2_eq [symmetric])
    then show "?n div 1024 = unat a" unfolding 4 by (simp only: div_base [OF lt(2)])
  qed
  have "octet (?n div 1024) = a" "octet (?n div 4) = b"
    unfolding d using lt by (intro octet_unat; simp)+
  then show ?case
    using b sextets(2) [of ?n] sextetChar_alphabet [OF b(3), of v] by (cases v) (simp_all add: Let_def)
next
  case (4 v a b c r)
  let ?n = "unat a * 65536 + unat b * 256 + unat c"
  have lt: "unat a < 256" "unat b < 256" "unat c < 256" by simp_all
  then have "?n < 64 * 262144" by linarith
  then have b: "?n div 262144 < 64" "?n div 4096 mod 64 < 64" "?n div 64 mod 64 < 64" "?n mod 64 < 64"
    by (simp_all add: less_mult_imp_div_less)
  have d: "?n div 256 = unat a * 256 + unat b" "?n div 65536 = unat a"
  proof -
    have n: "?n = (unat a * 256 + unat b) * 256 + unat c" by simp
    show 4: "?n div 256 = unat a * 256 + unat b" by (simp only: n div_base [OF lt(3)])
    have "?n div 65536 = ?n div 256 div 256" by (simp add: div_mult2_eq [symmetric])
    then show "?n div 65536 = unat a" unfolding 4 by (simp only: div_base [OF lt(2)])
  qed
  have "?n mod 256 = unat c"
  proof -
    have "?n = unat c + (unat a * 256 + unat b) * 256" by simp
    then have "?n mod 256 = unat c mod 256" by (metis mod_mult_self1)
    then show ?thesis using lt(3) by simp
  qed
  then have o: "octet ?n = c" "octet (?n div 65536) = a" "octet (?n div 256) = b"
    unfolding d using lt by (intro octet_unat; simp)+
  show ?case
    using b o 4 sextets(3) [of ?n] sextetChar_alphabet [OF b(3), of v] sextetChar_alphabet [OF b(4), of v]
    by (simp add: Let_def)
qed simp

lemma b64enc_alphabet: "x \<in> set (b64enc v bs) \<Longrightarrow> x \<noteq> CHR 0x0A \<and> x \<noteq> CHR 0x0D \<and> x \<noteq> CHR ''.''"
proof (induction v bs rule: b64enc.induct)
  case (2 v a)
  have "unat a < 256" by simp
  then have "unat a * 16 div 64 < 64" "unat a * 16 mod 64 < 64" by (simp_all add: less_mult_imp_div_less)
  then show ?case using 2 sextetChar_alphabet by (auto simp: Let_def split: if_splits)
next
  case (3 v a b)
  let ?n = "(unat a * 256 + unat b) * 4"
  have "unat a < 256" "unat b < 256" by simp_all
  then have "?n < 64 * 4096" by presburger
  then have "?n div 4096 < 64" "?n div 64 mod 64 < 64" "?n mod 64 < 64"
    by (simp_all add: less_mult_imp_div_less)
  then show ?case using 3 sextetChar_alphabet by (auto simp: Let_def split: if_splits)
next
  case (4 v a b c r)
  let ?n = "unat a * 65536 + unat b * 256 + unat c"
  have "unat a < 256" "unat b < 256" "unat c < 256" by simp_all
  then have "?n < 64 * 262144" by linarith
  then have "?n div 262144 < 64" "?n div 4096 mod 64 < 64" "?n div 64 mod 64 < 64" "?n mod 64 < 64"
    by (simp_all add: less_mult_imp_div_less)
  then show ?case using 4 sextetChar_alphabet by (auto simp: Let_def)
qed simp

lemma b64decode_encode [simp]: "b64decode v (b64enc v bs) = Some bs"
proof -
  have "filter (\<lambda>c. c \<noteq> CHR 0x0A \<and> c \<noteq> CHR 0x0D) (b64enc v bs) = b64enc v bs"
    using b64enc_alphabet by (simp add: filter_id_conv)
  then show ?thesis by (simp add: b64decode_def b64dec_enc)
qed

lemma b64enc_no_dot: "CHR ''.'' \<notin> set (b64enc v bs)"
  using b64enc_alphabet by blast

lemma b64enc_Nil [simp]: "b64enc v bs = [] \<longleftrightarrow> bs = []"
  by (cases "(v, bs)" rule: b64enc.cases) (auto simp: Let_def)

end
