(* ===== verification/Tokens.thy ===== *)
theory Tokens
  imports Base64 Go_Net
begin

text \<open>
  Session tokens: the key helpers of \<^verbatim>\<open>internal/crypto/ed25519.go\<close>, the issue and the check of
  tokens (\<^verbatim>\<open>relay/relay/verify_handler.go\<close>), and the admission of a request by its token, which
  \<^verbatim>\<open>ConnectHandler.ServeHTTP\<close> and \<^verbatim>\<open>TunnelHandler.ServeHTTP\<close> perform with the same guards.

  Ed25519, SHA-256 and the JSON codec of the payload are the fields of \<open>cryptoLib\<close>; times are
  Unix seconds.
\<close>

section \<open>Keys and signatures\<close>

record sessionTokenPayload =
  tokNonce :: string
  tokIPHash :: string
  tokIssued :: int
  tokTTL :: int

record cryptoLib =
  edSign :: "bytes \<Rightarrow> bytes \<Rightarrow> bytes"
  edVerify :: "bytes \<Rightarrow> bytes \<Rightarrow> bytes \<Rightarrow> bool"
  sha256 :: "bytes \<Rightarrow> bytes"
  marshalPayload :: "sessionTokenPayload \<Rightarrow> bytes"
  unmarshalPayload :: "bytes \<Rightarrow> sessionTokenPayload option"

definition ExportPublicKeyBase64 :: "bytes \<Rightarrow> string" where
  "ExportPublicKeyBase64 pub = b64enc Std pub"

definition ImportPublicKeyBase64 :: "string \<Rightarrow> bytes option" where
  "ImportPublicKeyBase64 encoded =
     (case b64decode Std encoded of
        None \<Rightarrow> None
      | Some decoded \<Rightarrow> if length decoded \<noteq> 32 then None else Some decoded)"

definition ImportPrivateKeyBase64 :: "string \<Rightarrow> bytes option" where
  "ImportPrivateKeyBase64 encoded =
     (case b64decode Std encoded of
        None \<Rightarrow> None
      | Some decoded \<Rightarrow> if length decoded \<noteq> 64 then None else Some decoded)"

definition SignMsg :: "cryptoLib \<Rightarrow> bytes \<Rightarrow> bytes \<Rightarrow> bytes option" where
  "SignMsg lib priv message = (if length priv \<noteq> 64 then None else Some (edSign lib priv message))"

definition VerifyMsg :: "cryptoLib \<Rightarrow> bytes \<Rightarrow> bytes \<Rightarrow> bytes \<Rightarrow> bool" where
  "VerifyMsg lib pub message sig = (if length pub \<noteq> 32 then False else edVerify lib pub message sig)"

section \<open>Tokens\<close>

abbreviation (input) SessionTokenTTL :: int where "SessionTokenTTL \<equiv> 14400"

definition randomHex :: "bytes option \<Rightarrow> string option" where
  \<comment> \<open>the argument is what \<^verbatim>\<open>crypto/rand\<close> delivers\<close>
  "randomHex rnd = map_option hexEncode rnd"

definition tokenNonce :: "bytes option \<Rightarrow> string option" where
  "tokenNonce rnd = randomHex rnd"

definition ipHash :: "cryptoLib \<Rightarrow> string \<Rightarrow> string" where
  "ipHash lib ip = hexEncode (sha256 lib (bytesOf ip))"

definition CreateSessionToken :: "cryptoLib \<Rightarrow> bytes \<Rightarrow> string \<Rightarrow> bytes option \<Rightarrow> int \<Rightarrow> string option" where
  "CreateSessionToken lib signingKey clientIP rnd now =
     (case tokenNonce rnd of
        None \<Rightarrow> None
      | Some nonce \<Rightarrow>
          let p = \<lparr>tokNonce = nonce, tokIPHash = ipHash lib clientIP, tokIssued = now, tokTTL = SessionTokenTTL\<rparr>;
              payloadJSON = marshalPayload lib p;
              payloadB64 = b64enc RawURL payloadJSON
          in case SignMsg lib signingKey payloadJSON of
               None \<Rightarrow> None
             | Some sig \<Rightarrow> Some (payloadB64 @ ''.'' @ b64enc RawURL sig))"

definition splitToken :: "string \<Rightarrow> (string \<times> string) option" where
  "splitToken token =
     (case IndexByte token CHR ''.'' of
        None \<Rightarrow> None
      | Some i \<Rightarrow> if 0 < i \<and> i < length token - 1 then Some (take i token, drop (i + 1) token) else None)"

definition VerifySessionToken :: "cryptoLib \<Rightarrow> bytes \<Rightarrow> string \<Rightarrow> sessionTokenPayload option" where
  "VerifySessionToken lib pub token =
     (case splitToken token of
        None \<Rightarrow> None
      | Some (a, b) \<Rightarrow>
          (case b64decode RawURL a of
             None \<Rightarrow> None
           | Some payloadJSON \<Rightarrow>
               (case b64decode RawURL b of
                  None \<Rightarrow> None
                | Some sig \<Rightarrow>
                    if \<not> VerifyMsg lib pub payloadJSON sig then None
                    else unmarshalPayload lib payloadJSON)))"

section \<open>Requests\<close>

record request =
  rMethod :: string
  rRemoteAddr :: string
  rAuthorization :: string
  rContentType :: string
  rBody :: bytes

definition clientIP :: "request \<Rightarrow> string" where
  "clientIP r =
     (if rRemoteAddr r = [] then []
      else case SplitHostPort (rRemoteAddr r) of
        Some (h, _) \<Rightarrow> h
      | None \<Rightarrow> rRemoteAddr r)"

definition extractBearerToken :: "request \<Rightarrow> string" where
  "extractBearerToken r =
     (let auth = rAuthorization r; pre = ''Bearer '' in
      if auth = [] then []
      else if length auth < length pre \<or> \<not> EqualFold (take (length pre) auth) pre then []
      else drop (length pre) auth)"

definition authorize :: "cryptoLib \<Rightarrow> bytes \<Rightarrow> int \<Rightarrow> request \<Rightarrow> nat + sessionTokenPayload \<times> string" where
  \<comment> \<open>the guards shared by the two handlers; \<open>Inl\<close> is the status of the refusal\<close>
  "authorize lib pub now r =
     (if rMethod r \<noteq> ''POST'' then Inl 405
      else let remoteIP = clientIP r in
      if remoteIP = [] then Inl 401
      else let token = extractBearerToken r in
      if token = [] then Inl 401
      else case VerifySessionToken lib pub token of
        None \<Rightarrow> Inl 401
      | Some p \<Rightarrow>
          if now > tokIssued p + tokTTL p then Inl 401
          else if tokIPHash p \<noteq> ipHash lib remoteIP then Inl 401
          else Inr (p, remoteIP))"

section \<open>The verify endpoint\<close>

record verifyResponse =
  vrSignature :: string
  vrSessionToken :: "string option"

definition verifyServeHTTP ::
  "cryptoLib \<Rightarrow> (bytes \<Rightarrow> string option) \<Rightarrow> bytes \<Rightarrow> bytes option \<Rightarrow> int \<Rightarrow> request \<Rightarrow> nat + verifyResponse" where
  \<comment> \<open>\<open>decodeNonce\<close> is the JSON decoder of the body's nonce field\<close>
  "verifyServeHTTP lib decodeNonce signingKey rnd now r =
     (if rMethod r \<noteq> ''POST'' then Inl 405
      else if rContentType r \<noteq> ''application/json'' then Inl 400
      else case decodeNonce (take 1024 (rBody r)) of
        None \<Rightarrow> Inl 400
      | Some nonce \<Rightarrow>
          (case b64decode Std nonce of
             None \<Rightarrow> Inl 400
           | Some nonceBytes \<Rightarrow>
               if length nonceBytes \<noteq> 32 then Inl 400
               else let remoteIP = clientIP r in
               case SignMsg lib signingKey nonceBytes of
                 None \<Rightarrow> Inl 500
               | Some sig \<Rightarrow>
                   Inr \<lparr>vrSignature = b64enc Std sig,
                        vrSessionToken = (if remoteIP = [] then None
                                          else CreateSessionToken lib signingKey remoteIP rnd now)\<rparr>))"

section \<open>Lemmas\<close>

lemma splitToken_join:
  assumes "a \<noteq> []" "b \<noteq> []" "CHR ''.'' \<notin> set a"
  shows "splitToken (a @ ''.'' @ b) = Some (a, b)"
  using IndexByte_append [OF assms(3), of b] assms by (simp add: splitToken_def)

lemma VerifySessionToken_create:
  assumes created: "CreateSessionToken lib priv ip rnd now = Some tok" and pub: "length pub = 32"
    and sig: "\<And>m. edVerify lib pub m (edSign lib priv m)"
    and ne: "\<And>m. edSign lib priv m \<noteq> []" "\<And>p. marshalPayload lib p \<noteq> []"
    and json: "\<And>n. unmarshalPayload lib (marshalPayload lib
        \<lparr>tokNonce = n, tokIPHash = ipHash lib ip, tokIssued = now, tokTTL = 14400\<rparr>) =
        Some \<lparr>tokNonce = n, tokIPHash = ipHash lib ip, tokIssued = now, tokTTL = 14400\<rparr>"
  shows "\<exists>n. VerifySessionToken lib pub tok =
    Some \<lparr>tokNonce = n, tokIPHash = ipHash lib ip, tokIssued = now, tokTTL = 14400\<rparr>"
proof -
  from created obtain n where n: "tokenNonce rnd = Some n"
    by (auto simp: CreateSessionToken_def split: option.splits)
  let ?p = "\<lparr>tokNonce = n, tokIPHash = ipHash lib ip, tokIssued = now, tokTTL = 14400\<rparr>"
  let ?j = "marshalPayload lib ?p"
  have t: "tok = b64enc RawURL ?j @ ''.'' @ b64enc RawURL (edSign lib priv ?j)"
    using created n by (auto simp: CreateSessionToken_def SignMsg_def Let_def split: if_splits)
  have "splitToken tok = Some (b64enc RawURL ?j, b64enc RawURL (edSign lib priv ?j))"
    unfolding t by (rule splitToken_join) (simp_all add: ne b64enc_no_dot)
  then show ?thesis using sig pub json [of n] by (auto simp: VerifySessionToken_def VerifyMsg_def)
qed

lemma extractBearerToken_Bearer [simp]:
  "rAuthorization r = ''Bearer '' @ tok \<Longrightarrow> extractBearerToken r = tok"
  by (simp add: extractBearerToken_def EqualFold_def Let_def)

lemma token_admits:
  assumes "CreateSessionToken lib priv ip rnd now = Some tok" and "length pub = 32"
    and "\<And>m. edVerify lib pub m (edSign lib priv m)"
    and "\<And>m. edSign lib priv m \<noteq> []" and "\<And>p. marshalPayload lib p \<noteq> []"
    and "\<And>n. unmarshalPayload lib (marshalPayload lib
        \<lparr>tokNonce = n, tokIPHash = ipHash lib ip, tokIssued = now, tokTTL = 14400\<rparr>) =
        Some \<lparr>tokNonce = n, tokIPHash = ipHash lib ip, tokIssued = now, tokTTL = 14400\<rparr>"
    and "rMethod r = ''POST''" and "rAuthorization r = ''Bearer '' @ tok" and "clientIP r \<noteq> []"
  shows "(\<exists>p. authorize lib pub t r = Inr (p, clientIP r)) \<longleftrightarrow>
    t \<le> now + 14400 \<and> sha256 lib (bytesOf (clientIP r)) = sha256 lib (bytesOf ip)"
proof -
  obtain n where v: "VerifySessionToken lib pub tok =
      Some \<lparr>tokNonce = n, tokIPHash = ipHash lib ip, tokIssued = now, tokTTL = 14400\<rparr>"
    using VerifySessionToken_create [OF assms(1-6)] by blast
  have "tok \<noteq> []" using assms(1) by (auto simp: CreateSessionToken_def Let_def split: option.splits)
  then show ?thesis
    using v assms(7-9) by (auto simp: authorize_def ipHash_def Let_def split: if_splits)
qed

section \<open>Properties\<close>

text \<open>
  A token issued for a client is exactly a time-limited pass for that client's address: a
  later POST that presents it is admitted if and only if it comes within four hours of the issue
  and from an address with the same SHA-256 hash.
\<close>

theorem issued_token_admits:
  assumes "CreateSessionToken lib priv ip rnd now = Some tok" and "length pub = 32"
    and "\<And>m. edVerify lib pub m (edSign lib priv m)"
    and "\<And>m. edSign lib priv m \<noteq> []" and "\<And>p. marshalPayload lib p \<noteq> []"
    and "\<And>n. unmarshalPayload lib (marshalPayload lib
        \<lparr>tokNonce = n, tokIPHash = ipHash lib ip, tokIssued = now, tokTTL = 14400\<rparr>) =
        Some \<lparr>tokNonce = n, tokIPHash = ipHash lib ip, tokIssued = now, tokTTL = 14400\<rparr>"
    and "rMethod r = ''POST''" and "rAuthorization r = ''Bearer '' @ tok" and "clientIP r \<noteq> []"
  shows "(\<exists>p. authorize lib pub t r = Inr (p, clientIP r)) \<longleftrightarrow>
    t \<le> now + 14400 \<and> sha256 lib (bytesOf (clientIP r)) = sha256 lib (bytesOf ip)"
  by (rule token_admits [OF assms])

text \<open>A concrete signature scheme and codec on which the hypotheses hold.\<close>

definition toyLib :: cryptoLib where
  "toyLib = \<lparr>edSign = (\<lambda>priv m. rev m @ [1]), edVerify = (\<lambda>pub m s. s = rev m @ [1]),
     sha256 = (\<lambda>m. m), marshalPayload = (\<lambda>p. 123 # bytesOf (tokNonce p)),
     unmarshalPayload = (\<lambda>j. Some \<lparr>tokNonce = stringOf (tl j), tokIPHash = hexEncode (bytesOf ''1.2.3.4''),
                               tokIssued = 1000, tokTTL = 14400\<rparr>)\<rparr>"

theorem issued_token_admits_witness:
  "\<exists>tok. CreateSessionToken toyLib (replicate 64 0) ''1.2.3.4'' (Some [1, 2]) 1000 = Some tok \<and>
     (\<exists>p. authorize toyLib (replicate 32 0) 2000
        \<lparr>rMethod = ''POST'', rRemoteAddr = ''1.2.3.4:50000'', rAuthorization = ''Bearer '' @ tok,
         rContentType = [], rBody = []\<rparr> = Inr (p, ''1.2.3.4''))"
proof -
  have "\<exists>tok. CreateSessionToken toyLib (replicate 64 0) ''1.2.3.4'' (Some [1, 2]) 1000 = Some tok"
    by (simp add: CreateSessionToken_def tokenNonce_def randomHex_def SignMsg_def Let_def)
  then obtain tok where c: "CreateSessionToken toyLib (replicate 64 0) ''1.2.3.4'' (Some [1, 2]) 1000 = Some tok"
    by blast
  let ?r = "\<lparr>rMethod = ''POST'', rRemoteAddr = ''1.2.3.4:50000'', rAuthorization = ''Bearer '' @ tok,
         rContentType = [], rBody = []\<rparr>"
  have ip: "clientIP ?r = ''1.2.3.4''"
  proof -
    have "SplitHostPort ''1.2.3.4:50000'' = Some (''1.2.3.4'', ''50000'')" by code_simp
    then show ?thesis by (simp add: clientIP_def)
  qed
  have "(\<exists>p. authorize toyLib (replicate 32 0) 2000 ?r = Inr (p, clientIP ?r)) \<longleftrightarrow>
    2000 \<le> (1000 :: int) + 14400 \<and> sha256 toyLib (bytesOf (clientIP ?r)) = sha256 toyLib (bytesOf ''1.2.3.4'')"
    by (rule issued_token_admits [OF c], unfold ip) (simp_all add: toyLib_def ipHash_def)
  then show ?thesis using c unfolding ip by auto
qed

text \<open>A request that carries a signed token, admitted by the toy scheme.\<close>

definition sampleReq :: "bytes \<Rightarrow> request" where
  "sampleReq body = \<lparr>rMethod = ''POST'', rRemoteAddr = ''1.2.3.4'',
     rAuthorization = ''Bearer '' @ b64enc RawURL [123, 65] @ ''.'' @ b64enc RawURL [65, 123, 1],
     rContentType = [], rBody = body\<rparr>"

lemma sample_authorize:
  "authorize toyLib (replicate 32 0) 2000 (sampleReq body) =
     Inr (\<lparr>tokNonce = stringOf [65], tokIPHash = hexEncode (bytesOf ''1.2.3.4''),
           tokIssued = 1000, tokTTL = 14400\<rparr>, ''1.2.3.4'')"
proof -
  let ?tok = "b64enc RawURL [123, 65] @ ''.'' @ b64enc RawURL [65, 123, 1]"
  let ?r = "sampleReq body"
  have s: "splitToken ?tok = Some (b64enc RawURL [123, 65], b64enc RawURL [65, 123, 1])"
    by (rule splitToken_join) (simp_all only: b64enc_Nil b64enc_no_dot list.distinct not_False_eq_True simp_thms)
  have ip: "clientIP ?r = ''1.2.3.4''"
  proof -
    have "SplitHostPort ''1.2.3.4'' = None" by code_simp
    then show ?thesis by (simp add: clientIP_def sampleReq_def)
  qed
  have t: "extractBearerToken ?r = ?tok" by (rule extractBearerToken_Bearer) (simp add: sampleReq_def)
  have "VerifySessionToken toyLib (replicate 32 0) ?tok =
      Some \<lparr>tokNonce = stringOf [65], tokIPHash = hexEncode (bytesOf ''1.2.3.4''), tokIssued = 1000, tokTTL = 14400\<rparr>"
    unfolding VerifySessionToken_def s by (simp add: VerifyMsg_def toyLib_def del: b64enc.simps)
  moreover have "?tok \<noteq> []" by simp
  ultimately show ?thesis
    unfolding authorize_def Let_def ip t by (simp add: ipHash_def toyLib_def sampleReq_def)
qed

text \<open>
  C10: admission needs a signature: whatever request is admitted presents a payload that verifies
  under the relay's key, has not expired, and is bound to the address the request comes from.
\<close>

theorem admission_needs_signature:
  assumes "authorize lib pub now r = Inr (p, ip)"
  shows "ip = clientIP r \<and> ip \<noteq> [] \<and> rMethod r = ''POST'' \<and> now \<le> tokIssued p + tokTTL p \<and>
    tokIPHash p = hexEncode (sha256 lib (bytesOf ip)) \<and>
    (\<exists>payloadJSON sig. length pub = 32 \<and> edVerify lib pub payloadJSON sig \<and>
       unmarshalPayload lib payloadJSON = Some p)"
  using assms
  by (auto simp: authorize_def Let_def VerifySessionToken_def VerifyMsg_def ipHash_def
      split: if_splits option.splits) blast

theorem admission_needs_signature_witness:
  "\<exists>p. authorize toyLib (replicate 32 0) 2000 (sampleReq []) = Inr (p, ''1.2.3.4'') \<and>
     tokIPHash p = hexEncode (bytesOf ''1.2.3.4'')"
  using admission_needs_signature [OF sample_authorize [of "[]"]] sample_authorize [of "[]"]
  by (auto simp: toyLib_def)

end
