(* ===== verification/Limits.thy ===== *)
theory Limits
  imports Tokens
begin

text \<open>
  The relay's limiters: the lock-free slot counter of \<^verbatim>\<open>relay/relay/limiter.go\<close> as an interleaved
  step relation over its atomic operations, the per-IP limiter of \<^verbatim>\<open>ip_limiter.go\<close>, the bandwidth
  limiter of \<^verbatim>\<open>bandwidth_limiter.go\<close>, and the middlewares of \<^verbatim>\<open>middleware.go\<close>.
\<close>

section \<open>The slot counter\<close>

definition Acquire :: "int \<Rightarrow> int \<Rightarrow> bool \<times> int" where
  \<comment> \<open>uninterrupted: limit and counter to the verdict and the new counter\<close>
  "Acquire lim current = (let n = current + 1 in if n > lim then (False, n - 1) else (True, n))"

definition Release :: "int \<Rightarrow> int" where
  "Release current = (let n = current - 1 in if n < 0 then n + 1 else n)"

text \<open>
  The same operations as their atomic steps.  A goroutine that was refused has incremented the
  counter and not yet taken the increment back; one whose decrement went below zero has not yet
  restored it.
\<close>

record limiter =
  counter :: int
  holders :: nat
  refusing :: nat
  restoring :: nat

inductive limiter_step :: "int \<Rightarrow> limiter \<Rightarrow> limiter \<Rightarrow> bool" for lim where
  admit: "counter l + 1 \<le> lim \<Longrightarrow>
    limiter_step lim l (l\<lparr>counter := counter l + 1, holders := holders l + 1\<rparr>)"
| overflow: "counter l + 1 > lim \<Longrightarrow>
    limiter_step lim l (l\<lparr>counter := counter l + 1, refusing := refusing l + 1\<rparr>)"
| refuse: "refusing l > 0 \<Longrightarrow>
    limiter_step lim l (l\<lparr>counter := counter l - 1, refusing := refusing l - 1\<rparr>)"
| release: "holders l > 0 \<Longrightarrow> counter l - 1 \<ge> 0 \<Longrightarrow>
    limiter_step lim l (l\<lparr>counter := counter l - 1, holders := holders l - 1\<rparr>)"
| release_under: "holders l > 0 \<Longrightarrow> counter l - 1 < 0 \<Longrightarrow>
    limiter_step lim l (l\<lparr>counter := counter l - 1, holders := holders l - 1, restoring := restoring l + 1\<rparr>)"
| restore: "restoring l > 0 \<Longrightarrow>
    limiter_step lim l (l\<lparr>counter := counter l + 1, restoring := restoring l - 1\<rparr>)"

inductive_cases limiter_stepE: "limiter_step lim l l'"

inductive limiter_reachable :: "int \<Rightarrow> limiter \<Rightarrow> bool" for lim where
  init: "limiter_reachable lim \<lparr>counter = 0, holders = 0, refusing = 0, restoring = 0\<rparr>"
| more: "limiter_reachable lim l \<Longrightarrow> limiter_step lim l l' \<Longrightarrow> limiter_reachable lim l'"

lemma limiter_inv:
  assumes "limiter_reachable lim l" and "0 \<le> lim"
  shows "counter l = int (holders l) + int (refusing l) \<and> restoring l = 0 \<and> int (holders l) \<le> lim"
  using assms(1)
proof induction
  case init
  then show ?case using assms(2) by simp
next
  case (more l l')
  from more.hyps(2) more.IH show ?case by cases auto
qed

section \<open>The contract of a slot limiter\<close>

text \<open>
  What the middlewares and the handlers need of a limiter: a granted slot counts, a refused
  request leaves the count alone, and giving a slot back undoes taking it.
\<close>

locale slot_limiter =
  fixes acquire :: "'s \<Rightarrow> bool \<times> 's" and give :: "'s \<Rightarrow> 's" and inUse :: "'s \<Rightarrow> int"
    and cap :: int and wf :: "'s \<Rightarrow> bool"
  assumes granted: "wf s \<Longrightarrow> acquire s = (True, s') \<Longrightarrow> wf s' \<and> inUse s' = inUse s + 1 \<and> inUse s' \<le> cap"
    and refused: "wf s \<Longrightarrow> acquire s = (False, s') \<Longrightarrow> wf s' \<and> inUse s' = inUse s \<and> cap \<le> inUse s"
    and given: "wf s \<Longrightarrow> 0 < inUse s \<Longrightarrow> wf (give s) \<and> inUse (give s) = inUse s - 1"
    and bounded: "wf s \<Longrightarrow> 0 \<le> inUse s"
begin

definition guarded :: "('s \<Rightarrow> 'r \<times> 's) \<Rightarrow> 'r \<Rightarrow> 's \<Rightarrow> 'r \<times> 's" where
  \<comment> \<open>acquire; refuse, or run the handler and release on return\<close>
  "guarded body refusal s =
     (case acquire s of
        (False, s1) \<Rightarrow> (refusal, s1)
      | (True, s1) \<Rightarrow> (case body s1 of (r, s2) \<Rightarrow> (r, give s2)))"

lemma guarded_balance:
  assumes "wf s"
    and "\<And>s1 r s2. wf s1 \<Longrightarrow> body s1 = (r, s2) \<Longrightarrow> wf s2 \<and> inUse s2 = inUse s1"
  shows "wf (snd (guarded body refusal s)) \<and> inUse (snd (guarded body refusal s)) = inUse s"
proof -
  obtain ok s1 where a: "acquire s = (ok, s1)" by fastforce
  show ?thesis
  proof (cases ok)
    case True
    obtain r s2 where b: "body s1 = (r, s2)" by fastforce
    have 1: "wf s1" "inUse s1 = inUse s + 1" using granted assms(1) a True by auto
    then have 2: "wf s2" "inUse s2 = inUse s + 1" using assms(2) [OF 1(1) b] by auto
    have "0 < inUse s2" using bounded [OF assms(1)] 2 by simp
    then show ?thesis using given [OF 2(1)] 2 a b True by (simp add: guarded_def)
  next
    case False
    then show ?thesis using refused assms(1) a by (auto simp: guarded_def)
  qed
qed

lemma guarded_admits: "wf s \<Longrightarrow> inUse s < cap \<Longrightarrow> \<exists>s1. acquire s = (True, s1)"
proof -
  assume wf: "wf s" and lt: "inUse s < cap"
  obtain ok s1 where a: "acquire s = (ok, s1)" by fastforce
  then show ?thesis using refused [OF wf] lt by (cases ok) auto
qed

end

interpretation lim: slot_limiter "Acquire mx" Release "\<lambda>c. c" mx "\<lambda>c. 0 \<le> c \<and> c \<le> mx"
  by unfold_locales (auto simp: Acquire_def Release_def Let_def split: if_splits)

section \<open>The per-IP limiter\<close>

record ipState =
  active :: int
  ipLastSeen :: int
  ipMarked :: bool

definition freshIP :: ipState where
  "freshIP = \<lparr>active = 0, ipLastSeen = 0, ipMarked = False\<rparr>"

type_synonym ipTable = "(string \<times> ipState) list"

definition ipGet :: "ipTable \<Rightarrow> string \<Rightarrow> ipState" where
  \<comment> \<open>\<^verbatim>\<open>LoadOrStore(ip, &ipState{})\<close>\<close>
  "ipGet t ip = (case map_of t ip of Some st \<Rightarrow> st | None \<Rightarrow> freshIP)"

definition ipPut :: "ipTable \<Rightarrow> string \<Rightarrow> ipState \<Rightarrow> ipTable" where
  "ipPut t ip st = (ip, st) # filter (\<lambda>x. fst x \<noteq> ip) t"

definition IPAcquire :: "int \<Rightarrow> int \<Rightarrow> string \<Rightarrow> ipTable \<Rightarrow> bool \<times> ipTable" where
  "IPAcquire maxPer now ip t =
     (let st = (ipGet t ip)\<lparr>ipMarked := False\<rparr>;
          n = active st + 1
      in if n > maxPer then (False, ipPut t ip st)
         else (True, ipPut t ip (st\<lparr>active := n, ipLastSeen := now\<rparr>)))"

definition IPRelease :: "int \<Rightarrow> string \<Rightarrow> ipTable \<Rightarrow> ipTable" where
  "IPRelease now ip t =
     (case map_of t ip of
        None \<Rightarrow> t
      | Some st \<Rightarrow>
          let n = active st - 1;
              st' = (if n < 0 then st else st\<lparr>active := n\<rparr>)
          in ipPut t ip (st'\<lparr>ipLastSeen := now\<rparr>))"

definition ipIdle :: "int \<Rightarrow> ipState \<Rightarrow> bool" where
  "ipIdle cutoff st \<longleftrightarrow> active st = 0 \<and> ipLastSeen st < cutoff"

definition IPCleanup :: "int \<Rightarrow> ipTable \<Rightarrow> ipTable" where
  "IPCleanup now t =
     (let cutoff = now - 300 in
      concat (map (\<lambda>(ip, st).
        if ipIdle cutoff st then (if ipMarked st then [] else [(ip, st\<lparr>ipMarked := True\<rparr>)])
        else [(ip, st)]) t))"

definition ipActive :: "ipTable \<Rightarrow> string \<Rightarrow> int" where
  "ipActive t ip = active (ipGet t ip)"

definition ipDelete :: "string \<Rightarrow> ipTable \<Rightarrow> ipTable" where
  \<comment> \<open>the \<^verbatim>\<open>l.ips.Delete(key)\<close> of a cleanup whose tests ran earlier\<close>
  "ipDelete ip t = filter (\<lambda>x. fst x \<noteq> ip) t"

lemma map_of_ipPut [simp]: "map_of (ipPut t ip st) ip' = (if ip' = ip then Some st else map_of t ip')"
  by (induction t) (auto simp: ipPut_def)

lemma ipGet_ipPut [simp]: "ipGet (ipPut t ip st) ip' = (if ip' = ip then st else ipGet t ip')"
  by (simp add: ipGet_def)

lemma ipActive_Acquire:
  "ipActive (snd (IPAcquire mx now ip t)) ip' =
    (if ip' = ip \<and> ipActive t ip + 1 \<le> mx then ipActive t ip + 1 else ipActive t ip')"
  by (auto simp: IPAcquire_def Let_def ipActive_def)

lemma fst_IPAcquire [simp]: "fst (IPAcquire mx now ip t) \<longleftrightarrow> ipActive t ip + 1 \<le> mx"
  by (auto simp: IPAcquire_def Let_def ipActive_def)

lemma ipActive_Release:
  "0 \<le> ipActive t ip \<Longrightarrow> ipActive (IPRelease now ip t) ip' =
    (if ip' = ip then max 0 (ipActive t ip - 1) else ipActive t ip')"
  by (auto simp: IPRelease_def Let_def ipActive_def ipGet_def freshIP_def split: option.splits)

interpretation ipl: slot_limiter "IPAcquire mx now ip" "IPRelease now ip" "\<lambda>t. ipActive t ip" mx
    "\<lambda>t. 0 \<le> ipActive t ip \<and> ipActive t ip \<le> mx"
proof unfold_locales
  fix s s'
  assume wf: "0 \<le> ipActive s ip \<and> ipActive s ip \<le> mx"
  show "(0 \<le> ipActive s' ip \<and> ipActive s' ip \<le> mx) \<and> ipActive s' ip = ipActive s ip + 1 \<and> ipActive s' ip \<le> mx"
    if "IPAcquire mx now ip s = (True, s')"
    using that wf ipActive_Acquire [of mx now ip s ip] fst_IPAcquire [of mx now ip s] by simp
  show "(0 \<le> ipActive s' ip \<and> ipActive s' ip \<le> mx) \<and> ipActive s' ip = ipActive s ip \<and> mx \<le> ipActive s ip"
    if "IPAcquire mx now ip s = (False, s')"
    using that wf ipActive_Acquire [of mx now ip s ip] fst_IPAcquire [of mx now ip s] by auto
next
  fix s
  assume "0 \<le> ipActive s ip \<and> ipActive s ip \<le> mx" "0 < ipActive s ip"
  then show "(0 \<le> ipActive (IPRelease now ip s) ip \<and> ipActive (IPRelease now ip s) ip \<le> mx) \<and>
      ipActive (IPRelease now ip s) ip = ipActive s ip - 1"
    using ipActive_Release [of s ip now ip] by auto
qed auto

lemma ipActive_Cleanup:
  assumes "distinct (map fst t)"
  shows "ipActive (IPCleanup now t) ip = ipActive t ip"
proof -
  let ?f = "\<lambda>(ip, st). if ipIdle (now - 300) st
        then (if ipMarked st then [] else [(ip, st\<lparr>ipMarked := True\<rparr>)]) else [(ip, st)]"
  have "ipActive (concat (map ?f t)) ip = ipActive t ip"
    using assms
  proof (induction t)
    case (Cons x t)
    obtain k st where x: "x = (k, st)" by fastforce
    have "map_of (concat (map ?f t)) k = None" if "k \<notin> fst ` set t"
      using that by (force simp: map_of_eq_None_iff split: if_splits)
    with Cons x show ?case
      by (auto simp: ipActive_def ipGet_def freshIP_def ipIdle_def split: option.splits)
  qed (simp add: ipActive_def)
  then show ?thesis by (simp add: IPCleanup_def Let_def)
qed

section \<open>Middlewares\<close>

definition LimitMiddleware :: "int \<Rightarrow> (int \<Rightarrow> nat \<times> int) \<Rightarrow> int \<Rightarrow> nat \<times> int" where
  \<comment> \<open>the handler may run while other requests move the counter; it returns status and counter\<close>
  "LimitMiddleware mx nxt current =
     (case Acquire mx current of
        (False, c) \<Rightarrow> (503, c)
      | (True, c) \<Rightarrow> (case nxt c of (status, c2) \<Rightarrow> (status, Release c2)))"

definition IPLimitMiddleware ::
  "int \<Rightarrow> int \<Rightarrow> request \<Rightarrow> (ipTable \<Rightarrow> nat \<times> ipTable) \<Rightarrow> ipTable \<Rightarrow> nat \<times> ipTable" where
  "IPLimitMiddleware maxPer now r nxt t =
     (let ip = clientIP r in
      if ip = [] then nxt t
      else case IPAcquire maxPer now ip t of
        (False, t1) \<Rightarrow> (429, t1)
      | (True, t1) \<Rightarrow> (case nxt t1 of (status, t2) \<Rightarrow> (status, IPRelease now ip t2)))"

section \<open>The bandwidth limiter\<close>

record bwState =
  bytesUsed :: int
  dayTimestamp :: int
  hourlyBytesUsed :: int
  hourTimestamp :: int
  hourlyThrottled :: bool
  bwLastSeen :: int
  bwMarked :: bool

record bwLimiter =
  bwIPs :: "string \<Rightarrow> bwState option"
  bwQuota :: int
  bwHourlyQuota :: int
  throttledTotal :: int

definition freshBW :: bwState where
  "freshBW = \<lparr>bytesUsed = 0, dayTimestamp = 0, hourlyBytesUsed = 0, hourTimestamp = 0,
     hourlyThrottled = False, bwLastSeen = 0, bwMarked = False\<rparr>"

definition NewBandwidthLimiterWithHourly :: "int \<Rightarrow> int \<Rightarrow> bwLimiter" where
  "NewBandwidthLimiterWithHourly daily hourly =
     \<lparr>bwIPs = (\<lambda>_. None), bwQuota = daily, bwHourlyQuota = hourly, throttledTotal = 0\<rparr>"

definition NewBandwidthLimiter :: "int \<Rightarrow> bwLimiter" where
  "NewBandwidthLimiter quota = NewBandwidthLimiterWithHourly quota (1 * 1024 * 1024 * 1024)"

definition currentDayUnix :: "int \<Rightarrow> int" where
  \<comment> \<open>\<^verbatim>\<open>Truncate\<close> of a Unix time to the UTC day\<close>
  "currentDayUnix now = now - now mod 86400"

definition currentHourUnix :: "int \<Rightarrow> int" where
  "currentHourUnix now = now - now mod 3600"

definition dayReset :: "int \<Rightarrow> bwState \<Rightarrow> bwState" where
  "dayReset now st =
     (if dayTimestamp st < currentDayUnix now
      then st\<lparr>bytesUsed := 0, dayTimestamp := currentDayUnix now\<rparr> else st)"

definition hourReset :: "int \<Rightarrow> bwState \<Rightarrow> bwState" where
  "hourReset now st =
     (if hourTimestamp st < currentHourUnix now
      then st\<lparr>hourlyBytesUsed := 0, hourlyThrottled := False, hourTimestamp := currentHourUnix now\<rparr> else st)"

definition bwGet :: "bwLimiter \<Rightarrow> string \<Rightarrow> bwState" where
  "bwGet bl ip = (case bwIPs bl ip of Some st \<Rightarrow> st | None \<Rightarrow> freshBW)"

definition addBytesScaled :: "int \<Rightarrow> bwLimiter \<Rightarrow> string \<Rightarrow> int \<Rightarrow> int \<Rightarrow> (bool \<times> bool) \<times> bwLimiter" where
  "addBytesScaled now bl key n scale =
     (let st0 = (bwGet bl key)\<lparr>bwMarked := False, bwLastSeen := now\<rparr>;
          st1 = hourReset now (dayReset now st0);
          dailyTotal = bytesUsed st1 + n;
          hourlyTotal = hourlyBytesUsed st1 + n;
          st2 = st1\<lparr>bytesUsed := dailyTotal, hourlyBytesUsed := hourlyTotal\<rparr>
      in ((dailyTotal \<ge> bwQuota bl * scale, hourlyTotal \<ge> bwHourlyQuota bl * scale),
          bl\<lparr>bwIPs := (bwIPs bl)(key := Some st2)\<rparr>))"

definition addBytes :: "int \<Rightarrow> bwLimiter \<Rightarrow> string \<Rightarrow> int \<Rightarrow> (bool \<times> bool) \<times> bwLimiter" where
  "addBytes now bl ip n =
     (let st0 = (bwGet bl ip)\<lparr>bwMarked := False, bwLastSeen := now\<rparr>;
          st1 = hourReset now (dayReset now st0);
          dailyTotal = bytesUsed st1 + n;
          hourlyTotal = hourlyBytesUsed st1 + n;
          st2 = st1\<lparr>bytesUsed := dailyTotal, hourlyBytesUsed := hourlyTotal\<rparr>
      in ((dailyTotal \<ge> bwQuota bl, hourlyTotal \<ge> bwHourlyQuota bl),
          bl\<lparr>bwIPs := (bwIPs bl)(ip := Some st2)\<rparr>))"

definition CanOpenTunnel :: "int \<Rightarrow> bwLimiter \<Rightarrow> string \<Rightarrow> bool \<times> bwLimiter" where
  \<comment> \<open>the lazy reset writes the state, so the limiter is returned too\<close>
  "CanOpenTunnel now bl ip =
     (case bwIPs bl ip of
        None \<Rightarrow> (True, bl)
      | Some st \<Rightarrow>
          let st1 = dayReset now st in
          (bytesUsed st1 < bwQuota bl, bl\<lparr>bwIPs := (bwIPs bl)(ip := Some st1)\<rparr>))"

definition subnetPrefix :: "string \<Rightarrow> string" where
  "subnetPrefix ip =
     (let c0 = TrimSpace ip;
          c1 = (if HasPrefix c0 ''['' then
                  (case IndexByte c0 CHR '']'' of
                     Some e \<Rightarrow> if e > 0 then take (e - 1) (drop 1 c0) else c0
                   | None \<Rightarrow> c0)
                else c0);
          c2 = (case IndexByte c1 CHR ''%'' of Some k \<Rightarrow> take k c1 | None \<Rightarrow> c1)
      in case ParseIP c2 of
           None \<Rightarrow> []
         | Some p \<Rightarrow>
             (if To4 p \<noteq> [] then ipString (take 3 (To4 p) @ [0]) @ ''/24''
              else ipString (take 8 p @ replicate 8 0) @ ''/64''))"

definition AccountAndThrottle :: "int \<Rightarrow> bwLimiter \<Rightarrow> string \<Rightarrow> int \<Rightarrow> int \<times> bwLimiter" where
  \<comment> \<open>the nanoseconds to sleep (0 for none) and the new limiter; the context may cut the sleep short\<close>
  "AccountAndThrottle now bl ip n =
     (let ((daily, hourly), bl1) = addBytes now bl ip n;
          bl2 = (if hourly then
                   (case bwIPs bl1 ip of
                      Some st \<Rightarrow> if hourlyThrottled st then bl1
                                else bl1\<lparr>bwIPs := (bwIPs bl1)(ip := Some (st\<lparr>hourlyThrottled := True\<rparr>)),
                                         throttledTotal := throttledTotal bl1 + 1\<rparr>
                    | None \<Rightarrow> bl1)
                 else bl1);
          key = subnetPrefix ip;
          ((sDaily, sHourly), bl3) =
            (if key \<noteq> [] \<and> key \<noteq> ip then addBytesScaled now bl2 key n 4 else ((False, False), bl2))
      in (if daily \<or> sDaily \<or> hourly \<or> sHourly then n * 1000000000 div 625000 else 0, bl3))"

definition bwCleanup :: "int \<Rightarrow> bwLimiter \<Rightarrow> bwLimiter" where
  "bwCleanup now bl =
     bl\<lparr>bwIPs := (\<lambda>ip. case bwIPs bl ip of
          None \<Rightarrow> None
        | Some st \<Rightarrow>
            if bwLastSeen st < now - 86400 then (if bwMarked st then None else Some (st\<lparr>bwMarked := True\<rparr>))
            else Some st)\<rparr>"

text \<open>The specification: the bytes accounted to a key within the UTC day of \<open>now\<close>.\<close>

definition usedToday :: "int \<Rightarrow> bwLimiter \<Rightarrow> string \<Rightarrow> int" where
  "usedToday now bl ip =
     (if dayTimestamp (bwGet bl ip) = currentDayUnix now then bytesUsed (bwGet bl ip) else 0)"

definition bwClock :: "int \<Rightarrow> bwLimiter \<Rightarrow> bool" where
  \<comment> \<open>no state is from the future, and states count no negative use\<close>
  "bwClock now bl \<longleftrightarrow> (\<forall>ip st. bwIPs bl ip = Some st \<longrightarrow>
     dayTimestamp st \<le> currentDayUnix now \<and> (0 \<le> bytesUsed st))"

lemma currentDayUnix_pos: "86400 \<le> now \<Longrightarrow> 0 < currentDayUnix now"
proof -
  assume "86400 \<le> now"
  moreover have "now mod 86400 < 86400" by simp
  ultimately show ?thesis unfolding currentDayUnix_def by linarith
qed

lemma bytesUsed_dayReset:
  assumes "bwClock now bl" and "86400 \<le> now"
  shows "bytesUsed (dayReset now ((bwGet bl ip)\<lparr>bwMarked := m, bwLastSeen := s\<rparr>)) = usedToday now bl ip"
    and "dayTimestamp (dayReset now ((bwGet bl ip)\<lparr>bwMarked := m, bwLastSeen := s\<rparr>)) = currentDayUnix now"
proof -
  have "dayTimestamp (bwGet bl ip) \<le> currentDayUnix now"
    using assms currentDayUnix_pos [of now]
    by (auto simp: bwClock_def bwGet_def freshBW_def split: option.splits)
  then show "bytesUsed (dayReset now ((bwGet bl ip)\<lparr>bwMarked := m, bwLastSeen := s\<rparr>)) = usedToday now bl ip"
    "dayTimestamp (dayReset now ((bwGet bl ip)\<lparr>bwMarked := m, bwLastSeen := s\<rparr>)) = currentDayUnix now"
    by (auto simp: dayReset_def usedToday_def)
qed

lemma hourReset_day [simp]:
  "bytesUsed (hourReset now st) = bytesUsed st" "dayTimestamp (hourReset now st) = dayTimestamp st"
  by (simp_all add: hourReset_def)

lemma usedToday_addBytes:
  assumes "bwClock now bl" and "86400 \<le> now"
  shows "usedToday now (snd (addBytes now bl ip n)) ip' =
      usedToday now bl ip' + (if ip' = ip then n else 0)"
    and "fst (fst (addBytes now bl ip n)) \<longleftrightarrow> bwQuota bl \<le> usedToday now bl ip + n"
  using bytesUsed_dayReset [OF assms, where ip = ip and m = False and s = now]
  by (auto simp: addBytes_def Let_def usedToday_def bwGet_def)

lemma usedToday_addBytesScaled:
  assumes "bwClock now bl" and "86400 \<le> now"
  shows "usedToday now (snd (addBytesScaled now bl ip n sc)) ip' =
      usedToday now bl ip' + (if ip' = ip then n else 0)"
    and "fst (fst (addBytesScaled now bl ip n sc)) \<longleftrightarrow> bwQuota bl * sc \<le> usedToday now bl ip + n"
  using bytesUsed_dayReset [OF assms, where ip = ip and m = False and s = now]
  by (auto simp: addBytesScaled_def Let_def usedToday_def bwGet_def)

lemma bwClock_addBytes:
  assumes "bwClock now bl" and "86400 \<le> now" and "0 \<le> n"
  shows "bwClock now (snd (addBytes now bl ip n))" "bwClock now (snd (addBytesScaled now bl ip n sc))"
proof -
  have "0 \<le> usedToday now bl ip" using assms(1)
    by (auto simp: usedToday_def bwClock_def bwGet_def freshBW_def split: option.splits)
  then show "bwClock now (snd (addBytes now bl ip n))" "bwClock now (snd (addBytesScaled now bl ip n sc))"
    using assms bytesUsed_dayReset [OF assms(1,2), where ip = ip and m = False and s = now]
    by (auto simp: bwClock_def addBytes_def addBytesScaled_def Let_def)
qed

definition markThrottled :: "bool \<Rightarrow> string \<Rightarrow> bwLimiter \<Rightarrow> bwLimiter" where
  "markThrottled hourly ip bl =
     (if hourly then
        (case bwIPs bl ip of
           Some st \<Rightarrow> if hourlyThrottled st then bl
                     else bl\<lparr>bwIPs := (bwIPs bl)(ip := Some (st\<lparr>hourlyThrottled := True\<rparr>)),
                              throttledTotal := throttledTotal bl + 1\<rparr>
         | None \<Rightarrow> bl)
      else bl)"

lemma markThrottled_facts:
  "usedToday now (markThrottled h ip bl) k = usedToday now bl k"
  "bwClock now (markThrottled h ip bl) = bwClock now bl"
  "bwQuota (markThrottled h ip bl) = bwQuota bl"
  "(bwIPs (markThrottled h ip bl) k = None) = (bwIPs bl k = None)"
  by (auto simp: markThrottled_def usedToday_def bwGet_def bwClock_def split: option.splits if_splits)

lemma bwQuota_add [simp]:
  "bwQuota (snd (addBytes now bl ip n)) = bwQuota bl"
  "bwQuota (snd (addBytesScaled now bl ip n sc)) = bwQuota bl"
  by (simp_all add: addBytes_def addBytesScaled_def Let_def)

lemma AccountAndThrottle_eq:
  "AccountAndThrottle now bl ip n =
     (let a = addBytes now bl ip n;
          bl2 = markThrottled (snd (fst a)) ip (snd a);
          key = subnetPrefix ip;
          b = (if key \<noteq> [] \<and> key \<noteq> ip then addBytesScaled now bl2 key n 4 else ((False, False), bl2))
      in (if fst (fst a) \<or> fst (fst b) \<or> snd (fst a) \<or> snd (fst b) then n * 1000000000 div 625000 else 0,
          snd b))"
  unfolding AccountAndThrottle_def markThrottled_def Let_def case_prod_unfold by (rule refl)

lemma CanOpenTunnel_used:
  assumes "bwClock now bl" and "86400 \<le> now" and "0 < bwQuota bl"
  shows "fst (CanOpenTunnel now bl ip) \<longleftrightarrow> usedToday now bl ip < bwQuota bl"
proof (cases "bwIPs bl ip")
  case None
  then show ?thesis using assms(3) by (simp add: CanOpenTunnel_def usedToday_def bwGet_def freshBW_def)
next
  case (Some st)
  then have "dayTimestamp st \<le> currentDayUnix now" using assms(1) by (simp add: bwClock_def)
  then show ?thesis
    using Some assms(3) by (auto simp: CanOpenTunnel_def Let_def dayReset_def usedToday_def bwGet_def)
qed

section \<open>Properties\<close>

text \<open>
  C35: whatever the interleaving of the atomic steps of \<open>Acquire\<close> and \<open>Release\<close>, never more
  goroutines hold a slot than the limit allows, the counter is exact up to refusals in flight,
  and the guard against an underflow never fires.
\<close>

theorem limiter_never_exceeds:
  assumes "limiter_reachable lim l" and "0 \<le> lim"
  shows "int (holders l) \<le> lim \<and> counter l = int (holders l) + int (refusing l) \<and> restoring l = 0"
  using limiter_inv [OF assms] by blast

theorem limiter_never_exceeds_witness:
  "\<exists>l. limiter_reachable 1 l \<and> holders l = 1 \<and> refusing l = 1 \<and> int (holders l) \<le> 1"
proof -
  have "limiter_reachable 1 \<lparr>counter = 1, holders = 1, refusing = 0, restoring = 0\<rparr>"
    using limiter_reachable.more [OF limiter_reachable.init limiter_step.admit, of 1] by simp
  from limiter_reachable.more [OF this limiter_step.overflow]
  have r: "limiter_reachable 1 \<lparr>counter = 2, holders = 1, refusing = 1, restoring = 0\<rparr>" by simp
  from limiter_never_exceeds [OF this] r show ?thesis by auto
qed

text \<open>
  the middlewares do not leak slots.  Around a handler that leaves the limiter as it found it,
  the global and the per-IP middleware leave the number of slots in use unchanged, they refuse
  (503, 429) exactly when the limit is reached, and otherwise answer what the handler answers.
\<close>

theorem middlewares_balance:
  assumes "0 \<le> c" and "c \<le> mx" and "0 \<le> ipActive t (clientIP r)" and "ipActive t (clientIP r) \<le> mp"
    and "clientIP r \<noteq> []" and "\<And>t'. ipActive (snd (nxt t')) (clientIP r) = ipActive t' (clientIP r)"
  shows "LimitMiddleware mx (\<lambda>c. (status, c)) c = (if c < mx then status else 503, c) \<and>
    ipActive (snd (IPLimitMiddleware mp now r nxt t)) (clientIP r) = ipActive t (clientIP r) \<and>
    fst (IPLimitMiddleware mp now r nxt t) =
      (if ipActive t (clientIP r) < mp then fst (nxt (snd (IPAcquire mp now (clientIP r) t))) else 429)"
proof -
  let ?ip = "clientIP r"
  have l: "LimitMiddleware mx (\<lambda>c. (status, c)) c = lim.guarded mx (\<lambda>c. (status, c)) 503 c"
    by (simp add: LimitMiddleware_def lim.guarded_def)
  have bal: "snd (LimitMiddleware mx (\<lambda>c. (status, c)) c) = c"
    unfolding l using lim.guarded_balance [of c mx "\<lambda>c. (status, c)"] assms(1,2) by simp
  have st: "fst (LimitMiddleware mx (\<lambda>c. (status, c)) c) = (if c < mx then status else 503)"
    using assms(2) by (auto simp: LimitMiddleware_def Acquire_def Let_def)
  have i: "IPLimitMiddleware mp now r nxt t = ipl.guarded mp now ?ip nxt 429 t"
    using assms(5) by (simp add: IPLimitMiddleware_def ipl.guarded_def Let_def)
  have "ipActive (snd (IPLimitMiddleware mp now r nxt t)) ?ip = ipActive t ?ip"
    unfolding i
  proof (rule ipl.guarded_balance [THEN conjunct2])
    show "0 \<le> ipActive t ?ip \<and> ipActive t ?ip \<le> mp" using assms(3,4) by blast
    fix s1 q s2
    assume "0 \<le> ipActive s1 ?ip \<and> ipActive s1 ?ip \<le> mp" "nxt s1 = (q, s2)"
    then show "(0 \<le> ipActive s2 ?ip \<and> ipActive s2 ?ip \<le> mp) \<and> ipActive s2 ?ip = ipActive s1 ?ip"
      using assms(6) [of s1] by simp
  qed
  moreover have "fst (IPLimitMiddleware mp now r nxt t) =
      (if ipActive t ?ip < mp then fst (nxt (snd (IPAcquire mp now ?ip t))) else 429)"
  proof -
    obtain ok t1 where a: "IPAcquire mp now ?ip t = (ok, t1)" by fastforce
    have "fst (IPAcquire mp now ?ip t) \<longleftrightarrow> ipActive t ?ip < mp" unfolding fst_IPAcquire by linarith
    then have "ok \<longleftrightarrow> ipActive t ?ip < mp" by (simp only: a fst_conv)
    then show ?thesis
      using assms(5) by (cases ok) (simp_all add: IPLimitMiddleware_def Let_def a case_prod_unfold)
  qed
  ultimately show ?thesis using bal st by (simp add: prod_eq_iff)
qed

theorem middlewares_balance_witness:
  "LimitMiddleware 2 (\<lambda>c. (200, c)) 1 = (200, 1)"
proof -
  let ?r = "\<lparr>rMethod = ''POST'', rRemoteAddr = ''x'', rAuthorization = [], rContentType = [], rBody = []\<rparr>"
  have "clientIP ?r = ''x''"
  proof -
    have "SplitHostPort ''x'' = None" by code_simp
    then show ?thesis by (simp add: clientIP_def)
  qed
  then have "clientIP ?r \<noteq> []" "ipActive [] (clientIP ?r) = 0"
    by (simp_all add: ipActive_def ipGet_def freshIP_def)
  with middlewares_balance [of 1 2 "[]" ?r 5 "\<lambda>t. (200, t)" 200] show ?thesis by simp
qed

definition acquireN :: "int \<Rightarrow> int \<Rightarrow> string \<Rightarrow> nat \<Rightarrow> ipTable \<Rightarrow> ipTable" where
  "acquireN mx now ip k t = ((\<lambda>t. snd (IPAcquire mx now ip t)) ^^ k) t"

lemma ipActive_acquireN:
  "int k \<le> mx - ipActive t ip \<Longrightarrow> ipActive (acquireN mx now ip k t) ip = ipActive t ip + int k"
  by (induction k) (simp_all add: acquireN_def ipActive_Acquire)

lemma ipActive_ipDelete [simp]: "ipActive (ipDelete ip t) ip = 0"
proof -
  have "map_of (ipDelete ip t) ip = None" by (auto simp: ipDelete_def map_of_eq_None_iff)
  then show ?thesis by (simp add: ipActive_def ipGet_def freshIP_def)
qed

text \<open>
  the per-IP limit can be exceeded.  If an idle entry passes the tests of a cleanup and the
  deletion is delayed until the client opened its full number of connections, the table forgets
  them and the client opens the full number again, with no release in between.
\<close>

theorem delayed_cleanup_breaks_ip_limit:
  assumes "0 < mx" and "map_of t ip = Some st" and "ipIdle cutoff st" and "ipMarked st"
  shows "(\<forall>j < nat mx. fst (IPAcquire mx now ip (acquireN mx now ip j t))) \<and>
    (\<forall>j < nat mx. fst (IPAcquire mx now ip
       (acquireN mx now ip j (ipDelete ip (acquireN mx now ip (nat mx) t)))))"
proof -
  have z: "ipActive t ip = 0" using assms(2,3) by (simp add: ipActive_def ipGet_def ipIdle_def)
  have "fst (IPAcquire mx now ip (acquireN mx now ip j s))" if "j < nat mx" "ipActive s ip = 0" for j s
    using that ipActive_acquireN [of j mx s ip now] by simp
  then show ?thesis using z by simp
qed

theorem delayed_cleanup_breaks_ip_limit_witness:
  "fst (IPAcquire 1 900 ''1.2.3.4'' (ipDelete ''1.2.3.4''
     (acquireN 1 900 ''1.2.3.4'' 1 [(''1.2.3.4'', \<lparr>active = 0, ipLastSeen = 0, ipMarked = True\<rparr>)])))"
proof -
  let ?st = "\<lparr>active = 0, ipLastSeen = 0, ipMarked = True\<rparr>"
  have "ipIdle 600 ?st" by (simp add: ipIdle_def)
  from delayed_cleanup_breaks_ip_limit [of 1 "[(''1.2.3.4'', ?st)]" "''1.2.3.4''" ?st 600 900] this
  show ?thesis by (simp add: acquireN_def)
qed

text \<open>
  bandwidth accounting is exact.  Accounting \<open>n\<close> bytes to an address adds \<open>n\<close> to what that
  address and its subnet used in the current UTC day and nothing to any other key; a new tunnel
  is refused from then on exactly when the day's use reached the quota, and traffic over the
  quota of the address, or over four times the quota in the subnet, sleeps at 625 kB/s.
\<close>

theorem bandwidth_accounting_exact:
  assumes "bwClock now bl" and "86400 \<le> now" and "0 \<le> n" and "0 < bwQuota bl"
    and "AccountAndThrottle now bl ip n = (sleep, bl')"
  shows "(\<forall>k. usedToday now bl' k = usedToday now bl k + (if k = ip then n else 0) +
      (if k = subnetPrefix ip \<and> k \<noteq> [] \<and> k \<noteq> ip then n else 0)) \<and>
    (fst (CanOpenTunnel now bl' ip) \<longleftrightarrow> usedToday now bl ip + n < bwQuota bl) \<and>
    (bwQuota bl \<le> usedToday now bl ip + n \<longrightarrow> sleep = n * 1000000000 div 625000) \<and>
    (subnetPrefix ip \<notin> {[], ip} \<and> 4 * bwQuota bl \<le> usedToday now bl (subnetPrefix ip) + n \<longrightarrow>
       sleep = n * 1000000000 div 625000)"
proof -
  let ?a = "addBytes now bl ip n" and ?key = "subnetPrefix ip"
  let ?bl2 = "markThrottled (snd (fst ?a)) ip (snd ?a)"
  let ?b = "if ?key \<noteq> [] \<and> ?key \<noteq> ip then addBytesScaled now ?bl2 ?key n 4 else ((False, False), ?bl2)"
  have r: "bl' = snd ?b" "sleep = (if fst (fst ?a) \<or> fst (fst ?b) \<or> snd (fst ?a) \<or> snd (fst ?b)
      then n * 1000000000 div 625000 else 0)"
    using assms(5) by (simp_all add: AccountAndThrottle_eq Let_def)
  have c1: "bwClock now (snd ?a)" by (rule bwClock_addBytes [OF assms(1-3)])
  then have c2: "bwClock now ?bl2" by (simp add: markThrottled_facts)
  have u2: "usedToday now ?bl2 k = usedToday now bl k + (if k = ip then n else 0)" for k
    using usedToday_addBytes(1) [OF assms(1,2)] by (simp add: markThrottled_facts)
  have u3: "usedToday now bl' k = usedToday now bl k + (if k = ip then n else 0) +
      (if k = ?key \<and> k \<noteq> [] \<and> k \<noteq> ip then n else 0)" for k
    using usedToday_addBytesScaled(1) [OF c2 assms(2)] u2 by (auto simp: r(1))
  have c3: "bwClock now bl'" using bwClock_addBytes(2) [OF c2 assms(2,3)] c2 by (simp add: r(1))
  have q: "bwQuota bl' = bwQuota bl" by (simp add: r(1) markThrottled_facts)
  have can: "fst (CanOpenTunnel now bl' ip) \<longleftrightarrow> usedToday now bl ip + n < bwQuota bl"
    using CanOpenTunnel_used [OF c3 assms(2)] assms(4) u3 [of ip] q by simp
  have s1: "bwQuota bl \<le> usedToday now bl ip + n \<Longrightarrow> sleep = n * 1000000000 div 625000"
    using usedToday_addBytes(2) [OF assms(1,2)] by (simp add: r(2))
  have s2: "sleep = n * 1000000000 div 625000"
    if "?key \<notin> {[], ip}" "4 * bwQuota bl \<le> usedToday now bl ?key + n"
  proof -
    have "fst (fst (addBytesScaled now ?bl2 ?key n 4))"
      using usedToday_addBytesScaled(2) [OF c2 assms(2), of ?key n 4] that u2 [of ?key]
      by (simp add: markThrottled_facts)
    then show ?thesis using that(1) by (simp add: r(2))
  qed
  show ?thesis using u3 can s1 s2 by blast
qed

theorem bandwidth_accounting_exact_witness:
  "\<exists>sleep bl'. AccountAndThrottle 200000 (NewBandwidthLimiter 100) ''1.2.3.4'' 100 = (sleep, bl') \<and>
     \<not> fst (CanOpenTunnel 200000 bl' ''1.2.3.4'') \<and> usedToday 200000 bl' ''1.2.3.4'' = 100"
proof -
  let ?bl = "NewBandwidthLimiter 100"
  obtain sleep bl' where e: "AccountAndThrottle 200000 ?bl ''1.2.3.4'' 100 = (sleep, bl')" by fastforce
  have "bwClock 200000 ?bl" "usedToday 200000 ?bl k = 0" "bwQuota ?bl = 100" for k
    by (simp_all add: bwClock_def NewBandwidthLimiter_def NewBandwidthLimiterWithHourly_def
        usedToday_def bwGet_def freshBW_def)
  with bandwidth_accounting_exact [of 200000 ?bl 100 "''1.2.3.4''" sleep bl'] e
  show ?thesis by auto
qed

end
