(* ===== verification/Handlers.thy ===== *)
theory Handlers
  imports Limits SSRF
begin

text \<open>
  The relay's authenticated endpoints: \<^verbatim>\<open>ConnectHandler.ServeHTTP\<close> with its two copy loops
  (\<^verbatim>\<open>relay/relay/connect_handler.go\<close>), \<^verbatim>\<open>TunnelHandler.ServeHTTP\<close> and the frame reader and
  writer of \<^verbatim>\<open>serveTunnel\<close> (\<^verbatim>\<open>relay/relay/tunnel_handler.go\<close>).  The state is that of the two
  limiters and the rejection counters of \<^verbatim>\<open>health.go\<close>; a request runs to completion, with its
  deferred releases.
\<close>

section \<open>State and parameters\<close>

record relayState =
  rsIP :: ipTable
  rsBW :: bwLimiter
  rejectedIP :: int
  rejectedDaily :: int

record relayEnv =
  reLib :: cryptoLib
  rePub :: bytes
  reNow :: int
  reMaxPer :: int
  reLookupIP :: "string \<Rightarrow> bytes list option"
  reLookupPort :: "string \<Rightarrow> nat option"
  reDial :: "bytes \<times> nat \<Rightarrow> bool"
  reDecodeTarget :: "bytes \<Rightarrow> string option"

section \<open>The copy loops of the CONNECT proxy\<close>

text \<open>
  Each direction is a loop over the results of \<^verbatim>\<open>Read\<close>: the bytes read, whether the read also
  reported an error, and whether the write of the bytes succeeds.  The loop returns the bytes
  written and the limiter.
\<close>

fun relayDown :: "int \<Rightarrow> string \<Rightarrow> bwLimiter \<Rightarrow> (bytes \<times> bool \<times> bool) list \<Rightarrow> bytes \<times> bwLimiter" where
  "relayDown now ip bl [] = ([], bl)"
| "relayDown now ip bl ((d, err, wok) # rs) =
     (let bl1 = (if d \<noteq> [] \<and> ip \<noteq> [] then snd (AccountAndThrottle now bl ip (int (length d))) else bl) in
      if d \<noteq> [] \<and> \<not> wok then ([], bl1)
      else if err then (d, bl1)
      else (case relayDown now ip bl1 rs of (out, bl2) \<Rightarrow> (d @ out, bl2)))"

fun relayUp :: "(bytes \<times> bool \<times> bool) list \<Rightarrow> bytes" where
  "relayUp [] = []"
| "relayUp ((d, err, wok) # rs) =
     (if d \<noteq> [] \<and> \<not> wok then [] else if err then d else d @ relayUp rs)"

lemma fst_relayDown: "fst (relayDown now ip bl rs) = relayUp rs"
  by (induction now ip bl rs rule: relayDown.induct) (auto simp: Let_def split: prod.splits)

lemma fst_relayDown_eq: "relayDown now ip bl rs = (out, bl') \<Longrightarrow> out = relayUp rs"
  using fst_relayDown [of now ip bl rs] by simp

section \<open>The CONNECT handler\<close>

type_synonym reads = "(bytes \<times> bool \<times> bool) list"
type_synonym connectResult = "nat \<times> (bytes \<times> nat) option \<times> bytes \<times> bytes \<times> relayState"

definition connectServeHTTP ::
  "relayEnv \<Rightarrow> reads \<Rightarrow> reads \<Rightarrow> request \<Rightarrow> relayState \<Rightarrow> connectResult" where
  \<comment> \<open>status, dialled address, bytes written to the client and to the destination, state;
     \<open>down\<close> and \<open>up\<close> are the reads the two copy loops make before the relay is torn down\<close>
  "connectServeHTTP env down up r s =
     (case authorize (reLib env) (rePub env) (reNow env) r of
        Inl st \<Rightarrow> (st, None, [], [], s)
      | Inr (p, remoteIP) \<Rightarrow>
          (case IPAcquire (reMaxPer env) (reNow env) remoteIP (rsIP s) of
             (False, t) \<Rightarrow> (429, None, [], [], s\<lparr>rsIP := t, rejectedIP := rejectedIP s + 1\<rparr>)
           | (True, t) \<Rightarrow>
               let s1 = s\<lparr>rsIP := t\<rparr>;
                   done = (\<lambda>s. s\<lparr>rsIP := IPRelease (reNow env) remoteIP (rsIP s)\<rparr>);
                   (can, bl) = CanOpenTunnel (reNow env) (rsBW s1) remoteIP;
                   s2 = s1\<lparr>rsBW := bl\<rparr>
               in if \<not> can then (429, None, [], [], done (s2\<lparr>rejectedDaily := rejectedDaily s2 + 1\<rparr>))
               else case reDecodeTarget env (take 1024 (rBody r)) of
                 None \<Rightarrow> (400, None, [], [], done s2)
               | Some target \<Rightarrow>
                   if target = [] then (400, None, [], [], done s2)
                   else case resolveAndValidateConnect (reLookupIP env) (reLookupPort env) target of
                     Inl _ \<Rightarrow> (403, None, [], [], done s2)
                   | Inr addr \<Rightarrow>
                       if \<not> reDial env addr then (502, None, [], [], done s2)
                       else case relayDown (reNow env) remoteIP (rsBW s2) down of
                         (out, bl') \<Rightarrow> (200, Some addr, out, relayUp up, done (s2\<lparr>rsBW := bl'\<rparr>))))"

section \<open>The tunnel stream\<close>

abbreviation (input) TunnelMaxFrameSize :: nat where "TunnelMaxFrameSize \<equiv> 1420"

datatype readerStop = StopEOF | StopSize | StopTruncated

function tunnelReader :: "('f \<Rightarrow> bytes \<Rightarrow> bool \<times> 'f) \<Rightarrow> 'f \<Rightarrow> bytes \<Rightarrow> readerStop \<times> 'f" where
  \<comment> \<open>the reading goroutine; \<open>fwd\<close> is \<^verbatim>\<open>forwarder.Forward\<close>, whose errors drop one packet only\<close>
  "tunnelReader fwd f body =
     (if length body < 2 then (StopEOF, f)
      else
        let n = unat (get16 body 0); rest = drop 2 body in
        if n = 0 \<or> n > TunnelMaxFrameSize then (StopSize, f)
        else if length rest < n then (StopTruncated, f)
        else case fwd f (take n rest) of (ok, f1) \<Rightarrow> tunnelReader fwd f1 (drop n rest))"
  by pat_completeness auto
termination by (relation "measure (\<lambda>(fwd, f, body). length body)") (auto simp: Let_def)

declare tunnelReader.simps [simp del]

type_synonym outPacket = "bytes \<times> bool \<times> bool"
  \<comment> \<open>a packet of the session channel, and whether the writes of its header and body succeed\<close>

definition writeFrame :: "int \<Rightarrow> string \<Rightarrow> bwLimiter \<Rightarrow> outPacket \<Rightarrow> bytes \<times> bool \<times> bwLimiter" where
  "writeFrame now ip bl = (\<lambda>(pkt, hok, pok).
     if length pkt > TunnelMaxFrameSize then ([], True, bl)
     else
       let bl1 = snd (AccountAndThrottle now bl ip (int (length pkt)));
           hdr = put16 [0, 0] 0 (of_nat (length pkt))
       in if \<not> hok then ([], False, bl1)
          else if \<not> pok then (hdr, False, bl1)
          else (hdr @ pkt, True, bl1))"

fun tunnelWriter :: "int \<Rightarrow> string \<Rightarrow> bwLimiter \<Rightarrow> outPacket list \<Rightarrow> bytes \<times> bool \<times> bwLimiter" where
  \<comment> \<open>the writing goroutine; it stops at the first failed write\<close>
  "tunnelWriter now ip bl [] = ([], True, bl)"
| "tunnelWriter now ip bl (p # ps) =
     (case writeFrame now ip bl p of
        (w, False, bl1) \<Rightarrow> (w, False, bl1)
      | (w, True, bl1) \<Rightarrow> (case tunnelWriter now ip bl1 ps of (out, ok, bl2) \<Rightarrow> (w @ out, ok, bl2)))"

fun tunnelDrain :: "int \<Rightarrow> string \<Rightarrow> bwLimiter \<Rightarrow> outPacket list \<Rightarrow> bytes \<times> bwLimiter" where
  \<comment> \<open>the packets still queued once the session is cancelled; failures are ignored\<close>
  "tunnelDrain now ip bl [] = ([], bl)"
| "tunnelDrain now ip bl (p # ps) =
     (case writeFrame now ip bl p of (w, _, bl1) \<Rightarrow>
        (case tunnelDrain now ip bl1 ps of (out, bl2) \<Rightarrow> (w @ out, bl2)))"

definition tunnelServeHTTP ::
  "relayEnv \<Rightarrow> bytes option \<Rightarrow> ('f \<Rightarrow> bytes \<Rightarrow> bool \<times> 'f) \<Rightarrow> 'f \<Rightarrow> outPacket list \<Rightarrow> outPacket list \<Rightarrow>
     request \<Rightarrow> relayState \<Rightarrow> nat \<times> bytes \<times> 'f \<times> relayState" where
  \<comment> \<open>\<open>rnd\<close> is the randomness of the session ID; \<open>outs\<close> the packets the writer takes from the session
     channel before the session is cancelled, \<open>drain\<close> those it finds queued afterwards\<close>
  "tunnelServeHTTP env rnd fwd f outs drain r s =
     (case authorize (reLib env) (rePub env) (reNow env) r of
        Inl st \<Rightarrow> (st, [], f, s)
      | Inr (p, remoteIP) \<Rightarrow>
          (case IPAcquire (reMaxPer env) (reNow env) remoteIP (rsIP s) of
             (False, t) \<Rightarrow> (429, [], f, s\<lparr>rsIP := t, rejectedIP := rejectedIP s + 1\<rparr>)
           | (True, t) \<Rightarrow>
               let s1 = s\<lparr>rsIP := t\<rparr>;
                   done = (\<lambda>s. s\<lparr>rsIP := IPRelease (reNow env) remoteIP (rsIP s)\<rparr>);
                   (can, bl) = CanOpenTunnel (reNow env) (rsBW s1) remoteIP;
                   s2 = s1\<lparr>rsBW := bl\<rparr>
               in if \<not> can then (429, [], f, done (s2\<lparr>rejectedDaily := rejectedDaily s2 + 1\<rparr>))
               else case rnd of
                 None \<Rightarrow> (500, [], f, done s2)
               | Some _ \<Rightarrow>
                   (case tunnelReader fwd f (rBody r) of
                      (why, f1) \<Rightarrow>
                        (case tunnelWriter (reNow env) remoteIP (rsBW s2) outs of
                           (out, ok, bl1) \<Rightarrow>
                             (case (if ok then tunnelDrain (reNow env) remoteIP bl1 drain else ([], bl1)) of
                                (out', bl') \<Rightarrow> (200, out @ out', f1, done (s2\<lparr>rsBW := bl'\<rparr>)))))))"

section \<open>Slots are given back\<close>

lemma ipActive_cycle:
  assumes "IPAcquire mx now ip t = (True, t')" and "0 \<le> ipActive t ip"
  shows "ipActive (IPRelease now' ip t') k = ipActive t k"
proof -
  have a: "ipActive t ip + 1 \<le> mx" using fst_IPAcquire [of mx now ip t] assms(1) by (simp del: fst_IPAcquire)
  have "ipActive t' j = (if j = ip then ipActive t ip + 1 else ipActive t j)" for j
    using ipActive_Acquire [of mx now ip t j] assms(1) a by auto
  then show ?thesis using assms(2) by (simp add: ipActive_Release)
qed

lemma ipActive_refused: "IPAcquire mx now ip t = (False, t') \<Longrightarrow> ipActive t' k = ipActive t k"
proof -
  assume r: "IPAcquire mx now ip t = (False, t')"
  then have "\<not> ipActive t ip + 1 \<le> mx" using fst_IPAcquire [of mx now ip t] by (simp del: fst_IPAcquire)
  then show ?thesis using ipActive_Acquire [of mx now ip t k] r by auto
qed

section \<open>Properties\<close>

text \<open>
  C8: the CONNECT handler is a closed gate.  Whatever the request, a destination is dialled only
  if the request was admitted by its token, the client's address held a free slot and unused
  daily quota, and the destination passed the SSRF filter; only then the status is 200; and after
  the request every address holds exactly the slots it held before.
\<close>

theorem connect_gate:
  assumes "\<And>ip. 0 \<le> ipActive (rsIP s) ip"
  shows "case connectServeHTTP env down up r s of (status, dialled, out, sent, s') \<Rightarrow>
    (\<forall>ip. ipActive (rsIP s') ip = ipActive (rsIP s) ip) \<and>
    (status = 200 \<longleftrightarrow> dialled \<noteq> None) \<and> (dialled = None \<longrightarrow> out = [] \<and> sent = []) \<and>
    (\<forall>addr port. dialled = Some (addr, port) \<longrightarrow>
       \<not> isBlockedIP addr \<and>
       (\<exists>p ip. authorize (reLib env) (rePub env) (reNow env) r = Inr (p, ip) \<and>
          ipActive (rsIP s) ip < reMaxPer env \<and> fst (CanOpenTunnel (reNow env) (rsBW s) ip)))"
proof (cases "authorize (reLib env) (rePub env) (reNow env) r")
  case (Inl st)
  then have "st \<noteq> 200" by (auto simp: authorize_def Let_def split: if_splits option.splits)
  then show ?thesis using Inl by (simp add: connectServeHTTP_def)
next
  case (Inr a)
  then obtain p ip where au: "authorize (reLib env) (rePub env) (reNow env) r = Inr (p, ip)"
    by (metis prod.exhaust)
  obtain ok t where acq: "IPAcquire (reMaxPer env) (reNow env) ip (rsIP s) = (ok, t)" by fastforce
  show ?thesis
  proof (cases ok)
    case False
    with acq have "IPAcquire (reMaxPer env) (reNow env) ip (rsIP s) = (False, t)" by simp
    then show ?thesis using au ipActive_refused by (simp add: connectServeHTTP_def)
  next
    case True
    with acq have acq: "IPAcquire (reMaxPer env) (reNow env) ip (rsIP s) = (True, t)" by simp
    have lt: "ipActive (rsIP s) ip < reMaxPer env"
      using fst_IPAcquire [of "reMaxPer env" "reNow env" ip "rsIP s"] acq by (simp del: fst_IPAcquire)
    have cyc: "ipActive (IPRelease (reNow env) ip t) k = ipActive (rsIP s) k" for k
      by (rule ipActive_cycle [OF acq assms])
    obtain can bl where can: "CanOpenTunnel (reNow env) (rsBW s) ip = (can, bl)" by fastforce
    have nb: "\<not> isBlockedIP addr"
      if "resolveAndValidateConnect (reLookupIP env) (reLookupPort env) target = Inr (addr, port)" for target addr port
      using that by (auto simp: resolveAndValidateConnect_def Let_def split: option.splits prod.splits if_splits)
    show ?thesis
      using au acq can lt cyc nb
      by (auto simp: connectServeHTTP_def Let_def split: option.splits sum.splits prod.splits)
  qed
qed

definition sampleEnv :: relayEnv where
  "sampleEnv = \<lparr>reLib = toyLib, rePub = replicate 32 0, reNow = 2000, reMaxPer = 2,
     reLookupIP = (\<lambda>h. if h = ''example.org'' then Some [[93, 184, 216, 34]] else None),
     reLookupPort = (\<lambda>p. if p = ''443'' then Some 443 else None), reDial = (\<lambda>a. True),
     reDecodeTarget = (\<lambda>b. if b = [1] then Some ''example.org:443'' else None)\<rparr>"

definition sampleState :: relayState where
  "sampleState = \<lparr>rsIP = [], rsBW = NewBandwidthLimiter 100, rejectedIP = 0, rejectedDaily = 0\<rparr>"

lemma sampleState_slots: "0 \<le> ipActive (rsIP sampleState) ip"
  by (simp add: sampleState_def ipActive_def ipGet_def freshIP_def)

theorem connect_gate_witness:
  "\<exists>s'. connectServeHTTP sampleEnv [([7, 8], False, True), ([9], True, True)] [([5], True, True)]
       (sampleReq [1]) sampleState = (200, Some ([93, 184, 216, 34], 443), [7, 8, 9], [5], s') \<and>
     ipActive (rsIP s') ''1.2.3.4'' = 0"
proof -
  have "\<exists>s'. connectServeHTTP sampleEnv [([7, 8], False, True), ([9], True, True)] [([5], True, True)]
       (sampleReq [1]) sampleState = (200, Some ([93, 184, 216, 34], 443), [7, 8, 9], [5], s')"
  proof -
    have res: "resolveAndValidateConnect (reLookupIP sampleEnv) (reLookupPort sampleEnv) ''example.org:443'' =
        Inr ([93, 184, 216, 34], 443)"
      by code_simp
    have acq: "IPAcquire 2 2000 ''1.2.3.4'' [] = (True, [(''1.2.3.4'', \<lparr>active = 1, ipLastSeen = 2000, ipMarked = False\<rparr>)])"
      by code_simp
    have can: "fst (CanOpenTunnel 2000 (NewBandwidthLimiter 100) ''1.2.3.4'')" by code_simp
    show ?thesis
      using res acq can sample_authorize [of "[1]"]
      by (auto simp: connectServeHTTP_def sampleEnv_def sampleState_def sampleReq_def fst_relayDown
          split: prod.splits dest: fst_relayDown_eq)
  qed
  then show ?thesis
    using connect_gate [OF sampleState_slots, where env = sampleEnv and r = "sampleReq [1]"
        and down = "[([7, 8], False, True), ([9], True, True)]" and up = "[([5], True, True)]"]
    by (auto simp: sampleState_def ipActive_def ipGet_def freshIP_def)
qed

text \<open>
  C9: the tunnel endpoint is the same gate.  A packet of the stream reaches the forwarder and a
  queued packet reaches the client only if the request was admitted by its token, its address had
  a free slot and unused quota, and a session ID could be drawn; in every other case the forwarder
  is not called and the answer is an error status; and afterwards every address holds exactly the
  slots it held before.
\<close>

theorem tunnel_gate:
  assumes "\<And>ip. 0 \<le> ipActive (rsIP s) ip"
  shows "case tunnelServeHTTP env rnd fwd f outs drain r s of (status, out, f', s') \<Rightarrow>
    (\<forall>ip. ipActive (rsIP s') ip = ipActive (rsIP s) ip) \<and>
    (if rnd \<noteq> None \<and> (\<exists>p ip. authorize (reLib env) (rePub env) (reNow env) r = Inr (p, ip) \<and>
          ipActive (rsIP s) ip < reMaxPer env \<and> fst (CanOpenTunnel (reNow env) (rsBW s) ip))
     then status = 200 \<and> f' = snd (tunnelReader fwd f (rBody r))
     else status \<in> {401, 405, 429, 500} \<and> f' = f \<and> out = [])"
proof (cases "authorize (reLib env) (rePub env) (reNow env) r")
  case (Inl st)
  then have "st = 401 \<or> st = 405" by (auto simp: authorize_def Let_def split: if_splits option.splits)
  then show ?thesis using Inl by (auto simp: tunnelServeHTTP_def)
next
  case (Inr a)
  then obtain p ip where au: "authorize (reLib env) (rePub env) (reNow env) r = Inr (p, ip)"
    by (metis prod.exhaust)
  obtain ok t where acq: "IPAcquire (reMaxPer env) (reNow env) ip (rsIP s) = (ok, t)" by fastforce
  have lt: "ok \<longleftrightarrow> ipActive (rsIP s) ip < reMaxPer env"
    using fst_IPAcquire [of "reMaxPer env" "reNow env" ip "rsIP s"] acq by (auto simp del: fst_IPAcquire)
  show ?thesis
  proof (cases ok)
    case False
    with acq have "IPAcquire (reMaxPer env) (reNow env) ip (rsIP s) = (False, t)" by simp
    then show ?thesis using au ipActive_refused False lt by (simp add: tunnelServeHTTP_def)
  next
    case True
    with acq have acq: "IPAcquire (reMaxPer env) (reNow env) ip (rsIP s) = (True, t)" by simp
    have cyc: "ipActive (IPRelease (reNow env) ip t) k = ipActive (rsIP s) k" for k
      by (rule ipActive_cycle [OF acq assms])
    obtain can bl where can: "CanOpenTunnel (reNow env) (rsBW s) ip = (can, bl)" by fastforce
    show ?thesis
      using au acq can lt True cyc
      by (cases rnd) (auto simp: tunnelServeHTTP_def Let_def split: prod.splits)
  qed
qed

theorem tunnel_gate_witness:
  "\<exists>out s'. tunnelServeHTTP sampleEnv (Some []) (\<lambda>f pkt. (True, f @ [pkt])) [] [] [] (sampleReq [0, 2, 7, 8, 0, 1, 9])
       sampleState = (200, out, [[7, 8], [9]], s')"
proof -
  have rd: "tunnelReader (\<lambda>f pkt. (True, f @ [pkt])) [] [0, 2, 7, 8, 0, 1, 9 :: byte] = (StopEOF, [[7, 8], [9]])"
    by code_simp
  have can: "fst (CanOpenTunnel 2000 (NewBandwidthLimiter 100) ''1.2.3.4'')" by code_simp
  have "\<exists>p ip. authorize (reLib sampleEnv) (rePub sampleEnv) (reNow sampleEnv) (sampleReq [0, 2, 7, 8, 0, 1, 9]) = Inr (p, ip) \<and>
          ipActive (rsIP sampleState) ip < reMaxPer sampleEnv \<and> fst (CanOpenTunnel (reNow sampleEnv) (rsBW sampleState) ip)"
    using can sample_authorize [of "[0, 2, 7, 8, 0, 1, 9]"]
    by (simp add: sampleEnv_def sampleState_def ipActive_def ipGet_def freshIP_def)
  with tunnel_gate [OF sampleState_slots, where env = sampleEnv and rnd = "Some []" and fwd = "\<lambda>f pkt. (True, f @ [pkt])"
      and f = "[]" and outs = "[]" and drain = "[]" and r = "sampleReq [0, 2, 7, 8, 0, 1, 9]"]
  show ?thesis using rd by (auto simp: sampleReq_def)
qed

end
