(* ===== verification/Pump.thy ===== *)
theory Pump
  imports Handlers "HOL-Library.Sublist"
begin

text \<open>
  The client side of the tunnel stream, \<^verbatim>\<open>internal/tunnel/pump.go\<close>: the two framing loops of
  \<^verbatim>\<open>runPumpLoops\<close>, its stall watchdog and the guards of \<^verbatim>\<open>RunPump\<close>, against the relay's reader
  and writer of the theory Handlers.  The byte stream is a list with the way it ends; the results
  of the channel reads and writes are the arguments of the loops.  Times are nanoseconds.
\<close>

type_synonym u64 = "64 word"

section \<open>The outbound loop\<close>

abbreviation (input) pumpMaxFrameSize :: nat where "pumpMaxFrameSize \<equiv> 1420"

datatype pumpError =
    ErrNotConnected | ErrTokenExpired | BuildRequest | OpenStream | RelayStatus nat
  | WriteFrame | ReadHdr | InvalidFrameSize nat | ReadPayload | TunWrite | StreamZombie u64 u64

datatype writeResult = WOk | WErr nat bool
  \<comment> \<open>\<open>WErr k live\<close>: the write failed after \<open>k\<close> bytes, while the pump context was live or not\<close>

definition pumpFrame :: "bytes \<Rightarrow> bytes" where
  "pumpFrame pkt = put16 [0, 0] 0 (of_nat (length pkt)) @ pkt"

fun pumpOutbound :: "(bytes \<times> writeResult) list \<Rightarrow> bytes \<times> u64 \<times> pumpError option" where
  \<comment> \<open>the packets taken from the channel until it is closed: bytes written, TX counter, error\<close>
  "pumpOutbound [] = ([], 0, None)"
| "pumpOutbound ((pkt, w) # ps) =
     (if length pkt = 0 then pumpOutbound ps
      else if length pkt > pumpMaxFrameSize then pumpOutbound ps
      else case w of
        WErr k live \<Rightarrow> (take k (pumpFrame pkt), 0, if live then Some WriteFrame else None)
      | WOk \<Rightarrow> (case pumpOutbound ps of
          (out, tx, e) \<Rightarrow> (pumpFrame pkt @ out, of_nat (2 + length pkt) + tx, e)))"

section \<open>The inbound loop\<close>

function pumpInbound ::
  "('s \<Rightarrow> bytes \<Rightarrow> bool \<times> 's) \<Rightarrow> bool \<Rightarrow> bool \<Rightarrow> 's \<Rightarrow> bytes \<Rightarrow> pumpError option \<times> u64 \<times> 's" where
  \<comment> \<open>the body read from the relay ends with EOF or with another error (\<open>eof\<close>), while the pump
     context is live or cancelled (\<open>live\<close>); \<open>wr\<close> is the \<^verbatim>\<open>PacketWriter\<close>\<close>
  "pumpInbound wr eof live s body =
     (if length body < 2 then (if \<not> eof \<and> live then Some ReadHdr else None, 0, s)
      else
        let n = unat (get16 body 0); rest = drop 2 body in
        if n = 0 \<or> n > pumpMaxFrameSize then (Some (InvalidFrameSize n), 0, s)
        else if length rest < n then (if live then Some ReadPayload else None, 0, s)
        else (case wr s (take n rest) of
            (False, s1) \<Rightarrow> (Some TunWrite, of_nat (2 + n), s1)
          | (True, s1) \<Rightarrow> (case pumpInbound wr eof live s1 (drop n rest) of
              (e, rx, s2) \<Rightarrow> (e, of_nat (2 + n) + rx, s2))))"
  by pat_completeness auto
termination by (relation "measure (\<lambda>(wr, eof, live, s, body). length body)") (auto simp: Let_def)

declare pumpInbound.simps [simp del]

section \<open>The stall watchdog\<close>

abbreviation (input) pumpWatchdogStallWindow :: int where "pumpWatchdogStallWindow \<equiv> 15000000000"
abbreviation (input) pumpWatchdogMinTxBytes :: u64 where "pumpWatchdogMinTxBytes \<equiv> 10240"
abbreviation (input) pumpWatchdogMinRxBytes :: u64 where "pumpWatchdogMinRxBytes \<equiv> 1024"

record watchdog =
  lastTx :: u64
  lastRx :: u64
  windowTx :: u64
  windowRx :: u64
  windowStart :: int

definition newWatchdog :: "int \<Rightarrow> watchdog" where
  "newWatchdog now = \<lparr>lastTx = 0, lastRx = 0, windowTx = 0, windowRx = 0, windowStart = now\<rparr>"

definition watchdogTick :: "watchdog \<Rightarrow> int \<times> u64 \<times> u64 \<Rightarrow> pumpError + watchdog" where
  \<comment> \<open>one tick with the counters it loads; \<^verbatim>\<open>stallSignaled\<close>, which only guards log lines, is left out\<close>
  "watchdogTick w = (\<lambda>(now, curTx, curRx).
     let w1 = w\<lparr>windowTx := windowTx w + (curTx - lastTx w), windowRx := windowRx w + (curRx - lastRx w),
                lastTx := curTx, lastRx := curRx\<rparr>
     in if now - windowStart w1 < pumpWatchdogStallWindow then Inr w1
        else if \<not> windowTx w1 < pumpWatchdogMinTxBytes \<and> \<not> windowRx w1 \<ge> pumpWatchdogMinRxBytes
        then Inl (StreamZombie (windowTx w1) (windowRx w1))
        else Inr (w1\<lparr>windowStart := now, windowTx := 0, windowRx := 0\<rparr>))"

fun watchdogRun :: "watchdog \<Rightarrow> (int \<times> u64 \<times> u64) list \<Rightarrow> (int \<times> pumpError) option" where
  \<comment> \<open>the time and error of the tick that trips, if one does before the pump ends\<close>
  "watchdogRun w [] = None"
| "watchdogRun w (tick # ticks) =
     (case watchdogTick w tick of Inl e \<Rightarrow> Some (fst tick, e) | Inr w1 \<Rightarrow> watchdogRun w1 ticks)"

section \<open>The pump\<close>

definition setErr :: "pumpError option \<times> bool \<Rightarrow> pumpError option \<Rightarrow> pumpError option \<times> bool" where
  \<comment> \<open>\<open>firstErr\<close> under \<^verbatim>\<open>errOnce\<close>, and whether the pump context is cancelled\<close>
  "setErr = (\<lambda>(first, cancelled) e.
     case e of None \<Rightarrow> (first, cancelled)
     | Some x \<Rightarrow> ((case first of None \<Rightarrow> Some x | Some y \<Rightarrow> Some y), True))"

definition runPumpLoops :: "pumpError option list \<Rightarrow> pumpError option" where
  \<comment> \<open>the reports of the watchdog and the two loops, in the order they are made\<close>
  "runPumpLoops reports = fst (foldl setErr (None, False) reports)"

definition RunPump ::
  "bool \<Rightarrow> string \<Rightarrow> bool \<Rightarrow> (string \<Rightarrow> nat option) \<Rightarrow> pumpError option list \<Rightarrow> pumpError option" where
  \<comment> \<open>\<open>respond\<close> answers the POST with the bearer header; \<open>None\<close> is a transport failure\<close>
  "RunPump connected token urlOk respond reports =
     (if \<not> connected then Some ErrNotConnected
      else if token = [] then Some ErrTokenExpired
      else if \<not> urlOk then Some BuildRequest
      else case respond (''Bearer '' @ token) of
        None \<Rightarrow> Some OpenStream
      | Some st \<Rightarrow> if st \<noteq> 200 then Some (RelayStatus st) else runPumpLoops reports)"

section \<open>Framing\<close>

abbreviation framed :: "bytes \<Rightarrow> bool" where
  "framed p \<equiv> p \<noteq> [] \<and> length p \<le> pumpMaxFrameSize"

function deframe :: "bytes \<Rightarrow> readerStop \<times> bytes list" where
  \<comment> \<open>the packets of a byte stream, and why the reading stops\<close>
  "deframe body =
     (if length body < 2 then (StopEOF, [])
      else
        let n = unat (get16 body 0); rest = drop 2 body in
        if n = 0 \<or> n > pumpMaxFrameSize then (StopSize, [])
        else if length rest < n then (StopTruncated, [])
        else (case deframe (drop n rest) of (why, ps) \<Rightarrow> (why, take n rest # ps)))"
  by pat_completeness auto
termination by (relation "measure length") (auto simp: Let_def)

declare deframe.simps [simp del]

lemma tunnelReader_deframe:
  "tunnelReader fwd f body = (fst (deframe body), fold (\<lambda>p f. snd (fwd f p)) (snd (deframe body)) f)"
proof (induction body arbitrary: f rule: deframe.induct)
  case (1 body)
  show ?case
    by (subst tunnelReader.simps, subst deframe.simps, subst (2) deframe.simps)
      (use 1 in \<open>auto simp: Let_def split: prod.splits\<close>)
qed

lemma length_pumpFrame [simp]: "length (pumpFrame p) = 2 + length p"
  by (simp add: pumpFrame_def)

lemma get16_pumpFrame: "length p < 65536 \<Longrightarrow> unat (get16 (pumpFrame p @ xs) 0) = length p"
proof -
  assume l: "length p < 65536"
  have "get16 (pumpFrame p @ xs) 0 = of_nat (length p)"
    by (rule get16_value) (simp_all add: pumpFrame_def put16_def)
  then show ?thesis using l by (simp add: unat_of_nat)
qed

lemma drop_pumpFrame: "drop 2 (pumpFrame p @ xs) = p @ xs"
  by (simp add: pumpFrame_def put16_def)

lemma drop_pumpFrame' [simp]: "drop (Suc (Suc 0)) (pumpFrame p) = p" "drop 2 (pumpFrame p) = p"
  by (simp_all add: pumpFrame_def put16_def)

lemma deframe_Nil [simp]: "deframe [] = (StopEOF, [])"
  by (simp add: deframe.simps)

lemma deframe_frame:
  "framed p \<Longrightarrow> deframe (pumpFrame p @ xs) = (case deframe xs of (why, ps) \<Rightarrow> (why, p # ps))"
  by (subst deframe.simps) (simp add: get16_pumpFrame drop_pumpFrame Let_def)

lemma deframe_frames:
  "\<forall>p\<in>set ps. framed p \<Longrightarrow>
     deframe (concat (map pumpFrame ps) @ xs) = (case deframe xs of (why, qs) \<Rightarrow> (why, ps @ qs))"
  by (induction ps) (auto simp: deframe_frame split: prod.splits)

lemma get16_append: "2 \<le> length xs \<Longrightarrow> get16 (xs @ ys) 0 = get16 xs 0"
  by (auto simp: get16_def nth_append)

lemma deframe_append_prefix: "prefix (snd (deframe xs)) (snd (deframe (xs @ ys)))"
proof (induction xs rule: deframe.induct)
  case (1 body)
  let ?n = "unat (get16 body 0)"
  consider "length body < 2" | "2 \<le> length body" "?n = 0 \<or> ?n > pumpMaxFrameSize"
    | "2 \<le> length body" "\<not> (?n = 0 \<or> ?n > pumpMaxFrameSize)" "length (drop 2 body) < ?n"
    | "2 \<le> length body" "\<not> (?n = 0 \<or> ?n > pumpMaxFrameSize)" "\<not> length (drop 2 body) < ?n"
    by linarith
  then show ?case
  proof cases
    case 4
    have IH: "prefix (snd (deframe (drop ?n (drop 2 body)))) (snd (deframe (drop ?n (drop 2 body) @ ys)))"
      by (rule 1 [OF _ refl refl]) (use 4 in auto)
    have s: "deframe body = (case deframe (drop ?n (drop 2 body)) of (why, ps) \<Rightarrow> (why, take ?n (drop 2 body) # ps))"
      using 4 by (subst deframe.simps) (auto simp: Let_def)
    have "deframe (body @ ys) =
        (case deframe (drop ?n (drop 2 body) @ ys) of (why, ps) \<Rightarrow> (why, take ?n (drop 2 body) # ps))"
      using 4 by (subst deframe.simps) (auto simp: Let_def get16_append)
    then show ?thesis using s IH by (auto split: prod.splits)
  qed (subst deframe.simps, auto simp: Let_def)+
qed

lemma prefix_deframe: "prefix xs ys \<Longrightarrow> prefix (snd (deframe xs)) (snd (deframe ys))"
  using deframe_append_prefix by (auto elim!: prefixE)

lemma deframe_take_frames:
  assumes "\<forall>p\<in>set ps. framed p"
  shows "prefix (snd (deframe (take k (concat (map pumpFrame ps))))) ps"
proof -
  have "snd (deframe (concat (map pumpFrame ps))) = ps"
    using deframe_frames [OF assms, of "[]"] by simp
  then show ?thesis using prefix_deframe [OF take_is_prefix, of k "concat (map pumpFrame ps)"] by simp
qed

text \<open>What the two loops write, and what they deliver, in terms of frames.\<close>

lemma pumpOutbound_frames:
  "\<exists>k. fst (pumpOutbound evs) = take k (concat (map pumpFrame (filter framed (map fst evs))))"
proof (induction evs rule: pumpOutbound.induct)
  case (2 pkt w ps)
  show ?case
  proof (cases "framed pkt")
    case False
    then show ?thesis using 2 by auto
  next
    case True
    show ?thesis
    proof (cases w)
      case WOk
      then obtain k where "fst (pumpOutbound ps) = take k (concat (map pumpFrame (filter framed (map fst ps))))"
        using 2 True by auto
      then show ?thesis using True WOk
        by (intro exI [of _ "2 + length pkt + k"]) (auto split: prod.splits)
    next
      case (WErr k live)
      then show ?thesis using True by (intro exI [of _ "min k (2 + length pkt)"]) (auto simp: min_def)
    qed
  qed
qed simp

lemma pumpOutbound_all:
  "\<forall>e\<in>set evs. snd e = WOk \<Longrightarrow>
     pumpOutbound evs = (concat (map pumpFrame (filter framed (map fst evs))),
       of_nat (length (concat (map pumpFrame (filter framed (map fst evs))))), None)"
  by (induction evs rule: pumpOutbound.induct) auto

lemma deframe_cut_frame:
  assumes "framed p" "k < 2 + length p"
  shows "deframe (take k (pumpFrame p)) = (if k < 2 then StopEOF else StopTruncated, [])"
proof (cases "k < 2")
  case True
  then show ?thesis by (subst deframe.simps) simp
next
  case False
  have "get16 (take k (pumpFrame p)) 0 = get16 (pumpFrame p) 0"
    using False by (simp add: get16_def)
  then have "unat (get16 (take k (pumpFrame p)) 0) = length p"
    using get16_pumpFrame [of p "[]"] assms(1) by simp
  then show ?thesis using False assms by (subst deframe.simps) (simp add: Let_def)
qed

lemma deframe_take_stop:
  "\<forall>p\<in>set ps. framed p \<Longrightarrow> fst (deframe (take k (concat (map pumpFrame ps)))) \<noteq> StopSize"
proof (induction ps arbitrary: k)
  case (Cons p ps)
  show ?case
  proof (cases "k < 2 + length p")
    case True
    then show ?thesis using deframe_cut_frame [OF _ True] Cons.prems by simp
  next
    case False
    then have "take k (concat (map pumpFrame (p # ps))) = pumpFrame p @ take (k - (2 + length p)) (concat (map pumpFrame ps))"
      by simp
    then show ?thesis
      using Cons.IH [of "k - (2 + length p)"] Cons.prems by (auto simp: deframe_frame split: prod.splits)
  qed
qed simp

lemma pumpInbound_deframe:
  "\<exists>k. snd (snd (pumpInbound wr eof live s body)) = fold (\<lambda>p s. snd (wr s p)) (take k (snd (deframe body))) s"
proof (induction body arbitrary: s rule: deframe.induct)
  case (1 body)
  let ?n = "unat (get16 body 0)" and ?r = "drop 2 body"
  show ?case
  proof (cases "length body < 2 \<or> ?n = 0 \<or> ?n > pumpMaxFrameSize \<or> length ?r < ?n")
    case True
    then show ?thesis by (subst pumpInbound.simps, subst deframe.simps) (auto simp: Let_def)
  next
    case False
    obtain ok s1 where w: "wr s (take ?n ?r) = (ok, s1)" by fastforce
    have d: "snd (deframe body) = take ?n ?r # snd (deframe (drop ?n ?r))"
      using False by (subst deframe.simps) (auto simp: Let_def split: prod.splits)
    show ?thesis
    proof (cases ok)
      case True
      obtain k where k: "snd (snd (pumpInbound wr eof live s1 (drop ?n ?r))) =
          fold (\<lambda>p s. snd (wr s p)) (take k (snd (deframe (drop ?n ?r)))) s1"
        using 1 [OF _ refl refl, of s1] False by auto
      show ?thesis unfolding d
        by (subst pumpInbound.simps, rule exI [of _ "Suc k"])
          (use False True w k in \<open>auto simp: Let_def split: prod.splits\<close>)
    next
      case False': False
      show ?thesis unfolding d
        by (subst pumpInbound.simps, rule exI [of _ 1])
          (use False False' w in \<open>auto simp: Let_def split: prod.splits\<close>)
    qed
  qed
qed

lemma pumpInbound_all:
  assumes "\<And>s p. fst (wr s p)"
  shows "snd (snd (pumpInbound wr eof live s body)) = fold (\<lambda>p s. snd (wr s p)) (snd (deframe body)) s"
    and "fst (pumpInbound wr eof live s body) = None \<longleftrightarrow>
      (case fst (deframe body) of StopEOF \<Rightarrow> eof \<or> \<not> live | StopSize \<Rightarrow> False | StopTruncated \<Rightarrow> \<not> live)"
proof -
  have w: "wr s p = (True, snd (wr s p))" for s p by (rule prod_eqI) (simp_all add: assms)
  have "snd (snd (pumpInbound wr eof live s body)) = fold (\<lambda>p s. snd (wr s p)) (snd (deframe body)) s \<and>
    (fst (pumpInbound wr eof live s body) = None \<longleftrightarrow>
      (case fst (deframe body) of StopEOF \<Rightarrow> eof \<or> \<not> live | StopSize \<Rightarrow> False | StopTruncated \<Rightarrow> \<not> live))"
  proof (induction body arbitrary: s rule: deframe.induct)
    case (1 body)
    let ?n = "unat (get16 body 0)" and ?r = "drop 2 body"
    show ?case
    proof (cases "length body < 2 \<or> ?n = 0 \<or> ?n > pumpMaxFrameSize \<or> length ?r < ?n")
      case True
      then show ?thesis
        by (subst pumpInbound.simps, subst (1 2) deframe.simps, subst (2) pumpInbound.simps) (auto simp: Let_def)
    next
      case False
      then have d: "deframe body = (fst (deframe (drop ?n ?r)), take ?n ?r # snd (deframe (drop ?n ?r)))"
        by (subst deframe.simps) (auto simp: Let_def split: prod.splits)
      have p: "pumpInbound wr eof live s body =
          (case pumpInbound wr eof live (snd (wr s (take ?n ?r))) (drop ?n ?r) of
             (e, rx, s2) \<Rightarrow> (e, of_nat (2 + ?n) + rx, s2))"
        using False by (subst pumpInbound.simps) (subst w, auto simp: Let_def split: prod.splits)
      show ?thesis
        using 1 [OF _ refl refl, of "snd (wr s (take ?n ?r))"] False unfolding d p
        by (auto split: prod.splits)
    qed
  qed
  then show "snd (snd (pumpInbound wr eof live s body)) = fold (\<lambda>p s. snd (wr s p)) (snd (deframe body)) s"
    and "fst (pumpInbound wr eof live s body) = None \<longleftrightarrow>
      (case fst (deframe body) of StopEOF \<Rightarrow> eof \<or> \<not> live | StopSize \<Rightarrow> False | StopTruncated \<Rightarrow> \<not> live)"
    by blast+
qed

abbreviation fits :: "bytes \<Rightarrow> bool" where "fits p \<equiv> length p \<le> TunnelMaxFrameSize"

lemma writeFrame_frame:
  "writeFrame now ip bl (pkt, hok, pok) = (w, ok, bl') \<Longrightarrow>
     (if \<not> fits pkt then w = [] \<and> ok
      else (\<exists>k. w = take k (pumpFrame pkt)) \<and> (ok \<longrightarrow> w = pumpFrame pkt) \<and> (ok \<longleftrightarrow> hok \<and> pok))"
proof -
  assume r: "writeFrame now ip bl (pkt, hok, pok) = (w, ok, bl')"
  have a: "take 0 (pumpFrame pkt) = []" "take 2 (pumpFrame pkt) = put16 [0, 0] 0 (of_nat (length pkt))"
    "take (2 + length pkt) (pumpFrame pkt) = pumpFrame pkt"
    by (simp_all add: pumpFrame_def)
  show ?thesis
  proof (cases "fits pkt \<and> hok \<and> pok")
    case True
    then have "w = pumpFrame pkt \<and> ok" using r by (auto simp: writeFrame_def Let_def pumpFrame_def)
    then show ?thesis using True a(3) by (auto intro: exI [of _ "2 + length pkt"])
  next
    case False
    then show ?thesis
      using r a(1, 2) by (auto simp: writeFrame_def Let_def split: if_splits intro: exI [of _ 0] exI [of _ 2])
  qed
qed

lemma tunnelWriter_frames:
  "\<exists>k. fst (tunnelWriter now ip bl outs) = take k (concat (map pumpFrame (filter fits (map fst outs))))"
proof (induction outs arbitrary: bl)
  case (Cons p ps)
  obtain pkt hok pok where p: "p = (pkt, hok, pok)" by (metis prod.exhaust)
  obtain w ok bl1 where r: "writeFrame now ip bl p = (w, ok, bl1)" by (metis prod.exhaust)
  note f = writeFrame_frame [OF r [unfolded p]]
  show ?case
  proof (cases ok)
    case False
    then obtain k where "fits pkt" "w = take k (pumpFrame pkt)" using f by (auto split: if_splits)
    then show ?thesis using r False p by (intro exI [of _ "min k (2 + length pkt)"]) (auto simp: min_def)
  next
    case True
    obtain k where k: "fst (tunnelWriter now ip bl1 ps) = take k (concat (map pumpFrame (filter fits (map fst ps))))"
      using Cons by blast
    show ?thesis
    proof (cases "fits pkt")
      case False
      then show ?thesis using f r True k p by (auto split: prod.splits)
    next
      case fit: True
      then show ?thesis using f r True k p
        by (intro exI [of _ "2 + length pkt + k"]) (auto split: prod.splits)
    qed
  qed
qed simp

lemma tunnelWriter_all:
  "\<forall>o'\<in>set outs. snd o' = (True, True) \<Longrightarrow>
     fst (tunnelWriter now ip bl outs) = concat (map pumpFrame (filter fits (map fst outs)))"
proof (induction outs arbitrary: bl)
  case (Cons p ps)
  obtain pkt where p: "p = (pkt, True, True)" using Cons.prems by (cases p) auto
  obtain w ok bl1 where r: "writeFrame now ip bl p = (w, ok, bl1)" by (metis prod.exhaust)
  have f: "ok" "w = (if fits pkt then pumpFrame pkt else [])"
    using writeFrame_frame [OF r [unfolded p]] by (auto split: if_splits)
  then show ?case using Cons.IH [of bl1] Cons.prems r p by (auto split: prod.splits)
qed simp

section \<open>The two directions as framed channels\<close>

text \<open>
  What both directions promise: of the packets handed to the sender, the admissible ones that are
  not skipped arrive, and a longer stream never changes what a shorter one delivered.
\<close>

locale framed_channel =
  fixes send :: "bytes list \<Rightarrow> bytes" and recv :: "bytes \<Rightarrow> bytes list"
    and carried :: "bytes \<Rightarrow> bool" and admissible :: "bytes \<Rightarrow> bool"
  assumes recv_send: "\<forall>p\<in>set ps. admissible p \<Longrightarrow> recv (send ps) = filter carried ps"
    and recv_mono: "prefix xs ys \<Longrightarrow> prefix (recv xs) (recv ys)"
begin

lemma cut_stream: "\<forall>p\<in>set ps. admissible p \<Longrightarrow> prefix (recv (take k (send ps))) (filter carried ps)"
  using recv_mono [OF take_is_prefix, of k "send ps"] recv_send by simp

lemma no_duplicates: "\<forall>p\<in>set ps. admissible p \<Longrightarrow> length (recv (take k (send ps))) \<le> length ps"
  using prefix_length_le [OF cut_stream, of ps k] by (meson length_filter_le order_trans)

lemma resume_monotone:
  "\<forall>p\<in>set ps. admissible p \<Longrightarrow> j \<le> k \<Longrightarrow> prefix (recv (take j (send ps))) (recv (take k (send ps)))"
  by (rule recv_mono) (simp add: take_is_prefix min_absorb1 prefix_def, metis append_take_drop_id le_Suc_ex take_add)

end

lemma fold_snoc: "fold (\<lambda>p f. f @ [p]) ps f = f @ ps"
  by (induction ps arbitrary: f) auto

interpretation up: framed_channel
  "\<lambda>ps. fst (pumpOutbound (map (\<lambda>p. (p, WOk)) ps))"
  "\<lambda>b. snd (tunnelReader (\<lambda>f p. (True, f @ [p])) [] b)" framed "\<lambda>p. True"
proof
  fix ps :: "bytes list"
  have "fst (pumpOutbound (map (\<lambda>p. (p, WOk)) ps)) = concat (map pumpFrame (filter framed ps))"
    by (subst pumpOutbound_all) (auto simp: comp_def)
  then show "snd (tunnelReader (\<lambda>f p. (True, f @ [p])) [] (fst (pumpOutbound (map (\<lambda>p. (p, WOk)) ps)))) = filter framed ps"
    using deframe_frames [of "filter framed ps" "[]"] by (simp add: tunnelReader_deframe fold_snoc)
qed (simp add: tunnelReader_deframe fold_snoc prefix_deframe)

interpretation down: framed_channel
  "\<lambda>ps. fst (tunnelWriter now ip bl (map (\<lambda>p. (p, True, True)) ps))"
  "\<lambda>b. snd (snd (pumpInbound (\<lambda>s p. (True, s @ [p])) eof live [] b))" fits "\<lambda>p. p \<noteq> []"
proof
  fix ps :: "bytes list"
  assume a: "\<forall>p\<in>set ps. p \<noteq> []"
  have "fst (tunnelWriter now ip bl (map (\<lambda>p. (p, True, True)) ps)) = concat (map pumpFrame (filter fits ps))"
    by (subst tunnelWriter_all) (auto simp: comp_def)
  then show "snd (snd (pumpInbound (\<lambda>s p. (True, s @ [p])) eof live []
      (fst (tunnelWriter now ip bl (map (\<lambda>p. (p, True, True)) ps))))) = filter fits ps"
    using deframe_frames [of "filter fits ps" "[]"] a by (simp add: pumpInbound_all(1) fold_snoc)
qed (simp add: pumpInbound_all(1) fold_snoc prefix_deframe)

section \<open>The watchdog over exact counters\<close>

text \<open>
  The ticks with the true numbers of bytes sent and received, and the windows the watchdog closes
  on them.
\<close>

type_synonym tick = "int \<times> nat \<times> nat"

definition loaded :: "tick \<Rightarrow> int \<times> u64 \<times> u64" where
  "loaded = (\<lambda>(t, tx, rx). (t, of_nat tx, of_nat rx))"

fun counting :: "nat \<Rightarrow> nat \<Rightarrow> tick list \<Rightarrow> bool" where
  \<comment> \<open>the counters only grow, within 64 bits\<close>
  "counting tx rx [] = True"
| "counting tx rx ((t, tx', rx') # ts) \<longleftrightarrow>
     tx \<le> tx' \<and> rx \<le> rx' \<and> tx' < 2 ^ 64 \<and> rx' < 2 ^ 64 \<and> counting tx' rx' ts"

fun ticking :: "int \<Rightarrow> tick list \<Rightarrow> bool" where
  \<comment> \<open>a tick at most every five seconds\<close>
  "ticking t [] = True"
| "ticking t ((t', _, _) # ts) \<longleftrightarrow> t < t' \<and> t' \<le> t + 5000000000 \<and> ticking t' ts"

fun zombie :: "tick \<Rightarrow> tick list \<Rightarrow> tick option" where
  \<comment> \<open>the first window of at least 15 s that sends 10 KiB and receives less than 1 KiB\<close>
  "zombie w [] = None"
| "zombie (t0, tx0, rx0) ((t, tx, rx) # ts) =
     (if t - t0 < pumpWatchdogStallWindow then zombie (t0, tx0, rx0) ts
      else if tx0 + 10240 \<le> tx \<and> rx < rx0 + 1024 then Some (t, tx - tx0, rx - rx0)
      else zombie (t, tx, rx) ts)"

lemma of_nat_window:
  assumes "a \<le> b" "b \<le> c"
  shows "of_nat (b - a) + ((of_nat c :: u64) - of_nat b) = of_nat (c - a)"
  using assms by (simp add: of_nat_diff)

lemma of_nat_u64_less:
  "a < 2 ^ 64 \<Longrightarrow> n < 2 ^ 64 \<Longrightarrow> (of_nat a :: u64) < of_nat n \<longleftrightarrow> a < n"
  by (simp add: word_less_nat_alt unat_of_nat)

lemma watchdogRun_zombie:
  assumes "counting tx1 rx1 ts" "tx0 \<le> tx1" "rx0 \<le> rx1"
  shows "watchdogRun \<lparr>lastTx = of_nat tx1, lastRx = of_nat rx1, windowTx = of_nat (tx1 - tx0),
           windowRx = of_nat (rx1 - rx0), windowStart = t0\<rparr> (map loaded ts) =
         map_option (\<lambda>(t, a, b). (t, StreamZombie (of_nat a) (of_nat b))) (zombie (t0, tx0, rx0) ts)"
  using assms
proof (induction ts arbitrary: t0 tx0 rx0 tx1 rx1)
  case (Cons x ts)
  obtain t tx rx where x: "x = (t, tx, rx)" by (metis prod.exhaust)
  have m: "tx1 \<le> tx" "rx1 \<le> rx" "tx < 2 ^ 64" "rx < 2 ^ 64" "counting tx rx ts" using Cons.prems x by auto
  have w: "of_nat (tx1 - tx0) + ((of_nat tx :: u64) - of_nat tx1) = of_nat (tx - tx0)"
      "of_nat (rx1 - rx0) + ((of_nat rx :: u64) - of_nat rx1) = of_nat (rx - rx0)"
    by (rule of_nat_window; use m Cons.prems in simp)+
  have c: "(of_nat (tx - tx0) :: u64) < 10240 \<longleftrightarrow> \<not> tx0 + 10240 \<le> tx"
      "(1024 :: u64) \<le> of_nat (rx - rx0) \<longleftrightarrow> \<not> rx < rx0 + 1024"
    using of_nat_u64_less [of "tx - tx0" 10240] of_nat_u64_less [of "rx - rx0" 1024] m Cons.prems
    by (auto simp: not_less [symmetric])
  note IH1 = Cons.IH [OF m(5), of tx0 rx0 t0] and IH2 = Cons.IH [OF m(5) order_refl order_refl, of t]
  show ?case
    using IH1 IH2 m Cons.prems by (simp add: x loaded_def watchdogTick_def Let_def w c del: of_nat_diff of_nat_diff_if)
qed simp

lemma watchdogRun_new:
  "counting 0 0 ts \<Longrightarrow> watchdogRun (newWatchdog t0) (map loaded ts) =
     map_option (\<lambda>(t, a, b). (t, StreamZombie (of_nat a) (of_nat b))) (zombie (t0, 0, 0) ts)"
  using watchdogRun_zombie [of 0 0 ts 0 0 t0] by (simp add: newWatchdog_def)

lemma zombie_sound:
  "zombie (t0, tx0, rx0) ts = Some (t, a, b) \<Longrightarrow>
     \<exists>(t1, tx1, rx1)\<in>insert (t0, tx0, rx0) (set ts). \<exists>tx rx. (t, tx, rx) \<in> set ts \<and>
       t1 + pumpWatchdogStallWindow \<le> t \<and> tx1 + 10240 \<le> tx \<and> rx < rx1 + 1024 \<and> a = tx - tx1 \<and> b = rx - rx1"
proof (induction ts arbitrary: t0 tx0 rx0)
  case (Cons x ts)
  obtain t' tx' rx' where x: "x = (t', tx', rx')" by (metis prod.exhaust)
  consider "t' - t0 < pumpWatchdogStallWindow"
    | "\<not> t' - t0 < pumpWatchdogStallWindow" "tx0 + 10240 \<le> tx' \<and> rx' < rx0 + 1024"
    | "\<not> t' - t0 < pumpWatchdogStallWindow" "\<not> (tx0 + 10240 \<le> tx' \<and> rx' < rx0 + 1024)" by blast
  then show ?case
  proof cases
    case 1
    then have "zombie (t0, tx0, rx0) ts = Some (t, a, b)" using Cons.prems x by simp
    from Cons.IH [OF this] show ?thesis by fastforce
  next
    case 2
    then show ?thesis using Cons.prems x by auto
  next
    case 3
    then have "zombie (t', tx', rx') ts = Some (t, a, b)" using Cons.prems x by (auto split: if_splits)
    from Cons.IH [OF this] x show ?thesis by fastforce
  qed
qed simp

definition deadFrom :: "int \<Rightarrow> tick list \<Rightarrow> bool" where
  \<comment> \<open>from \<open>T\<close> on nothing is received while 10 KiB are sent in any 15 s\<close>
  "deadFrom T ts \<longleftrightarrow>
     (\<exists>R. \<forall>(t, tx, rx)\<in>set ts. T \<le> t \<longrightarrow> rx = R) \<and>
     (\<forall>(t, tx, rx)\<in>set ts. \<forall>(t', tx', rx')\<in>set ts.
        T \<le> t \<and> t + pumpWatchdogStallWindow \<le> t' \<longrightarrow> tx + 10240 \<le> tx')"

lemma zombie_in_dead_window:
  assumes "\<forall>(t, tx, rx)\<in>set ts. t0 + pumpWatchdogStallWindow \<le> t \<longrightarrow> tx0 + 10240 \<le> tx \<and> rx < rx0 + 1024"
    and "\<exists>x\<in>set ts. t0 + pumpWatchdogStallWindow \<le> fst x"
  shows "zombie (t0, tx0, rx0) ts \<noteq> None"
  using assms by (induction ts) (auto split: prod.splits)

lemma zombie_detects:
  assumes "ticking t1 ts" "t1 < t0 + pumpWatchdogStallWindow" "t0 < T" "deadFrom T ts"
    and "\<exists>x\<in>set ts. T + 35000000000 \<le> fst x"
  shows "zombie (t0, tx0, rx0) ts \<noteq> None"
  using assms
proof (induction ts arbitrary: t0 tx0 rx0 t1)
  case (Cons x ts)
  obtain t tx rx where x: "x = (t, tx, rx)" by (metis prod.exhaust)
  have tk: "t1 < t" "t \<le> t1 + 5000000000" "ticking t ts" using Cons.prems(1) x by auto
  have d: "deadFrom T ts" using Cons.prems(4) by (auto simp: deadFrom_def)
  have lt: "t < T + 20000000000" using tk Cons.prems(2, 3) by linarith
  have later: "\<exists>y\<in>set ts. T + 35000000000 \<le> fst y" using Cons.prems(5) x lt by auto
  consider "t - t0 < pumpWatchdogStallWindow"
    | "\<not> t - t0 < pumpWatchdogStallWindow" "tx0 + 10240 \<le> tx \<and> rx < rx0 + 1024"
    | "\<not> t - t0 < pumpWatchdogStallWindow" "\<not> (tx0 + 10240 \<le> tx \<and> rx < rx0 + 1024)" by blast
  then show ?case
  proof cases
    case 1
    have "zombie (t0, tx0, rx0) ts \<noteq> None"
      by (rule Cons.IH [OF tk(3) _ Cons.prems(3) d later]) (use 1 in linarith)
    then show ?thesis using 1 x by simp
  next
    case 2
    then show ?thesis using x by simp
  next
    case 3
    have "zombie (t, tx, rx) ts \<noteq> None"
    proof (cases "t < T")
      case True
      show ?thesis by (rule Cons.IH [OF tk(3) _ True d later]) simp
    next
      case False
      have "rx' = rx \<and> (t + pumpWatchdogStallWindow \<le> t' \<longrightarrow> tx + 10240 \<le> tx')"
        if "(t', tx', rx') \<in> set ts" "T \<le> t'" for t' tx' rx'
        using Cons.prems(4) that False by (fastforce simp: deadFrom_def x)
      then have "\<forall>(t', tx', rx')\<in>set ts. t + pumpWatchdogStallWindow \<le> t' \<longrightarrow> tx + 10240 \<le> tx' \<and> rx' < rx + 1024"
        using False by force
      then show ?thesis by (rule zombie_in_dead_window) (use later lt in force)
    qed
    then show ?thesis using 3 x by auto
  qed
qed simp

section \<open>Properties\<close>

text \<open>
  C11: the uplink loses nothing it need not lose and invents nothing.  Whatever packets the client
  reads from its device, wherever a write fails and wherever the stream is cut, the relay's
  forwarder is called, in order, on a prefix of the packets of 1 to 1420 bytes, and the relay
  never sees a frame of invalid size; if every write succeeds and the stream is not cut it is
  called on all of them, the reader stops at the end of the stream and the TX counter of the
  watchdog is the number of bytes sent.
\<close>

theorem tunnel_uplink_exact:
  "let sent = filter framed (map fst evs);
       stream = take k (fst (pumpOutbound evs))
   in \<exists>got. prefix got sent \<and>
        snd (tunnelReader fwd f stream) = fold (\<lambda>p f. snd (fwd f p)) got f \<and>
        fst (tunnelReader fwd f stream) \<noteq> StopSize \<and>
        (if (\<forall>e\<in>set evs. snd e = WOk) \<and> length (fst (pumpOutbound evs)) \<le> k
         then got = sent \<and> fst (tunnelReader fwd f stream) = StopEOF \<and>
           snd (pumpOutbound evs) = (of_nat (length stream), None)
         else True)"
proof -
  let ?sent = "filter framed (map fst evs)"
  obtain j where j: "fst (pumpOutbound evs) = take j (concat (map pumpFrame ?sent))"
    using pumpOutbound_frames by blast
  then have s: "take k (fst (pumpOutbound evs)) = take (min k j) (concat (map pumpFrame ?sent))" by simp
  have fr: "\<forall>p\<in>set ?sent. framed p" by simp
  note pre = deframe_take_frames [OF fr, of "min k j", folded s]
    and stop = deframe_take_stop [OF fr, of "min k j", folded s]
  have whole: "deframe (take k (fst (pumpOutbound evs))) = (StopEOF, ?sent) \<and>
      snd (pumpOutbound evs) = (of_nat (length (take k (fst (pumpOutbound evs)))), None)"
    if "\<forall>e\<in>set evs. snd e = WOk" "length (fst (pumpOutbound evs)) \<le> k"
    using that(2) pumpOutbound_all [OF that(1)] deframe_frames [OF fr, of "[]"] by simp
  show ?thesis
    unfolding Let_def tunnelReader_deframe
    by (rule exI [of _ "snd (deframe (take k (fst (pumpOutbound evs))))"]) (use pre stop whole in auto)
qed

theorem tunnel_uplink_exact_witness:
  "tunnelReader (\<lambda>f p. (True, f @ [p])) [] (fst (pumpOutbound [([1, 2], WOk), ([], WOk), ([3], WOk)])) =
     (StopEOF, [[1, 2], [3]])"
proof -
  let ?evs = "[([1, 2], WOk), ([], WOk), ([3], WOk)]"
  from tunnel_uplink_exact [where evs = ?evs and k = "length (fst (pumpOutbound ?evs))"
      and fwd = "\<lambda>f p. (True, f @ [p])" and f = "[]"]
  show ?thesis by (auto simp: Let_def fold_snoc intro: prod_eqI simp del: pumpOutbound.simps)
qed

text \<open>
  C12: the downlink is the same channel the other way.  If the packets queued for the client are not
  empty, then wherever a write of the relay fails and wherever the stream is cut, the client writes
  to its device, in order, a prefix of the packets of at most 1420 bytes; with no failed write and
  no cut it writes all of them, and the loop then reports an error only if the stream ends with
  one while the pump is live.
\<close>

theorem tunnel_downlink_exact:
  assumes "\<forall>q\<in>set outs. fst q \<noteq> []"
  shows "let sent = filter fits (map fst outs);
             written = fst (tunnelWriter now ip bl outs);
             run = pumpInbound wr eof live s (take k written)
    in \<exists>got. prefix got sent \<and> snd (snd run) = fold (\<lambda>p s. snd (wr s p)) got s \<and>
         (if (\<forall>q\<in>set outs. snd q = (True, True)) \<and> (\<forall>s p. fst (wr s p)) \<and> length written \<le> k
          then got = sent \<and> (fst run = None \<longleftrightarrow> eof \<or> \<not> live) else True)"
proof -
  let ?sent = "filter fits (map fst outs)" and ?w = "fst (tunnelWriter now ip bl outs)"
  obtain j where j: "?w = take j (concat (map pumpFrame ?sent))" using tunnelWriter_frames by blast
  then have s: "take k ?w = take (min k j) (concat (map pumpFrame ?sent))" by simp
  have fr: "\<forall>p\<in>set ?sent. framed p" using assms by auto
  note pre = deframe_take_frames [OF fr, of "min k j", folded s]
  obtain i where i: "snd (snd (pumpInbound wr eof live s (take k ?w))) =
      fold (\<lambda>p s. snd (wr s p)) (take i (snd (deframe (take k ?w)))) s"
    using pumpInbound_deframe [of wr eof live s "take k ?w"] by blast
  have whole: "deframe (take k ?w) = (StopEOF, ?sent)"
    if "\<forall>q\<in>set outs. snd q = (True, True)" "length ?w \<le> k"
    using that(2) tunnelWriter_all [OF that(1), of now ip bl] deframe_frames [OF fr, of "[]"] by simp
  show ?thesis
  proof (cases "(\<forall>q\<in>set outs. snd q = (True, True)) \<and> (\<forall>s p. fst (wr s p)) \<and> length ?w \<le> k")
    case True
    then show ?thesis
      unfolding Let_def using whole pumpInbound_all [of wr eof live s "take k ?w"]
      by (intro exI [of _ ?sent]) auto
  next
    case False
    have "prefix (take i (snd (deframe (take k ?w)))) ?sent"
      using pre take_is_prefix prefix_order.order_trans by blast
    then show ?thesis unfolding Let_def using i False by (intro exI [of _ "take i (snd (deframe (take k ?w)))"]) auto
  qed
qed

theorem tunnel_downlink_exact_witness:
  "snd (snd (pumpInbound (\<lambda>s p. (True, s @ [p])) True True []
     (fst (tunnelWriter 0 ''9.9.9.9'' (NewBandwidthLimiter 100) [([1, 2], True, True), ([3], True, True)]))))
   = [[1, 2], [3]]"
proof -
  let ?outs = "[([1, 2], True, True), ([3], True, True)]"
  let ?w = "fst (tunnelWriter 0 ''9.9.9.9'' (NewBandwidthLimiter 100) ?outs)"
  have ne: "\<forall>q\<in>set ?outs. fst q \<noteq> []" by simp
  from tunnel_downlink_exact [OF ne, where now = 0 and ip = "''9.9.9.9''" and bl = "NewBandwidthLimiter 100"
      and wr = "\<lambda>s p. (True, s @ [p])" and s = "[]" and eof = True and live = True and k = "length ?w"]
  show ?thesis by (auto simp: Let_def fold_snoc)
qed

text \<open>
  the stall watchdog neither cries wolf nor sleeps.  It trips only at a tick that ends a window
  of at least 15 seconds, begun at the start or at an earlier tick, in which at least 10 KiB were
  sent and less than 1 KiB received; and if from some moment on nothing is received while 10 KiB
  are sent in any 15 seconds, it trips within 35 seconds of that moment.
\<close>

theorem watchdog_detects_stalls:
  assumes "ticking t0 ts" "counting 0 0 ts"
  shows "(\<forall>t e. watchdogRun (newWatchdog t0) (map loaded ts) = Some (t, e) \<longrightarrow>
        (\<exists>(t1, tx1, rx1)\<in>insert (t0, 0, 0) (set ts). \<exists>tx rx. (t, tx, rx) \<in> set ts \<and>
           t1 + pumpWatchdogStallWindow \<le> t \<and> tx1 + 10240 \<le> tx \<and> rx < rx1 + 1024 \<and>
           e = StreamZombie (of_nat (tx - tx1)) (of_nat (rx - rx1)))) \<and>
    (\<forall>T. t0 < T \<and> deadFrom T ts \<and> (\<exists>x\<in>set ts. T + 35000000000 \<le> fst x) \<longrightarrow>
       watchdogRun (newWatchdog t0) (map loaded ts) \<noteq> None)"
proof (intro conjI allI impI)
  fix t e
  assume "watchdogRun (newWatchdog t0) (map loaded ts) = Some (t, e)"
  then obtain a b where z: "zombie (t0, 0, 0) ts = Some (t, a, b)" and e: "e = StreamZombie (of_nat a) (of_nat b)"
    unfolding watchdogRun_new [OF assms(2)] by auto
  from zombie_sound [OF z]
  show "\<exists>(t1, tx1, rx1)\<in>insert (t0, 0, 0) (set ts). \<exists>tx rx. (t, tx, rx) \<in> set ts \<and>
           t1 + pumpWatchdogStallWindow \<le> t \<and> tx1 + 10240 \<le> tx \<and> rx < rx1 + 1024 \<and>
           e = StreamZombie (of_nat (tx - tx1)) (of_nat (rx - rx1))"
    unfolding e by (auto simp del: of_nat_diff of_nat_diff_if) blast+
next
  fix T
  assume a: "t0 < T \<and> deadFrom T ts \<and> (\<exists>x\<in>set ts. T + 35000000000 \<le> fst x)"
  have "zombie (t0, 0, 0) ts \<noteq> None"
    by (rule zombie_detects [OF assms(1)]) (use a in auto)
  then show "watchdogRun (newWatchdog t0) (map loaded ts) \<noteq> None"
    unfolding watchdogRun_new [OF assms(2)] by simp
qed

definition sampleTicks :: "tick list" where
  "sampleTicks = map (\<lambda>i. (int i * 5000000000, i * 5000, 300)) [1..<10]"

theorem watchdog_detects_stalls_witness:
  "\<exists>t e. watchdogRun (newWatchdog 0) (map loaded sampleTicks) = Some (t, e)"
proof -
  have m: "(t, tx, rx) \<in> set sampleTicks \<longleftrightarrow> (\<exists>i. 1 \<le> i \<and> i < 10 \<and> t = int i * 5000000000 \<and> tx = i * 5000 \<and> rx = 300)"
    for t tx rx by (auto simp: sampleTicks_def)
  have "ticking 0 sampleTicks" "counting 0 0 sampleTicks"
    by (simp_all add: sampleTicks_def upt_conv_Cons)
  moreover have "tx + 10240 \<le> tx'"
    if h: "(t, tx, rx) \<in> set sampleTicks" "(t', tx', rx') \<in> set sampleTicks" "t + 15000000000 \<le> t'" for t tx rx t' tx' rx'
  proof -
    obtain i j where ij: "t = int i * 5000000000" "t' = int j * 5000000000" "tx = i * 5000" "tx' = j * 5000"
      using h(1, 2) unfolding m by blast
    then have "i + 3 \<le> j" using h(3) by simp
    then show ?thesis using ij by simp
  qed
  then have "deadFrom 1000000000 sampleTicks"
    unfolding deadFrom_def by (auto simp: m)
  moreover have "\<exists>x\<in>set sampleTicks. 36000000000 \<le> fst x"
    by (rule bexI [of _ "(45000000000, 45000, 300)"]) (auto simp: m intro: exI [of _ 9])
  ultimately have "watchdogRun (newWatchdog 0) (map loaded sampleTicks) \<noteq> None"
    using watchdog_detects_stalls [of 0 sampleTicks, THEN conjunct2, rule_format, of 1000000000] by simp
  then show ?thesis by auto
qed

end
