(* ===== verification/DnsControl.thy ===== *)
theory DnsControl
  imports Go_Net
begin

text \<open>
  System DNS on Linux: the resolver manager of \<^verbatim>\<open>linux/internal/dns/manager_linux.go\<close>, the
  forced resolver of \<^verbatim>\<open>check_linux.go\<close>, the proxy callbacks of \<^verbatim>\<open>linux/internal/service/service.go\<close>
  and the DNS kill switch of \<^verbatim>\<open>kill_switch.go\<close> that uses them.  The host is its files, the commands
  run on it and whether the local proxies listen; what each system call answers is an argument.
\<close>

section \<open>The host\<close>

record host =
  files :: "string \<Rightarrow> string option"
  commands :: "string list list"
  proxyUp :: bool
  httpUp :: bool

record sysAnswers =
  ansRun :: "string list \<Rightarrow> bool \<times> string"
  ansRead :: "string \<Rightarrow> bool"
  ansWrite :: "string \<Rightarrow> bool"
  ansRemove :: "string \<Rightarrow> bool"
  ansInterfaces :: "(string \<times> bool \<times> bool) list option"
  ansProxyReady :: "nat \<Rightarrow> bool"
  ansHTTPReady :: bool
  ansCtxErr :: bool

definition run :: "sysAnswers \<Rightarrow> string list \<Rightarrow> host \<Rightarrow> (bool \<times> string) \<times> host" where
  "run io args h = (ansRun io args, h\<lparr>commands := commands h @ [args]\<rparr>)"

definition ReadFile :: "sysAnswers \<Rightarrow> string \<Rightarrow> host \<Rightarrow> string option" where
  "ReadFile io path h = (if ansRead io path then files h path else None)"

definition WriteFile :: "sysAnswers \<Rightarrow> string \<Rightarrow> string \<Rightarrow> host \<Rightarrow> bool \<times> host" where
  "WriteFile io path c h = (if ansWrite io path then (True, h\<lparr>files := (files h)(path \<mapsto> c)\<rparr>) else (False, h))"

definition RemoveFile :: "sysAnswers \<Rightarrow> string \<Rightarrow> host \<Rightarrow> host" where
  "RemoveFile io path h = (if ansRemove io path then h\<lparr>files := (files h)(path := None)\<rparr> else h)"

section \<open>The Linux DNS manager\<close>

definition resolvConfPath :: string where "resolvConfPath = ''/etc/resolv.conf''"
definition resolvConfBackup :: string where "resolvConfBackup = ''/etc/resolv.conf.levoile.bak''"

record linuxManager =
  originalDNS :: string
  useResolvectl :: bool

definition newManagerWithRunner :: "sysAnswers \<Rightarrow> host \<Rightarrow> linuxManager \<times> host" where
  "newManagerWithRunner io h =
     (case run io [''which'', ''resolvectl''] h of
        ((ok, _), h1) \<Rightarrow> (\<lparr>originalDNS = [], useResolvectl = ok\<rparr>, h1))"

definition resolvectlLink :: "string \<Rightarrow> string option" where
  "resolvectlLink line =
     (let trimmed = TrimSpace line in
      if HasPrefix trimmed ''Link'' then
        (case IndexByte trimmed CHR ''('' of
           None \<Rightarrow> None
         | Some start \<Rightarrow>
             (case IndexByte trimmed CHR '')'' of
                None \<Rightarrow> None
              | Some e \<Rightarrow> if e > start then Some (take (e - (start + 1)) (drop (start + 1) trimmed)) else None))
      else None)"

definition parseAllResolvectlInterfaces :: "string \<Rightarrow> string list" where
  "parseAllResolvectlInterfaces output = List.map_filter resolvectlLink (splitOn (CHR 0x0A) output)"

definition virtualPrefixes :: "string list" where
  "virtualPrefixes = [''levoile'', ''tun'', ''tap'', ''wg'', ''docker'', ''veth'', ''br-'']"

definition enumerateActiveInterfaces :: "sysAnswers \<Rightarrow> string list" where
  \<comment> \<open>name, \<^verbatim>\<open>FlagUp\<close> and \<^verbatim>\<open>FlagLoopback\<close> of each interface; \<open>None\<close> if they cannot be listed\<close>
  "enumerateActiveInterfaces io =
     (case ansInterfaces io of
        None \<Rightarrow> []
      | Some ifs \<Rightarrow> map fst (filter (\<lambda>(name, up, lo).
          \<not> (\<not> up \<or> lo) \<and> \<not> (\<exists>p\<in>set virtualPrefixes. HasPrefix name p)) ifs))"

fun pointInterfaces :: "sysAnswers \<Rightarrow> string \<Rightarrow> string list \<Rightarrow> host \<Rightarrow> bool \<times> host" where
  "pointInterfaces io addr [] h = (True, h)"
| "pointInterfaces io addr (iface # ifs) h =
     (case run io [''resolvectl'', ''dns'', iface, addr] h of
        ((False, _), h1) \<Rightarrow> (False, h1)
      | ((True, _), h1) \<Rightarrow>
          let h2 = snd (run io [''resolvectl'', ''mdns'', iface, ''off''] h1);
              h3 = snd (run io [''resolvectl'', ''llmnr'', iface, ''off''] h2)
          in pointInterfaces io addr ifs h3)"

definition setResolverResolvectl ::
  "sysAnswers \<Rightarrow> string \<Rightarrow> linuxManager \<Rightarrow> host \<Rightarrow> bool \<times> linuxManager \<times> host" where
  "setResolverResolvectl io addr m h =
     (case run io [''resolvectl'', ''dns''] h of
        ((False, _), h1) \<Rightarrow> (False, m, h1)
      | ((True, out), h1) \<Rightarrow>
          let m1 = m\<lparr>originalDNS := TrimSpace out\<rparr>;
              ifs = parseAllResolvectlInterfaces out;
              ifs1 = (if ifs = [] then enumerateActiveInterfaces io else ifs)
          in (case pointInterfaces io addr ifs1 h1 of (ok, h2) \<Rightarrow> (ok, m1, h2)))"

definition generatedConf :: "string \<Rightarrow> string" where
  "generatedConf addr = ''# Generated by Le Voile VPN'' @ [CHR 0x0A] @ ''nameserver '' @ addr @ [CHR 0x0A]"

definition setResolverResolvConf ::
  "sysAnswers \<Rightarrow> string \<Rightarrow> linuxManager \<Rightarrow> host \<Rightarrow> bool \<times> linuxManager \<times> host" where
  "setResolverResolvConf io addr m h =
     (case ReadFile io resolvConfPath h of
        None \<Rightarrow> (False, m, h)
      | Some content \<Rightarrow>
          let m1 = m\<lparr>originalDNS := content\<rparr> in
          (case WriteFile io resolvConfBackup content h of
             (False, h1) \<Rightarrow> (False, m1, h1)
           | (True, h1) \<Rightarrow>
               if ParseIP addr = None then (False, m1, h1)
               else (case WriteFile io resolvConfPath (generatedConf addr) h1 of (ok, h2) \<Rightarrow> (ok, m1, h2))))"

definition SetResolver :: "sysAnswers \<Rightarrow> string \<Rightarrow> linuxManager \<Rightarrow> host \<Rightarrow> bool \<times> linuxManager \<times> host" where
  "SetResolver io addr m h =
     (if useResolvectl m then setResolverResolvectl io addr m h else setResolverResolvConf io addr m h)"

fun revertInterfaces :: "sysAnswers \<Rightarrow> string list \<Rightarrow> bool \<Rightarrow> host \<Rightarrow> bool \<times> host" where
  \<comment> \<open>the flag says that no revert has failed so far\<close>
  "revertInterfaces io [] ok h = (ok, h)"
| "revertInterfaces io (iface # ifs) ok h =
     (case run io [''resolvectl'', ''revert'', iface] h of
        ((r, _), h1) \<Rightarrow> revertInterfaces io ifs (ok \<and> r) h1)"

definition restoreResolvectl :: "sysAnswers \<Rightarrow> linuxManager \<Rightarrow> host \<Rightarrow> bool \<times> linuxManager \<times> host" where
  "restoreResolvectl io m h =
     (let ifs = parseAllResolvectlInterfaces (originalDNS m);
          ifs1 = (if ifs = [] then enumerateActiveInterfaces io else ifs);
          (ok, h1) = revertInterfaces io ifs1 True h;
          h2 = foldl (\<lambda>h iface. snd (run io [''nmcli'', ''device'', ''reapply'', iface] h)) h1 ifs1
      in (ok, m\<lparr>originalDNS := []\<rparr>, h2))"

definition restoreResolvConf :: "sysAnswers \<Rightarrow> linuxManager \<Rightarrow> host \<Rightarrow> bool \<times> linuxManager \<times> host" where
  "restoreResolvConf io m h =
     (case ReadFile io resolvConfBackup h of
        None \<Rightarrow>
          if originalDNS m \<noteq> [] then
            (case WriteFile io resolvConfPath (originalDNS m) h of
               (False, h1) \<Rightarrow> (False, m, h1)
             | (True, h1) \<Rightarrow> (True, m\<lparr>originalDNS := []\<rparr>, h1))
          else (False, m, h)
      | Some backup \<Rightarrow>
          (case WriteFile io resolvConfPath backup h of
             (False, h1) \<Rightarrow> (False, m, h1)
           | (True, h1) \<Rightarrow> (True, m\<lparr>originalDNS := []\<rparr>, RemoveFile io resolvConfBackup h1)))"

definition RestoreResolver :: "sysAnswers \<Rightarrow> linuxManager \<Rightarrow> host \<Rightarrow> bool \<times> linuxManager \<times> host" where
  "RestoreResolver io m h =
     (if originalDNS m = [] then (True, m, h)
      else if useResolvectl m then restoreResolvectl io m h else restoreResolvConf io m h)"

definition RecoverOrphanDNS :: "sysAnswers \<Rightarrow> host \<Rightarrow> bool \<times> host" where
  "RecoverOrphanDNS io h =
     (if files h resolvConfBackup = None then (True, h)
      else case ReadFile io resolvConfBackup h of
        None \<Rightarrow> (True, h)
      | Some backup \<Rightarrow>
          (case WriteFile io resolvConfPath backup h of
             (False, h1) \<Rightarrow> (False, h1)
           | (True, h1) \<Rightarrow> (True, RemoveFile io resolvConfBackup h1)))"

section \<open>The forced resolver\<close>

definition discoverInterfaces :: "sysAnswers \<Rightarrow> host \<Rightarrow> string list \<times> host" where
  "discoverInterfaces io h =
     (case run io [''resolvectl'', ''dns''] h of
        ((False, _), h1) \<Rightarrow> ([''eth0''], h1)
      | ((True, out), h1) \<Rightarrow>
          let ifs = parseAllResolvectlInterfaces out in (if ifs = [] then [''eth0''] else ifs, h1))"

fun forceInterfaces :: "sysAnswers \<Rightarrow> string \<Rightarrow> string list \<Rightarrow> host \<Rightarrow> bool \<times> host" where
  "forceInterfaces io addr [] h = (True, h)"
| "forceInterfaces io addr (iface # ifs) h =
     (case run io [''resolvectl'', ''dns'', iface, addr] h of
        ((False, _), h1) \<Rightarrow> (False, h1)
      | ((True, _), h1) \<Rightarrow> forceInterfaces io addr ifs h1)"

definition ForceResolver :: "sysAnswers \<Rightarrow> string \<Rightarrow> host \<Rightarrow> bool \<times> host" where
  "ForceResolver io addr h =
     (if ansCtxErr io then (False, h)
      else if ParseIP addr = None then (False, h)
      else case run io [''which'', ''resolvectl''] h of
        ((True, _), h1) \<Rightarrow> (case discoverInterfaces io h1 of (ifs, h2) \<Rightarrow> forceInterfaces io addr ifs h2)
      | ((False, _), h1) \<Rightarrow> WriteFile io resolvConfPath (generatedConf addr) h1)"

section \<open>The kill switch\<close>

record killSwitch =
  ksActive :: bool
  ksForce :: bool
  ksMgr :: linuxManager
  ksHost :: host

datatype ksError = AlreadyActive | AlreadyInactive | ActivateSet | ActivateForce | DeactivateStart

definition stopProxies :: "host \<Rightarrow> host" where
  \<comment> \<open>the \<^verbatim>\<open>stopProxy\<close> callback: \<^verbatim>\<open>stopHTTPProxy\<close> and \<^verbatim>\<open>stopProxy\<close>\<close>
  "stopProxies h = h\<lparr>httpUp := False, proxyUp := False\<rparr>"

definition startProxy :: "sysAnswers \<Rightarrow> host \<Rightarrow> bool \<times> host" where
  \<comment> \<open>two attempts to bind the DNS proxy\<close>
  "startProxy io h =
     (if ansProxyReady io 0 then (True, h\<lparr>proxyUp := True\<rparr>)
      else if ansProxyReady io 1 then (True, h\<lparr>proxyUp := True\<rparr>)
      else (False, h))"

definition startProxies :: "sysAnswers \<Rightarrow> bool \<Rightarrow> host \<Rightarrow> bool \<times> host" where
  \<comment> \<open>the \<^verbatim>\<open>startProxy\<close> callback; a failure of the HTTP proxy is only logged\<close>
  "startProxies io httpEnabled h =
     (case startProxy io h of
        (False, h1) \<Rightarrow> (False, h1)
      | (True, h1) \<Rightarrow> (True, if httpEnabled \<and> ansHTTPReady io then h1\<lparr>httpUp := True\<rparr> else h1))"

definition NewKillSwitch :: "linuxManager \<Rightarrow> host \<Rightarrow> killSwitch" where
  "NewKillSwitch m h = \<lparr>ksActive = False, ksForce = False, ksMgr = m, ksHost = h\<rparr>"

definition SetForceResolver :: "killSwitch \<Rightarrow> killSwitch" where
  "SetForceResolver k = k\<lparr>ksForce := True\<rparr>"

definition Activate :: "sysAnswers \<Rightarrow> killSwitch \<Rightarrow> ksError option \<times> killSwitch" where
  "Activate io k =
     (if ksActive k then (Some AlreadyActive, k)
      else
        let h = stopProxies (ksHost k) in
        if originalDNS (ksMgr k) = [] then
          (case SetResolver io ''127.0.0.1'' (ksMgr k) h of
             (False, m1, h1) \<Rightarrow> (Some ActivateSet, k\<lparr>ksMgr := m1, ksHost := h1\<rparr>)
           | (True, m1, h1) \<Rightarrow> (None, k\<lparr>ksMgr := m1, ksHost := h1, ksActive := True\<rparr>))
        else if ksForce k then
          (case ForceResolver io ''127.0.0.1'' h of
             (False, h1) \<Rightarrow> (Some ActivateForce, k\<lparr>ksHost := h1\<rparr>)
           | (True, h1) \<Rightarrow> (None, k\<lparr>ksHost := h1, ksActive := True\<rparr>))
        else (None, k\<lparr>ksHost := h, ksActive := True\<rparr>))"

definition Deactivate :: "bool \<Rightarrow> sysAnswers \<Rightarrow> killSwitch \<Rightarrow> ksError option \<times> killSwitch" where
  "Deactivate httpEnabled io k =
     (if \<not> ksActive k then (Some AlreadyInactive, k)
      else case startProxies io httpEnabled (ksHost k) of
        (False, h1) \<Rightarrow> (Some DeactivateStart, k\<lparr>ksHost := h1\<rparr>)
      | (True, h1) \<Rightarrow> (None, k\<lparr>ksHost := h1, ksActive := False\<rparr>))"

definition IsActive :: "killSwitch \<Rightarrow> bool" where
  "IsActive k = ksActive k"

section \<open>The controller interface\<close>

text \<open>
  \<^verbatim>\<open>KillSwitchController\<close> as its clients use it: activation blocks DNS at once, whether or not it
  reports success; deactivation unblocks only an active switch.
\<close>

locale kill_switch =
  fixes activate :: "'i \<Rightarrow> 'k \<Rightarrow> 'e option \<times> 'k" and deactivate :: "'i \<Rightarrow> 'k \<Rightarrow> 'e option \<times> 'k"
    and is_active :: "'k \<Rightarrow> bool" and blocking :: "'k \<Rightarrow> bool" and inv :: "'k \<Rightarrow> bool"
  assumes activate_inv: "inv k \<Longrightarrow> inv (snd (activate i k))"
    and activate_blocks: "inv k \<Longrightarrow> blocking (snd (activate i k))"
    and activate_ok: "fst (activate i k) = None \<Longrightarrow> is_active (snd (activate i k))"
    and activate_err: "fst (activate i k) \<noteq> None \<Longrightarrow> is_active (snd (activate i k)) = is_active k"
    and activate_active: "is_active k \<Longrightarrow> snd (activate i k) = k"
    and deactivate_inv: "inv k \<Longrightarrow> inv (snd (deactivate i k))"
    and deactivate_ok: "fst (deactivate i k) = None \<Longrightarrow>
      is_active k \<and> \<not> is_active (snd (deactivate i k)) \<and> \<not> blocking (snd (deactivate i k))"
    and deactivate_err: "fst (deactivate i k) \<noteq> None \<Longrightarrow>
      is_active (snd (deactivate i k)) = is_active k \<and> blocking (snd (deactivate i k)) = blocking k"
    and deactivate_inactive: "\<not> is_active k \<Longrightarrow> deactivate i k = (fst (deactivate i k), k) \<and> fst (deactivate i k) \<noteq> None"
begin

fun deactivateAll :: "'i list \<Rightarrow> 'k \<Rightarrow> 'k" where
  "deactivateAll [] k = k"
| "deactivateAll (i # is) k = deactivateAll is (snd (deactivate i k))"

lemma stays_inactive: "\<not> is_active k \<Longrightarrow> deactivateAll is k = k"
  using deactivate_inactive by (induction "is") (auto, metis snd_conv)

lemma retry_active:
  "fst (activate i (snd (activate j k))) = None \<Longrightarrow> is_active (snd (activate i (snd (activate j k))))"
  by (rule activate_ok)

lemma retry_blocks: "inv k \<Longrightarrow> blocking (snd (activate i (snd (activate j k))))"
  by (rule activate_blocks [OF activate_inv])

end

lemma pointInterfaces_host: "pointInterfaces io addr ifs h = (ok, h') \<Longrightarrow>
    proxyUp h' = proxyUp h \<and> httpUp h' = httpUp h \<and> files h' = files h"
  by (induction io addr ifs h rule: pointInterfaces.induct) (auto simp: run_def Let_def split: prod.splits bool.splits)

lemma forceInterfaces_host: "forceInterfaces io addr ifs h = (ok, h') \<Longrightarrow>
    proxyUp h' = proxyUp h \<and> httpUp h' = httpUp h \<and> files h' = files h"
  by (induction io addr ifs h rule: forceInterfaces.induct) (auto simp: run_def split: prod.splits bool.splits)

lemma SetResolver_host: "SetResolver io addr m h = (ok, m', h') \<Longrightarrow> proxyUp h' = proxyUp h \<and> httpUp h' = httpUp h"
  by (auto simp: SetResolver_def setResolverResolvectl_def setResolverResolvConf_def WriteFile_def run_def Let_def
      split: prod.splits bool.splits option.splits if_splits dest: pointInterfaces_host)

lemma ForceResolver_host: "ForceResolver io addr h = (ok, h') \<Longrightarrow> proxyUp h' = proxyUp h \<and> httpUp h' = httpUp h"
  by (auto simp: ForceResolver_def discoverInterfaces_def WriteFile_def run_def Let_def
      split: prod.splits bool.splits option.splits if_splits dest: forceInterfaces_host)

definition ksInv :: "killSwitch \<Rightarrow> bool" where
  "ksInv k \<longleftrightarrow> (ksActive k \<longrightarrow> \<not> proxyUp (ksHost k))"

definition dnsBlocked :: "killSwitch \<Rightarrow> bool" where
  "dnsBlocked k \<longleftrightarrow> \<not> proxyUp (ksHost k)"

lemma Activate_host: "Activate io k = (e, k') \<Longrightarrow> \<not> ksActive k \<Longrightarrow> \<not> proxyUp (ksHost k') \<and> (e = None \<longleftrightarrow> ksActive k')"
  by (auto simp: Activate_def Let_def stopProxies_def split: prod.splits bool.splits if_splits
      dest!: SetResolver_host ForceResolver_host)

lemma Activate_active: "ksActive k \<Longrightarrow> Activate io k = (Some AlreadyActive, k)"
  by (simp add: Activate_def)

interpretation dks: kill_switch Activate "Deactivate http" IsActive dnsBlocked ksInv
proof
  fix i k
  show "ksInv k \<Longrightarrow> ksInv (snd (Activate i k))" "ksInv k \<Longrightarrow> dnsBlocked (snd (Activate i k))"
    "fst (Activate i k) = None \<Longrightarrow> IsActive (snd (Activate i k))"
    "fst (Activate i k) \<noteq> None \<Longrightarrow> IsActive (snd (Activate i k)) = IsActive k" "IsActive k \<Longrightarrow> snd (Activate i k) = k"
    using Activate_host [of i k] Activate_active [of k i]
    by (cases "ksActive k"; cases "Activate i k"; simp add: ksInv_def dnsBlocked_def IsActive_def)+
  show "ksInv k \<Longrightarrow> ksInv (snd (Deactivate http i k))"
    by (auto simp: Deactivate_def ksInv_def startProxies_def startProxy_def split: prod.splits bool.splits)
  show "fst (Deactivate http i k) = None \<Longrightarrow>
      IsActive k \<and> \<not> IsActive (snd (Deactivate http i k)) \<and> \<not> dnsBlocked (snd (Deactivate http i k))"
    by (auto simp: Deactivate_def IsActive_def dnsBlocked_def startProxies_def startProxy_def
        split: prod.splits bool.splits if_splits)
  show "fst (Deactivate http i k) \<noteq> None \<Longrightarrow>
      IsActive (snd (Deactivate http i k)) = IsActive k \<and> dnsBlocked (snd (Deactivate http i k)) = dnsBlocked k"
    by (auto simp: Deactivate_def IsActive_def dnsBlocked_def startProxies_def startProxy_def
        split: prod.splits bool.splits if_splits)
  show "\<not> IsActive k \<Longrightarrow> Deactivate http i k = (fst (Deactivate http i k), k) \<and> fst (Deactivate http i k) \<noteq> None"
    by (simp add: Deactivate_def IsActive_def)
qed

section \<open>The original resolver survives\<close>

datatype dnsOp = OpSet sysAnswers | OpActivate sysAnswers | OpDeactivate sysAnswers bool

fun dnsStep :: "dnsOp \<Rightarrow> killSwitch \<Rightarrow> killSwitch" where
  "dnsStep (OpSet io) k =
     (case SetResolver io ''127.0.0.1'' (ksMgr k) (ksHost k) of (ok, m, h) \<Rightarrow> k\<lparr>ksMgr := m, ksHost := h\<rparr>)"
| "dnsStep (OpActivate io) k = snd (Activate io k)"
| "dnsStep (OpDeactivate io http) k = snd (Deactivate http io k)"

definition dnsSaved :: "string \<Rightarrow> killSwitch \<Rightarrow> bool" where
  "dnsSaved c k \<longleftrightarrow> \<not> useResolvectl (ksMgr k) \<and>
     (if originalDNS (ksMgr k) = [] then files (ksHost k) resolvConfPath = Some c \<and> files (ksHost k) resolvConfBackup = None
      else originalDNS (ksMgr k) = c \<and> files (ksHost k) resolvConfBackup \<in> {None, Some c})"

lemma paths_differ [simp]: "resolvConfPath \<noteq> resolvConfBackup" "resolvConfBackup \<noteq> resolvConfPath"
  by (simp_all add: resolvConfPath_def resolvConfBackup_def)

lemma setResolverResolvConf_saved:
  assumes "setResolverResolvConf io addr m h = (ok, m', h')" "originalDNS m = []" "\<not> useResolvectl m"
    "files h resolvConfPath = Some c" "files h resolvConfBackup = None" "c \<noteq> []"
  shows "\<not> useResolvectl m' \<and>
     (if originalDNS m' = [] then files h' resolvConfPath = Some c \<and> files h' resolvConfBackup = None
      else originalDNS m' = c \<and> files h' resolvConfBackup \<in> {None, Some c})"
  using assms
  by (auto simp: setResolverResolvConf_def ReadFile_def WriteFile_def Let_def
      split: option.splits prod.splits bool.splits if_splits)

lemma ForceResolver_backup: "ForceResolver io addr h = (ok, h') \<Longrightarrow> files h' resolvConfBackup = files h resolvConfBackup"
  by (auto simp: ForceResolver_def discoverInterfaces_def WriteFile_def run_def Let_def
      split: prod.splits bool.splits option.splits if_splits dest: forceInterfaces_host)

lemma dnsSaved_Activate:
  assumes "dnsSaved c k" "c \<noteq> []"
  shows "dnsSaved c (snd (Activate io k))"
proof -
  let ?h = "stopProxies (ksHost k)"
  have f: "files ?h = files (ksHost k)" by (simp add: stopProxies_def)
  consider "ksActive k" | "\<not> ksActive k" "originalDNS (ksMgr k) = []"
    | "\<not> ksActive k" "originalDNS (ksMgr k) \<noteq> []" by blast
  then show ?thesis
  proof cases
    case 1
    then show ?thesis using assms by (simp add: Activate_active)
  next
    case 2
    obtain ok m1 h1 where r: "setResolverResolvConf io ''127.0.0.1'' (ksMgr k) ?h = (ok, m1, h1)" by (metis prod.exhaust)
    have u: "\<not> useResolvectl (ksMgr k)" using assms by (simp add: dnsSaved_def)
    have "files ?h resolvConfPath = Some c" "files ?h resolvConfBackup = None"
      using assms 2 f by (simp_all add: dnsSaved_def)
    note d = setResolverResolvConf_saved [OF r 2(2) u this assms(2)]
    show ?thesis using 2 r d u
      by (cases ok) (auto simp: Activate_def SetResolver_def dnsSaved_def Let_def)
  next
    case 3
    then show ?thesis using assms f
      by (auto simp: Activate_def dnsSaved_def Let_def split: prod.splits bool.splits dest: ForceResolver_backup)
  qed
qed

lemma dnsSaved_Deactivate: "dnsSaved c k \<Longrightarrow> dnsSaved c (snd (Deactivate http io k))"
  by (auto simp: Deactivate_def dnsSaved_def startProxies_def startProxy_def split: prod.splits bool.splits)

lemma dnsSaved_steps:
  assumes "dnsSaved c k" "c \<noteq> []" "\<forall>op\<in>set ops. \<forall>io. op \<noteq> OpSet io"
  shows "dnsSaved c (fold dnsStep ops k)"
  using assms
proof (induction ops arbitrary: k)
  case (Cons op ops)
  have "dnsSaved c (dnsStep op k)"
    using Cons.prems by (cases op) (auto intro: dnsSaved_Activate dnsSaved_Deactivate)
  then show ?case using Cons by simp
qed simp

section \<open>Properties\<close>

text \<open>
  the user's resolver comes back.  On a host without resolvectl and without a stale backup, the
  service sets the resolver once and then switches the kill switch on and off in any order, with any
  failures of the file system, the commands or the proxies; whenever the restore can write
  \<^verbatim>\<open>/etc/resolv.conf\<close>, that file has its original (non-empty) content again.
\<close>

theorem resolver_is_restored:
  assumes "\<not> useResolvectl (ksMgr k)" "originalDNS (ksMgr k) = []"
    and "files (ksHost k) resolvConfPath = Some c" "files (ksHost k) resolvConfBackup = None" "c \<noteq> []"
    and "\<forall>op\<in>set ops. \<forall>io. op \<noteq> OpSet io"
    and "ansWrite io resolvConfPath"
  shows "let k' = fold dnsStep (OpSet io0 # ops) k in
    case RestoreResolver io (ksMgr k') (ksHost k') of (ok, m, h) \<Rightarrow>
      ok \<and> files h resolvConfPath = Some c \<and> originalDNS m = []"
proof -
  obtain ok0 m0 h0 where r: "setResolverResolvConf io0 ''127.0.0.1'' (ksMgr k) (ksHost k) = (ok0, m0, h0)"
    by (metis prod.exhaust)
  have "dnsSaved c (dnsStep (OpSet io0) k)"
    using setResolverResolvConf_saved [OF r assms(2, 1, 3, 4, 5)] r assms(1)
    by (auto simp: SetResolver_def dnsSaved_def)
  then have s: "dnsSaved c (fold dnsStep ops (dnsStep (OpSet io0) k))" by (rule dnsSaved_steps [OF _ assms(5, 6)])
  show ?thesis
    using s assms(5, 7) unfolding Let_def fold_simps
    by (auto simp: dnsSaved_def RestoreResolver_def restoreResolvConf_def ReadFile_def WriteFile_def RemoveFile_def
        split: option.splits if_splits)
qed

definition allWell :: sysAnswers where
  "allWell = \<lparr>ansRun = (\<lambda>args. (False, [])), ansRead = (\<lambda>p. True), ansWrite = (\<lambda>p. True), ansRemove = (\<lambda>p. True),
     ansInterfaces = None, ansProxyReady = (\<lambda>n. True), ansHTTPReady = True, ansCtxErr = False\<rparr>"

definition sampleHost :: host where
  "sampleHost = \<lparr>files = [resolvConfPath \<mapsto> ''nameserver 9.9.9.9''], commands = [], proxyUp = True, httpUp = True\<rparr>"

definition sampleKS :: killSwitch where
  "sampleKS = SetForceResolver (NewKillSwitch \<lparr>originalDNS = [], useResolvectl = False\<rparr> sampleHost)"

theorem resolver_is_restored_witness:
  "let k' = fold dnsStep [OpSet allWell, OpActivate allWell, OpDeactivate allWell True, OpActivate allWell] sampleKS in
     files (snd (snd (RestoreResolver allWell (ksMgr k') (ksHost k')))) resolvConfPath = Some ''nameserver 9.9.9.9''"
proof -
  have "\<not> useResolvectl (ksMgr sampleKS)" "originalDNS (ksMgr sampleKS) = []"
    "files (ksHost sampleKS) resolvConfPath = Some ''nameserver 9.9.9.9''"
    "files (ksHost sampleKS) resolvConfBackup = None" "''nameserver 9.9.9.9'' \<noteq> []"
    "\<forall>op\<in>set [OpActivate allWell, OpDeactivate allWell True, OpActivate allWell]. \<forall>io. op \<noteq> OpSet io"
    "ansWrite allWell resolvConfPath"
    by (simp_all add: sampleKS_def NewKillSwitch_def SetForceResolver_def sampleHost_def allWell_def)
  from resolver_is_restored [OF this, of allWell] show ?thesis unfolding Let_def by (auto split: prod.splits)
qed

end
