(* ===== verification/TunnelState.thy ===== *)
theory TunnelState
  imports Go_Prelude "HOL-Library.Sublist"
begin

text \<open>
  The tunnel's state machine on the client: \<^verbatim>\<open>StateManager\<close> (\<^verbatim>\<open>internal/tunnel/state.go\<close>) with its
  bounded update channel, read by one consumer while \<^verbatim>\<open>Set\<close> runs, and the heartbeat loop
  (\<^verbatim>\<open>internal/tunnel/heartbeat.go\<close>) that trips it.
\<close>

section \<open>The state manager\<close>

datatype connState = StateConnected | StateConnecting | StateDisconnected | StateFailed

record stateManager =
  current :: connState
  updates :: "connState list"
  closed :: bool

definition NewStateManager :: stateManager where
  "NewStateManager = \<lparr>current = StateDisconnected, updates = [], closed = False\<rparr>"

abbreviation (input) updatesCap :: nat where "updatesCap \<equiv> 4"

definition SetState :: "nat \<Rightarrow> connState \<Rightarrow> stateManager \<Rightarrow> stateManager" where
  \<comment> \<open>\<^verbatim>\<open>Set\<close>; \<open>taken\<close> values are received by the consumer between the two selects\<close>
  "SetState taken st sm =
     (let sm1 = sm\<lparr>current := st\<rparr> in
      if closed sm1 then sm1
      else if length (updates sm1) < updatesCap then sm1\<lparr>updates := updates sm1 @ [st]\<rparr>
      else
        let buf = drop taken (updates sm1);
            drained = (if buf = [] then [] else tl buf)
        in sm1\<lparr>updates := drained @ [st]\<rparr>)"

definition GetState :: "stateManager \<Rightarrow> connState" where
  "GetState sm = current sm"

definition Receive :: "stateManager \<Rightarrow> connState option \<times> stateManager" where
  \<comment> \<open>a receive from the channel that does not block\<close>
  "Receive sm = (case updates sm of [] \<Rightarrow> (None, sm) | s # ss \<Rightarrow> (Some s, sm\<lparr>updates := ss\<rparr>))"

definition CloseUpdates :: "stateManager \<Rightarrow> stateManager" where
  "CloseUpdates sm = (if closed sm then sm else sm\<lparr>closed := True\<rparr>)"

text \<open>
  The manager with its history: the states set while the channel was open, and those the consumer
  has received.
\<close>

record watched =
  mgr :: stateManager
  sent :: "connState list"
  received :: "connState list"

inductive sm_step :: "watched \<Rightarrow> watched \<Rightarrow> bool" where
  Set: "n \<le> (if length (updates (mgr w)) < updatesCap \<or> closed (mgr w) then 0 else length (updates (mgr w))) \<Longrightarrow>
    sm_step w (w\<lparr>mgr := SetState n st (mgr w),
                 sent := (if closed (mgr w) then sent w else sent w @ [st]),
                 received := received w @ take n (updates (mgr w))\<rparr>)"
| Recv: "Receive (mgr w) = (Some st, m) \<Longrightarrow> sm_step w (w\<lparr>mgr := m, received := received w @ [st]\<rparr>)"
| Close: "sm_step w (w\<lparr>mgr := CloseUpdates (mgr w)\<rparr>)"

inductive_cases sm_stepE: "sm_step w w'"

inductive sm_reachable :: "watched \<Rightarrow> bool" where
  Start: "sm_reachable \<lparr>mgr = NewStateManager, sent = [], received = []\<rparr>"
| Step: "sm_reachable w \<Longrightarrow> sm_step w w' \<Longrightarrow> sm_reachable w'"

definition sm_inv :: "watched \<Rightarrow> bool" where
  "sm_inv w \<longleftrightarrow> length (updates (mgr w)) \<le> updatesCap \<and>
     subseq (received w @ updates (mgr w)) (sent w) \<and>
     (sent w \<noteq> [] \<longrightarrow> received w @ updates (mgr w) \<noteq> [] \<and> last (received w @ updates (mgr w)) = last (sent w)) \<and>
     (\<not> closed (mgr w) \<longrightarrow> current (mgr w) = (if sent w = [] then StateDisconnected else last (sent w)))"

lemma subseq_drop_one: "subseq (xs @ (if ys = [] then [] else tl ys) @ [z]) (xs @ ys @ [z])"
proof (cases ys)
  case (Cons y zs)
  have "subseq (zs @ [z]) (y # zs @ [z])" by (rule list_emb_Cons) simp
  then show ?thesis using Cons list_emb_append_mono [OF subseq_order.order_refl, of "zs @ [z]" "y # zs @ [z]" xs]
    by simp
qed simp

lemma sm_inv_Set:
  assumes "sm_inv w" "n \<le> (if length (updates (mgr w)) < updatesCap \<or> closed (mgr w) then 0 else length (updates (mgr w)))"
  shows "sm_inv (w\<lparr>mgr := SetState n st (mgr w), sent := (if closed (mgr w) then sent w else sent w @ [st]),
                 received := received w @ take n (updates (mgr w))\<rparr>)"
proof -
  let ?u = "updates (mgr w)"
  consider "closed (mgr w)" | "\<not> closed (mgr w)" "length ?u < updatesCap" | "\<not> closed (mgr w)" "\<not> length ?u < updatesCap"
    by blast
  then show ?thesis
  proof cases
    case 1
    then show ?thesis using assms by (auto simp: sm_inv_def SetState_def)
  next
    case 2
    then have n: "n = 0" using assms(2) by simp
    have "subseq ((received w @ ?u) @ [st]) (sent w @ [st])"
      using assms(1) by (intro list_emb_append_mono) (auto simp: sm_inv_def)
    then show ?thesis using 2 n assms(1) by (auto simp: sm_inv_def SetState_def)
  next
    case 3
    have l: "length ?u = updatesCap" using 3 assms(1) by (auto simp: sm_inv_def)
    let ?b = "drop n ?u"
    have a: "subseq ((received w @ take n ?u) @ (if ?b = [] then [] else tl ?b) @ [st])
        ((received w @ take n ?u) @ ?b @ [st])" by (rule subseq_drop_one)
    have "subseq ((received w @ ?u) @ [st]) (sent w @ [st])"
      using assms(1) by (intro list_emb_append_mono) (auto simp: sm_inv_def)
    then have "subseq ((received w @ take n ?u) @ ?b @ [st]) (sent w @ [st])"
      by (metis append_assoc append_take_drop_id)
    with a have s: "subseq ((received w @ take n ?u) @ (if ?b = [] then [] else tl ?b) @ [st]) (sent w @ [st])"
      by (rule subseq_order.order_trans)
    have "length (if ?b = [] then [] else tl ?b) \<le> 3" using l by auto
    then show ?thesis using 3 s by (auto simp: sm_inv_def SetState_def Let_def)
  qed
qed

lemma sm_inv_step: "sm_inv w \<Longrightarrow> sm_step w w' \<Longrightarrow> sm_inv w'"
proof (erule sm_stepE)
  fix n st
  assume "sm_inv w" "w' = w\<lparr>mgr := SetState n st (mgr w), sent := (if closed (mgr w) then sent w else sent w @ [st]),
                 received := received w @ take n (updates (mgr w))\<rparr>"
    "n \<le> (if length (updates (mgr w)) < updatesCap \<or> closed (mgr w) then 0 else length (updates (mgr w)))"
  then show "sm_inv w'" using sm_inv_Set by simp
qed (auto simp: sm_inv_def Receive_def CloseUpdates_def split: list.splits)

lemma sm_reachable_inv: "sm_reachable w \<Longrightarrow> sm_inv w"
proof (induction rule: sm_reachable.induct)
  case Start
  show ?case by (simp add: sm_inv_def NewStateManager_def)
qed (rule sm_inv_step)

section \<open>The heartbeat\<close>

abbreviation (input) maxConsecutiveHeartbeatFailures :: nat where "maxConsecutiveHeartbeatFailures \<equiv> 3"

text \<open>
  One tick: the state when the tick fires, whether the probe succeeds, and the state after it.
  The loop ends with the number of ticks after which it tripped, or \<open>None\<close> if it was stopped.
\<close>

type_synonym hbTick = "connState \<times> bool \<times> connState"

definition pingHealth :: "nat option \<Rightarrow> bool" where
  \<comment> \<open>the status of \<^verbatim>\<open>GET /health\<close>, \<open>None\<close> for a transport error or timeout\<close>
  "pingHealth r = (case r of None \<Rightarrow> False | Some st \<Rightarrow> st = 200)"

fun heartbeatLoop :: "nat \<Rightarrow> hbTick list \<Rightarrow> nat option" where
  "heartbeatLoop fails [] = None"
| "heartbeatLoop fails ((st, ok, st') # ts) =
     (if st \<noteq> StateConnected then map_option Suc (heartbeatLoop 0 ts)
      else if \<not> ok then
        (if fails + 1 \<ge> maxConsecutiveHeartbeatFailures \<and> st' = StateConnected then Some 1
         else map_option Suc (heartbeatLoop (fails + 1) ts))
      else map_option Suc (heartbeatLoop 0 ts))"

definition badTick :: "hbTick \<Rightarrow> bool" where
  "badTick = (\<lambda>(st, ok, st'). st = StateConnected \<and> \<not> ok)"


definition zombieNow :: "hbTick list \<Rightarrow> bool" where
  \<comment> \<open>the last three ticks all failed on a connected tunnel, and it is still connected\<close>
  "zombieNow h \<longleftrightarrow> 3 \<le> length h \<and> (\<forall>t\<in>set (take 3 (rev h)). badTick t) \<and> snd (snd (last h)) = StateConnected"

lemma le_length_takeWhile: "k \<le> length (takeWhile P xs) \<longleftrightarrow> k \<le> length xs \<and> (\<forall>x\<in>set (take k xs). P x)"
proof (induction xs arbitrary: k)
  case (Cons x xs)
  then show ?case by (cases k) auto
qed simp

lemma zombieNow_snoc:
  "zombieNow (h @ [t]) \<longleftrightarrow>
     badTick t \<and> 2 \<le> length (takeWhile badTick (rev h)) \<and> snd (snd t) = StateConnected"
  by (auto simp: zombieNow_def le_length_takeWhile numeral_3_eq_3 numeral_2_eq_2)

lemma heartbeatLoop_spec:
  assumes "f = length (takeWhile badTick (rev h))"
  shows "case heartbeatLoop f ts of
      None \<Rightarrow> \<forall>m. length h < m \<and> m \<le> length (h @ ts) \<longrightarrow> \<not> zombieNow (take m (h @ ts))
    | Some k \<Rightarrow> 0 < k \<and> k \<le> length ts \<and> zombieNow (take (length h + k) (h @ ts)) \<and>
        (\<forall>m. length h < m \<and> m < length h + k \<longrightarrow> \<not> zombieNow (take m (h @ ts)))"
  using assms
proof (induction ts arbitrary: h f)
  case (Cons t ts)
  obtain st ok st' where t: "t = (st, ok, st')" by (metis prod.exhaust)
  let ?f = "length (takeWhile badTick (rev (h @ [t])))"
  have f: "?f = (if badTick t then Suc f else 0)" using Cons.prems by simp
  have z: "zombieNow (take (Suc (length h)) (h @ t # ts)) \<longleftrightarrow> badTick t \<and> 2 \<le> f \<and> st' = StateConnected"
    using Cons.prems t by (simp add: zombieNow_snoc)
  show ?case
  proof (cases "badTick t \<and> 2 \<le> f \<and> st' = StateConnected")
    case True
    then have "heartbeatLoop f (t # ts) = Some 1" using t by (simp add: badTick_def)
    then show ?thesis using True z by auto
  next
    case False
    then have l: "heartbeatLoop f (t # ts) = map_option Suc (heartbeatLoop ?f ts)"
      using t f by (auto simp: badTick_def)
    note IH = Cons.IH [of ?f "h @ [t]", OF refl]
    have now: "\<not> zombieNow (take (Suc (length h)) (h @ t # ts))" using z False by simp
    have ext: "\<forall>m. length h < m \<and> m < N \<longrightarrow> \<not> zombieNow (take m (h @ t # ts))"
      if a: "\<And>m. Suc (length h) < m \<Longrightarrow> m < N \<Longrightarrow> \<not> zombieNow (take m (h @ t # ts))" for N
    proof (intro allI impI, elim conjE)
      fix m
      assume m: "length h < m" "m < N"
      show "\<not> zombieNow (take m (h @ t # ts))"
        by (cases "m = Suc (length h)", simp only: now not_False_eq_True, rule a, use m in linarith, rule m(2))
    qed
    show ?thesis
    proof (cases "heartbeatLoop ?f ts")
      case None
      have "\<forall>m. length h < m \<and> m < Suc (length (h @ t # ts)) \<longrightarrow> \<not> zombieNow (take m (h @ t # ts))"
        by (rule ext) (use IH None in simp)
      then show ?thesis using None l by (simp del: take_append add: less_Suc_eq_le)
    next
      case (Some k)
      then have k: "0 < k" "k \<le> length ts" "zombieNow (take (length h + Suc k) (h @ t # ts))"
        using IH by simp_all
      have "\<forall>m. length h < m \<and> m < length h + Suc k \<longrightarrow> \<not> zombieNow (take m (h @ t # ts))"
        by (rule ext) (use IH Some in simp)
      then show ?thesis using Some l k by (simp del: take_append)
    qed
  qed
qed auto

section \<open>Properties\<close>

text \<open>
  the update channel is lossy but never stale.  Whatever the interleaving of \<^verbatim>\<open>Set\<close>, receives
  and \<^verbatim>\<open>Close\<close>, at most four updates are queued, what the consumer has received followed by what is
  queued is a subsequence of the states set, and it ends with the last of them: a consumer that
  drains the channel ends on the state \<^verbatim>\<open>Get\<close> returns.
\<close>

theorem updates_end_on_current:
  assumes "sm_reachable w"
  shows "length (updates (mgr w)) \<le> updatesCap \<and> subseq (received w @ updates (mgr w)) (sent w) \<and>
    (sent w \<noteq> [] \<longrightarrow> received w @ updates (mgr w) \<noteq> [] \<and> last (received w @ updates (mgr w)) = last (sent w)) \<and>
    (\<not> closed (mgr w) \<and> received w @ updates (mgr w) \<noteq> [] \<longrightarrow>
       last (received w @ updates (mgr w)) = GetState (mgr w))"
proof -
  have inv: "sm_inv w" by (rule sm_reachable_inv [OF assms])
  then have "sent w \<noteq> []" if "received w @ updates (mgr w) \<noteq> []"
    using that by (auto simp: sm_inv_def)
  with inv show ?thesis by (auto simp: sm_inv_def GetState_def)
qed

theorem updates_end_on_current_witness:
  "\<exists>w. sm_reachable w \<and> sent w = [StateConnecting, StateConnected] \<and>
     last (received w @ updates (mgr w)) = GetState (mgr w)"
proof -
  let ?w0 = "\<lparr>mgr = NewStateManager, sent = [], received = []\<rparr>"
  let ?w1 = "?w0\<lparr>mgr := SetState 0 StateConnecting (mgr ?w0), sent := [StateConnecting], received := []\<rparr>"
  let ?w2 = "?w1\<lparr>mgr := SetState 0 StateConnected (mgr ?w1), sent := [StateConnecting, StateConnected], received := []\<rparr>"
  have "sm_step ?w0 ?w1" using sm_step.Set [of 0 ?w0 StateConnecting] by (simp add: NewStateManager_def)
  moreover have "sm_step ?w1 ?w2"
    using sm_step.Set [of 0 ?w1 StateConnected] by (simp add: NewStateManager_def SetState_def)
  ultimately have r: "sm_reachable ?w2" by (blast intro: sm_reachable.intros)
  have "received ?w2 @ updates (mgr ?w2) \<noteq> [] \<and> \<not> closed (mgr ?w2)" by (simp add: NewStateManager_def SetState_def)
  with updates_end_on_current [OF r] r show ?thesis by (intro exI [of _ ?w2]) auto
qed

text \<open>
  the heartbeat declares the tunnel dead after a tick exactly when it is the first tick at
  which the last three ticks all found the tunnel connected and their probes failed, and the
  tunnel is still connected; a success or a tick in another state clears the count.
\<close>

theorem heartbeat_trips_iff_three_failures:
  "heartbeatLoop 0 ts = Some n \<longleftrightarrow>
     n \<le> length ts \<and> zombieNow (take n ts) \<and> (\<forall>m<n. \<not> zombieNow (take m ts))"
proof -
  have z0: "\<not> zombieNow (take 0 ts)" by (simp add: zombieNow_def)
  note s = heartbeatLoop_spec [of 0 "[]" ts, simplified]
  show ?thesis
  proof (cases "heartbeatLoop 0 ts")
    case None
    then have "\<forall>m. 0 < m \<and> m \<le> length ts \<longrightarrow> \<not> zombieNow (take m ts)" using s by simp
    then show ?thesis using None z0 by (cases n) auto
  next
    case (Some k)
    then have k: "0 < k" "k \<le> length ts" "zombieNow (take k ts)" "\<forall>m. 0 < m \<and> m < k \<longrightarrow> \<not> zombieNow (take m ts)"
      using s by auto
    then have "\<forall>m<k. \<not> zombieNow (take m ts)" using z0 by (metis gr0I)
    then show ?thesis using Some k by (metis linorder_neqE_nat option.inject)
  qed
qed

theorem heartbeat_trips_iff_three_failures_witness:
  "heartbeatLoop 0 (replicate 4 (StateConnected, False, StateConnected)) = Some 3"
proof -
  let ?t = "(StateConnected, False, StateConnected)"
  have four: "replicate 4 ?t = [?t, ?t, ?t, ?t]" by (simp add: numeral_eq_Suc)
  have "zombieNow (take 3 [?t, ?t, ?t, ?t])" by (simp add: zombieNow_def badTick_def numeral_3_eq_3)
  moreover have "\<forall>m<3. \<not> zombieNow (take m [?t, ?t, ?t, ?t])" by (auto simp: zombieNow_def)
  ultimately show ?thesis unfolding four using heartbeat_trips_iff_three_failures [of "[?t, ?t, ?t, ?t]" 3] by simp
qed

end
