(* ===== verification/Reconnect.thy ===== *)
theory Reconnect
  imports DnsControl TunnelState
begin

text \<open>
  The automatic reconnection of \<^verbatim>\<open>internal/tunnel/reconnect.go\<close>: \<^verbatim>\<open>handleDisconnect\<close> with its backoff,
  single failover and circuit breaker, over any kill switch controller, and the loop of
  \<^verbatim>\<open>Start\<close>.  What the network answers to each attempt is an argument; the run is recorded as a
  list of events.  Durations are milliseconds.
\<close>

section \<open>Backoff\<close>

abbreviation (input) InitialBackoff :: int where "InitialBackoff \<equiv> 100"
abbreviation (input) MaxBackoff :: int where "MaxBackoff \<equiv> 30000"
abbreviation (input) MaxRetriesBeforeFailover :: nat where "MaxRetriesBeforeFailover \<equiv> 3"
abbreviation (input) CircuitBreakerThreshold :: nat where "CircuitBreakerThreshold \<equiv> 5"

definition nextBackoff :: "int \<Rightarrow> int" where
  "nextBackoff cur = (let n = cur * 2 in if n > MaxBackoff then MaxBackoff else n)"

section \<open>State and events\<close>

record 'k reconnector =
  reconnecting :: bool
  rFailed :: bool
  rKS :: 'k

datatype attempt = WaitCancelled | ConnectOk | ConnectCancelled | ConnectFailed

datatype 'k revent =
    EvTeardown | EvActivate bool | EvWait int | EvConnect 'k attempt | EvFailover bool
  | EvDeactivate bool | EvBreakerHook | EvSuccessHook

datatype outcome = Busy | StillTrying | Aborted | Reconnected | FailedOver | Tripped

record 'i netAnswers =
  naDisconnectFn :: bool
  naActivate :: "'i \<times> 'i"
  naActivateCancel :: bool
  naAttempts :: "attempt list"
  naFailover :: "bool option"
  naBreakerHook :: bool
  naSuccessHook :: bool
  naDeactivate :: "'i \<times> 'i"
  naDeactivateCancel :: bool

definition deactivateKillSwitch ::
  "('i \<Rightarrow> 'k \<Rightarrow> 'e option \<times> 'k) \<Rightarrow> 'i netAnswers \<Rightarrow> 'k \<Rightarrow> 'k revent list \<times> 'k" where
  "deactivateKillSwitch deact na k =
     (case deact (fst (naDeactivate na)) k of
        (None, k1) \<Rightarrow> ([EvDeactivate True], k1)
      | (Some _, k1) \<Rightarrow>
          if naDeactivateCancel na then ([EvDeactivate False], k1)
          else (case deact (snd (naDeactivate na)) k1 of
                  (e, k2) \<Rightarrow> ([EvDeactivate False, EvDeactivate (e = None)], k2)))"

definition invokeReconnectSuccessHook :: "'i netAnswers \<Rightarrow> 'k revent list" where
  "invokeReconnectSuccessHook na = (if naSuccessHook na then [EvSuccessHook] else [])"

definition tripCircuitBreaker :: "'i netAnswers \<Rightarrow> 'k reconnector \<Rightarrow> 'k revent list \<times> 'k reconnector" where
  "tripCircuitBreaker na r = (if naBreakerHook na then [EvBreakerHook] else [], r\<lparr>rFailed := True\<rparr>)"

section \<open>The reconnection loop\<close>

type_synonym 'k run = "outcome \<times> 'k revent list \<times> 'k reconnector"

definition logged :: "'k revent list \<Rightarrow> 'k run \<Rightarrow> 'k run" where
  "logged es x = (case x of (out, evs, r) \<Rightarrow> (out, es @ evs, r))"

fun reconnectLoop ::
  "('i \<Rightarrow> 'k \<Rightarrow> 'e option \<times> 'k) \<Rightarrow> 'i netAnswers \<Rightarrow> attempt list \<Rightarrow> int \<Rightarrow> nat \<Rightarrow> bool \<Rightarrow> 'k reconnector \<Rightarrow> 'k run" where
  \<comment> \<open>the \<open>for\<close> loop with \<^verbatim>\<open>backoff\<close>, \<^verbatim>\<open>retries\<close> and \<^verbatim>\<open>failoverAttempted\<close>\<close>
  "reconnectLoop deact na [] backoff retries attempted r = (StillTrying, [EvWait backoff], r)"
| "reconnectLoop deact na (a # as) backoff retries attempted r =
     logged [EvWait backoff]
      (case a of
         WaitCancelled \<Rightarrow> (Aborted, [], r)
       | ConnectOk \<Rightarrow>
           (case deactivateKillSwitch deact na (rKS r) of
              (evs, k) \<Rightarrow> (Reconnected, EvConnect (rKS r) a # evs @ invokeReconnectSuccessHook na, r\<lparr>rKS := k\<rparr>))
       | ConnectCancelled \<Rightarrow> (Aborted, [EvConnect (rKS r) a], r)
       | ConnectFailed \<Rightarrow>
           let retries1 = retries + 1;
               foNow = (retries1 \<ge> MaxRetriesBeforeFailover \<and> naFailover na \<noteq> None \<and> \<not> attempted);
               attempted1 = (attempted \<or> foNow);
               tried = EvConnect (rKS r) a # (if foNow then [EvFailover (naFailover na = Some True)] else [])
           in if foNow \<and> naFailover na = Some True then
                (case deactivateKillSwitch deact na (rKS r) of
                   (evs, k) \<Rightarrow> (FailedOver, tried @ evs, r\<lparr>rKS := k\<rparr>))
              else if retries1 \<ge> CircuitBreakerThreshold then
                (case tripCircuitBreaker na r of (evs, r1) \<Rightarrow> (Tripped, tried @ evs, r1))
              else logged tried (reconnectLoop deact na as (nextBackoff backoff) retries1 attempted1 r))"

definition handleDisconnect ::
  "('i \<Rightarrow> 'k \<Rightarrow> 'e option \<times> 'k) \<Rightarrow> ('i \<Rightarrow> 'k \<Rightarrow> 'e option \<times> 'k) \<Rightarrow> 'i netAnswers \<Rightarrow> 'k reconnector \<Rightarrow> 'k run" where
  "handleDisconnect act deact na r =
     (if reconnecting r then (Busy, [], r)
      else
        let down = (if naDisconnectFn na then [EvTeardown] else []);
            loop = (\<lambda>k. reconnectLoop deact na (naAttempts na) InitialBackoff 0 False (r\<lparr>rKS := k\<rparr>))
        in case act (fst (naActivate na)) (rKS r) of
             (None, k1) \<Rightarrow> logged (down @ [EvActivate True]) (loop k1)
           | (Some _, k1) \<Rightarrow>
               if naActivateCancel na then (Aborted, down @ [EvActivate False], r\<lparr>rKS := k1\<rparr>)
               else (case act (snd (naActivate na)) k1 of
                       (e, k2) \<Rightarrow> logged (down @ [EvActivate False, EvActivate (e = None)]) (loop k2)))"

fun reconnectorStart ::
  "('i \<Rightarrow> 'k \<Rightarrow> 'e option \<times> 'k) \<Rightarrow> ('i \<Rightarrow> 'k \<Rightarrow> 'e option \<times> 'k) \<Rightarrow> (connState \<times> 'i netAnswers) list \<Rightarrow>
     'k reconnector \<Rightarrow> (outcome list \<times> 'k reconnector)" where
  \<comment> \<open>the updates received by \<^verbatim>\<open>Start\<close>, each with the answers a reconnection would get\<close>
  "reconnectorStart act deact [] r = ([], r)"
| "reconnectorStart act deact ((st, na) # us) r =
     (if st = StateDisconnected \<and> \<not> rFailed r then
        (case handleDisconnect act deact na r of (out, _, r1) \<Rightarrow>
           (case reconnectorStart act deact us r1 of (outs, r2) \<Rightarrow> (out # outs, r2)))
      else reconnectorStart act deact us r)"

definition Reset :: "'k reconnector \<Rightarrow> 'k reconnector" where
  "Reset r = r\<lparr>rFailed := False\<rparr>"

definition Failed :: "'k reconnector \<Rightarrow> bool" where
  "Failed r = rFailed r"

section \<open>What a run does\<close>

definition connects :: "'k revent list \<Rightarrow> 'k list" where
  "connects evs = concat (map (\<lambda>e. case e of EvConnect k _ \<Rightarrow> [k] | _ \<Rightarrow> []) evs)"

definition failovers :: "'k revent list \<Rightarrow> bool list" where
  "failovers evs = concat (map (\<lambda>e. case e of EvFailover b \<Rightarrow> [b] | _ \<Rightarrow> []) evs)"

definition waited :: "'k revent list \<Rightarrow> int" where
  "waited evs = sum_list (map (\<lambda>e. case e of EvWait d \<Rightarrow> d | _ \<Rightarrow> 0) evs)"

lemma connects_simps [simp]:
  "connects [] = []" "connects (xs @ ys) = connects xs @ connects ys"
  "connects (e # es) = (case e of EvConnect k _ \<Rightarrow> [k] | _ \<Rightarrow> []) @ connects es"
  by (simp_all add: connects_def)

lemma failovers_simps [simp]:
  "failovers [] = []" "failovers (xs @ ys) = failovers xs @ failovers ys"
  "failovers (e # es) = (case e of EvFailover b \<Rightarrow> [b] | _ \<Rightarrow> []) @ failovers es"
  by (simp_all add: failovers_def)

lemma waited_simps [simp]:
  "waited [] = 0" "waited (xs @ ys) = waited xs + waited ys"
  "waited (e # es) = (case e of EvWait d \<Rightarrow> d | _ \<Rightarrow> 0) + waited es"
  by (simp_all add: waited_def)

lemma deactivate_events:
  "deactivateKillSwitch deact na k = (evs, k') \<Longrightarrow> connects evs = [] \<and> failovers evs = [] \<and> waited evs = 0"
  by (auto simp: deactivateKillSwitch_def split: prod.splits option.splits if_splits)

lemma hook_events [simp]:
  "connects (invokeReconnectSuccessHook na) = []" "failovers (invokeReconnectSuccessHook na) = []"
  "waited (invokeReconnectSuccessHook na) = 0"
  by (simp_all add: invokeReconnectSuccessHook_def)

lemma logged_simps [simp]:
  "fst (logged es x) = fst x" "fst (snd (logged es x)) = es @ fst (snd x)" "snd (snd (logged es x)) = snd (snd x)"
  by (simp_all add: logged_def split: prod.splits)

lemma deactivate_not_reconnect:
  "reconnectLoop deact na as backoff n att r = (out, evs, r') \<Longrightarrow>
     set (connects evs) \<subseteq> {rKS r} \<and> out \<noteq> Busy \<and> reconnecting r' = reconnecting r \<and>
     (rFailed r' \<longleftrightarrow> rFailed r \<or> out = Tripped) \<and>
     rKS r' = (if out \<in> {Reconnected, FailedOver} then snd (deactivateKillSwitch deact na (rKS r)) else rKS r)"
proof (induction "as" arbitrary: backoff n att evs)
  case Nil
  then show ?case by auto
next
  case (Cons a as)
  show ?case
  proof (cases "a = ConnectFailed \<and> n + 1 < 5 \<and> \<not> (n + 1 \<ge> 3 \<and> naFailover na = Some True \<and> \<not> att)")
    case True
    let ?foNow = "n + 1 \<ge> MaxRetriesBeforeFailover \<and> naFailover na \<noteq> None \<and> \<not> att"
    obtain evs1 where l: "reconnectLoop deact na as (nextBackoff backoff) (n + 1) (att \<or> ?foNow) r = (out, evs1, r')"
      and e: "evs = EvWait backoff # EvConnect (rKS r) a # (if ?foNow then [EvFailover (naFailover na = Some True)] else []) @ evs1"
      using Cons.prems(1) True by (auto simp: logged_def Let_def split: prod.splits if_splits)
    show ?thesis using Cons.IH [OF l] unfolding e by (simp split: if_splits)
  next
    case False
    then show ?thesis
      using Cons.prems
      by (cases a) (auto simp: logged_def Let_def tripCircuitBreaker_def split: prod.splits if_splits dest!: deactivate_events)
  qed
qed

lemma reconnectLoop_bounds:
  assumes "reconnectLoop deact na as backoff n att r = (out, evs, r')" "n + Suc m = 5" "backoff = 100 * 2 ^ n"
  shows "length (connects evs) \<le> Suc m \<and> waited evs \<le> 100 * (32 - 2 ^ n) \<and>
    length (failovers evs) \<le> (if att then 0 else 1) \<and> (Suc m \<le> length as \<longrightarrow> out \<noteq> StillTrying)"
  using assms
proof (induction "as" arbitrary: backoff n m att evs)
  case Nil
  have "(2 :: int) ^ n \<le> 2 ^ 4" by (rule power_increasing) (use Nil in auto)
  then show ?case using Nil by auto
next
  case (Cons a as)
  have two: "(2 :: int) ^ n \<le> 2 ^ 4" by (rule power_increasing) (use Cons.prems in auto)
  have nb: "nextBackoff backoff = 100 * 2 ^ (n + 1)" using Cons.prems(3) two by (simp add: nextBackoff_def Let_def)
  show ?case
  proof (cases "a = ConnectFailed \<and> n + 1 < 5 \<and> \<not> (n + 1 \<ge> 3 \<and> naFailover na = Some True \<and> \<not> att)")
    case True
    then obtain m' where m: "m = Suc m'" using Cons.prems(2) by (cases m) auto
    let ?foNow = "n + 1 \<ge> MaxRetriesBeforeFailover \<and> naFailover na \<noteq> None \<and> \<not> att"
    obtain evs1 where l: "reconnectLoop deact na as (nextBackoff backoff) (n + 1) (att \<or> ?foNow) r = (out, evs1, r')"
      and e: "evs = EvWait backoff # EvConnect (rKS r) a # (if ?foNow then [EvFailover (naFailover na = Some True)] else []) @ evs1"
      using Cons.prems(1) True by (auto simp: logged_def Let_def split: prod.splits if_splits)
    have "n + 1 + Suc m' = 5" using Cons.prems(2) m by simp
    from Cons.IH [OF l this nb] show ?thesis using Cons.prems(3) m unfolding e by (auto split: if_splits)
  next
    case False
    then show ?thesis
      using Cons.prems two
      by (auto simp: logged_def Let_def tripCircuitBreaker_def split: attempt.splits prod.splits if_splits
          dest!: deactivate_events)
  qed
qed

text \<open>How a run ends, from the answers alone.\<close>

fun endOf :: "bool option \<Rightarrow> nat \<Rightarrow> bool \<Rightarrow> attempt list \<Rightarrow> outcome" where
  "endOf fo n att [] = StillTrying"
| "endOf fo n att (WaitCancelled # as) = Aborted"
| "endOf fo n att (ConnectOk # as) = Reconnected"
| "endOf fo n att (ConnectCancelled # as) = Aborted"
| "endOf fo n att (ConnectFailed # as) =
     (if 3 \<le> n + 1 \<and> fo = Some True \<and> \<not> att then FailedOver
      else if 5 \<le> n + 1 then Tripped
      else endOf fo (n + 1) (att \<or> 3 \<le> n + 1 \<and> fo \<noteq> None) as)"

lemma fst_reconnectLoop: "fst (reconnectLoop deact na as b n att r) = endOf (naFailover na) n att as"
proof (induction "as" arbitrary: b n att)
  case (Cons a as)
  have "(att \<or> 3 \<le> n + 1 \<and> naFailover na \<noteq> None \<and> \<not> att) = (att \<or> 3 \<le> n + 1 \<and> naFailover na \<noteq> None)" by blast
  then show ?case
    using Cons by (cases a) (auto simp: Let_def tripCircuitBreaker_def split: prod.splits)
qed simp

lemma endOf_4: "fo \<noteq> Some True \<Longrightarrow> (endOf fo 4 att as = Tripped \<longleftrightarrow> (\<exists>r. as = ConnectFailed # r)) \<and> endOf fo 4 att as \<noteq> FailedOver"
  by (cases "as"; cases "hd as") auto

lemma endOf_3: "fo \<noteq> Some True \<Longrightarrow>
    (endOf fo 3 att as = Tripped \<longleftrightarrow> (\<exists>r. as = ConnectFailed # ConnectFailed # r)) \<and> endOf fo 3 att as \<noteq> FailedOver"
  using endOf_4 [of fo] by (cases "as"; cases "hd as") auto

lemma endOf_2:
  "endOf fo 2 False as = Tripped \<longleftrightarrow> fo \<noteq> Some True \<and> (\<exists>r. as = ConnectFailed # ConnectFailed # ConnectFailed # r)"
  "endOf fo 2 False as = FailedOver \<longleftrightarrow> fo = Some True \<and> (\<exists>r. as = ConnectFailed # r)"
  using endOf_3 [of fo] by (cases "as"; cases "hd as"; auto)+

lemma endOf_0:
  "endOf fo 0 False as = Tripped \<longleftrightarrow> fo \<noteq> Some True \<and>
     (\<exists>r. as = ConnectFailed # ConnectFailed # ConnectFailed # ConnectFailed # ConnectFailed # r)"
  "endOf fo 0 False as = FailedOver \<longleftrightarrow> fo = Some True \<and> (\<exists>r. as = ConnectFailed # ConnectFailed # ConnectFailed # r)"
proof -
  have 1: "endOf fo 1 False as = Tripped \<longleftrightarrow> fo \<noteq> Some True \<and>
      (\<exists>r. as = ConnectFailed # ConnectFailed # ConnectFailed # ConnectFailed # r)"
    "endOf fo 1 False as = FailedOver \<longleftrightarrow> fo = Some True \<and> (\<exists>r. as = ConnectFailed # ConnectFailed # r)" for "as"
    using endOf_2 [of fo] by (cases "as"; cases "hd as"; auto simp: numeral_2_eq_2)+
  show "endOf fo 0 False as = Tripped \<longleftrightarrow> fo \<noteq> Some True \<and>
     (\<exists>r. as = ConnectFailed # ConnectFailed # ConnectFailed # ConnectFailed # ConnectFailed # r)"
    "endOf fo 0 False as = FailedOver \<longleftrightarrow> fo = Some True \<and> (\<exists>r. as = ConnectFailed # ConnectFailed # ConnectFailed # r)"
    using 1 by (cases "as"; cases "hd as"; auto)+
qed

lemma take_replicate: "take k xs = replicate k c \<longleftrightarrow> (\<exists>r. xs = replicate k c @ r)"
  by (metis append_eq_conv_conj append_take_drop_id length_replicate)

lemma endOf_start:
  "endOf fo 0 False as = Tripped \<longleftrightarrow> fo \<noteq> Some True \<and> take 5 as = replicate 5 ConnectFailed"
  "endOf fo 0 False as = FailedOver \<longleftrightarrow> fo = Some True \<and> take 3 as = replicate 3 ConnectFailed"
  unfolding endOf_0 take_replicate by (simp_all add: numeral_eq_Suc)

section \<open>Over any controller\<close>

text \<open>The three ways the activation can go, and the loop that follows.\<close>

lemma handleDisconnect_cases:
  assumes "handleDisconnect act deact na r = (out, evs, r')" "\<not> reconnecting r"
  obtains (quit) k where "fst (act (fst (naActivate na)) (rKS r)) \<noteq> None" "naActivateCancel na"
      "k = snd (act (fst (naActivate na)) (rKS r))" "out = Aborted" "rKS r' = k" "rFailed r' = rFailed r"
      "connects evs = []" "failovers evs = []" "waited evs = 0"
  | (loop) k evs1 where
      "k = snd (act (fst (naActivate na)) (rKS r)) \<and> fst (act (fst (naActivate na)) (rKS r)) = None \<or>
       k = snd (act (snd (naActivate na)) (snd (act (fst (naActivate na)) (rKS r)))) \<and>
         fst (act (fst (naActivate na)) (rKS r)) \<noteq> None \<and> \<not> naActivateCancel na"
      "reconnectLoop deact na (naAttempts na) InitialBackoff 0 False (r\<lparr>rKS := k\<rparr>) = (out, evs1, r')"
      "connects evs = connects evs1" "failovers evs = failovers evs1" "waited evs = waited evs1"
proof -
  obtain e1 k1 where a1: "act (fst (naActivate na)) (rKS r) = (e1, k1)" by fastforce
  obtain e2 k2 where a2: "act (snd (naActivate na)) k1 = (e2, k2)" by fastforce
  let ?k = "if e1 = None then k1 else k2"
  show ?thesis
  proof (cases "e1 \<noteq> None \<and> naActivateCancel na")
    case True
    then show ?thesis using assms a1
      by (intro quit [of k1]) (auto simp: handleDisconnect_def Let_def)
  next
    case False
    obtain o1 ev1 r1 where l: "reconnectLoop deact na (naAttempts na) InitialBackoff 0 False (r\<lparr>rKS := ?k\<rparr>) = (o1, ev1, r1)"
      by (metis prod.exhaust)
    have "out = o1 \<and> r' = r1 \<and> connects evs = connects ev1 \<and> failovers evs = failovers ev1 \<and> waited evs = waited ev1"
      using False assms a1 a2 l
      by (cases e1) (auto simp: handleDisconnect_def Let_def logged_def split: prod.splits if_splits)
    then show ?thesis using l False a1 a2 by (intro loop [of ?k ev1]) (auto split: if_splits)
  qed
qed

context kill_switch
begin

lemma attempts_blocked:
  assumes "handleDisconnect activate deactivate na r = (out, evs, r')" "\<not> reconnecting r" "inv (rKS r)"
  shows "(\<forall>k\<in>set (connects evs). blocking k) \<and> (out \<notin> {Reconnected, FailedOver} \<longrightarrow> blocking (rKS r'))"
  using assms(1, 2)
proof (cases rule: handleDisconnect_cases)
  case (quit k)
  then show ?thesis using assms(3) activate_blocks by auto
next
  case (loop k evs1)
  have b: "blocking k" using loop(1) assms(3) activate_blocks activate_inv by auto
  show ?thesis using deactivate_not_reconnect [OF loop(2)] b loop(3) by auto
qed

lemma stranded:
  assumes "handleDisconnect activate deactivate na r = (out, evs, r')" "\<not> reconnecting r" "inv (rKS r)"
    and "\<not> is_active (rKS r)" "fst (activate (fst (naActivate na)) (rKS r)) \<noteq> None"
    and "fst (activate (snd (naActivate na)) (snd (activate (fst (naActivate na)) (rKS r)))) \<noteq> None"
  shows "blocking (deactivateAll is (rKS r')) \<and> \<not> is_active (deactivateAll is (rKS r'))"
  using assms(1, 2)
proof (cases rule: handleDisconnect_cases)
  case (quit k)
  then show ?thesis using assms activate_blocks activate_err stays_inactive by simp
next
  case (loop k evs1)
  have k: "blocking k" "\<not> is_active k"
    using loop(1) assms activate_blocks activate_inv activate_err by auto
  have "snd (deactivateKillSwitch deactivate na k) = k"
    using k(2) deactivate_inactive unfolding deactivateKillSwitch_def
    by (auto split: prod.splits option.splits) (metis snd_conv)+
  then have "rKS r' = k" using deactivate_not_reconnect [OF loop(2)] by auto
  then show ?thesis using k stays_inactive by simp
qed

end

lemma start_ignores_when_failed: "rFailed r \<Longrightarrow> reconnectorStart act deact us r = ([], r)"
  by (induction act deact us r rule: reconnectorStart.induct) auto

section \<open>Properties\<close>

text \<open>
  C6: reconnecting never leaks DNS.  With the Linux kill switch, whatever fails on the host and
  whatever the relay answers, the DNS proxy is down at every connection attempt, and it is still
  down when the loop ends in any way but a reconnection or a failover: while it is trying, when it
  is cancelled, and after the circuit breaker has tripped.
\<close>

theorem reconnect_never_leaks:
  assumes "handleDisconnect Activate (Deactivate http) na r = (out, evs, r')"
    and "\<not> reconnecting r" "ksInv (rKS r)"
  shows "(\<forall>k\<in>set (connects evs). \<not> proxyUp (ksHost k)) \<and>
    (out \<notin> {Reconnected, FailedOver} \<longrightarrow> \<not> proxyUp (ksHost (rKS r')))"
  using dks.attempts_blocked [OF assms] by (simp add: dnsBlocked_def)

definition sampleNet :: "attempt list \<Rightarrow> bool option \<Rightarrow> sysAnswers netAnswers" where
  "sampleNet as fo = \<lparr>naDisconnectFn = True, naActivate = (allWell, allWell), naActivateCancel = False,
     naAttempts = as, naFailover = fo, naBreakerHook = True, naSuccessHook = True,
     naDeactivate = (allWell, allWell), naDeactivateCancel = False\<rparr>"

definition sampleRec :: "killSwitch reconnector" where
  "sampleRec = \<lparr>reconnecting = False, rFailed = False, rKS = sampleKS\<rparr>"

lemma sampleRec_simps [simp]: "\<not> reconnecting sampleRec" "rKS sampleRec = sampleKS" "ksInv sampleKS" "\<not> rFailed sampleRec"
  by (simp_all add: sampleRec_def ksInv_def sampleKS_def SetForceResolver_def NewKillSwitch_def)

theorem reconnect_never_leaks_witness:
  "\<exists>evs r'. handleDisconnect Activate (Deactivate True) (sampleNet (replicate 5 ConnectFailed) None) sampleRec = (Tripped, evs, r') \<and>
     length (connects evs) = 5 \<and> \<not> proxyUp (ksHost (rKS r'))"
proof -
  obtain e k where a: "Activate allWell sampleKS = (e, k)" by fastforce
  have "fst (Activate allWell sampleKS) = None" by code_simp
  then have "e = None" using a by simp
  then obtain out evs r' where h: "handleDisconnect Activate (Deactivate True) (sampleNet (replicate 5 ConnectFailed) None) sampleRec = (out, evs, r')"
    and "out = Tripped" "length (connects evs) = 5"
    using a by (auto simp: handleDisconnect_def sampleNet_def logged_def numeral_eq_Suc tripCircuitBreaker_def Let_def
        split: prod.splits)
  with reconnect_never_leaks [OF h] show ?thesis by auto
qed



text \<open>
  when neither activation of the kill switch succeeds, DNS is lost for good.  The first
  activation has already stopped the proxy, but the switch is not marked active, so that after a
  successful reconnection, and after any number of later deactivations, the proxy is still down.
\<close>

theorem failed_activation_strands_dns:
  assumes "handleDisconnect Activate (Deactivate http) na r = (out, evs, r')"
    and "\<not> reconnecting r" "ksInv (rKS r)" "\<not> ksActive (rKS r)"
    and "fst (Activate (fst (naActivate na)) (rKS r)) \<noteq> None"
    and "fst (Activate (snd (naActivate na)) (snd (Activate (fst (naActivate na)) (rKS r)))) \<noteq> None"
  shows "\<not> proxyUp (ksHost (dks.deactivateAll http ios (rKS r')))"
  using dks.stranded [OF assms(1-3) _ assms(5-6), of ios] assms(4) by (simp add: dnsBlocked_def IsActive_def)

definition diskFull :: sysAnswers where
  "diskFull = allWell\<lparr>ansWrite := (\<lambda>p. False)\<rparr>"

theorem failed_activation_strands_dns_witness:
  "\<exists>evs r'. handleDisconnect Activate (Deactivate True)
       ((sampleNet [ConnectOk] None)\<lparr>naActivate := (diskFull, diskFull)\<rparr>) sampleRec = (Reconnected, evs, r') \<and>
     \<not> proxyUp (ksHost (dks.deactivateAll True [allWell, allWell] (rKS r')))"
proof -
  let ?na = "(sampleNet [ConnectOk] None)\<lparr>naActivate := (diskFull, diskFull)\<rparr>"
  obtain e1 k1 where a1: "Activate diskFull sampleKS = (e1, k1)" by fastforce
  obtain e2 k2 where a2: "Activate diskFull k1 = (e2, k2)" by fastforce
  have "fst (Activate diskFull sampleKS) \<noteq> None" by code_simp
  moreover have "fst (Activate diskFull (snd (Activate diskFull sampleKS))) \<noteq> None" by code_simp
  moreover have "\<not> ksActive sampleKS" by code_simp
  ultimately have e: "e1 \<noteq> None" "e2 \<noteq> None" "\<not> ksActive sampleKS" using a1 a2 by simp_all
  obtain out evs r' where h: "handleDisconnect Activate (Deactivate True) ?na sampleRec = (out, evs, r')" by (metis prod.exhaust)
  have "out = Reconnected"
    using h a1 a2 e by (auto simp: handleDisconnect_def sampleNet_def logged_def Let_def split: prod.splits option.splits)
  with failed_activation_strands_dns [OF h, of "[allWell, allWell]"] h e a1 a2
  show ?thesis by (auto simp: sampleNet_def)
qed

end
