(* ===== verification/Registry.thy ===== *)
theory Registry
  imports Tokens "HOL-Library.Multiset" "HOL-Library.Char_ord" "HOL-Library.List_Lexorder"
begin

text \<open>
  Relay discovery, \<^verbatim>\<open>internal/registry\<close>: the registry and its signatures (\<^verbatim>\<open>registry.go\<close>), the
  fetch (\<^verbatim>\<open>client.go\<close>), the cache (\<^verbatim>\<open>cache.go\<close>), the latency measurements (\<^verbatim>\<open>latency.go\<close>), the
  grouping by country (\<^verbatim>\<open>countries.go\<close>), the round robin (\<^verbatim>\<open>selector.go\<close>) and the discovery cascade
  (\<^verbatim>\<open>discoverer.go\<close>).  The JSON decoder is an argument; the cache file holds the record that the
  TOML encoder wrote.  \<^verbatim>\<open>sort.Slice\<close> is the stable sort on the same key: Go leaves the order of equal
  keys open, and no property depends on it.  Times and latencies are nanoseconds.
\<close>

section \<open>Entries and signatures\<close>

record relayEntry =
  reID :: string
  reDomain :: string
  rePublicKey :: string
  reSignature :: string
  reAdded :: int

record registry =
  regVersion :: int
  regMasterKey :: string
  regRelays :: "relayEntry list"

datatype regError =
    BadJSON | UnsupportedVersion int | RegistryEmpty | EmptyField nat | DecodePublicKey | DecodeSig | InvalidSignature
  | InvalidMasterKey | NoValidRelays | FetchRequest | FetchTransport | FetchStatus nat | FetchBody
  | UnknownCountry | NoRelaysForCountry

fun firstEmpty :: "nat \<Rightarrow> relayEntry list \<Rightarrow> nat option" where
  "firstEmpty i [] = None"
| "firstEmpty i (r # rs) =
     (if reID r = [] \<or> reDomain r = [] \<or> rePublicKey r = [] \<or> reSignature r = [] then Some i else firstEmpty (i + 1) rs)"

definition Parse :: "(bytes \<Rightarrow> registry option) \<Rightarrow> bytes \<Rightarrow> regError + registry" where
  "Parse unmarshal data =
     (case unmarshal data of
        None \<Rightarrow> Inl BadJSON
      | Some reg \<Rightarrow>
          if regVersion reg \<noteq> 1 then Inl (UnsupportedVersion (regVersion reg))
          else if regRelays reg = [] then Inl RegistryEmpty
          else case firstEmpty 0 (regRelays reg) of Some i \<Rightarrow> Inl (EmptyField i) | None \<Rightarrow> Inr reg)"

definition SignaturePrefix :: string where "SignaturePrefix = ''relay-key-v1:''"

definition VerifyRelaySignature :: "cryptoLib \<Rightarrow> bytes \<Rightarrow> relayEntry \<Rightarrow> regError option" where
  "VerifyRelaySignature lib masterPubKey e =
     (case b64decode Std (rePublicKey e) of
        None \<Rightarrow> Some DecodePublicKey
      | Some key \<Rightarrow>
          (case b64decode Std (reSignature e) of
             None \<Rightarrow> Some DecodeSig
           | Some sig \<Rightarrow>
               if \<not> edVerify lib masterPubKey (bytesOf SignaturePrefix @ key) sig then Some InvalidSignature else None))"

definition classifyRejection :: "regError \<Rightarrow> string" where
  "classifyRejection e =
     (case e of DecodePublicKey \<Rightarrow> ''decode-pubkey'' | DecodeSig \<Rightarrow> ''decode-signature'' | _ \<Rightarrow> ''invalid-signature'')"

definition VerifyAll ::
  "cryptoLib \<Rightarrow> registry \<Rightarrow> (regError + relayEntry list) \<times> (string \<times> string \<times> string) list" where
  \<comment> \<open>the verified entries and the calls of the reject logger\<close>
  "VerifyAll lib reg =
     (case b64decode Std (regMasterKey reg) of
        None \<Rightarrow> (Inl InvalidMasterKey, [])
      | Some master \<Rightarrow>
          if length master \<noteq> 32 then (Inl InvalidMasterKey, [])
          else
            let verified = filter (\<lambda>e. VerifyRelaySignature lib master e = None) (regRelays reg);
                rejects = concat (map (\<lambda>e. case VerifyRelaySignature lib master e of
                    None \<Rightarrow> [] | Some err \<Rightarrow> [(reID e, reDomain e, classifyRejection err)]) (regRelays reg))
            in (if verified = [] then Inl NoValidRelays else Inr verified, rejects))"

section \<open>The registry client\<close>

record regClient =
  registryURL :: string
  masterKey64 :: string

definition Fetch ::
  "cryptoLib \<Rightarrow> (bytes \<Rightarrow> registry option) \<Rightarrow> bool \<Rightarrow> (nat \<times> bytes option) option \<Rightarrow> regClient \<Rightarrow> regError + relayEntry list" where
  \<comment> \<open>whether the URL is valid; the status and body of the answer, \<open>None\<close> for a transport error\<close>
  "Fetch lib unmarshal urlOk answer c =
     (if \<not> urlOk then Inl FetchRequest
      else case answer of
        None \<Rightarrow> Inl FetchTransport
      | Some (status, body) \<Rightarrow>
          if status \<noteq> 200 then Inl (FetchStatus status)
          else case body of
            None \<Rightarrow> Inl FetchBody
          | Some b \<Rightarrow>
              (case Parse unmarshal (take 1048576 b) of
                 Inl e \<Rightarrow> Inl e
               | Inr reg \<Rightarrow>
                   (case fst (VerifyAll lib (reg\<lparr>regMasterKey := masterKey64 c\<rparr>)) of
                      Inl e \<Rightarrow> Inl e
                    | Inr verified \<Rightarrow> Inr (sort_key (\<lambda>e. - reAdded e) verified))))"

section \<open>The cache\<close>

record cachedLatency =
  clRelayID :: string
  clLatency :: "int option"

record cachedRegistry =
  crMasterKey :: string
  crRelays :: "relayEntry list"
  crRankings :: "cachedLatency list"

datatype cacheFile = NoFile | Undecodable | CacheFile cachedRegistry

record latencyResult =
  lrRelay :: relayEntry
  lrLatency :: int
  lrReachable :: bool

definition CacheSave :: "bool \<Rightarrow> relayEntry list \<Rightarrow> string \<Rightarrow> cacheFile \<Rightarrow> bool \<times> cacheFile" where
  \<comment> \<open>\<^verbatim>\<open>Cache.Save\<close>: \<open>ok\<close> if the temporary file is written and renamed\<close>
  "CacheSave ok entries key f =
     (let rankings = (case f of CacheFile c \<Rightarrow> crRankings c | _ \<Rightarrow> []) in
      if ok then (True, CacheFile \<lparr>crMasterKey = key, crRelays = entries, crRankings = rankings\<rparr>) else (False, f))"

definition CacheLoad :: "cacheFile \<Rightarrow> (relayEntry list \<times> string) option" where
  "CacheLoad f = (case f of CacheFile c \<Rightarrow> Some (crRelays c, crMasterKey c) | _ \<Rightarrow> None)"

definition SaveLatencies :: "bool \<Rightarrow> latencyResult list \<Rightarrow> cacheFile \<Rightarrow> bool \<times> cacheFile" where
  "SaveLatencies ok rankings f =
     (case f of
        Undecodable \<Rightarrow> (False, f)
      | _ \<Rightarrow>
          let c = (case f of CacheFile c \<Rightarrow> c | _ \<Rightarrow> \<lparr>crMasterKey = [], crRelays = [], crRankings = []\<rparr>);
              rs = map (\<lambda>r. \<lparr>clRelayID = reID (lrRelay r), clLatency = Some (lrLatency r)\<rparr>) (filter lrReachable rankings)
          in if ok then (True, CacheFile (c\<lparr>crRankings := rs\<rparr>)) else (False, f))"

definition LoadLatencies :: "cacheFile \<Rightarrow> cachedLatency list option" where
  "LoadLatencies f = (case f of NoFile \<Rightarrow> Some [] | Undecodable \<Rightarrow> None | CacheFile c \<Rightarrow> Some (crRankings c))"

section \<open>Latency\<close>

abbreviation (input) DefaultMedianSamples :: nat where "DefaultMedianSamples \<equiv> 5"
abbreviation (input) MinSuccessfulSamples :: nat where "MinSuccessfulSamples \<equiv> 3"

definition MeasureOne :: "relayEntry \<Rightarrow> (nat \<times> int) option \<Rightarrow> int option" where
  \<comment> \<open>status and elapsed time of the health request\<close>
  "MeasureOne r answer =
     (if reDomain r = [] then None
      else case answer of None \<Rightarrow> None | Some (status, elapsed) \<Rightarrow> if status \<noteq> 200 then None else Some elapsed)"

definition MeasureOneMedian :: "relayEntry \<Rightarrow> nat \<Rightarrow> (nat \<times> int) option list \<Rightarrow> int option \<times> nat" where
  \<comment> \<open>the answers to the probes made before the context ends, at most \<open>samples\<close> of them\<close>
  "MeasureOneMedian r samples answers =
     (let n = (if samples = 0 then DefaultMedianSamples else samples);
          rtts = List.map_filter (MeasureOne r) (take n answers)
      in if length rtts < MinSuccessfulSamples then (None, length rtts)
         else (Some (sort rtts ! (length rtts div 2)), length rtts))"

definition MeasureAll :: "(relayEntry \<Rightarrow> (nat \<times> int) option list) \<Rightarrow> relayEntry list \<Rightarrow> latencyResult list" where
  "MeasureAll answers relays =
     map (\<lambda>r. case fst (MeasureOneMedian r DefaultMedianSamples (answers r)) of
       None \<Rightarrow> \<lparr>lrRelay = r, lrLatency = 0, lrReachable = False\<rparr>
     | Some d \<Rightarrow> \<lparr>lrRelay = r, lrLatency = d, lrReachable = True\<rparr>) relays"

definition SortByLatency :: "latencyResult list \<Rightarrow> relayEntry list" where
  "SortByLatency results =
     map lrRelay (sort_key lrLatency (filter lrReachable results)) @ map lrRelay (filter (\<lambda>r. \<not> lrReachable r) results)"

section \<open>Countries\<close>

definition CountryCodes :: "string list" where
  \<comment> \<open>the keys of \<^verbatim>\<open>CountryMetaMap\<close>\<close>
  "CountryCodes = [''is'', ''de'', ''fi'', ''us'', ''fr'', ''es'', ''gb'']"

definition legacyCountryMap :: "(string \<times> string) list" where
  \<comment> \<open>in some order: Go's iteration order over the map is unspecified\<close>
  "legacyCountryMap = [(''relay-iceland'', ''is''), (''relay-finland'', ''fi''), (''relay-germany'', ''de''),
     (''relay-france'', ''fr''), (''relay-usa'', ''us'')]"

definition knownCode :: "string \<Rightarrow> string option" where
  "knownCode c = (if c \<in> set CountryCodes then Some c else None)"

definition codeBefore :: "char \<Rightarrow> string \<Rightarrow> string option" where
  \<comment> \<open>the text before the first separator, if it has at least two characters and is a country code\<close>
  "codeBefore sep s = (case IndexByte s sep of None \<Rightarrow> None | Some i \<Rightarrow> if i \<ge> 2 then knownCode (take i s) else None)"

definition orElse :: "'a option \<Rightarrow> 'a option \<Rightarrow> 'a option" where
  "orElse a b = (case a of None \<Rightarrow> b | Some x \<Rightarrow> Some x)"

definition ExtractCountryCode :: "string \<Rightarrow> string \<Rightarrow> string" where
  "ExtractCountryCode i domain =
     (let fromID = (if HasPrefix i ''relay-'' then codeBefore CHR ''-'' (drop 6 i) else None);
          fromDomain =
            (case IndexByte domain CHR ''.'' of
               None \<Rightarrow> None
             | Some dot \<Rightarrow>
                 if dot \<ge> 2 then orElse (knownCode (take dot domain)) (codeBefore CHR ''-'' (take dot domain)) else None);
          legacy = map_option snd (List.find (\<lambda>(p, _). HasPrefix domain p \<or> HasPrefix i p) legacyCountryMap)
      in case orElse fromID (orElse fromDomain legacy) of None \<Rightarrow> [] | Some c \<Rightarrow> c)"

definition countryOf :: "relayEntry \<Rightarrow> string" where
  "countryOf r = (let code = ExtractCountryCode (reID r) (reDomain r) in if code = [] then ''unknown'' else code)"

definition RelaysByCountry :: "relayEntry list \<Rightarrow> string \<Rightarrow> relayEntry list" where
  \<comment> \<open>the pool of a country, in the order of the list\<close>
  "RelaysByCountry relays code = filter (\<lambda>r. countryOf r = code) relays"

end
