(* ===== verification/Discovery.thy ===== *)
theory Discovery
  imports Registry
begin

text \<open>
  The relay list over time: the round robin of \<^verbatim>\<open>selector.go\<close> and the discovery cascade of
  \<^verbatim>\<open>discoverer.go\<close> (registry, then cache, then the built-in relay), of which the list, the
  latencies and the cache file are the state.
\<close>

section \<open>Round robin\<close>

record countrySelector =
  cursors :: "string \<Rightarrow> nat"
  snapshots :: "string \<Rightarrow> string list"

definition newCountrySelector :: countrySelector where
  "newCountrySelector = \<lparr>cursors = (\<lambda>_. 0), snapshots = (\<lambda>_. [])\<rparr>"

fun sameIDs :: "string list \<Rightarrow> string list \<Rightarrow> bool" where
  "sameIDs [] [] = True"
| "sameIDs (a # as) (b # bs) = (a = b \<and> sameIDs as bs)"
| "sameIDs _ _ = False"

definition pick :: "string \<Rightarrow> relayEntry list \<Rightarrow> countrySelector \<Rightarrow> relayEntry \<times> countrySelector" where
  "pick country pool cs =
     (let ids = map reID pool;
          cs1 = (if \<not> sameIDs (snapshots cs country) ids
                 then cs\<lparr>snapshots := (snapshots cs)(country := ids), cursors := (cursors cs)(country := 0)\<rparr> else cs);
          idx = cursors cs1 country mod length pool
      in (pool ! idx, cs1\<lparr>cursors := (cursors cs1)(country := (cursors cs1 country + 1) mod length pool)\<rparr>))"

section \<open>The discoverer\<close>

record discoverer =
  dClient :: regClient
  dCache :: cacheFile
  dDefault :: relayEntry
  dChecker :: bool
  dRelays :: "relayEntry list"
  dLatencies :: "string \<Rightarrow> int option"
  dSelector :: countrySelector

definition NewDiscoverer :: "regClient \<Rightarrow> cacheFile \<Rightarrow> relayEntry \<Rightarrow> bool \<Rightarrow> discoverer" where
  "NewDiscoverer c cache def checker =
     \<lparr>dClient = c, dCache = cache, dDefault = def, dChecker = checker, dRelays = [def], dLatencies = Map.empty,
      dSelector = newCountrySelector\<rparr>"

record discAnswers =
  daURLOk :: bool
  daFetch :: "(nat \<times> bytes option) option"
  daSaveOk :: bool
  daSaveLatOk :: bool
  daProbes :: "relayEntry \<Rightarrow> (nat \<times> int) option list"

definition sortByLatencyCache :: "relayEntry list \<Rightarrow> discoverer \<Rightarrow> relayEntry list" where
  "sortByLatencyCache relays d =
     (case LoadLatencies (dCache d) of
        None \<Rightarrow> relays
      | Some [] \<Rightarrow> relays
      | Some cached \<Rightarrow>
          let m = foldl (\<lambda>m cl. case clLatency cl of None \<Rightarrow> m | Some l \<Rightarrow> m(clRelayID cl \<mapsto> l)) Map.empty cached in
          if \<forall>cl\<in>set cached. clLatency cl = None then relays
          else sort_key (\<lambda>r. the (m (reID r))) (filter (\<lambda>r. m (reID r) \<noteq> None) relays)
               @ filter (\<lambda>r. m (reID r) = None) relays)"

definition sortByLatency :: "discAnswers \<Rightarrow> relayEntry list \<Rightarrow> discoverer \<Rightarrow> relayEntry list \<times> discoverer" where
  "sortByLatency da relays d =
     (if \<not> dChecker d \<or> relays = [] then (relays, d)
      else
        let results = MeasureAll (daProbes da) relays in
        if \<exists>r\<in>set results. lrReachable r then
          (SortByLatency results,
           d\<lparr>dCache := snd (SaveLatencies (daSaveLatOk da) results (dCache d)),
             dLatencies := foldl (\<lambda>m r. if lrReachable r then m(reID (lrRelay r) \<mapsto> lrLatency r) else m) Map.empty results\<rparr>)
        else (sortByLatencyCache relays d, d))"

definition setRelays :: "relayEntry list \<Rightarrow> discoverer \<Rightarrow> discoverer" where
  "setRelays rs d = d\<lparr>dRelays := rs\<rparr>"

definition Discover ::
  "cryptoLib \<Rightarrow> (bytes \<Rightarrow> registry option) \<Rightarrow> discAnswers \<Rightarrow> discoverer \<Rightarrow> relayEntry list \<times> discoverer" where
  "Discover lib unmarshal da d =
     (let fallback = ([dDefault d], setRelays [dDefault d] d);
          fromCache =
            (case CacheLoad (dCache d) of
               None \<Rightarrow> fallback
             | Some (cached, _) \<Rightarrow>
                 if cached = [] then fallback
                 else (case fst (VerifyAll lib \<lparr>regVersion = 0, regMasterKey = masterKey64 (dClient d), regRelays = cached\<rparr>) of
                     Inl _ \<Rightarrow> fallback
                   | Inr verified \<Rightarrow>
                       (case sortByLatency da verified d of (rs, d1) \<Rightarrow> (rs, setRelays rs d1))))
      in case Fetch lib unmarshal (daURLOk da) (daFetch da) (dClient d) of
           Inl _ \<Rightarrow> fromCache
         | Inr relays \<Rightarrow>
             if relays = [] then fromCache
             else
               let d1 = d\<lparr>dCache := snd (CacheSave (daSaveOk da) relays (masterKey64 (dClient d)) (dCache d))\<rparr>
               in (case sortByLatency da relays d1 of (rs, d2) \<Rightarrow> (rs, setRelays rs d2)))"

definition Primary :: "discoverer \<Rightarrow> relayEntry" where
  "Primary d = (case dRelays d of [] \<Rightarrow> dDefault d | r # _ \<Rightarrow> r)"

definition LatencyFor :: "string \<Rightarrow> discoverer \<Rightarrow> int" where
  "LatencyFor i d = (case dLatencies d i of None \<Rightarrow> 0 | Some l \<Rightarrow> l)"

definition SelectRelay :: "string \<Rightarrow> discoverer \<Rightarrow> (regError + relayEntry) \<times> discoverer" where
  "SelectRelay country d =
     (if country \<notin> set CountryCodes then (Inl UnknownCountry, d)
      else let pool = RelaysByCountry (dRelays d) country in
        if pool = [] then (Inl NoRelaysForCountry, d)
        else (case pick country pool (dSelector d) of (r, cs) \<Rightarrow> (Inr r, d\<lparr>dSelector := cs\<rparr>)))"

definition discoverStart :: "cryptoLib \<Rightarrow> (bytes \<Rightarrow> registry option) \<Rightarrow> discAnswers \<Rightarrow> discoverer \<Rightarrow> discoverer" where
  \<comment> \<open>the initial discovery of \<^verbatim>\<open>Start\<close>\<close>
  "discoverStart lib unmarshal da d =
     (if length (dRelays d) = 1 \<and> reID (hd (dRelays d)) = reID (dDefault d)
      then snd (Discover lib unmarshal da d) else d)"

section \<open>Only trusted relays\<close>

definition signedBy :: "cryptoLib \<Rightarrow> string \<Rightarrow> relayEntry \<Rightarrow> bool" where
  \<comment> \<open>the master key signs the relay's public key\<close>
  "signedBy lib key64 e \<longleftrightarrow>
     (\<exists>master k sig. b64decode Std key64 = Some master \<and> length master = 32 \<and> b64decode Std (rePublicKey e) = Some k \<and>
        b64decode Std (reSignature e) = Some sig \<and> edVerify lib master (bytesOf SignaturePrefix @ k) sig)"

lemma VerifyRelaySignature_None:
  "VerifyRelaySignature lib master e = None \<longleftrightarrow>
     (\<exists>k sig. b64decode Std (rePublicKey e) = Some k \<and> b64decode Std (reSignature e) = Some sig \<and>
        edVerify lib master (bytesOf SignaturePrefix @ k) sig)"
  by (auto simp: VerifyRelaySignature_def split: option.splits)

lemma VerifyAll_signed:
  assumes "fst (VerifyAll lib reg) = Inr es"
  shows "es \<noteq> [] \<and> set es \<subseteq> set (regRelays reg) \<and> (\<forall>e\<in>set es. signedBy lib (regMasterKey reg) e)"
proof -
  obtain master where m: "b64decode Std (regMasterKey reg) = Some master" "length master = 32"
    and e: "es = filter (\<lambda>e. VerifyRelaySignature lib master e = None) (regRelays reg)" "es \<noteq> []"
    using assms by (auto simp: VerifyAll_def Let_def split: option.splits if_splits)
  then show ?thesis by (auto simp: signedBy_def VerifyRelaySignature_None)
qed

lemma Fetch_signed: "Fetch lib unmarshal u a c = Inr es \<Longrightarrow> \<forall>e\<in>set es. signedBy lib (masterKey64 c) e"
  by (auto simp: Fetch_def split: if_splits option.splits sum.splits dest!: VerifyAll_signed)

lemma set_MeasureAll: "lrRelay ` set (MeasureAll f rs) = set rs"
  by (auto simp: MeasureAll_def image_iff split: option.splits)

lemma set_SortByLatency: "set (SortByLatency rs) = lrRelay ` set rs"
  by (auto simp: SortByLatency_def)

lemma sortByLatency_set:
  assumes "sortByLatency da rs d = (rs', d')"
  shows "set rs' = set rs \<and> dClient d' = dClient d \<and> dDefault d' = dDefault d"
proof -
  have c: "set (sortByLatencyCache rs d) = set rs"
    by (auto simp: sortByLatencyCache_def Let_def split: option.splits list.splits)
  show ?thesis using assms set_MeasureAll [of "daProbes da" rs] c
    by (auto simp: sortByLatency_def Let_def set_SortByLatency split: if_splits)
qed

lemma Discover_trusted:
  assumes "Discover lib unmarshal da d = (rs, d')"
  shows "rs = dRelays d' \<and> rs \<noteq> [] \<and> dClient d' = dClient d \<and> dDefault d' = dDefault d \<and>
    (\<forall>e\<in>set rs. e = dDefault d \<or> signedBy lib (masterKey64 (dClient d)) e)"
proof -
  let ?fb = "([dDefault d], setRelays [dDefault d] d)"
  define fromCache where "fromCache =
    (case CacheLoad (dCache d) of None \<Rightarrow> ?fb
     | Some (cached, _) \<Rightarrow>
         if cached = [] then ?fb
         else (case fst (VerifyAll lib \<lparr>regVersion = 0, regMasterKey = masterKey64 (dClient d), regRelays = cached\<rparr>) of
             Inl _ \<Rightarrow> ?fb
           | Inr verified \<Rightarrow> (case sortByLatency da verified d of (rs, d1) \<Rightarrow> (rs, setRelays rs d1))))"
  have sorted: "r = dRelays (setRelays r d1) \<and> r \<noteq> [] \<and> dClient (setRelays r d1) = dClient d \<and>
      dDefault (setRelays r d1) = dDefault d \<and> (\<forall>e\<in>set r. signedBy lib (masterKey64 (dClient d)) e)"
    if "sortByLatency da v d0 = (r, d1)" "v \<noteq> []" "\<forall>e\<in>set v. signedBy lib (masterKey64 (dClient d)) e"
      "dClient d0 = dClient d" "dDefault d0 = dDefault d" for v r d0 d1
    using sortByLatency_set [OF that(1)] that(2-5) by (cases r) (auto simp: setRelays_def)
  have fc: "r = dRelays d1 \<and> r \<noteq> [] \<and> dClient d1 = dClient d \<and> dDefault d1 = dDefault d \<and>
      (\<forall>e\<in>set r. e = dDefault d \<or> signedBy lib (masterKey64 (dClient d)) e)" if "fromCache = (r, d1)" for r d1
    using that sorted [where ?d0.0 = d]
    by (fastforce simp: fromCache_def setRelays_def split: option.splits prod.splits if_splits sum.splits dest!: VerifyAll_signed)
  show ?thesis
  proof (cases "Fetch lib unmarshal (daURLOk da) (daFetch da) (dClient d)")
    case (Inl e)
    then have "fromCache = (rs, d')" using assms by (simp add: Discover_def Let_def fromCache_def)
    then show ?thesis by (rule fc)
  next
    case (Inr relays)
    show ?thesis
    proof (cases "relays = []")
      case True
      then have "fromCache = (rs, d')" using assms Inr by (simp add: Discover_def Let_def fromCache_def)
      then show ?thesis by (rule fc)
    next
      case False
      let ?d1 = "d\<lparr>dCache := snd (CacheSave (daSaveOk da) relays (masterKey64 (dClient d)) (dCache d))\<rparr>"
      obtain r d2 where r: "sortByLatency da relays ?d1 = (r, d2)" by fastforce
      then have "rs = r \<and> d' = setRelays r d2" using assms Inr False by (auto simp: Discover_def Let_def)
      then show ?thesis using sorted [OF r False Fetch_signed [OF Inr]] by simp
    qed
  qed
qed

section \<open>Fairness of the round robin\<close>

lemma sameIDs_eq: "sameIDs as bs \<longleftrightarrow> as = bs"
  by (induction "as" bs rule: sameIDs.induct) auto

definition cursorOf :: "string \<Rightarrow> relayEntry list \<Rightarrow> countrySelector \<Rightarrow> nat" where
  "cursorOf country pool cs = (if snapshots cs country = map reID pool then cursors cs country mod length pool else 0)"

lemma pick_spec:
  assumes "pool \<noteq> []" "pick country pool cs = (r, cs')"
  shows "r = pool ! cursorOf country pool cs \<and>
    cursorOf country pool cs' = (cursorOf country pool cs + 1) mod length pool \<and>
    (\<forall>c'\<noteq>country. cursors cs' c' = cursors cs c' \<and> snapshots cs' c' = snapshots cs c')"
  using assms by (auto simp: pick_def cursorOf_def sameIDs_eq Let_def mod_Suc_eq)

fun selections :: "string list \<Rightarrow> discoverer \<Rightarrow> (string \<times> (regError + relayEntry)) list" where
  "selections [] d = []"
| "selections (c # cs) d = (case SelectRelay c d of (r, d') \<Rightarrow> (c, r) # selections cs d')"

lemma SelectRelay_spec:
  assumes "SelectRelay c d = (r, d')"
  shows "dRelays d' = dRelays d \<and>
    (c \<in> set CountryCodes \<and> RelaysByCountry (dRelays d) c \<noteq> [] \<longrightarrow>
       r = Inr (RelaysByCountry (dRelays d) c ! cursorOf c (RelaysByCountry (dRelays d) c) (dSelector d)) \<and>
       cursorOf c (RelaysByCountry (dRelays d) c) (dSelector d') =
         (cursorOf c (RelaysByCountry (dRelays d) c) (dSelector d) + 1) mod length (RelaysByCountry (dRelays d) c)) \<and>
    (\<forall>c'. c' \<noteq> c \<longrightarrow> (\<forall>pool. cursorOf c' pool (dSelector d') = cursorOf c' pool (dSelector d)))"
proof (cases "c \<in> set CountryCodes \<and> RelaysByCountry (dRelays d) c \<noteq> []")
  case True
  obtain x cs' where p: "pick c (RelaysByCountry (dRelays d) c) (dSelector d) = (x, cs')" by fastforce
  have d: "r = Inr x \<and> d' = d\<lparr>dSelector := cs'\<rparr>" using assms True p by (simp add: SelectRelay_def Let_def)
  note ps = pick_spec [OF True [THEN conjunct2] p]
  then have "\<forall>c'. c' \<noteq> c \<longrightarrow> (\<forall>pool. cursorOf c' pool cs' = cursorOf c' pool (dSelector d))" by (simp add: cursorOf_def)
  then show ?thesis using d ps True by simp
next
  case False
  then show ?thesis using assms by (auto simp: SelectRelay_def Let_def split: if_splits)
qed

lemma SelectRelay_pool:
  assumes "SelectRelay country d = (Inr e, d')"
  shows "e \<in> set (dRelays d) \<and> countryOf e = country"
proof -
  let ?p = "RelaysByCountry (dRelays d) country"
  have p: "?p \<noteq> []" "country \<in> set CountryCodes" using assms by (auto simp: SelectRelay_def Let_def split: if_splits)
  have "e = ?p ! cursorOf country ?p (dSelector d)" using SelectRelay_spec [OF assms] p by simp
  moreover have "cursorOf country ?p (dSelector d) < length ?p" using p by (simp add: cursorOf_def)
  ultimately have "e \<in> set ?p" by simp
  then show ?thesis by (simp add: RelaysByCountry_def)
qed

lemma selections_cyclic:
  assumes "c \<in> set CountryCodes" "RelaysByCountry (dRelays d) c \<noteq> []"
  shows "map snd (filter (\<lambda>x. fst x = c) (selections cs d)) =
    map (\<lambda>i. Inr (RelaysByCountry (dRelays d) c !
      ((cursorOf c (RelaysByCountry (dRelays d) c) (dSelector d) + i) mod length (RelaysByCountry (dRelays d) c))))
      [0..<length (filter (\<lambda>x. x = c) cs)]"
  using assms
proof (induction cs arbitrary: d)
  case (Cons x cs)
  let ?p = "RelaysByCountry (dRelays d) c"
  obtain r d' where r: "SelectRelay x d = (r, d')" by fastforce
  note sp = SelectRelay_spec [OF r]
  have IH: "map snd (filter (\<lambda>x. fst x = c) (selections cs d')) =
    map (\<lambda>i. Inr (?p ! ((cursorOf c ?p (dSelector d') + i) mod length ?p))) [0..<length (filter (\<lambda>x. x = c) cs)]"
    using Cons.IH [of d'] Cons.prems sp by simp
  show ?case
  proof (cases "x = c")
    case True
    have lt: "cursorOf c ?p (dSelector d) < length ?p" using Cons.prems(2) by (simp add: cursorOf_def)
    have "[0..<Suc n] = 0 # map Suc [0..<n]" for n by (simp add: upt_conv_Cons map_Suc_upt del: upt_Suc)
    then show ?thesis using IH r sp True Cons.prems lt by (simp add: mod_simps comp_def del: upt_Suc)
  next
    case False
    then show ?thesis using IH r sp by auto
  qed
qed simp

section \<open>Properties\<close>

datatype discEvent = EvDiscover discAnswers | EvSelect string | EvTamper cacheFile
  \<comment> \<open>a discovery with what the network, the disk and the probes answer; a selection; and somebody
     writing to the cache file\<close>

fun discStep :: "cryptoLib \<Rightarrow> (bytes \<Rightarrow> registry option) \<Rightarrow> discEvent \<Rightarrow> discoverer \<Rightarrow> discoverer" where
  "discStep lib unmarshal (EvDiscover da) d = snd (Discover lib unmarshal da d)"
| "discStep lib unmarshal (EvSelect c) d = snd (SelectRelay c d)"
| "discStep lib unmarshal (EvTamper f) d = d\<lparr>dCache := f\<rparr>"

definition trustedList :: "cryptoLib \<Rightarrow> regClient \<Rightarrow> relayEntry \<Rightarrow> discoverer \<Rightarrow> bool" where
  "trustedList lib c def d \<longleftrightarrow> dClient d = c \<and> dDefault d = def \<and> dRelays d \<noteq> [] \<and>
     (\<forall>e\<in>set (dRelays d). e = def \<or> signedBy lib (masterKey64 c) e)"

lemma trustedList_step: "trustedList lib c def d \<Longrightarrow> trustedList lib c def (discStep lib unmarshal ev d)"
proof (cases ev)
  case (EvDiscover da)
  obtain rs d' where "Discover lib unmarshal da d = (rs, d')" by fastforce
  moreover assume "trustedList lib c def d"
  ultimately show ?thesis using Discover_trusted [of lib unmarshal da d rs d'] EvDiscover by (auto simp: trustedList_def)
next
  case (EvSelect c')
  obtain r d' where "SelectRelay c' d = (r, d')" by fastforce
  moreover assume "trustedList lib c def d"
  ultimately show ?thesis using EvSelect
    by (auto simp: trustedList_def SelectRelay_def Let_def split: if_splits prod.splits)
qed (simp add: trustedList_def)

lemma trustedList_fold: "trustedList lib c def d \<Longrightarrow> trustedList lib c def (fold (discStep lib unmarshal) evs d)"
  by (induction evs arbitrary: d) (auto intro: trustedList_step)

text \<open>
  C25: only trusted relays are ever offered.  Whatever the registry endpoint answers, whatever the
  probes measure and whoever writes to the cache file, after any sequence of discoveries and
  selections the relay list is not empty and every relay of it, in particular the primary one and
  any selected one, is the built-in relay or has its public key signed by the client's own master
  key; and a relay selected for a country is one of that country.
\<close>

theorem only_trusted_relays:
  assumes "fold (discStep lib unmarshal) evs (NewDiscoverer c cache def checker) = d"
  shows "dRelays d \<noteq> [] \<and>
    (\<forall>e\<in>insert (Primary d) (set (dRelays d)). e = def \<or> signedBy lib (masterKey64 c) e) \<and>
    (\<forall>country e d'. SelectRelay country d = (Inr e, d') \<longrightarrow>
       e \<in> set (dRelays d) \<and> countryOf e = country)"
proof -
  have "trustedList lib c def (NewDiscoverer c cache def checker)" by (simp add: trustedList_def NewDiscoverer_def)
  then have t: "trustedList lib c def d" using trustedList_fold assms by blast
  show ?thesis using t SelectRelay_pool by (auto simp: trustedList_def Primary_def split: list.splits)
qed

definition sampleRelay :: "string \<Rightarrow> relayEntry" where
  "sampleRelay i = \<lparr>reID = i, reDomain = i @ ''.levoile.dev'', rePublicKey = b64enc Std (replicate 32 5),
     reSignature = b64enc Std (rev (bytesOf SignaturePrefix @ replicate 32 5) @ [1]), reAdded = 0\<rparr>"

definition sampleRegClient :: regClient where
  "sampleRegClient = \<lparr>registryURL = ''https://r'', masterKey64 = b64enc Std (replicate 32 0)\<rparr>"

definition sampleAnswers :: discAnswers where
  "sampleAnswers = \<lparr>daURLOk = True, daFetch = None, daSaveOk = True, daSaveLatOk = True, daProbes = (\<lambda>_. [])\<rparr>"

theorem only_trusted_relays_witness:
  "\<exists>d. fold (discStep toyLib (\<lambda>_. None)) [EvTamper (CacheFile \<lparr>crMasterKey = [], crRelays = [sampleRelay ''relay-is-01''],
       crRankings = []\<rparr>), EvDiscover sampleAnswers] (NewDiscoverer sampleRegClient NoFile (sampleRelay ''relay-de-01'') False) = d \<and>
     dRelays d = [sampleRelay ''relay-is-01''] \<and> signedBy toyLib (masterKey64 sampleRegClient) (Primary d)"
proof -
  let ?d0 = "NewDiscoverer sampleRegClient NoFile (sampleRelay ''relay-de-01'') False"
  let ?evs = "[EvTamper (CacheFile \<lparr>crMasterKey = [], crRelays = [sampleRelay ''relay-is-01''], crRankings = []\<rparr>),
    EvDiscover sampleAnswers]"
  let ?d = "fold (discStep toyLib (\<lambda>_. None)) ?evs ?d0"
  have v: "VerifyRelaySignature toyLib (replicate 32 0) (sampleRelay i) = None" for i
    by (simp add: VerifyRelaySignature_def sampleRelay_def toyLib_def del: b64enc.simps)
  have r: "dRelays ?d = [sampleRelay ''relay-is-01'']"
    by (simp add: Discover_def Fetch_def sampleAnswers_def CacheLoad_def VerifyAll_def sampleRegClient_def NewDiscoverer_def
        sortByLatency_def setRelays_def v del: b64enc.simps)
  have "sampleRelay ''relay-is-01'' \<noteq> sampleRelay ''relay-de-01''" by (simp add: sampleRelay_def)
  with only_trusted_relays [of toyLib "\<lambda>_. None" ?evs sampleRegClient NoFile "sampleRelay ''relay-de-01''" False ?d, OF refl] r
  show ?thesis by (simp add: Primary_def)
qed

text \<open>
  the round robin is fair.  While the relay list does not change, the relays selected for a
  country, however these selections are interleaved with those for other countries, run cyclically
  through the country's pool: any run of as many selections as the pool has relays returns each of
  them exactly once.
\<close>

theorem round_robin_is_fair:
  assumes "c \<in> set CountryCodes" "RelaysByCountry (dRelays d) c \<noteq> []"
    and "length (filter (\<lambda>x. x = c) cs) = length (RelaysByCountry (dRelays d) c)"
  shows "mset (map snd (filter (\<lambda>x. fst x = c) (selections cs d))) = mset (map Inr (RelaysByCountry (dRelays d) c))"
proof -
  let ?p = "RelaysByCountry (dRelays d) c"
  define k where "k = cursorOf c ?p (dSelector d)"
  have k: "k < length ?p" using assms(2) by (simp add: k_def cursorOf_def)
  have "map (\<lambda>i. Inr (?p ! ((k + i) mod length ?p))) [0..<length ?p] = map Inr (rotate k ?p)"
    by (rule nth_equalityI) (simp_all add: nth_rotate)
  then have "map snd (filter (\<lambda>x. fst x = c) (selections cs d)) = map Inr (rotate k ?p)"
    using selections_cyclic [OF assms(1, 2), of cs] assms(3) by (simp add: k_def)
  moreover have "mset (rotate k ?p) = mset ?p"
    by (metis append_take_drop_id mset_append add.commute rotate_drop_take)
  ultimately show ?thesis by (simp only: mset_map)
qed

theorem round_robin_is_fair_witness:
  "mset (map snd (filter (\<lambda>x. fst x = ''is'') (selections [''is'', ''de'', ''is'']
      ((NewDiscoverer sampleRegClient NoFile (sampleRelay ''relay-de-01'') False)
        \<lparr>dRelays := [sampleRelay ''relay-is-01'', sampleRelay ''relay-de-02'', sampleRelay ''relay-is-02'']\<rparr>)))) =
   mset [Inr (sampleRelay ''relay-is-01''), Inr (sampleRelay ''relay-is-02'')]"
proof -
  let ?d = "(NewDiscoverer sampleRegClient NoFile (sampleRelay ''relay-de-01'') False)
        \<lparr>dRelays := [sampleRelay ''relay-is-01'', sampleRelay ''relay-de-02'', sampleRelay ''relay-is-02'']\<rparr>"
  have co: "countryOf (sampleRelay ''relay-is-01'') = ''is''" "countryOf (sampleRelay ''relay-de-02'') = ''de''"
    "countryOf (sampleRelay ''relay-is-02'') = ''is''"
  proof -
    have "ExtractCountryCode ''relay-is-01'' ''relay-is-01.levoile.dev'' = ''is''"
      "ExtractCountryCode ''relay-de-02'' ''relay-de-02.levoile.dev'' = ''de''"
      "ExtractCountryCode ''relay-is-02'' ''relay-is-02.levoile.dev'' = ''is''" by code_simp+
    then show "countryOf (sampleRelay ''relay-is-01'') = ''is''" "countryOf (sampleRelay ''relay-de-02'') = ''de''"
      "countryOf (sampleRelay ''relay-is-02'') = ''is''"
      by (simp_all add: countryOf_def sampleRelay_def)
  qed
  have p: "RelaysByCountry (dRelays ?d) ''is'' = [sampleRelay ''relay-is-01'', sampleRelay ''relay-is-02'']"
    using co by (simp add: RelaysByCountry_def)
  have "''is'' \<in> set CountryCodes" by (simp add: CountryCodes_def)
  moreover have "RelaysByCountry (dRelays ?d) ''is'' \<noteq> []" unfolding p by simp
  moreover have "length (filter (\<lambda>x. x = ''is'') [''is'', ''de'', ''is'']) = length (RelaysByCountry (dRelays ?d) ''is'')"
    unfolding p by simp
  ultimately show ?thesis using round_robin_is_fair [of "''is''" ?d "[''is'', ''de'', ''is'']"] by (simp only: p list.map simp_thms True_implies_equals)
qed

end
