(* ===== verification/Client.thy ===== *)
theory Client
  imports Tokens TunnelState
begin

text \<open>
  The tunnel client of \<^verbatim>\<open>internal/tunnel/client.go\<close>: construction and relay resolution, the
  certificate callback (with \<^verbatim>\<open>internal/crypto/pinning.go\<close>), the \<^verbatim>\<open>/verify\<close> handshake, connecting and
  disconnecting, DNS queries with their failure counter, and the session token with its refresh and
  circuit breaker; also the goroutine bookkeeping of \<^verbatim>\<open>heartbeat.go\<close>.  The HTTP transport is the
  argument \<open>respond\<close>, the name resolver \<open>lookupIP\<close>, the clock \<open>now\<close> (Unix seconds); nobody reads
  the update channel while an operation runs.
\<close>

section \<open>State\<close>

datatype clientError =
    VerificationFailed | NotConnected | ConnectionTimeout | TokenExpired | BadKey | BadIPHint
  | ResolveRelay | RandFailed | Transport | Status nat | DecodeResponse | DecodeSignature | ReadResponse
  | RefreshFailed clientError

record client =
  relayDomain :: string
  relayIP :: string
  relayPubKey :: bytes
  insecure :: bool
  skipCAOnly :: bool
  cState :: stateManager
  sessionToken :: string
  sessionTokenIssued :: int
  sessionTokenTTL :: int
  refreshFailures :: nat
  refreshBackoff :: int
  circuitOpen :: bool
  circuitOpenedAt :: int
  consecutiveFailures :: nat
  heartbeatStop :: bool
  quicConn :: "nat option"
  quicTransport :: "nat option"

abbreviation (input) tokenRefreshMargin :: int where "tokenRefreshMargin \<equiv> 300"
abbreviation (input) tokenRefreshBackoffInit :: int where "tokenRefreshBackoffInit \<equiv> 1"
abbreviation (input) tokenRefreshBackoffMax :: int where "tokenRefreshBackoffMax \<equiv> 60"
abbreviation (input) tokenCircuitBreakerMax :: nat where "tokenCircuitBreakerMax \<equiv> 5"
abbreviation (input) tokenCircuitBreakerPause :: int where "tokenCircuitBreakerPause \<equiv> 60"
abbreviation (input) maxConsecutiveDoHFailures :: nat where "maxConsecutiveDoHFailures \<equiv> 5"

definition setSt :: "connState \<Rightarrow> client \<Rightarrow> client" where
  "setSt st c = c\<lparr>cState := SetState 0 st (cState c)\<rparr>"

section \<open>Construction\<close>

definition resolveRelayIP :: "(string \<Rightarrow> bytes list option) \<Rightarrow> string \<Rightarrow> string option" where
  "resolveRelayIP lookupIP domain =
     (if ParseIP domain \<noteq> None then Some domain
      else
        let lookup = (case lookupIP domain of
              None \<Rightarrow> None | Some [] \<Rightarrow> None | Some (ip # _) \<Rightarrow> Some (ipString ip))
        in case SplitHostPort domain of
             Some (host, _) \<Rightarrow> if ParseIP host \<noteq> None then Some domain else lookup
           | None \<Rightarrow> lookup)"

definition NewClient ::
  "(string \<Rightarrow> bytes list option) \<Rightarrow> bool \<Rightarrow> bool \<Rightarrow> string \<Rightarrow> string \<Rightarrow> string \<Rightarrow> clientError + client" where
  "NewClient lookupIP insec skipCA hint domain key =
     (case ImportPublicKeyBase64 key of
        None \<Rightarrow> Inl BadKey
      | Some pubKey \<Rightarrow>
          (case (if hint \<noteq> [] then (if ParseIP hint = None then Inl BadIPHint else Inr hint)
                 else case resolveRelayIP lookupIP domain of None \<Rightarrow> Inl ResolveRelay | Some ip \<Rightarrow> Inr ip) of
             Inl e \<Rightarrow> Inl e
           | Inr ip \<Rightarrow>
               Inr \<lparr>relayDomain = domain, relayIP = ip, relayPubKey = pubKey, insecure = insec, skipCAOnly = skipCA,
                    cState = NewStateManager, sessionToken = [], sessionTokenIssued = 0, sessionTokenTTL = 0,
                    refreshFailures = 0, refreshBackoff = 0, circuitOpen = False, circuitOpenedAt = 0,
                    consecutiveFailures = 0, heartbeatStop = False, quicConn = None, quicTransport = None\<rparr>))"

definition UpdateRelay ::
  "(string \<Rightarrow> bytes list option) \<Rightarrow> string \<Rightarrow> string \<Rightarrow> client \<Rightarrow> clientError option \<times> client" where
  "UpdateRelay lookupIP domain key c =
     (case ImportPublicKeyBase64 key of
        None \<Rightarrow> (Some BadKey, c)
      | Some pubKey \<Rightarrow>
          (case resolveRelayIP lookupIP domain of
             None \<Rightarrow> (Some ResolveRelay, c)
           | Some ip \<Rightarrow> (None, c\<lparr>relayDomain := domain, relayIP := ip, relayPubKey := pubKey\<rparr>)))"

definition RelayIP :: "client \<Rightarrow> bytes option" where
  "RelayIP c =
     (let raw = relayIP c;
          host = (case SplitHostPort raw of Some (h, _) \<Rightarrow> h | None \<Rightarrow> raw)
      in case ParseIP host of
           None \<Rightarrow> None
         | Some ip \<Rightarrow> Some (if To4 ip \<noteq> [] then To4 ip else ip))"

definition relayURL :: "string \<Rightarrow> client \<Rightarrow> string" where
  "relayURL path c =
     (let ip = relayIP c;
          host = (if CHR '':'' \<in> set ip \<and> ParseIP ip \<noteq> None then ''['' @ ip @ '']'' else ip)
      in ''https://'' @ host @ path)"

section \<open>Certificate pinning\<close>

datatype certKey = Ed25519Key bytes | OtherKey
datatype pinError = NotEd25519 | KeyMismatch
datatype certError = NoCertificate | ChainTooLong | ParseCert | PinningFailed

definition VerifyEd25519CertPin :: "certKey \<Rightarrow> bytes \<Rightarrow> pinError option" where
  "VerifyEd25519CertPin cert pinned =
     (case cert of
        OtherKey \<Rightarrow> Some NotEd25519
      | Ed25519Key k \<Rightarrow> if pinned \<noteq> k then Some KeyMismatch else None)"

definition VerifyPeerCertificate :: "('c \<Rightarrow> certKey option) \<Rightarrow> client \<Rightarrow> 'c list \<Rightarrow> certError option" where
  \<comment> \<open>\<open>parse\<close> is \<^verbatim>\<open>x509.ParseCertificate\<close> and the type of the public key\<close>
  "VerifyPeerCertificate parse c rawCerts =
     (if insecure c then None
      else if rawCerts = [] then Some NoCertificate
      else if length rawCerts > 3 then Some ChainTooLong
      else case parse (hd rawCerts) of
        None \<Rightarrow> Some ParseCert
      | Some cert \<Rightarrow>
          (case VerifyEd25519CertPin cert (relayPubKey c) of
             Some KeyMismatch \<Rightarrow> Some PinningFailed
           | _ \<Rightarrow> None))"

section \<open>The handshake\<close>

type_synonym transport = "string \<Rightarrow> string \<Rightarrow> (nat \<times> verifyResponse option) option"
  \<comment> \<open>URL and nonce to status and decoded body; \<open>None\<close> is a transport error\<close>

definition verifyRelay ::
  "cryptoLib \<Rightarrow> bytes option \<Rightarrow> transport \<Rightarrow> int \<Rightarrow> client \<Rightarrow> clientError option \<times> client" where
  "verifyRelay lib rnd respond now c =
     (case rnd of
        None \<Rightarrow> (Some RandFailed, c)
      | Some nonce \<Rightarrow>
          (case respond (relayURL ''/verify'' c) (b64enc Std nonce) of
             None \<Rightarrow> (Some Transport, c)
           | Some (status, body) \<Rightarrow>
               if status \<noteq> 200 then (Some (Status status), c)
               else case body of
                 None \<Rightarrow> (Some DecodeResponse, c)
               | Some vResp \<Rightarrow>
                   (case b64decode Std (vrSignature vResp) of
                      None \<Rightarrow> (Some DecodeSignature, c)
                    | Some sig \<Rightarrow>
                        if \<not> VerifyMsg lib (relayPubKey c) nonce sig then (Some VerificationFailed, c)
                        else case vrSessionToken vResp of
                          None \<Rightarrow> (None, c)
                        | Some tok \<Rightarrow>
                            if tok \<noteq> []
                            then (None, c\<lparr>sessionToken := tok, sessionTokenIssued := now, sessionTokenTTL := 14400\<rparr>)
                            else (None, c))))"

section \<open>Connecting\<close>

definition resetDoHFailures :: "client \<Rightarrow> client" where
  "resetDoHFailures c = c\<lparr>consecutiveFailures := 0\<rparr>"

definition recordDoHFailure :: "client \<Rightarrow> client" where
  "recordDoHFailure c =
     (let n = consecutiveFailures c + 1; c1 = c\<lparr>consecutiveFailures := n\<rparr> in
      if n \<ge> maxConsecutiveDoHFailures \<and> GetState (cState c1) = StateConnected
      then setSt StateDisconnected c1 else c1)"

definition startHeartbeat :: "client \<Rightarrow> bool \<times> client" where
  \<comment> \<open>whether a loop is spawned\<close>
  "startHeartbeat c = (if heartbeatStop c then (False, c) else (True, c\<lparr>heartbeatStop := True\<rparr>))"

definition stopHeartbeat :: "client \<Rightarrow> client" where
  "stopHeartbeat c = c\<lparr>heartbeatStop := False\<rparr>"

definition Connect ::
  "cryptoLib \<Rightarrow> bytes option \<Rightarrow> transport \<Rightarrow> bool \<Rightarrow> int \<Rightarrow> client \<Rightarrow> clientError option \<times> client" where
  \<comment> \<open>\<open>timedOut\<close>: the five-second context has ended when the handshake fails\<close>
  "Connect lib rnd respond timedOut now c =
     (case verifyRelay lib rnd respond now (setSt StateConnecting c) of
        (Some e, c1) \<Rightarrow> (Some (if timedOut then ConnectionTimeout else e), setSt StateDisconnected c1)
      | (None, c1) \<Rightarrow> (None, snd (startHeartbeat (setSt StateConnected (resetDoHFailures c1)))))"

definition ResetTransport :: "client \<Rightarrow> client" where
  "ResetTransport c = (stopHeartbeat (resetDoHFailures c))\<lparr>quicConn := None, quicTransport := None\<rparr>"

definition Disconnect :: "client \<Rightarrow> client" where
  "Disconnect c = ResetTransport (setSt StateDisconnected c)"

definition dialQUICCustom :: "bool \<Rightarrow> nat option \<Rightarrow> nat option \<Rightarrow> client \<Rightarrow> nat option \<times> client" where
  \<comment> \<open>whether the address resolves, the transport a new socket would give, and the dialled connection\<close>
  "dialQUICCustom resolves listen dial c =
     (if \<not> resolves then (None, c)
      else case (case quicTransport c of Some t \<Rightarrow> Some (c, t)
                 | None \<Rightarrow> (case listen of None \<Rightarrow> None | Some t \<Rightarrow> Some (c\<lparr>quicTransport := Some t\<rparr>, t))) of
        None \<Rightarrow> (None, c)
      | Some (c1, t) \<Rightarrow>
          (case dial of None \<Rightarrow> (None, c1) | Some conn \<Rightarrow> (Some conn, c1\<lparr>quicConn := Some conn\<rparr>)))"

definition SendDoHQuery :: "(nat \<times> bytes option) option \<Rightarrow> client \<Rightarrow> (clientError + bytes) \<times> client" where
  \<comment> \<open>the status and body of the answer; \<open>None\<close> is a transport error\<close>
  "SendDoHQuery answer c =
     (if GetState (cState c) \<noteq> StateConnected then (Inl NotConnected, c)
      else case answer of
        None \<Rightarrow> (Inl Transport, recordDoHFailure c)
      | Some (status, body) \<Rightarrow>
          let c1 = resetDoHFailures c in
          if status \<noteq> 200 then (Inl (Status status), c1)
          else case body of
            None \<Rightarrow> (Inl ReadResponse, c1)
          | Some b \<Rightarrow> (Inr (take 65536 b), c1))"

section \<open>The session token\<close>

definition SessionTokenNeedsRefresh :: "int \<Rightarrow> client \<Rightarrow> bool" where
  "SessionTokenNeedsRefresh now c =
     (if sessionToken c = [] then True
      else now \<ge> sessionTokenIssued c + sessionTokenTTL c - tokenRefreshMargin)"

definition SessionTokenExpired :: "int \<Rightarrow> client \<Rightarrow> bool" where
  "SessionTokenExpired now c =
     (if sessionToken c = [] then True else now \<ge> sessionTokenIssued c + sessionTokenTTL c)"

definition RefreshSessionToken ::
  "cryptoLib \<Rightarrow> bytes option \<Rightarrow> transport \<Rightarrow> int \<Rightarrow> client \<Rightarrow> clientError option \<times> client" where
  "RefreshSessionToken lib rnd respond now c =
     (if circuitOpen c \<and> now - circuitOpenedAt c < tokenCircuitBreakerPause
      then (if \<not> SessionTokenExpired now c then (None, c) else (Some TokenExpired, c))
      else
        let c1 = (if circuitOpen c then c\<lparr>circuitOpen := False, refreshFailures := 0, refreshBackoff := 0\<rparr> else c) in
        if \<not> SessionTokenNeedsRefresh now c1 then (None, c1)
        else case verifyRelay lib rnd respond now c1 of
          (Some e, c2) \<Rightarrow>
            let n = refreshFailures c2 + 1;
                backoff = (if refreshBackoff c2 = 0 then tokenRefreshBackoffInit
                           else min (refreshBackoff c2 * 2) tokenRefreshBackoffMax);
                c3 = c2\<lparr>refreshFailures := n, refreshBackoff := backoff\<rparr>;
                c4 = (if n \<ge> tokenCircuitBreakerMax then c3\<lparr>circuitOpen := True, circuitOpenedAt := now\<rparr> else c3)
            in (if \<not> SessionTokenExpired now c4 then None else Some (RefreshFailed e), c4)
        | (None, c2) \<Rightarrow> (None, c2\<lparr>refreshFailures := 0, refreshBackoff := 0\<rparr>))"

definition EnsureSessionToken ::
  "cryptoLib \<Rightarrow> bytes option \<Rightarrow> transport \<Rightarrow> int \<Rightarrow> client \<Rightarrow> clientError option \<times> client" where
  "EnsureSessionToken lib rnd respond now c =
     (if \<not> SessionTokenNeedsRefresh now c then (None, c) else RefreshSessionToken lib rnd respond now c)"

section \<open>Lemmas\<close>

lemma setSt_simps [simp]:
  "GetState (cState (setSt st c)) = st" "relayPubKey (setSt st c) = relayPubKey c" "relayIP (setSt st c) = relayIP c"
  "sessionToken (setSt st c) = sessionToken c" "sessionTokenIssued (setSt st c) = sessionTokenIssued c"
  "sessionTokenTTL (setSt st c) = sessionTokenTTL c" "consecutiveFailures (setSt st c) = consecutiveFailures c"
  "heartbeatStop (setSt st c) = heartbeatStop c"
  by (simp_all add: setSt_def GetState_def SetState_def Let_def)

lemma relayURL_setSt [simp]: "relayURL path (setSt st c) = relayURL path c"
  by (simp add: relayURL_def)

lemma startHeartbeat_simps [simp]:
  "cState (snd (startHeartbeat c)) = cState c" "heartbeatStop (snd (startHeartbeat c))"
  "sessionToken (snd (startHeartbeat c)) = sessionToken c" "sessionTokenIssued (snd (startHeartbeat c)) = sessionTokenIssued c"
  "sessionTokenTTL (snd (startHeartbeat c)) = sessionTokenTTL c" "consecutiveFailures (snd (startHeartbeat c)) = consecutiveFailures c"
  by (simp_all add: startHeartbeat_def)

lemma verifyRelay_ok:
  assumes "verifyRelay lib rnd respond now c = (None, c')"
  shows "\<exists>nonce vr sig. rnd = Some nonce \<and> respond (relayURL ''/verify'' c) (b64enc Std nonce) = Some (200, Some vr) \<and>
    b64decode Std (vrSignature vr) = Some sig \<and> length (relayPubKey c) = 32 \<and> edVerify lib (relayPubKey c) nonce sig \<and>
    c' = (case vrSessionToken vr of None \<Rightarrow> c | Some tok \<Rightarrow>
      if tok = [] then c else c\<lparr>sessionToken := tok, sessionTokenIssued := now, sessionTokenTTL := 14400\<rparr>)"
  using assms by (auto simp: verifyRelay_def VerifyMsg_def split: option.splits if_splits prod.splits)

lemma verifyRelay_err: "verifyRelay lib rnd respond now c = (Some e, c') \<Longrightarrow> c' = c"
  by (auto simp: verifyRelay_def split: option.splits if_splits prod.splits)

section \<open>Properties\<close>

text \<open>
  connecting authenticates the relay.  Whatever answers the handshake, \<^verbatim>\<open>Connect\<close> succeeds only
  on a 200 answer that carries a signature over this attempt's own nonce that verifies under the
  pinned key, and then the tunnel is connected with its heartbeat on and no failure counted; when
  it fails the tunnel is disconnected and the session token is what it was.
\<close>

theorem connect_authenticates_relay:
  assumes "Connect lib rnd respond timedOut now c = (e, c')"
  shows "if e = None
    then (\<exists>nonce vr sig. rnd = Some nonce \<and> respond (relayURL ''/verify'' c) (b64enc Std nonce) = Some (200, Some vr) \<and>
           b64decode Std (vrSignature vr) = Some sig \<and> edVerify lib (relayPubKey c) nonce sig) \<and>
         GetState (cState c') = StateConnected \<and> heartbeatStop c' \<and> consecutiveFailures c' = 0
    else GetState (cState c') = StateDisconnected \<and> sessionToken c' = sessionToken c \<and>
         sessionTokenIssued c' = sessionTokenIssued c"
proof -
  obtain e1 c1 where v: "verifyRelay lib rnd respond now (setSt StateConnecting c) = (e1, c1)" by fastforce
  show ?thesis
  proof (cases e1)
    case None
    then show ?thesis using assms v verifyRelay_ok [OF v [unfolded None]]
      by (auto simp: Connect_def resetDoHFailures_def)
  next
    case (Some x)
    then show ?thesis using assms v verifyRelay_err [OF v [unfolded Some]] by (auto simp: Connect_def)
  qed
qed

definition sampleClient :: client where
  "sampleClient = \<lparr>relayDomain = ''1.2.3.4'', relayIP = ''1.2.3.4'', relayPubKey = replicate 32 0, insecure = False,
     skipCAOnly = False, cState = NewStateManager, sessionToken = [], sessionTokenIssued = 0, sessionTokenTTL = 0,
     refreshFailures = 0, refreshBackoff = 0, circuitOpen = False, circuitOpenedAt = 0, consecutiveFailures = 0,
     heartbeatStop = False, quicConn = None, quicTransport = None\<rparr>"

theorem connect_authenticates_relay_witness:
  "\<exists>c'. Connect toyLib (Some [1, 2]) (\<lambda>u n. Some (200, Some \<lparr>vrSignature = b64enc Std [2, 1, 1], vrSessionToken = None\<rparr>))
     False 0 sampleClient = (None, c') \<and> GetState (cState c') = StateConnected"
proof -
  let ?resp = "\<lambda>u n. Some (200, Some \<lparr>vrSignature = b64enc Std [2, 1, 1], vrSessionToken = None\<rparr>)"
  obtain e c' where c: "Connect toyLib (Some [1, 2]) ?resp False 0 sampleClient = (e, c')" by fastforce
  have "e = None"
    using c by (auto simp: Connect_def verifyRelay_def VerifyMsg_def toyLib_def sampleClient_def setSt_def simp del: b64enc.simps)
  then show ?thesis using connect_authenticates_relay [OF c] c by simp
qed

text \<open>
  C5: client and relay fit together.  Against a relay that holds the private half of the pinned key,
  \<^verbatim>\<open>Connect\<close> succeeds, and the token it stores is an admission: a tunnel or CONNECT request from the
  same address that presents it as a bearer token is admitted until four hours after the handshake
  and refused afterwards, and the client asks for a new one five minutes before that.
\<close>

theorem handshake_then_admitted:
  assumes "length (relayPubKey c) = 32" "length priv = 64" "length nonce = 32"
    and "\<And>m. edVerify lib (relayPubKey c) m (edSign lib priv m)"
    and "\<And>m. edSign lib priv m \<noteq> []" "\<And>p. marshalPayload lib p \<noteq> []"
    and "\<And>n. unmarshalPayload lib (marshalPayload lib
        \<lparr>tokNonce = n, tokIPHash = ipHash lib ip, tokIssued = now, tokTTL = 14400\<rparr>) =
        Some \<lparr>tokNonce = n, tokIPHash = ipHash lib ip, tokIssued = now, tokTTL = 14400\<rparr>"
    and "rMethod req = ''POST'' \<and> rContentType req = ''application/json'' \<and>
        decodeNonce (take 1024 (rBody req)) = Some (b64enc Std nonce) \<and> clientIP req = ip" and "ip \<noteq> []"
    and "respond (relayURL ''/verify'' c) (b64enc Std nonce) =
        (case verifyServeHTTP lib decodeNonce priv (Some rnd) now req of
        Inl st \<Rightarrow> Some (st, None) | Inr vr \<Rightarrow> Some (200, Some vr))"
  shows "\<exists>c'. Connect lib (Some nonce) respond timedOut now c = (None, c') \<and>
    (\<forall>t. SessionTokenNeedsRefresh t c' \<longleftrightarrow> now + 14100 \<le> t) \<and>
    (\<forall>t r. rMethod r = ''POST'' \<and> rAuthorization r = ''Bearer '' @ sessionToken c' \<and> clientIP r = ip \<longrightarrow>
       ((\<exists>p. authorize lib (relayPubKey c) t r = Inr (p, ip)) \<longleftrightarrow> t \<le> now + 14400))"
proof -
  obtain tok where tok: "CreateSessionToken lib priv ip (Some rnd) now = Some tok"
    using assms(2) by (simp add: CreateSessionToken_def tokenNonce_def randomHex_def SignMsg_def Let_def)
  have ne: "tok \<noteq> []" using tok by (auto simp: CreateSessionToken_def Let_def split: option.splits)
  have "respond (relayURL ''/verify'' c) (b64enc Std nonce) =
      Some (200, Some \<lparr>vrSignature = b64enc Std (edSign lib priv nonce), vrSessionToken = Some tok\<rparr>)"
    using assms(2, 3, 8, 9) tok unfolding assms(10) by (simp add: verifyServeHTTP_def SignMsg_def Let_def)
  then have "verifyRelay lib (Some nonce) respond now (setSt StateConnecting c) =
      (None, (setSt StateConnecting c)\<lparr>sessionToken := tok, sessionTokenIssued := now, sessionTokenTTL := 14400\<rparr>)"
    using assms(1, 4) ne by (simp add: verifyRelay_def VerifyMsg_def)
  then obtain c' where c: "Connect lib (Some nonce) respond timedOut now c = (None, c')"
    and t: "sessionToken c' = tok" "sessionTokenIssued c' = now" "sessionTokenTTL c' = 14400"
    by (auto simp: Connect_def resetDoHFailures_def)
  have "(\<exists>p. authorize lib (relayPubKey c) t r = Inr (p, ip)) \<longleftrightarrow> t \<le> now + 14400"
    if r: "rMethod r = ''POST''" "rAuthorization r = ''Bearer '' @ tok" "clientIP r = ip" for t r
    using token_admits [OF tok assms(1) assms(4-7) r(1) r(2), of t] r(3) assms(9) by simp
  moreover have "SessionTokenNeedsRefresh t c' \<longleftrightarrow> now + 14100 \<le> t" for t
    using t ne by (auto simp: SessionTokenNeedsRefresh_def)
  ultimately show ?thesis using c t(1) by blast
qed

lemma length_b64enc: "length (b64enc v bs) \<le> 2 * length bs + 4"
  by (induction v bs rule: b64enc.induct) (auto simp: Let_def)

definition handshakeReq :: request where
  "handshakeReq = \<lparr>rMethod = ''POST'', rRemoteAddr = ''1.2.3.4'', rAuthorization = [],
     rContentType = ''application/json'', rBody = bytesOf (b64enc Std (replicate 32 7))\<rparr>"

definition honestRelay :: "int \<Rightarrow> transport" where
  "honestRelay now u n = (case verifyServeHTTP toyLib (\<lambda>b. Some (stringOf b)) (replicate 64 0) (Some [1, 2]) now handshakeReq of
     Inl st \<Rightarrow> Some (st, None) | Inr vr \<Rightarrow> Some (200, Some vr))"

theorem handshake_then_admitted_witness:
  "\<exists>c'. Connect toyLib (Some (replicate 32 7)) (honestRelay 1000) False 1000 sampleClient = (None, c') \<and>
     SessionTokenNeedsRefresh 15100 c' \<and> \<not> SessionTokenNeedsRefresh 15000 c'"
proof -
  have ip: "clientIP handshakeReq = ''1.2.3.4''"
  proof -
    have "SplitHostPort ''1.2.3.4'' = None" by code_simp
    then show ?thesis by (simp add: clientIP_def handshakeReq_def)
  qed
  have len: "length (rBody handshakeReq) \<le> 1024"
    using length_b64enc [of Std "replicate 32 7"] by (simp add: handshakeReq_def bytesOf_def del: b64enc.simps)
  have req: "rMethod handshakeReq = ''POST'' \<and> rContentType handshakeReq = ''application/json'' \<and>
      Some (stringOf (take 1024 (rBody handshakeReq))) = Some (b64enc Std (replicate 32 7)) \<and> clientIP handshakeReq = ''1.2.3.4''"
  proof -
    have "take 1024 (rBody handshakeReq) = rBody handshakeReq" using len by simp
    then show ?thesis using ip by (simp add: handshakeReq_def del: b64enc.simps)
  qed
  have k: "length (relayPubKey sampleClient) = 32" "length (replicate 64 (0 :: byte)) = 64" "length (replicate 32 (7 :: byte)) = 32"
    "\<And>m. edVerify toyLib (relayPubKey sampleClient) m (edSign toyLib (replicate 64 0) m)"
    "\<And>m. edSign toyLib (replicate 64 0) m \<noteq> []" "\<And>p. marshalPayload toyLib p \<noteq> []"
    "\<And>n. unmarshalPayload toyLib (marshalPayload toyLib
        \<lparr>tokNonce = n, tokIPHash = ipHash toyLib ''1.2.3.4'', tokIssued = 1000, tokTTL = 14400\<rparr>) =
        Some \<lparr>tokNonce = n, tokIPHash = ipHash toyLib ''1.2.3.4'', tokIssued = 1000, tokTTL = 14400\<rparr>"
    by (simp_all add: sampleClient_def toyLib_def ipHash_def)
  have "''1.2.3.4'' \<noteq> []" by simp
  from handshake_then_admitted [where decodeNonce = "\<lambda>b. Some (stringOf b)" and c = sampleClient and lib = toyLib
      and priv = "replicate 64 0" and nonce = "replicate 32 7" and ip = "''1.2.3.4''" and now = 1000 and req = handshakeReq
      and respond = "honestRelay 1000" and rnd = "[1, 2]" and timedOut = False, OF k req this honestRelay_def]
  show ?thesis by auto
qed

text \<open>
  the token a request is about to use is good.  If \<^verbatim>\<open>EnsureSessionToken\<close> reports no error the
  token has not expired, except when a relay that verified sent none; if it reports one the token
  has expired.  While the breaker is open the relay is not asked at all, and it is open after any
  failure that follows four others without success.
\<close>

theorem ensured_token_is_valid:
  assumes "EnsureSessionToken lib rnd respond now c = (e, c')"
  shows "(e = None \<longrightarrow> \<not> SessionTokenExpired now c' \<or>
      (\<exists>nonce vr. rnd = Some nonce \<and> respond (relayURL ''/verify'' c) (b64enc Std nonce) = Some (200, Some vr) \<and>
         vrSessionToken vr \<in> {None, Some []})) \<and>
    (e \<noteq> None \<longrightarrow> SessionTokenExpired now c') \<and>
    (circuitOpen c \<and> now - circuitOpenedAt c < tokenCircuitBreakerPause \<longrightarrow> c' = c) \<and>
    (\<not> circuitOpen c \<and> refreshFailures c' = refreshFailures c + 1 \<and> 4 \<le> refreshFailures c \<longrightarrow>
       circuitOpen c' \<and> circuitOpenedAt c' = now)"
proof -
  have fresh: "\<not> SessionTokenExpired now d" if "\<not> SessionTokenNeedsRefresh now d" for d
    using that by (auto simp: SessionTokenNeedsRefresh_def SessionTokenExpired_def split: if_splits)
  have exp: "SessionTokenExpired now (d\<lparr>refreshFailures := a, refreshBackoff := b\<rparr>) = SessionTokenExpired now d"
    "SessionTokenExpired now (d\<lparr>refreshFailures := a, refreshBackoff := b, circuitOpen := x, circuitOpenedAt := y\<rparr>) = SessionTokenExpired now d"
    "SessionTokenExpired now (d\<lparr>circuitOpen := x, refreshFailures := a, refreshBackoff := b\<rparr>) = SessionTokenExpired now d"
    for d a b x y by (simp_all add: SessionTokenExpired_def)
  consider (unneeded) "\<not> SessionTokenNeedsRefresh now c"
    | (tripped) "SessionTokenNeedsRefresh now c" "circuitOpen c \<and> now - circuitOpenedAt c < tokenCircuitBreakerPause"
    | (ask) "SessionTokenNeedsRefresh now c" "\<not> (circuitOpen c \<and> now - circuitOpenedAt c < tokenCircuitBreakerPause)"
    by blast
  then show ?thesis
  proof cases
    case unneeded
    then show ?thesis using assms fresh by (auto simp: EnsureSessionToken_def)
  next
    case tripped
    then show ?thesis using assms
      by (auto simp: EnsureSessionToken_def RefreshSessionToken_def split: if_splits)
  next
    case ask
    let ?c1 = "if circuitOpen c then c\<lparr>circuitOpen := False, refreshFailures := 0, refreshBackoff := 0\<rparr> else c"
    have n: "SessionTokenNeedsRefresh now ?c1" using ask(1) by (simp add: SessionTokenNeedsRefresh_def)
    have u: "relayURL ''/verify'' ?c1 = relayURL ''/verify'' c" by (simp add: relayURL_def)
    obtain e2 c2 where v: "verifyRelay lib rnd respond now ?c1 = (e2, c2)" by fastforce
    show ?thesis
    proof (cases e2)
      case None
      have r: "e = None \<and> c' = c2\<lparr>refreshFailures := 0, refreshBackoff := 0\<rparr>"
        using assms ask n v None unfolding EnsureSessionToken_def RefreshSessionToken_def Let_def by auto
      obtain nonce vr where w: "rnd = Some nonce" "respond (relayURL ''/verify'' c) (b64enc Std nonce) = Some (200, Some vr)"
        "c2 = (case vrSessionToken vr of None \<Rightarrow> ?c1 | Some tok \<Rightarrow>
          if tok = [] then ?c1 else ?c1\<lparr>sessionToken := tok, sessionTokenIssued := now, sessionTokenTTL := 14400\<rparr>)"
        using verifyRelay_ok [OF v [unfolded None]] u by auto
      have "\<not> SessionTokenExpired now c2 \<or> vrSessionToken vr \<in> {None, Some []}"
        unfolding w(3) by (cases "vrSessionToken vr") (auto simp: SessionTokenExpired_def)
      then have "\<not> SessionTokenExpired now c' \<or> (\<exists>nonce vr. rnd = Some nonce \<and>
          respond (relayURL ''/verify'' c) (b64enc Std nonce) = Some (200, Some vr) \<and> vrSessionToken vr \<in> {None, Some []})"
        using r w(1, 2) exp(1) by blast
      then show ?thesis using r ask(2) by (intro conjI impI) simp_all
    next
      case (Some x)
      have "c2 = ?c1" by (rule verifyRelay_err [OF v [unfolded Some]])
      then show ?thesis
        using assms ask n v Some unfolding EnsureSessionToken_def RefreshSessionToken_def Let_def
        by (auto simp: exp split: if_splits)
    qed
  qed
qed

theorem ensured_token_is_valid_witness:
  "\<exists>c'. EnsureSessionToken toyLib (Some [1, 2])
      (\<lambda>u n. Some (200, Some \<lparr>vrSignature = b64enc Std [2, 1, 1], vrSessionToken = Some ''t''\<rparr>)) 5 sampleClient = (None, c') \<and>
     \<not> SessionTokenExpired 5 c'"
proof -
  let ?resp = "\<lambda>u n. Some (200, Some \<lparr>vrSignature = b64enc Std [2, 1, 1], vrSessionToken = Some ''t''\<rparr>)"
  obtain e c' where c: "EnsureSessionToken toyLib (Some [1, 2]) ?resp 5 sampleClient = (e, c')" by fastforce
  have "e = None"
    using c by (auto simp: EnsureSessionToken_def RefreshSessionToken_def SessionTokenNeedsRefresh_def verifyRelay_def
        VerifyMsg_def toyLib_def sampleClient_def simp del: b64enc.simps)
  with ensured_token_is_valid [OF c] c show ?thesis by auto
qed

end
