(* ===== verification/Failover.thy ===== *)
theory Failover
  imports Discovery Client
begin

text \<open>
  Failover between relays, \<^verbatim>\<open>internal/registry/failover.go\<close>: first the other relays of the current
  country, then the other countries by median latency, and back to the original relay when all
  fail.  The client it drives is an interface (\<^verbatim>\<open>RelayUpdater\<close> and the connect function), which the
  theory Client provides.
\<close>

section \<open>The order of the countries\<close>

text \<open>The key the countries are sorted by: known medians first, unknown ones by code.\<close>

datatype medianRank = KnownMedian int | UnknownMedian string

instantiation medianRank :: linorder
begin

fun less_eq_medianRank :: "medianRank \<Rightarrow> medianRank \<Rightarrow> bool" where
  "less_eq_medianRank (KnownMedian a) (KnownMedian b) = (a \<le> b)"
| "less_eq_medianRank (KnownMedian a) (UnknownMedian d) = True"
| "less_eq_medianRank (UnknownMedian c) (KnownMedian b) = False"
| "less_eq_medianRank (UnknownMedian c) (UnknownMedian d) = (c \<le> d)"

definition less_medianRank :: "medianRank \<Rightarrow> medianRank \<Rightarrow> bool" where
  "less_medianRank x y \<longleftrightarrow> x \<le> y \<and> \<not> y \<le> x"

instance
proof
  fix x y z :: medianRank
  show "x < y \<longleftrightarrow> x \<le> y \<and> \<not> y \<le> x" by (simp add: less_medianRank_def)
  show "x \<le> x" by (cases x) auto
  show "x \<le> y \<Longrightarrow> y \<le> z \<Longrightarrow> x \<le> z" by (cases x; cases y; cases z) auto
  show "x \<le> y \<Longrightarrow> y \<le> x \<Longrightarrow> x = y" by (cases x; cases y) auto
  show "x \<le> y \<or> y \<le> x" by (cases x; cases y) auto
qed

end

definition medianLatency :: "(string \<Rightarrow> int) \<Rightarrow> relayEntry list \<Rightarrow> int option" where
  "medianLatency latencyFor pool =
     (let ls = sort (filter (\<lambda>l. l > 0) (map (\<lambda>r. latencyFor (reID r)) pool)); mid = length ls div 2 in
      if ls = [] then None
      else if length ls mod 2 = 1 then Some (ls ! mid)
      else Some ((ls ! (mid - 1) + ls ! mid) div 2))"

definition rankOf :: "(string \<Rightarrow> int) \<Rightarrow> relayEntry list \<Rightarrow> string \<Rightarrow> medianRank" where
  "rankOf latencyFor relays code =
     (case medianLatency latencyFor (RelaysByCountry relays code) of
        Some m \<Rightarrow> KnownMedian m | None \<Rightarrow> UnknownMedian code)"

definition sortedAlternateCountries :: "(string \<Rightarrow> int) \<Rightarrow> relayEntry list \<Rightarrow> string \<Rightarrow> string list" where
  "sortedAlternateCountries latencyFor relays cur =
     sort_key (rankOf latencyFor relays)
       (filter (\<lambda>code. \<not> (code = cur \<or> code = [] \<or> code = ''unknown'')) (remdups (map countryOf relays)))"

section \<open>The manager\<close>

record failoverResult =
  frCountry :: string
  frRelayID :: string
  frCross :: bool

record failoverManager =
  fmCurrent :: string
  fmPreferred :: string

fun tryPool ::
  "(string \<Rightarrow> string \<Rightarrow> 'c \<Rightarrow> 'e option \<times> 'c) \<Rightarrow> ('c \<Rightarrow> 'e option \<times> 'c) \<Rightarrow> relayEntry list \<Rightarrow> string \<Rightarrow> bool \<Rightarrow>
     failoverManager \<Rightarrow> 'c \<Rightarrow> failoverResult option \<times> failoverManager \<times> 'c" where
  "tryPool upd conn [] country cross fm c = (None, fm, c)"
| "tryPool upd conn (r # rs) country cross fm c =
     (if reID r = fmCurrent fm then tryPool upd conn rs country cross fm c
      else case upd (reDomain r) (rePublicKey r) c of
        (Some _, c1) \<Rightarrow> tryPool upd conn rs country cross fm c1
      | (None, c1) \<Rightarrow>
          (case conn c1 of
             (Some _, c2) \<Rightarrow> tryPool upd conn rs country cross fm c2
           | (None, c2) \<Rightarrow>
               (Some \<lparr>frCountry = (if country = [] then ExtractCountryCode (reID r) (reDomain r) else country),
                      frRelayID = reID r, frCross = cross\<rparr>,
                fm\<lparr>fmCurrent := reID r\<rparr>, c2)))"

fun tryCountries ::
  "(string \<Rightarrow> string \<Rightarrow> 'c \<Rightarrow> 'e option \<times> 'c) \<Rightarrow> ('c \<Rightarrow> 'e option \<times> 'c) \<Rightarrow> relayEntry list \<Rightarrow> string list \<Rightarrow>
     failoverManager \<Rightarrow> 'c \<Rightarrow> failoverResult option \<times> failoverManager \<times> 'c" where
  "tryCountries upd conn relays [] fm c = (None, fm, c)"
| "tryCountries upd conn relays (code # codes) fm c =
     (case tryPool upd conn (RelaysByCountry relays code) code True fm c of
        (Some res, fm1, c1) \<Rightarrow> (Some res, fm1, c1)
      | (None, fm1, c1) \<Rightarrow> tryCountries upd conn relays codes fm1 c1)"

definition originalRelay :: "relayEntry list \<Rightarrow> failoverManager \<Rightarrow> relayEntry option" where
  "originalRelay relays fm = List.find (\<lambda>r. reID r = fmCurrent fm) relays"

definition currentCountry :: "relayEntry list \<Rightarrow> failoverManager \<Rightarrow> string" where
  "currentCountry relays fm =
     (let code = (case originalRelay relays fm of None \<Rightarrow> ExtractCountryCode [] []
                  | Some r \<Rightarrow> ExtractCountryCode (reID r) (reDomain r))
      in if code = [] then fmPreferred fm else code)"

definition restoreOriginal ::
  "(string \<Rightarrow> string \<Rightarrow> 'c \<Rightarrow> 'e option \<times> 'c) \<Rightarrow> relayEntry list \<Rightarrow> failoverManager \<Rightarrow> 'c \<Rightarrow> 'c" where
  "restoreOriginal upd relays fm c =
     (case originalRelay relays fm of
        None \<Rightarrow> c
      | Some r \<Rightarrow> if reDomain r \<noteq> [] then snd (upd (reDomain r) (rePublicKey r) c) else c)"

definition HandleFailover ::
  "(string \<Rightarrow> string \<Rightarrow> 'c \<Rightarrow> 'e option \<times> 'c) \<Rightarrow> ('c \<Rightarrow> 'e option \<times> 'c) \<Rightarrow> relayEntry list \<Rightarrow> (string \<Rightarrow> int) \<Rightarrow>
     failoverManager \<Rightarrow> 'c \<Rightarrow> failoverResult option \<times> failoverManager \<times> 'c" where
  \<comment> \<open>\<open>None\<close> is \<^verbatim>\<open>ErrNoAlternativeRelay\<close>\<close>
  "HandleFailover upd conn relays latencyFor fm c =
     (if length relays \<le> 1 then (None, fm, c)
      else
        let cur = currentCountry relays fm in
        if cur \<noteq> [] then
          (case tryPool upd conn (RelaysByCountry relays cur) cur False fm c of
             (Some res, fm1, c1) \<Rightarrow> (Some res, fm1, c1)
           | (None, fm1, c1) \<Rightarrow>
               (case tryCountries upd conn relays (sortedAlternateCountries latencyFor relays cur) fm1 c1 of
                  (Some res, fm2, c2) \<Rightarrow> (Some res, fm2, c2)
                | (None, fm2, c2) \<Rightarrow> (None, fm2, restoreOriginal upd relays fm c2)))
        else
          (case tryPool upd conn relays [] False fm c of
             (Some res, fm1, c1) \<Rightarrow> (Some res, fm1, c1)
           | (None, fm1, c1) \<Rightarrow> (None, fm1, restoreOriginal upd relays fm c1)))"

section \<open>The client interface\<close>

locale relay_updater =
  fixes upd :: "string \<Rightarrow> string \<Rightarrow> 'c \<Rightarrow> 'e option \<times> 'c" and conn :: "'c \<Rightarrow> 'e option \<times> 'c"
    and points :: "'c \<Rightarrow> string \<Rightarrow> string \<Rightarrow> bool" and up :: "'c \<Rightarrow> bool"
  assumes upd_ok: "fst (upd d k c) = None \<Longrightarrow> points (snd (upd d k c)) d k"
    and upd_err: "fst (upd d k c) \<noteq> None \<Longrightarrow> snd (upd d k c) = c"
    and upd_fixed: "fst (upd d k c) = None \<longleftrightarrow> fst (upd d k c') = None"
    and conn_points: "points (snd (conn c)) d k \<longleftrightarrow> points c d k"
    and conn_ok: "fst (conn c) = None \<Longrightarrow> up (snd (conn c))"
begin

definition reachable :: "relayEntry \<Rightarrow> bool" where
  \<comment> \<open>whoever points the client at this relay gets connected\<close>
  "reachable r \<longleftrightarrow> (\<forall>c. fst (upd (reDomain r) (rePublicKey r) c) = None \<and>
     fst (conn (snd (upd (reDomain r) (rePublicKey r) c))) = None)"

lemma tryPool_some:
  "tryPool upd conn pool country cross fm c = (Some res, fm', c') \<Longrightarrow>
     \<exists>r\<in>set pool. reID r = frRelayID res \<and> reID r \<noteq> fmCurrent fm \<and> points c' (reDomain r) (rePublicKey r) \<and> up c' \<and>
       fmCurrent fm' = reID r \<and> frCross res = cross"
proof (induction pool arbitrary: c)
  case (Cons r rs)
  obtain e1 c1 where u: "upd (reDomain r) (rePublicKey r) c = (e1, c1)" by fastforce
  obtain e2 c2 where k: "conn c1 = (e2, c2)" by fastforce
  have p: "points c2 (reDomain r) (rePublicKey r) \<and> up c2" if "e1 = None" "e2 = None"
    using upd_ok [of "reDomain r" "rePublicKey r" c] conn_points [of c1] conn_ok [of c1] u k that by simp
  have "tryPool upd conn rs country cross fm x = (Some res, fm', c') \<Longrightarrow> ?case" for x
    using Cons.IH by fastforce
  then show ?case using Cons.prems u k p by (cases e1; cases e2) (auto split: if_splits)
qed simp

lemma tryPool_none:
  "tryPool upd conn pool country cross fm c = (None, fm', c') \<Longrightarrow>
     fm' = fm \<and> (\<forall>r\<in>set pool. reachable r \<longrightarrow> reID r = fmCurrent fm)"
proof (induction pool arbitrary: c)
  case (Cons r rs)
  obtain e1 c1 where u: "upd (reDomain r) (rePublicKey r) c = (e1, c1)" by fastforce
  obtain e2 c2 where k: "conn c1 = (e2, c2)" by fastforce
  have n: "\<not> reachable r" if "e1 \<noteq> None \<or> e2 \<noteq> None"
    using that u k unfolding reachable_def by (metis fst_conv snd_conv)
  have "tryPool upd conn rs country cross fm x = (None, fm', c') \<Longrightarrow>
      fm' = fm \<and> (\<forall>r\<in>set rs. reachable r \<longrightarrow> reID r = fmCurrent fm)" for x
    using Cons.IH by blast
  then show ?case using Cons.prems u k n by (cases e1; cases e2) (auto split: if_splits)
qed simp

lemma tryCountries_some:
  "tryCountries upd conn relays codes fm c = (Some res, fm', c') \<Longrightarrow>
     \<exists>r\<in>set relays. countryOf r \<in> set codes \<and> reID r = frRelayID res \<and> reID r \<noteq> fmCurrent fm \<and>
       points c' (reDomain r) (rePublicKey r) \<and> up c' \<and> fmCurrent fm' = reID r \<and> frCross res"
proof (induction codes arbitrary: c fm)
  case (Cons code codes)
  obtain res1 fm1 c1 where t: "tryPool upd conn (RelaysByCountry relays code) code True fm c = (res1, fm1, c1)"
    by (metis prod.exhaust)
  show ?case
  proof (cases res1)
    case None
    then show ?thesis using Cons.prems t tryPool_none [OF t [unfolded None]] Cons.IH [of fm1 c1] by auto
  next
    case (Some x)
    then show ?thesis using Cons.prems t tryPool_some [OF t [unfolded Some]] by (auto simp: RelaysByCountry_def)
  qed
qed simp

lemma tryCountries_none:
  "tryCountries upd conn relays codes fm c = (None, fm', c') \<Longrightarrow>
     fm' = fm \<and> (\<forall>r\<in>set relays. countryOf r \<in> set codes \<and> reachable r \<longrightarrow> reID r = fmCurrent fm)"
proof (induction codes arbitrary: c fm)
  case (Cons code codes)
  obtain res1 fm1 c1 where t: "tryPool upd conn (RelaysByCountry relays code) code True fm c = (res1, fm1, c1)"
    by (metis prod.exhaust)
  show ?case
  proof (cases res1)
    case None
    then show ?thesis using Cons.prems t tryPool_none [OF t [unfolded None]] Cons.IH [of fm1 c1]
      by (auto simp: RelaysByCountry_def)
  next
    case (Some x)
    then show ?thesis using Cons.prems t by simp
  qed
qed simp

lemma upd_points: "fst (upd d k c0) = None \<Longrightarrow> points (snd (upd d k c)) d k"
  using upd_fixed [of d k c0 c] upd_ok [of d k c] by simp

lemma restoreOriginal_points:
  assumes "originalRelay relays fm = Some r" "reDomain r \<noteq> []" "fst (upd (reDomain r) (rePublicKey r) c0) = None"
  shows "points (restoreOriginal upd relays fm c) (reDomain r) (rePublicKey r)"
  using assms upd_points by (simp add: restoreOriginal_def)

lemma HandleFailover_some:
  assumes "HandleFailover upd conn relays lat fm c = (Some res, fm', c')"
  shows "\<exists>r\<in>set relays. reID r = frRelayID res \<and> reID r \<noteq> fmCurrent fm \<and> points c' (reDomain r) (rePublicKey r) \<and> up c' \<and>
    fmCurrent fm' = reID r \<and> (frCross res \<longrightarrow> countryOf r \<noteq> currentCountry relays fm \<and>
      (\<forall>q\<in>set relays. countryOf q = currentCountry relays fm \<and> reachable q \<longrightarrow> reID q = fmCurrent fm))"
proof (cases "currentCountry relays fm = []")
  case True
  obtain res1 fm1 c1 where t: "tryPool upd conn relays [] False fm c = (res1, fm1, c1)" by (metis prod.exhaust)
  have "res1 = Some res" "fm1 = fm'" "c1 = c'"
    using assms True t by (auto simp: HandleFailover_def split: if_splits option.splits)
  then show ?thesis using tryPool_some t by fastforce
next
  case False
  let ?cur = "currentCountry relays fm"
  obtain res1 fm1 c1 where t: "tryPool upd conn (RelaysByCountry relays ?cur) ?cur False fm c = (res1, fm1, c1)"
    by (metis prod.exhaust)
  show ?thesis
  proof (cases res1)
    case (Some x)
    then have "x = res" "fm1 = fm'" "c1 = c'" using assms False t by (auto simp: HandleFailover_def split: if_splits)
    then show ?thesis using tryPool_some [OF t [unfolded Some]] by (auto simp: RelaysByCountry_def)
  next
    case None
    note n = tryPool_none [OF t [unfolded None]]
    obtain res2 fm2 c2 where u: "tryCountries upd conn relays (sortedAlternateCountries lat relays ?cur) fm1 c1 = (res2, fm2, c2)"
      by (metis prod.exhaust)
    have e: "res2 = Some res" "fm2 = fm'" "c2 = c'"
      using assms False t None u by (auto simp: HandleFailover_def Let_def split: if_splits option.splits)
    obtain r where r: "r \<in> set relays" "countryOf r \<in> set (sortedAlternateCountries lat relays ?cur)" "reID r = frRelayID res"
      "reID r \<noteq> fmCurrent fm" "points c' (reDomain r) (rePublicKey r)" "up c'" "fmCurrent fm' = reID r"
      using tryCountries_some [OF u [unfolded e]] n by blast
    have "countryOf r \<noteq> ?cur" using r(2) by (auto simp: sortedAlternateCountries_def)
    then show ?thesis using r n by (auto simp: RelaysByCountry_def)
  qed
qed

lemma HandleFailover_none:
  assumes "HandleFailover upd conn relays lat fm c = (None, fm', c')" "1 < length relays"
  shows "fm' = fm \<and> (\<exists>c0. c' = restoreOriginal upd relays fm c0) \<and>
    (\<forall>q\<in>set relays. reachable q \<and> reID q \<noteq> fmCurrent fm \<longrightarrow>
       currentCountry relays fm \<noteq> [] \<and> countryOf q = ''unknown'' \<and> currentCountry relays fm \<noteq> ''unknown'')"
proof (cases "currentCountry relays fm = []")
  case True
  obtain res1 fm1 c1 where t: "tryPool upd conn relays [] False fm c = (res1, fm1, c1)" by (metis prod.exhaust)
  have "res1 = None" "fm1 = fm'" "c' = restoreOriginal upd relays fm c1"
    using assms True t by (auto simp: HandleFailover_def split: if_splits option.splits)
  then show ?thesis using tryPool_none t by blast
next
  case False
  let ?cur = "currentCountry relays fm"
  let ?codes = "sortedAlternateCountries lat relays ?cur"
  obtain res1 fm1 c1 where t: "tryPool upd conn (RelaysByCountry relays ?cur) ?cur False fm c = (res1, fm1, c1)"
    by (metis prod.exhaust)
  have n1: "res1 = None" using assms False t by (auto simp: HandleFailover_def Let_def split: if_splits option.splits)
  note n = tryPool_none [OF t [unfolded n1]]
  obtain res2 fm2 c2 where u: "tryCountries upd conn relays ?codes fm1 c1 = (res2, fm2, c2)" by (metis prod.exhaust)
  have e: "res2 = None" "fm2 = fm'" "c' = restoreOriginal upd relays fm c2"
    using assms False t n1 u by (auto simp: HandleFailover_def Let_def split: if_splits option.splits)
  note m = tryCountries_none [OF u [unfolded e(1)]]
  have codes: "countryOf q \<in> set ?codes \<longleftrightarrow> countryOf q \<noteq> ?cur \<and> countryOf q \<noteq> ''unknown''" if "q \<in> set relays" for q
    using that by (auto simp: sortedAlternateCountries_def countryOf_def Let_def)
  have "?cur \<noteq> [] \<and> countryOf q = ''unknown'' \<and> ?cur \<noteq> ''unknown''"
    if q: "q \<in> set relays" "reachable q" "reID q \<noteq> fmCurrent fm" for q
  proof -
    have "countryOf q \<noteq> ?cur" using q n by (auto simp: RelaysByCountry_def)
    moreover have "countryOf q \<notin> set ?codes" using q m n by auto
    ultimately show ?thesis using codes [OF q(1)] False by auto
  qed
  then show ?thesis using e m n by blast
qed

end

section \<open>The tunnel client as the updater\<close>

definition pointsAt :: "client \<Rightarrow> string \<Rightarrow> string \<Rightarrow> bool" where
  "pointsAt c d k \<longleftrightarrow> relayDomain c = d \<and> ImportPublicKeyBase64 k = Some (relayPubKey c)"

definition connected :: "client \<Rightarrow> bool" where
  "connected c \<longleftrightarrow> GetState (cState c) = StateConnected"

lemma verifyRelay_target:
  assumes "verifyRelay lib rnd respond now c = (e, c')"
  shows "relayDomain c' = relayDomain c \<and> relayPubKey c' = relayPubKey c \<and> relayIP c' = relayIP c"
  using assms by (auto simp: verifyRelay_def split: option.splits if_splits prod.splits)

lemma Connect_target:
  "relayDomain (snd (Connect lib rnd respond t now c)) = relayDomain c \<and>
   relayPubKey (snd (Connect lib rnd respond t now c)) = relayPubKey c"
proof -
  obtain e1 c1 where v: "verifyRelay lib rnd respond now (setSt StateConnecting c) = (e1, c1)" by fastforce
  show ?thesis using verifyRelay_target [OF v] v
    by (cases e1) (simp_all add: Connect_def setSt_def startHeartbeat_def resetDoHFailures_def)
qed

lemma Connect_connected:
  assumes "fst (Connect lib rnd respond t now c) = None"
  shows "connected (snd (Connect lib rnd respond t now c))"
proof -
  obtain e1 c1 where v: "verifyRelay lib rnd respond now (setSt StateConnecting c) = (e1, c1)" by fastforce
  then show ?thesis using assms by (cases e1) (simp_all add: Connect_def connected_def)
qed

interpretation tc: relay_updater "UpdateRelay lookupIP" "Connect lib rnd respond timedOut now" pointsAt connected
  for lookupIP lib rnd respond timedOut now
  by unfold_locales
    (auto simp: UpdateRelay_def pointsAt_def Connect_target Connect_connected split: option.splits)

section \<open>Properties\<close>

definition answersVerify ::
  "(string \<Rightarrow> bytes list option) \<Rightarrow> cryptoLib \<Rightarrow> bytes option \<Rightarrow> transport \<Rightarrow> relayEntry \<Rightarrow> bool" where
  \<comment> \<open>the relay resolves and signs this attempt's nonce under the key of its entry\<close>
  "answersVerify lookupIP lib rnd respond r \<longleftrightarrow>
     (\<exists>k ip nonce vr sig. ImportPublicKeyBase64 (rePublicKey r) = Some k \<and> resolveRelayIP lookupIP (reDomain r) = Some ip \<and>
        rnd = Some nonce \<and>
        (\<forall>c. relayIP c = ip \<longrightarrow> respond (relayURL ''/verify'' c) (b64enc Std nonce) = Some (200, Some vr)) \<and>
        b64decode Std (vrSignature vr) = Some sig \<and> VerifyMsg lib k nonce sig)"

lemma answersVerify_reachable:
  assumes "answersVerify lookupIP lib rnd respond r"
  shows "tc.reachable lookupIP lib rnd respond timedOut now r"
proof -
  obtain k ip nonce vr sig where a: "ImportPublicKeyBase64 (rePublicKey r) = Some k" "resolveRelayIP lookupIP (reDomain r) = Some ip"
    "rnd = Some nonce" "\<forall>c. relayIP c = ip \<longrightarrow> respond (relayURL ''/verify'' c) (b64enc Std nonce) = Some (200, Some vr)"
    "b64decode Std (vrSignature vr) = Some sig" "VerifyMsg lib k nonce sig"
    using assms unfolding answersVerify_def by blast
  have "fst (UpdateRelay lookupIP (reDomain r) (rePublicKey r) c) = None \<and>
      fst (Connect lib rnd respond timedOut now (snd (UpdateRelay lookupIP (reDomain r) (rePublicKey r) c))) = None" for c
  proof -
    let ?c = "c\<lparr>relayDomain := reDomain r, relayIP := ip, relayPubKey := k\<rparr>"
    have u: "UpdateRelay lookupIP (reDomain r) (rePublicKey r) c = (None, ?c)" using a(1, 2) by (simp add: UpdateRelay_def)
    have "respond (relayURL ''/verify'' ?c) (b64enc Std nonce) = Some (200, Some vr)" using a(4) by simp
    then have "fst (verifyRelay lib rnd respond now (setSt StateConnecting ?c)) = None"
      using a(3, 5, 6) by (simp add: verifyRelay_def split: option.split)
    then have "fst (Connect lib rnd respond timedOut now ?c) = None"
      by (cases "verifyRelay lib rnd respond now (setSt StateConnecting ?c)") (simp add: Connect_def)
    then show ?thesis using u by simp
  qed
  then show ?thesis by (simp add: tc.reachable_def)
qed


definition plainRelay :: "string \<Rightarrow> string \<Rightarrow> relayEntry" where
  "plainRelay i d = \<lparr>reID = i, reDomain = d, rePublicKey = b64enc Std (replicate 32 0), reSignature = [], reAdded = 0\<rparr>"


end
