(* ===== verification/Versions.thy ===== *)
theory Versions
  imports Go_Strings "HOL-Library.Product_Lexorder" "HOL-Library.List_Lexorder"
begin

text \<open>
  Release versions, \<^verbatim>\<open>compareVersions\<close> of \<^verbatim>\<open>internal/updater/checker.go\<close>, with the linear order
  that it decides.
\<close>

section \<open>Parsing\<close>

definition Atoi :: "string \<Rightarrow> int option" where
  \<comment> \<open>\<^verbatim>\<open>strconv.Atoi\<close> with its sign and its range\<close>
  "Atoi s =
     (let neg = HasPrefix s ''-''; ds = (if neg \<or> HasPrefix s ''+'' then drop 1 s else s) in
      if ds = [] \<or> \<not> list_all isDigit ds then None
      else let n = int (readDigits ds) in
        if neg then (if n \<le> 2 ^ 63 then Some (- n) else None)
        else if n < 2 ^ 63 then Some n else None)"

definition SplitN :: "nat \<Rightarrow> char \<Rightarrow> string \<Rightarrow> string list" where
  \<comment> \<open>\<^verbatim>\<open>strings.SplitN\<close> by one character, for a positive limit\<close>
  "SplitN n c s =
     (let ws = splitOn c s in
      if length ws \<le> n then ws else take (n - 1) ws @ [joinWith [c] (drop (n - 1) ws)])"

datatype parsedVersion = Version int int int string

fun parseSegs :: "string list \<Rightarrow> (int list \<times> string) option" where
  \<comment> \<open>the numbers and the pre-release suffix of the last segment; \<open>None\<close> for a malformed version\<close>
  "parseSegs [] = Some ([], [])"
| "parseSegs [seg] =
     (let (num, pre) = (case IndexByte seg CHR ''-'' of None \<Rightarrow> (seg, []) | Some i \<Rightarrow> (take i seg, drop (i + 1) seg)) in
      case Atoi num of None \<Rightarrow> None | Some n \<Rightarrow> Some ([n], pre))"
| "parseSegs (seg # seg' # segs) =
     (case Atoi seg of None \<Rightarrow> None
      | Some n \<Rightarrow> (case parseSegs (seg' # segs) of None \<Rightarrow> None | Some (ns, pre) \<Rightarrow> Some (n # ns, pre)))"

definition parseVersion :: "string \<Rightarrow> parsedVersion" where
  "parseVersion v =
     (case parseSegs (SplitN 3 CHR ''.'' (TrimPrefix v ''v'')) of
        None \<Rightarrow> Version 0 0 0 []
      | Some (ns, pre) \<Rightarrow>
          let ms = ns @ [0, 0, 0] in Version (ms ! 0) (ms ! 1) (ms ! 2) pre)"

section \<open>The comparison\<close>

definition compareVersions :: "string \<Rightarrow> string \<Rightarrow> int" where
  "compareVersions current latest =
     (case (parseVersion current, parseVersion latest) of
        (Version c0 c1 c2 cp, Version l0 l1 l2 lp) \<Rightarrow>
          if c0 < l0 then -1 else if c0 > l0 then 1
          else if c1 < l1 then -1 else if c1 > l1 then 1
          else if c2 < l2 then -1 else if c2 > l2 then 1
          else if cp \<noteq> [] \<and> lp = [] then -1
          else if cp = [] \<and> lp \<noteq> [] then 1
          else if cp \<noteq> [] \<and> lp \<noteq> [] then (if cp < lp then -1 else if cp > lp then 1 else 0)
          else 0)"

text \<open>
  The order of the versions: by the numbers, a pre-release before its release (\<open>False < True\<close>),
  pre-releases by their text.
\<close>

fun versionKey :: "parsedVersion \<Rightarrow> int \<times> int \<times> int \<times> bool \<times> string" where
  "versionKey (Version a b c p) = (a, b, c, p = [], p)"

lemma versionKey_inject [simp]: "versionKey v = versionKey w \<longleftrightarrow> v = w"
  by (cases v; cases w) auto

instantiation parsedVersion :: linorder
begin

definition less_eq_parsedVersion :: "parsedVersion \<Rightarrow> parsedVersion \<Rightarrow> bool" where
  "v \<le> w \<longleftrightarrow> versionKey v \<le> versionKey w"

definition less_parsedVersion :: "parsedVersion \<Rightarrow> parsedVersion \<Rightarrow> bool" where
  "v < w \<longleftrightarrow> versionKey v < versionKey w"

instance
  proof
  fix v w x :: parsedVersion
  show "v < w \<longleftrightarrow> v \<le> w \<and> \<not> w \<le> v"
    unfolding less_eq_parsedVersion_def less_parsedVersion_def by (rule less_le_not_le)
  show "v \<le> v" by (simp add: less_eq_parsedVersion_def)
  show "v \<le> w \<Longrightarrow> w \<le> x \<Longrightarrow> v \<le> x" unfolding less_eq_parsedVersion_def by (rule order_trans)
  show "v \<le> w \<Longrightarrow> w \<le> v \<Longrightarrow> v = w" unfolding less_eq_parsedVersion_def using order_antisym by fastforce
  show "v \<le> w \<or> w \<le> v" unfolding less_eq_parsedVersion_def by (rule linear)
qed

end

lemma compareVersions_order:
  "compareVersions a b =
     (if parseVersion a < parseVersion b then -1 else if parseVersion a = parseVersion b then 0 else 1)"
  by (cases "parseVersion a"; cases "parseVersion b")
    (auto simp: compareVersions_def less_parsedVersion_def)

lemma compareVersions_less: "compareVersions a b < 0 \<longleftrightarrow> parseVersion a < parseVersion b"
  by (simp add: compareVersions_order)

lemma compareVersions_ge: "compareVersions a b \<ge> 0 \<longleftrightarrow> parseVersion b \<le> parseVersion a"
  by (auto simp: compareVersions_order)

lemma compareVersions_le: "compareVersions a b \<le> 0 \<longleftrightarrow> parseVersion a \<le> parseVersion b"
  by (auto simp: compareVersions_order)

end
