(* ===== verification/Updater.thy ===== *)
theory Updater
  imports Tokens Versions
begin

text \<open>
  The automatic update, \<^verbatim>\<open>internal/updater\<close> and its use in \<^verbatim>\<open>linux/internal/service/service.go\<close>:
  the check for a release (\<^verbatim>\<open>checker.go\<close>), the download (\<^verbatim>\<open>downloader.go\<close>), the verification
  (\<^verbatim>\<open>verify.go\<close>), the cycle (\<^verbatim>\<open>updater.go\<close>), the installation and the rollback
  (\<^verbatim>\<open>installer.go\<close>, \<^verbatim>\<open>rollback.go\<close>).

  The staging directory is a map from file names to contents; the temporary files of the atomic
  writes are never read and left out.  What each system call and each request answers comes from
  \<open>updAnswers\<close>.  The URL parser and the JSON codecs are fields of \<open>updEnv\<close>.
\<close>

section \<open>State and environment\<close>

type_synonym dir = "string \<rightharpoonup> bytes"

datatype updError =
    CheckFailed | CheckStatus nat | ParseRelease | MissingAsset string | PackageManaged | DowngradeRejected
  | StateRead string | StateClear string | DownloadFailed | OpenChecksums | NoMatchingChecksum | HashFailed
  | ChecksumMismatch | ReadSignature | SignatureSize nat | SignatureInvalid | PersistFailed | NoStagedUpdate
  | ContextDone | ReadOnlyTarget | BackupFailed | CopyFailed | RestoreFailed | NewBinaryMissing | NewBinaryEmpty | NotExecutable

record githubRelease =
  ghTag :: string
  ghBody :: string
  ghAssets :: "(string \<times> string) list"

record releaseInfo =
  riVersion :: string
  riDownload :: string
  riChecksum :: string
  riSignature :: string
  riNotes :: string

record stagedUpdate =
  suBinary :: string
  suChecksum :: string
  suSignature :: string
  suVersion :: string

record updEnv =
  ueLib :: cryptoLib
  ueKey64 :: string
  ueGoos :: string
  ueGoarch :: string
  ueExePath :: string
  ueAllowPackaged :: bool
  ueMaxRetries :: int
  ueParseURL :: "string \<Rightarrow> (string \<times> string \<times> string) option"
  ueRelease :: "bytes \<Rightarrow> githubRelease option"
  ueMarshalRS :: "bool \<times> string \<Rightarrow> bytes"
  ueUnmarshalRS :: "bytes \<Rightarrow> (bool \<times> string) option"

record updAnswers =
  uaLatest :: "(nat \<times> bytes option) option"
  uaGet :: "string \<Rightarrow> (string \<times> string) list \<times> (nat \<times> bytes \<times> bool) option"
  uaRead :: "string \<Rightarrow> bool"
  uaWrite :: "string \<Rightarrow> bool"
  uaRename :: "string \<Rightarrow> bool list"
  uaRemove :: "string \<Rightarrow> bool"
  uaContext :: bool
  uaWritable :: bool
  uaCopyBackup :: bool
  uaCopyNew :: bool
  uaStatNew :: bool
  uaExecutable :: bool
  uaRestore :: "bool list"

record updProgram =
  pgFiles :: dir
  pgExe :: "bytes option"
  pgBak :: "bytes option"
  pgVersion :: string
  pgStaged :: string
  pgPending :: string
  pgInstalled :: string
  pgInstallError :: "updError option"
  pgRolledBack :: "string option"

section \<open>Files\<close>

definition readFile :: "updAnswers \<Rightarrow> string \<Rightarrow> dir \<Rightarrow> bytes option" where
  \<comment> \<open>\<^verbatim>\<open>os.ReadFile\<close> where a missing file is an error too\<close>
  "readFile ua name d = (if uaRead ua name then d name else None)"

definition renameWithRetry :: "bool list \<Rightarrow> bool" where
  \<comment> \<open>what the renames answer; at most three are made\<close>
  "renameWithRetry tries \<longleftrightarrow> True \<in> set (take 3 tries)"

definition writeAtomic :: "updAnswers \<Rightarrow> string \<Rightarrow> bytes \<Rightarrow> dir \<Rightarrow> bool \<times> dir" where
  "writeAtomic ua name content d =
     (if uaWrite ua name \<and> renameWithRetry (uaRename ua name) then (True, d(name \<mapsto> content)) else (False, d))"

definition removeFile :: "updAnswers \<Rightarrow> string \<Rightarrow> dir \<Rightarrow> dir" where
  "removeFile ua name d = (if uaRemove ua name then d(name := None) else d)"

definition readState :: "updAnswers \<Rightarrow> string \<Rightarrow> dir \<Rightarrow> updError + string" where
  \<comment> \<open>the trimmed text of a state file, empty if there is none\<close>
  "readState ua name d =
     (if \<not> uaRead ua name then Inl (StateRead name)
      else case d name of None \<Rightarrow> Inr [] | Some b \<Rightarrow> Inr (TrimSpace (stringOf b)))"

definition stagedVersionFile :: string where "stagedVersionFile = ''staged_version.txt''"
definition rollbackStateFile :: string where "rollbackStateFile = ''rollback_state.json''"
definition failedVersionFile :: string where "failedVersionFile = ''failed_version.txt''"
definition installRetriesFile :: string where "installRetriesFile = ''install_retries.txt''"
definition maxSeenVersionFile :: string where "maxSeenVersionFile = ''max_seen_version.txt''"

definition ReadFailedVersion :: "updAnswers \<Rightarrow> dir \<Rightarrow> updError + string" where
  "ReadFailedVersion ua d = readState ua failedVersionFile d"

definition WriteFailedVersion :: "updAnswers \<Rightarrow> string \<Rightarrow> dir \<Rightarrow> bool \<times> dir" where
  "WriteFailedVersion ua v d = writeAtomic ua failedVersionFile (bytesOf v) d"

definition ClearFailedVersion :: "updAnswers \<Rightarrow> dir \<Rightarrow> bool \<times> dir" where
  "ClearFailedVersion ua d = (uaRemove ua failedVersionFile, removeFile ua failedVersionFile d)"

definition ReadMaxSeenVersion :: "updAnswers \<Rightarrow> dir \<Rightarrow> updError + string" where
  "ReadMaxSeenVersion ua d = readState ua maxSeenVersionFile d"

definition WriteMaxSeenVersion :: "updAnswers \<Rightarrow> string \<Rightarrow> dir \<Rightarrow> bool \<times> dir" where
  "WriteMaxSeenVersion ua v d = writeAtomic ua maxSeenVersionFile (bytesOf v) d"

definition scanInt :: "string \<Rightarrow> int option" where
  \<comment> \<open>\<^verbatim>\<open>fmt.Sscanf\<close> with \<^verbatim>\<open>%d\<close> on text without leading blanks: the longest numeric prefix\<close>
  "scanInt s =
     (let signed = HasPrefix s ''-'' \<or> HasPrefix s ''+'';
          ds = takeWhile isDigit (if signed then drop 1 s else s)
      in Atoi ((if signed then take 1 s else []) @ ds))"

definition ReadInstallRetries :: "updAnswers \<Rightarrow> dir \<Rightarrow> int" where
  \<comment> \<open>an error is logged by the caller, which goes on with 0\<close>
  "ReadInstallRetries ua d =
     (case readState ua installRetriesFile d of
        Inl _ \<Rightarrow> 0
      | Inr s \<Rightarrow> if s = [] then 0 else case scanInt s of None \<Rightarrow> 0 | Some n \<Rightarrow> n)"

definition WriteInstallRetries :: "updAnswers \<Rightarrow> int \<Rightarrow> dir \<Rightarrow> bool \<times> dir" where
  "WriteInstallRetries ua n d = writeAtomic ua installRetriesFile (bytesOf (showInt n)) d"

definition ClearInstallRetries :: "updAnswers \<Rightarrow> dir \<Rightarrow> bool \<times> dir" where
  "ClearInstallRetries ua d = (uaRemove ua installRetriesFile, removeFile ua installRetriesFile d)"

definition WriteRollbackState :: "updEnv \<Rightarrow> updAnswers \<Rightarrow> bool \<times> string \<Rightarrow> dir \<Rightarrow> bool \<times> dir" where
  "WriteRollbackState env ua st d = writeAtomic ua rollbackStateFile (ueMarshalRS env st) d"

definition ReadRollbackState :: "updEnv \<Rightarrow> updAnswers \<Rightarrow> dir \<Rightarrow> (bool \<times> string) option" where
  \<comment> \<open>\<open>None\<close> for a missing, an unreadable and a malformed file: the caller treats them alike\<close>
  "ReadRollbackState env ua d =
     (case readFile ua rollbackStateFile d of None \<Rightarrow> None | Some b \<Rightarrow> ueUnmarshalRS env b)"

definition ClearRollbackState :: "updAnswers \<Rightarrow> dir \<Rightarrow> bool \<times> dir" where
  "ClearRollbackState ua d = (uaRemove ua rollbackStateFile, removeFile ua rollbackStateFile d)"

section \<open>Checking\<close>

definition validGitHubName :: "string \<Rightarrow> bool" where
  "validGitHubName s \<longleftrightarrow> s \<noteq> [] \<and>
     list_all (\<lambda>c. isDigit c \<or> (of_char (lowerChar c) :: nat) \<in> {97..122} \<or> c \<in> set ''._-'') s"

definition binaryName :: "updEnv \<Rightarrow> string" where
  "binaryName env =
     ''le_voile_'' @ ueGoos env @ ''_'' @ ueGoarch env @ (if ueGoos env = ''windows'' then ''.exe'' else [])"

definition pickAsset :: "updEnv \<Rightarrow> releaseInfo \<Rightarrow> string \<times> string \<Rightarrow> releaseInfo" where
  "pickAsset env info = (\<lambda>(name, url).
     if name = binaryName env then info\<lparr>riDownload := url\<rparr>
     else if name = ''checksums.txt'' then info\<lparr>riChecksum := url\<rparr>
     else if name = ''checksums.txt.sig'' then info\<lparr>riSignature := url\<rparr>
     else info)"

definition parseGitHubRelease :: "updEnv \<Rightarrow> bytes \<Rightarrow> updError + releaseInfo" where
  "parseGitHubRelease env body =
     (case ueRelease env body of
        None \<Rightarrow> Inl ParseRelease
      | Some rel \<Rightarrow>
          let info = foldl (pickAsset env)
                \<lparr>riVersion = TrimPrefix (ghTag rel) ''v'', riDownload = [], riChecksum = [], riSignature = [],
                 riNotes = ghBody rel\<rparr> (ghAssets rel)
          in if riDownload info = [] then Inl (MissingAsset (binaryName env))
             else if riChecksum info = [] then Inl (MissingAsset ''checksums.txt'')
             else if riSignature info = [] then Inl (MissingAsset ''checksums.txt.sig'')
             else Inr info)"

definition CheckLatest :: "updEnv \<Rightarrow> updAnswers \<Rightarrow> string \<Rightarrow> updError + releaseInfo option" where
  "CheckLatest env ua current =
     (case uaLatest ua of
        None \<Rightarrow> Inl CheckFailed
      | Some (status, body) \<Rightarrow>
          if status \<noteq> 200 then Inl (CheckStatus status)
          else case body of
            None \<Rightarrow> Inl CheckFailed
          | Some b \<Rightarrow>
              (case parseGitHubRelease env (take 2097152 b) of
                 Inl e \<Rightarrow> Inl e
               | Inr info \<Rightarrow> if compareVersions current (riVersion info) \<ge> 0 then Inr None else Inr (Some info)))"

definition CurrentVersion :: "updProgram \<Rightarrow> string" where
  "CurrentVersion pg = (if pgVersion pg = [] then ''dev'' else pgVersion pg)"

section \<open>Downloading\<close>

definition allowedRedirectHosts :: "string list" where
  "allowedRedirectHosts = [''github.com'', ''objects.githubusercontent.com'', ''release-assets.githubusercontent.com'']"

fun redirectsOk :: "nat \<Rightarrow> (string \<times> string) list \<Rightarrow> bool" where
  \<comment> \<open>\<^verbatim>\<open>CheckRedirect\<close> on the scheme and host of each hop, after \<open>via\<close> requests\<close>
  "redirectsOk via [] = True"
| "redirectsOk via ((scheme, host) # hops) =
     (if scheme \<noteq> ''https'' then False
      else if host \<notin> set allowedRedirectHosts then False
      else if via \<ge> 10 then False
      else redirectsOk (via + 1) hops)"

definition validateDownloadURL :: "updEnv \<Rightarrow> string \<Rightarrow> bool" where
  "validateDownloadURL env rawURL =
     (case ueParseURL env rawURL of
        None \<Rightarrow> False
      | Some (scheme, host, path) \<Rightarrow>
          scheme = ''https'' \<and> host = ''github.com'' \<and> HasPrefix path ''/velia-the-veil/le_voile/releases'')"

definition pathBase :: "string \<Rightarrow> string" where
  \<comment> \<open>\<^verbatim>\<open>filepath.Base\<close>\<close>
  "pathBase path =
     (if path = [] then ''.''
      else let p = rev (dropWhile (\<lambda>c. c = CHR ''/'') (rev path)) in
        if p = [] then ''/'' else last (splitOn CHR ''/'' p))"

definition Download :: "updEnv \<Rightarrow> updAnswers \<Rightarrow> string \<Rightarrow> dir \<Rightarrow> string option \<times> dir" where
  \<comment> \<open>the name in the staging directory; a directory cannot be overwritten\<close>
  "Download env ua rawURL d =
     (if \<not> validateDownloadURL env rawURL then (None, d)
      else case uaGet ua rawURL of (hops, answer) \<Rightarrow>
        if \<not> redirectsOk 1 hops then (None, d)
        else case answer of
          None \<Rightarrow> (None, d)
        | Some (status, body, complete) \<Rightarrow>
            if status \<noteq> 200 then (None, d)
            else
              let name = pathBase (case ueParseURL env rawURL of None \<Rightarrow> [] | Some (_, _, path) \<Rightarrow> path) in
              if \<not> complete \<or> name \<in> {''.'', ''..'', ''/''} \<or> \<not> uaWrite ua name then (None, d)
              else (Some name, d(name \<mapsto> take 524288000 body)))"

definition DownloadRelease ::
  "updEnv \<Rightarrow> updAnswers \<Rightarrow> releaseInfo \<Rightarrow> dir \<Rightarrow> stagedUpdate option \<times> dir" where
  "DownloadRelease env ua release d =
     (case Download env ua (riDownload release) d of
        (None, d1) \<Rightarrow> (None, d1)
      | (Some binary, d1) \<Rightarrow>
          (case Download env ua (riChecksum release) d1 of
             (None, d2) \<Rightarrow> (None, removeFile ua binary d2)
           | (Some sums, d2) \<Rightarrow>
               (case Download env ua (riSignature release) d2 of
                  (None, d3) \<Rightarrow> (None, removeFile ua sums (removeFile ua binary d3))
                | (Some sig, d3) \<Rightarrow>
                    (Some \<lparr>suBinary = binary, suChecksum = sums, suSignature = sig, suVersion = riVersion release\<rparr>, d3))))"

section \<open>Verification\<close>

fun splitPair :: "string \<Rightarrow> (string \<times> string) option" where
  \<comment> \<open>\<^verbatim>\<open>strings.SplitN\<close> by two blanks into two parts\<close>
  "splitPair (c # d # s) =
     (if c = CHR '' '' \<and> d = CHR '' '' then Some ([], s)
      else case splitPair (d # s) of None \<Rightarrow> None | Some (a, b) \<Rightarrow> Some (c # a, b))"
| "splitPair _ = None"

fun firstChecksum :: "string \<Rightarrow> string list \<Rightarrow> string option" where
  "firstChecksum filename [] = None"
| "firstChecksum filename (l # ls) =
     (let line = TrimSpace l in
      if line = [] then firstChecksum filename ls
      else case splitPair line of
        None \<Rightarrow> firstChecksum filename ls
      | Some (hash, name) \<Rightarrow>
          if TrimSpace name = filename then Some (TrimSpace hash) else firstChecksum filename ls)"

definition findChecksum :: "string \<Rightarrow> bytes \<Rightarrow> string option" where
  "findChecksum filename content = firstChecksum filename (scanLines (stringOf content))"

definition hashFile :: "cryptoLib \<Rightarrow> bytes \<Rightarrow> string" where
  "hashFile lib content = hexEncode (sha256 lib content)"

definition VerifyChecksum ::
  "cryptoLib \<Rightarrow> updAnswers \<Rightarrow> string \<Rightarrow> string \<Rightarrow> dir \<Rightarrow> updError option" where
  "VerifyChecksum lib ua binary sums d =
     (case readFile ua sums d of
        None \<Rightarrow> Some OpenChecksums
      | Some content \<Rightarrow>
          (case findChecksum binary content of
             None \<Rightarrow> Some NoMatchingChecksum
           | Some expected \<Rightarrow>
               (case readFile ua binary d of
                  None \<Rightarrow> Some HashFailed
                | Some b \<Rightarrow> if hashFile lib b \<noteq> expected then Some ChecksumMismatch else None)))"

definition VerifySignature ::
  "cryptoLib \<Rightarrow> bytes \<Rightarrow> updAnswers \<Rightarrow> string \<Rightarrow> string \<Rightarrow> dir \<Rightarrow> updError option" where
  "VerifySignature lib key ua sums sig d =
     (case readFile ua sums d of
        None \<Rightarrow> Some OpenChecksums
      | Some content \<Rightarrow>
          (case readFile ua sig d of
             None \<Rightarrow> Some ReadSignature
           | Some s \<Rightarrow>
               if length s \<noteq> 64 then Some (SignatureSize (length s))
               else if \<not> VerifyMsg lib key content s then Some SignatureInvalid
               else None))"

definition removeStagedFiles :: "updAnswers \<Rightarrow> stagedUpdate \<Rightarrow> dir \<Rightarrow> dir" where
  "removeStagedFiles ua st d =
     removeFile ua (suSignature st) (removeFile ua (suChecksum st) (removeFile ua (suBinary st) d))"

definition VerifyStagedUpdate ::
  "cryptoLib \<Rightarrow> bytes \<Rightarrow> updAnswers \<Rightarrow> stagedUpdate \<Rightarrow> dir \<Rightarrow> updError option \<times> dir" where
  "VerifyStagedUpdate lib key ua st d =
     (case VerifyChecksum lib ua (suBinary st) (suChecksum st) d of
        Some e \<Rightarrow> (Some e, removeStagedFiles ua st d)
      | None \<Rightarrow>
          (case VerifySignature lib key ua (suChecksum st) (suSignature st) d of
             Some e \<Rightarrow> (Some e, removeStagedFiles ua st d)
           | None \<Rightarrow> (None, d)))"

section \<open>The update cycle\<close>

record updater =
  uCurrent :: string
  uKey :: bytes
  uManaged :: bool

definition seedMaxSeenVersion :: "updAnswers \<Rightarrow> updProgram \<Rightarrow> updProgram" where
  "seedMaxSeenVersion ua pg =
     (let current = CurrentVersion pg in
      if current = [] \<or> current = ''dev'' then pg
      else case ReadMaxSeenVersion ua (pgFiles pg) of
        Inl _ \<Rightarrow> pg
      | Inr stored \<Rightarrow>
          if stored \<noteq> [] \<and> compareVersions current stored \<le> 0 then pg
          else pg\<lparr>pgFiles := snd (WriteMaxSeenVersion ua current (pgFiles pg))\<rparr>)"

definition writeStagedVersion :: "updAnswers \<Rightarrow> string \<Rightarrow> dir \<Rightarrow> bool \<times> dir" where
  "writeStagedVersion ua v d = writeAtomic ua stagedVersionFile (bytesOf v) d"

definition fetchAndStage ::
  "updEnv \<Rightarrow> updAnswers \<Rightarrow> updater \<Rightarrow> releaseInfo \<Rightarrow> updProgram \<Rightarrow> (updError + stagedUpdate option) \<times> updProgram" where
  \<comment> \<open>the second half of \<^verbatim>\<open>CheckAndDownload\<close>: download, verify, persist, report\<close>
  "fetchAndStage env ua u release pg =
     (case DownloadRelease env ua release (pgFiles pg) of
        (None, d1) \<Rightarrow> (Inl DownloadFailed, pg\<lparr>pgFiles := d1\<rparr>)
      | (Some st, d1) \<Rightarrow>
          (case VerifyStagedUpdate (ueLib env) (uKey u) ua st d1 of
             (Some e, d2) \<Rightarrow> (Inl e, pg\<lparr>pgFiles := d2\<rparr>)
           | (None, d2) \<Rightarrow>
               (case writeStagedVersion ua (suVersion st) d2 of
                  (False, d3) \<Rightarrow> (Inl PersistFailed, pg\<lparr>pgFiles := d3\<rparr>)
                | (True, d3) \<Rightarrow>
                    (Inr (Some st), pg\<lparr>pgFiles := d3, pgStaged := suVersion st, pgPending := suVersion st\<rparr>))))"

definition CheckAndDownload ::
  "updEnv \<Rightarrow> updAnswers \<Rightarrow> updater \<Rightarrow> updProgram \<Rightarrow> (updError + stagedUpdate option) \<times> updProgram" where
  "CheckAndDownload env ua u pg =
     (if uManaged u then (Inl PackageManaged, pg)
      else case CheckLatest env ua (uCurrent u) of
        Inl e \<Rightarrow> (Inl e, pg)
      | Inr None \<Rightarrow> (Inr None, pg)
      | Inr (Some release) \<Rightarrow>
          (case ReadMaxSeenVersion ua (pgFiles pg) of
             Inl e \<Rightarrow> (Inl e, pg)
           | Inr maxSeen \<Rightarrow>
               if maxSeen \<noteq> [] \<and> compareVersions (riVersion release) maxSeen < 0 then (Inl DowngradeRejected, pg)
               else (case ReadFailedVersion ua (pgFiles pg) of
                  Inl e \<Rightarrow> (Inl e, pg)
                | Inr failedVer \<Rightarrow>
                    if failedVer \<noteq> [] \<and> riVersion release = failedVer then (Inr None, pg)
                    else if failedVer \<noteq> [] then
                      (case ClearFailedVersion ua (pgFiles pg) of
                         (False, d1) \<Rightarrow> (Inl (StateClear failedVersionFile), pg\<lparr>pgFiles := d1\<rparr>)
                       | (True, d1) \<Rightarrow> fetchAndStage env ua u release (pg\<lparr>pgFiles := d1\<rparr>))
                    else fetchAndStage env ua u release pg)))"

definition isIntegrityError :: "updError \<Rightarrow> bool" where
  "isIntegrityError e \<longleftrightarrow> e \<in> {ChecksumMismatch, SignatureInvalid, NoMatchingChecksum}"

definition nextCheck :: "int \<Rightarrow> updError option \<Rightarrow> nat \<Rightarrow> int \<times> nat" where
  \<comment> \<open>the wait in minutes after a cycle of \<^verbatim>\<open>Start\<close>, and the failures in a row\<close>
  "nextCheck checkInterval e failures =
     (case e of
        None \<Rightarrow> (checkInterval, 0)
      | Some err \<Rightarrow>
          let n = failures + 1 in
          if n \<ge> 3 then (checkInterval, 0)
          else if isIntegrityError err then (60, n)
          else (30, n))"

section \<open>Installing\<close>

definition packageManagedPrefixes :: "string list" where
  "packageManagedPrefixes = [''/usr/bin/'', ''/usr/local/bin/'', ''/usr/sbin/'', ''/opt/homebrew/bin/'',
     ''/home/linuxbrew/.linuxbrew/bin/'']"

definition IsPackageManaged :: "updEnv \<Rightarrow> bool" where
  "IsPackageManaged env \<longleftrightarrow> ueGoos env \<noteq> ''windows'' \<and> (\<exists>p\<in>set packageManagedPrefixes. HasPrefix (ueExePath env) p)"

definition HasStagedUpdate :: "updEnv \<Rightarrow> updAnswers \<Rightarrow> dir \<Rightarrow> updError + stagedUpdate option" where
  "HasStagedUpdate env ua d =
     (if \<not> uaRead ua (binaryName env) then Inl (StateRead (binaryName env))
      else if d (binaryName env) = None then Inr None
      else case readState ua stagedVersionFile d of
        Inl e \<Rightarrow> Inl e
      | Inr version \<Rightarrow>
          if version = [] then Inr None
          else Inr (Some \<lparr>suBinary = binaryName env, suChecksum = ''checksums.txt'', suSignature = ''checksums.txt.sig'',
                          suVersion = version\<rparr>))"

definition cleanStaging :: "updAnswers \<Rightarrow> stagedUpdate \<Rightarrow> dir \<Rightarrow> dir" where
  "cleanStaging ua st d = removeFile ua stagedVersionFile (removeStagedFiles ua st d)"

definition restoreBackup :: "updAnswers \<Rightarrow> updProgram \<Rightarrow> bool \<times> updProgram" where
  \<comment> \<open>the rename of the backup over the executable\<close>
  "restoreBackup ua pg =
     (if pgBak pg \<noteq> None \<and> renameWithRetry (uaRestore ua)
      then (True, pg\<lparr>pgExe := pgBak pg, pgBak := None\<rparr>) else (False, pg))"

definition swapBinary :: "updAnswers \<Rightarrow> stagedUpdate \<Rightarrow> updProgram \<Rightarrow> updError option \<times> updProgram" where
  \<comment> \<open>steps 2 to 4 of \<^verbatim>\<open>Install\<close>: back up, copy, check the copy\<close>
  "swapBinary ua st pg =
     (case (if uaCopyBackup ua then pgExe pg else None) of
        None \<Rightarrow> (Some BackupFailed, pg)
      | Some old \<Rightarrow>
          let pg1 = pg\<lparr>pgBak := Some old\<rparr> in
          (case (if uaCopyNew ua then readFile ua (suBinary st) (pgFiles pg1) else None) of
             None \<Rightarrow> (case restoreBackup ua pg1 of (ok, pg2) \<Rightarrow> (Some (if ok then CopyFailed else RestoreFailed), pg2))
           | Some new \<Rightarrow>
               let pg2 = pg1\<lparr>pgExe := Some new\<rparr> in
               if \<not> uaStatNew ua then (Some NewBinaryMissing, snd (restoreBackup ua pg2))
               else if new = [] then (Some NewBinaryEmpty, snd (restoreBackup ua pg2))
               else if \<not> uaExecutable ua then (Some NotExecutable, snd (restoreBackup ua pg2))
               else (None, pg2)))"

definition Install ::
  "updEnv \<Rightarrow> bytes \<Rightarrow> updAnswers \<Rightarrow> stagedUpdate option \<Rightarrow> updProgram \<Rightarrow> updError option \<times> updProgram" where
  "Install env key ua staged pg =
     (case staged of
        None \<Rightarrow> (Some NoStagedUpdate, pg)
      | Some st \<Rightarrow>
          if \<not> uaContext ua then (Some ContextDone, pg)
          else if \<not> uaWritable ua then (Some ReadOnlyTarget, pg)
          else case VerifyChecksum (ueLib env) ua (suBinary st) (suChecksum st) (pgFiles pg) of
            Some e \<Rightarrow> (Some e, pg)
          | None \<Rightarrow>
              (case VerifySignature (ueLib env) key ua (suChecksum st) (suSignature st) (pgFiles pg) of
                 Some e \<Rightarrow> (Some e, pg)
               | None \<Rightarrow>
                   (case swapBinary ua st pg of
                      (Some e, pg1) \<Rightarrow> (Some e, pg1)
                    | (None, pg1) \<Rightarrow>
                        (None, pg1\<lparr>pgFiles :=
                           snd (WriteMaxSeenVersion ua (suVersion st) (cleanStaging ua st (pgFiles pg1)))\<rparr>))))"

definition tryInstallStagedUpdate :: "updEnv \<Rightarrow> updAnswers \<Rightarrow> updProgram \<Rightarrow> updProgram" where
  "tryInstallStagedUpdate env ua pg =
     (case ImportPublicKeyBase64 (ueKey64 env) of
        None \<Rightarrow> pg
      | Some key \<Rightarrow>
          (case HasStagedUpdate env ua (pgFiles pg) of
             Inl _ \<Rightarrow> pg
           | Inr None \<Rightarrow> pg
           | Inr (Some st) \<Rightarrow>
               if IsPackageManaged env \<and> \<not> ueAllowPackaged env
               then pg\<lparr>pgFiles := cleanStaging ua st (pgFiles pg)\<rparr>
               else
                 let maxRetries = (if ueMaxRetries env \<le> 0 then 3 else ueMaxRetries env);
                     retries = ReadInstallRetries ua (pgFiles pg)
                 in if retries \<ge> maxRetries
                    then pg\<lparr>pgFiles := snd (ClearInstallRetries ua (cleanStaging ua st (pgFiles pg)))\<rparr>
                    else (case Install env key ua (Some st) pg of
                      (Some e, pg1) \<Rightarrow>
                        pg1\<lparr>pgInstallError := Some e, pgFiles := snd (WriteInstallRetries ua (retries + 1) (pgFiles pg1))\<rparr>
                    | (None, pg1) \<Rightarrow>
                        let d1 = snd (ClearInstallRetries ua (pgFiles pg1));
                            d2 = snd (WriteRollbackState env ua (True, suVersion st) d1)
                        in pg1\<lparr>pgFiles := d2, pgVersion := suVersion st, pgInstalled := suVersion st\<rparr>)))"

section \<open>Rolling back\<close>

datatype connectErr = VerifyErr | PinErr | DeadlineErr | CancelErr | NetErr bool | DNSErr | OtherErr
  \<comment> \<open>what the error of the first connection wraps; a network error is a timeout or not\<close>

definition shouldRollbackOnConnectErr :: "connectErr option \<Rightarrow> bool" where
  "shouldRollbackOnConnectErr e =
     (case e of
        None \<Rightarrow> False
      | Some x \<Rightarrow>
          if x = VerifyErr \<or> x = PinErr then True
          else if x = DeadlineErr \<or> x = CancelErr then False
          else if x = NetErr True then False
          else if x = DNSErr then False
          else True)"

definition Rollback :: "updAnswers \<Rightarrow> updProgram \<Rightarrow> bool \<times> updProgram" where
  "Rollback ua pg = (if pgBak pg = None then (False, pg) else restoreBackup ua pg)"

definition CleanupBackup :: "updAnswers \<Rightarrow> updProgram \<Rightarrow> updProgram" where
  "CleanupBackup ua pg = (if uaRemove ua ''.bak'' then pg\<lparr>pgBak := None\<rparr> else pg)"

definition tryRollbackIfNeeded :: "updEnv \<Rightarrow> updAnswers \<Rightarrow> updProgram \<Rightarrow> bool \<times> updProgram" where
  \<comment> \<open>with a staging directory configured and the installer made at startup\<close>
  "tryRollbackIfNeeded env ua pg =
     (case ReadRollbackState env ua (pgFiles pg) of
        None \<Rightarrow> (False, pg)
      | Some (justInstalled, installed) \<Rightarrow>
          if \<not> justInstalled then (False, pg)
          else case Rollback ua pg of
            (False, pg1) \<Rightarrow> (False, pg1)
          | (True, pg1) \<Rightarrow>
              let d1 = snd (WriteFailedVersion ua installed (pgFiles pg1));
                  d2 = snd (ClearRollbackState ua d1)
              in (True, pg1\<lparr>pgFiles := d2, pgRolledBack := Some installed, pgInstalled := []\<rparr>))"

section \<open>The start of the service\<close>

definition confirmUpdate :: "updAnswers \<Rightarrow> updProgram \<Rightarrow> updProgram" where
  \<comment> \<open>after the tunnel has connected: no rollback is possible any more\<close>
  "confirmUpdate ua pg = CleanupBackup ua (pg\<lparr>pgFiles := snd (ClearRollbackState ua (pgFiles pg))\<rparr>)"

definition startService ::
  "updEnv \<Rightarrow> updAnswers \<Rightarrow> (bytes \<Rightarrow> string) \<Rightarrow> (bytes \<Rightarrow> connectErr option) \<Rightarrow> updProgram \<Rightarrow> updProgram" where
  \<comment> \<open>the process runs the image that was the executable when it started: \<open>builtin\<close> is the version
     compiled into an image, \<open>connects\<close> what the first connection of an image reports\<close>
  "startService env ua builtin connects pg =
     (case pgExe pg of
        None \<Rightarrow> pg
      | Some img \<Rightarrow>
          let pg1 = tryInstallStagedUpdate env ua
                (pg\<lparr>pgVersion := builtin img, pgInstalled := [], pgInstallError := None, pgRolledBack := None\<rparr>)
          in case connects img of
               None \<Rightarrow> confirmUpdate ua pg1
             | Some e \<Rightarrow>
                 if shouldRollbackOnConnectErr (Some e) then snd (tryRollbackIfNeeded env ua pg1) else pg1)"

end
