(* ===== verification/Updater_Props.thy ===== *)
theory Updater_Props
  imports Updater
begin

text \<open>
  What the automatic update guarantees: only signed binaries become the executable, a signed newer
  release is installed, a rollback restores the previous binary, a broken payload is abandoned; and
  that the rollback net does not cover the binary it was made for.
\<close>

section \<open>Only signed binaries\<close>

definition signedBinary :: "updEnv \<Rightarrow> bytes \<Rightarrow> bool" where
  \<comment> \<open>a list of checksums signed under the release key names this content as the binary\<close>
  "signedBinary env b \<longleftrightarrow>
     (\<exists>key sums sig. ImportPublicKeyBase64 (ueKey64 env) = Some key \<and> length sig = 64 \<and>
        VerifyMsg (ueLib env) key sums sig \<and> findChecksum (binaryName env) sums = Some (hashFile (ueLib env) b))"

lemma VerifyChecksum_None:
  "VerifyChecksum lib ua binary sums d = None \<longleftrightarrow>
     (\<exists>content b. readFile ua sums d = Some content \<and> readFile ua binary d = Some b \<and>
        findChecksum binary content = Some (hashFile lib b))"
  by (auto simp: VerifyChecksum_def split: option.splits)

lemma VerifySignature_None:
  "VerifySignature lib key ua sums sig d = None \<longleftrightarrow>
     (\<exists>content s. readFile ua sums d = Some content \<and> readFile ua sig d = Some s \<and> length s = 64 \<and>
        VerifyMsg lib key content s)"
  by (auto simp: VerifySignature_def split: option.splits)

definition trustedProgram :: "(bytes \<Rightarrow> bool) \<Rightarrow> updProgram \<Rightarrow> bool" where
  "trustedProgram P pg \<longleftrightarrow> (\<exists>b. pgExe pg = Some b \<and> P b) \<and> (\<forall>b. pgBak pg = Some b \<longrightarrow> P b)"

lemma trustedProgram_files [simp]:
  "trustedProgram P (pg\<lparr>pgFiles := d\<rparr>) = trustedProgram P pg"
  "trustedProgram P (pg\<lparr>pgInstallError := e, pgFiles := d\<rparr>) = trustedProgram P pg"
  by (simp_all add: trustedProgram_def)

lemma restoreBackup_trusted: "trustedProgram P pg \<Longrightarrow> trustedProgram P (snd (restoreBackup ua pg))"
  by (auto simp: restoreBackup_def trustedProgram_def)

lemma swapBinary_trusted:
  assumes "trustedProgram P pg" "\<And>b. readFile ua (suBinary st) (pgFiles pg) = Some b \<Longrightarrow> P b"
  shows "trustedProgram P (snd (swapBinary ua st pg))"
proof -
  obtain old where old: "pgExe pg = Some old" "P old" using assms(1) by (auto simp: trustedProgram_def)
  have bak: "trustedProgram P (pg\<lparr>pgBak := Some old\<rparr>)" using old by (simp add: trustedProgram_def)
  have new: "trustedProgram P (pg\<lparr>pgBak := Some old, pgExe := Some b\<rparr>)"
    if "readFile ua (suBinary st) (pgFiles pg) = Some b" for b
    using assms(2) [OF that] old by (simp add: trustedProgram_def)
  show ?thesis using assms(1) bak new old(1) restoreBackup_trusted [OF bak, of ua] restoreBackup_trusted [OF new, of _ ua]
    by (auto simp: swapBinary_def Let_def split: option.splits prod.splits)
qed

lemma Install_trusted:
  assumes "trustedProgram P pg" "\<And>b. signedBinary env b \<Longrightarrow> P b" "ImportPublicKeyBase64 (ueKey64 env) = Some key"
    and "suBinary st = binaryName env"
  shows "trustedProgram P (snd (Install env key ua (Some st) pg))"
proof -
  have "P b" if "VerifyChecksum (ueLib env) ua (suBinary st) (suChecksum st) (pgFiles pg) = None"
    "VerifySignature (ueLib env) key ua (suChecksum st) (suSignature st) (pgFiles pg) = None"
    "readFile ua (suBinary st) (pgFiles pg) = Some b" for b
  proof (rule assms(2))
    show "signedBinary env b" using that assms(3, 4)
      unfolding signedBinary_def VerifyChecksum_None VerifySignature_None
      by (metis option.inject)
  qed
  note s = swapBinary_trusted [OF assms(1), of ua st, OF this]
  obtain e pg1 where sw: "swapBinary ua st pg = (e, pg1)" by fastforce
  show ?thesis using assms(1) s sw by (auto simp: Install_def split: option.splits)
qed

lemma tryInstall_trusted:
  assumes "trustedProgram P pg" "\<And>b. signedBinary env b \<Longrightarrow> P b"
  shows "trustedProgram P (tryInstallStagedUpdate env ua pg)"
proof (cases "ImportPublicKeyBase64 (ueKey64 env)")
  case None
  then show ?thesis using assms(1) by (simp add: tryInstallStagedUpdate_def)
next
  case (Some key)
  show ?thesis
  proof (cases "HasStagedUpdate env ua (pgFiles pg)")
    case (Inl e)
    then show ?thesis using assms(1) Some by (simp add: tryInstallStagedUpdate_def)
  next
    case (Inr su)
    show ?thesis
    proof (cases su)
      case None
      then show ?thesis using assms(1) Some Inr by (simp add: tryInstallStagedUpdate_def)
    next
      case st: (Some st)
      have "suBinary st = binaryName env"
        using Inr st by (auto simp: HasStagedUpdate_def split: if_splits option.splits sum.splits)
      from Install_trusted [OF assms(1) assms(2) Some this, of ua]
      show ?thesis using assms(1) Some Inr st
        by (auto simp: tryInstallStagedUpdate_def Let_def trustedProgram_def split: option.splits prod.splits)
    qed
  qed
qed

lemma tryRollback_trusted: "trustedProgram P pg \<Longrightarrow> trustedProgram P (snd (tryRollbackIfNeeded env ua pg))"
  using restoreBackup_trusted [of P pg ua]
  by (auto simp: tryRollbackIfNeeded_def Rollback_def Let_def trustedProgram_def split: option.splits prod.splits if_splits bool.splits)

lemma startService_trusted:
  assumes "trustedProgram P pg" "\<And>b. signedBinary env b \<Longrightarrow> P b"
  shows "trustedProgram P (startService env ua builtin connects pg)"
proof -
  let ?pg0 = "\<lambda>img. pg\<lparr>pgVersion := builtin img, pgInstalled := [], pgInstallError := None, pgRolledBack := None\<rparr>"
  have "trustedProgram P (?pg0 img)" for img using assms(1) by (simp add: trustedProgram_def)
  note t = tryInstall_trusted [OF this assms(2), where ua = ua]
  have c: "trustedProgram P (confirmUpdate ua q)" if "trustedProgram P q" for q
    using that by (auto simp: confirmUpdate_def CleanupBackup_def trustedProgram_def)
  show ?thesis using assms(1) t c [OF t] tryRollback_trusted [OF t, where env = env and ua = ua]
    by (auto simp: startService_def Let_def split: option.splits)
qed

lemma fetchAndStage_binaries:
  "fetchAndStage env ua u r pg = (x, pg') \<Longrightarrow> pgExe pg' = pgExe pg \<and> pgBak pg' = pgBak pg"
  by (auto simp: fetchAndStage_def split: prod.splits option.splits bool.splits)

lemma CheckAndDownload_binaries:
  "CheckAndDownload env ua u pg = (x, pg') \<Longrightarrow> pgExe pg' = pgExe pg \<and> pgBak pg' = pgBak pg"
  by (auto simp: CheckAndDownload_def dest: fetchAndStage_binaries
      split: prod.splits option.splits bool.splits sum.splits if_splits)

section \<open>Events\<close>

datatype updEvent =
    EvStart updAnswers "bytes \<Rightarrow> string" "bytes \<Rightarrow> connectErr option"
  | EvCycle updAnswers updater | EvSeed updAnswers | EvWriteStaging dir
  \<comment> \<open>a start of the service, a cycle of the updater, the seeding of the floor, and anybody writing
     anything to the staging directory\<close>

fun updStep :: "updEnv \<Rightarrow> updEvent \<Rightarrow> updProgram \<Rightarrow> updProgram" where
  "updStep env (EvStart ua builtin connects) pg = startService env ua builtin connects pg"
| "updStep env (EvCycle ua u) pg = snd (CheckAndDownload env ua u pg)"
| "updStep env (EvSeed ua) pg = seedMaxSeenVersion ua pg"
| "updStep env (EvWriteStaging d) pg = pg\<lparr>pgFiles := d\<rparr>"

lemma updStep_trusted:
  assumes "trustedProgram P pg" "\<And>b. signedBinary env b \<Longrightarrow> P b"
  shows "trustedProgram P (updStep env ev pg)"
proof (cases ev)
  case (EvStart ua builtin connects)
  then show ?thesis using startService_trusted [OF assms] by simp
next
  case (EvCycle ua u)
  obtain x pg' where c: "CheckAndDownload env ua u pg = (x, pg')" by fastforce
  then show ?thesis using assms(1) EvCycle CheckAndDownload_binaries [OF c] by (simp add: trustedProgram_def)
next
  case (EvSeed ua)
  then show ?thesis using assms(1) by (auto simp: seedMaxSeenVersion_def Let_def split: sum.splits)
qed (use assms in simp)

lemma updSteps_trusted:
  assumes "trustedProgram P pg" "\<And>b. signedBinary env b \<Longrightarrow> P b"
  shows "trustedProgram P (fold (updStep env) evs pg)"
  using assms(1)
proof (induction evs arbitrary: pg)
  case (Cons ev evs)
  then show ?case using updStep_trusted [OF Cons.prems assms(2)] by simp
qed simp

section \<open>A successful installation\<close>

definition allOk :: "updAnswers \<Rightarrow> bool" where
  \<comment> \<open>every system call succeeds\<close>
  "allOk ua \<longleftrightarrow> (\<forall>n. uaRead ua n \<and> uaWrite ua n \<and> uaRemove ua n \<and> renameWithRetry (uaRename ua n)) \<and>
     uaContext ua \<and> uaWritable ua \<and> uaCopyBackup ua \<and> uaCopyNew ua \<and> uaStatNew ua \<and> uaExecutable ua \<and>
     renameWithRetry (uaRestore ua)"

lemma allOk_simps:
  assumes "allOk ua"
  shows "readFile ua n d = d n" "writeAtomic ua n c d = (True, d(n \<mapsto> c))" "removeFile ua n d = d(n := None)"
    "readState ua n d = Inr (case d n of None \<Rightarrow> [] | Some b \<Rightarrow> TrimSpace (stringOf b))"
  using assms by (auto simp: allOk_def readFile_def writeAtomic_def removeFile_def readState_def split: option.splits)

lemma binaryName_fresh [simp]:
  "binaryName env \<noteq> ''checksums.txt''" "binaryName env \<noteq> ''checksums.txt.sig''" "binaryName env \<noteq> stagedVersionFile"
  "binaryName env \<noteq> rollbackStateFile" "binaryName env \<noteq> failedVersionFile" "binaryName env \<noteq> installRetriesFile"
  "binaryName env \<noteq> maxSeenVersionFile"
  by (simp_all add: binaryName_def stagedVersionFile_def rollbackStateFile_def failedVersionFile_def
      installRetriesFile_def maxSeenVersionFile_def)

lemma state_files_fresh [simp]:
  "distinct [''checksums.txt'', ''checksums.txt.sig'', stagedVersionFile, rollbackStateFile, failedVersionFile,
     installRetriesFile, maxSeenVersionFile]"
  by (simp add: stagedVersionFile_def rollbackStateFile_def failedVersionFile_def
      installRetriesFile_def maxSeenVersionFile_def)

definition payload :: "updEnv \<Rightarrow> bytes \<Rightarrow> string \<Rightarrow> dir \<Rightarrow> bool" where
  \<comment> \<open>a complete verified payload with its version\<close>
  "payload env b v d \<longleftrightarrow> b \<noteq> [] \<and> v \<noteq> [] \<and> d (binaryName env) = Some b \<and>
     (\<exists>key sums sig vb. ImportPublicKeyBase64 (ueKey64 env) = Some key \<and> d ''checksums.txt'' = Some sums \<and>
        d ''checksums.txt.sig'' = Some sig \<and> length sig = 64 \<and> VerifyMsg (ueLib env) key sums sig \<and>
        findChecksum (binaryName env) sums = Some (hashFile (ueLib env) b) \<and>
        d stagedVersionFile = Some vb \<and> TrimSpace (stringOf vb) = v)"

definition installable :: "updEnv \<Rightarrow> dir \<Rightarrow> bool" where
  \<comment> \<open>the binary is not the package manager's and no installation has failed\<close>
  "installable env d \<longleftrightarrow> \<not> (IsPackageManaged env \<and> \<not> ueAllowPackaged env) \<and> d installRetriesFile = None"

definition stagedOf :: "updEnv \<Rightarrow> string \<Rightarrow> stagedUpdate" where
  "stagedOf env v = \<lparr>suBinary = binaryName env, suChecksum = ''checksums.txt'', suSignature = ''checksums.txt.sig'',
     suVersion = v\<rparr>"

lemma HasStaged_payload:
  assumes "allOk ua" "payload env b v d"
  shows "HasStagedUpdate env ua d = Inr (Some (stagedOf env v))"
  using assms allOk_simps [OF assms(1)]
  by (auto simp: HasStagedUpdate_def payload_def stagedOf_def allOk_def)

lemma Install_payload:
  assumes "allOk ua" "payload env b v (pgFiles pg)" "ImportPublicKeyBase64 (ueKey64 env) = Some key" "pgExe pg = Some old"
  shows "Install env key ua (Some (stagedOf env v)) pg =
    (None, pg\<lparr>pgBak := Some old, pgExe := Some b,
      pgFiles := (pgFiles pg)(binaryName env := None, ''checksums.txt'' := None, ''checksums.txt.sig'' := None,
        stagedVersionFile := None, maxSeenVersionFile \<mapsto> bytesOf v)\<rparr>)"
proof -
  let ?st = "stagedOf env v"
  have "VerifyChecksum (ueLib env) ua (suBinary ?st) (suChecksum ?st) (pgFiles pg) = None"
    "VerifySignature (ueLib env) key ua (suChecksum ?st) (suSignature ?st) (pgFiles pg) = None"
    using assms(2, 3) unfolding VerifyChecksum_None VerifySignature_None
    by (auto simp: payload_def stagedOf_def allOk_simps [OF assms(1)])
  moreover have "swapBinary ua ?st pg = (None, pg\<lparr>pgBak := Some old, pgExe := Some b\<rparr>)"
    using assms by (auto simp: swapBinary_def allOk_simps [OF assms(1)] stagedOf_def payload_def allOk_def)
  ultimately show ?thesis using assms(1)
    by (simp add: Install_def allOk_def WriteMaxSeenVersion_def cleanStaging_def removeStagedFiles_def
        allOk_simps [OF assms(1)] stagedOf_def)
qed

definition installedFiles :: "updEnv \<Rightarrow> string \<Rightarrow> dir \<Rightarrow> dir" where
  "installedFiles env v d = d(binaryName env := None, ''checksums.txt'' := None, ''checksums.txt.sig'' := None,
     stagedVersionFile := None, maxSeenVersionFile \<mapsto> bytesOf v, installRetriesFile := None,
     rollbackStateFile \<mapsto> ueMarshalRS env (True, v))"

lemma tryInstall_payload:
  assumes "allOk ua" "payload env b v (pgFiles pg)" "installable env (pgFiles pg)" "pgExe pg = Some old"
  shows "tryInstallStagedUpdate env ua pg =
    pg\<lparr>pgBak := Some old, pgExe := Some b, pgFiles := installedFiles env v (pgFiles pg), pgVersion := v, pgInstalled := v\<rparr>"
proof -
  obtain key where k: "ImportPublicKeyBase64 (ueKey64 env) = Some key" using assms(2) by (auto simp: payload_def)
  have "ReadInstallRetries ua (pgFiles pg) = 0"
    using assms(3) by (simp add: ReadInstallRetries_def allOk_simps [OF assms(1)] installable_def)
  then show ?thesis
    using assms(3) Install_payload [OF assms(1, 2) k assms(4)] k HasStaged_payload [OF assms(1, 2)]
    by (auto simp: tryInstallStagedUpdate_def installable_def Let_def ClearInstallRetries_def WriteRollbackState_def
        allOk_simps [OF assms(1)] installedFiles_def stagedOf_def)
qed

section \<open>A successful download\<close>

definition served :: "updEnv \<Rightarrow> updAnswers \<Rightarrow> string \<Rightarrow> string \<Rightarrow> bytes \<Rightarrow> bool" where
  \<comment> \<open>the URL is acceptable, names the file and yields the content\<close>
  "served env ua url name content \<longleftrightarrow>
     (\<exists>path hops. ueParseURL env url = Some (''https'', ''github.com'', path) \<and>
        HasPrefix path ''/velia-the-veil/le_voile/releases'' \<and> pathBase path = name \<and>
        uaGet ua url = (hops, Some (200, content, True)) \<and> redirectsOk 1 hops) \<and>
     name \<notin> {''.'', ''..'', ''/''} \<and> length content \<le> 524288000"

lemma Download_served:
  "allOk ua \<Longrightarrow> served env ua url name content \<Longrightarrow> Download env ua url d = (Some name, d(name \<mapsto> content))"
  by (auto simp: served_def Download_def validateDownloadURL_def allOk_def Let_def)

lemma fetchAndStage_served:
  assumes "allOk ua" "served env ua (riDownload r) (binaryName env) b" "served env ua (riChecksum r) ''checksums.txt'' sums"
    and "served env ua (riSignature r) ''checksums.txt.sig'' sig"
    and "length sig = 64" "VerifyMsg (ueLib env) (uKey u) sums sig"
    and "findChecksum (binaryName env) sums = Some (hashFile (ueLib env) b)"
  shows "fetchAndStage env ua u r pg =
    (Inr (Some (stagedOf env (riVersion r))),
     pg\<lparr>pgFiles := (pgFiles pg)(binaryName env \<mapsto> b, ''checksums.txt'' \<mapsto> sums, ''checksums.txt.sig'' \<mapsto> sig,
          stagedVersionFile \<mapsto> bytesOf (riVersion r)), pgStaged := riVersion r, pgPending := riVersion r\<rparr>)"
proof -
  let ?d = "(pgFiles pg)(binaryName env \<mapsto> b, ''checksums.txt'' \<mapsto> sums, ''checksums.txt.sig'' \<mapsto> sig)"
  have "DownloadRelease env ua r (pgFiles pg) = (Some (stagedOf env (riVersion r)), ?d)"
    using Download_served [OF assms(1) assms(2)] Download_served [OF assms(1) assms(3)] Download_served [OF assms(1) assms(4)]
    by (simp add: DownloadRelease_def stagedOf_def)
  moreover have "VerifyStagedUpdate (ueLib env) (uKey u) ua (stagedOf env (riVersion r)) ?d = (None, ?d)"
  proof -
    have "VerifyChecksum (ueLib env) ua (binaryName env) ''checksums.txt'' ?d = None"
      "VerifySignature (ueLib env) (uKey u) ua ''checksums.txt'' ''checksums.txt.sig'' ?d = None"
      using assms(5-7) unfolding VerifyChecksum_None VerifySignature_None by (auto simp: allOk_simps [OF assms(1)])
    then show ?thesis by (simp add: VerifyStagedUpdate_def stagedOf_def)
  qed
  ultimately show ?thesis
    by (simp add: fetchAndStage_def writeStagedVersion_def allOk_simps [OF assms(1)] stagedOf_def)
qed

section \<open>Rollback and abandonment\<close>

lemma swapBinary_None:
  assumes "swapBinary ua st pg = (None, pg')"
  shows "\<exists>old b. pgExe pg = Some old \<and> readFile ua (suBinary st) (pgFiles pg) = Some b \<and>
    pg' = pg\<lparr>pgBak := Some old, pgExe := Some b\<rparr>"
  using assms by (auto simp: swapBinary_def Let_def split: option.splits if_splits prod.splits)

lemma tryRollback_restores:
  assumes "allOk ua" "pgBak pg = Some old" "pgFiles pg rollbackStateFile = Some (ueMarshalRS env (True, v))"
    and "ueUnmarshalRS env (ueMarshalRS env (True, v)) = Some (True, v)"
  shows "tryRollbackIfNeeded env ua pg =
    (True, pg\<lparr>pgExe := Some old, pgBak := None,
       pgFiles := (pgFiles pg)(failedVersionFile \<mapsto> bytesOf v, rollbackStateFile := None),
       pgRolledBack := Some v, pgInstalled := []\<rparr>)"
  using assms
  by (simp add: tryRollbackIfNeeded_def ReadRollbackState_def allOk_simps [OF assms(1)] Rollback_def restoreBackup_def
      Let_def WriteFailedVersion_def ClearRollbackState_def) (simp add: allOk_def)

lemma CheckAndDownload_failed:
  assumes "ReadFailedVersion ua (pgFiles pg) = Inr v" "v \<noteq> []" "CheckLatest env ua (uCurrent u) = Inr (Some r)" "riVersion r = v"
  shows "snd (CheckAndDownload env ua u pg) = pg"
  using assms by (auto simp: CheckAndDownload_def split: sum.splits)

lemma isDigit_not_space: "isDigit c \<Longrightarrow> \<not> isSpaceChar c"
  by (auto simp: isDigit_def isSpaceChar_def)

lemma TrimSpace_plain: "s \<noteq> [] \<Longrightarrow> \<not> isSpaceChar (hd s) \<Longrightarrow> \<not> isSpaceChar (last s) \<Longrightarrow> TrimSpace s = s"
proof -
  assume a: "s \<noteq> []" "\<not> isSpaceChar (hd s)" "\<not> isSpaceChar (last s)"
  have "dropWhile isSpaceChar s = s" using a(1, 2) by (cases s) auto
  moreover have "dropWhile isSpaceChar (rev s) = rev s" using a(1, 3) by (cases s rule: rev_cases) auto
  ultimately show ?thesis by (simp add: TrimSpace_def)
qed

lemma TrimSpace_showNat [simp]: "TrimSpace (showNat n) = showNat n"
proof (rule TrimSpace_plain)
  have "list_all isDigit (showNat n)" by simp
  then show "\<not> isSpaceChar (hd (showNat n))" "\<not> isSpaceChar (last (showNat n))"
    by (auto simp: list_all_iff intro!: isDigit_not_space)
qed simp

lemma scanInt_showNat: "n < 2 ^ 63 \<Longrightarrow> scanInt (showNat n) = Some (int n)"
proof -
  assume n: "n < 2 ^ 63"
  have d: "list_all isDigit (showNat n)" by simp
  then have h: "isDigit (hd (showNat n))" by (simp add: list_all_iff)
  then have "hd (showNat n) \<noteq> CHR ''-''" "hd (showNat n) \<noteq> CHR ''+''" by (auto simp: isDigit_def)
  then have p: "\<not> HasPrefix (showNat n) ''-''" "\<not> HasPrefix (showNat n) ''+''"
    by (cases "showNat n"; simp add: HasPrefix_def)+
  have tw: "takeWhile isDigit (showNat n) = showNat n" using d by (simp add: list_all_iff)
  show ?thesis using n by (simp add: scanInt_def Atoi_def Let_def p tw)
qed

lemma ReadInstallRetries_written:
  assumes "uaRead ua installRetriesFile" "d installRetriesFile = Some (bytesOf (showInt n))" "0 \<le> n" "n < 2 ^ 63"
  shows "ReadInstallRetries ua d = n"
proof -
  have "showInt n = showNat (nat n)" using assms(3) by (simp add: showInt_def)
  moreover have "scanInt (showNat (nat n)) = Some n" using scanInt_showNat [of "nat n"] assms(3, 4) by simp
  ultimately show ?thesis using assms(1, 2) by (simp add: ReadInstallRetries_def readState_def)
qed

definition brokenPayload :: "updEnv \<Rightarrow> string \<Rightarrow> dir \<Rightarrow> bool" where
  \<comment> \<open>a staged version whose binary does not match the list of checksums\<close>
  "brokenPayload env v d \<longleftrightarrow> d (binaryName env) \<noteq> None \<and> v \<noteq> [] \<and>
     (\<exists>vb. d stagedVersionFile = Some vb \<and> TrimSpace (stringOf vb) = v) \<and>
     \<not> (\<exists>sums b. d ''checksums.txt'' = Some sums \<and> d (binaryName env) = Some b \<and>
          findChecksum (binaryName env) sums = Some (hashFile (ueLib env) b))"

definition stateOk :: "updAnswers \<Rightarrow> bool" where
  \<comment> \<open>the staging directory can be read and written\<close>
  "stateOk ua \<longleftrightarrow> (\<forall>n. uaRead ua n \<and> uaWrite ua n \<and> uaRemove ua n \<and> renameWithRetry (uaRename ua n))"

lemma stateOk_simps:
  assumes "stateOk ua"
  shows "readFile ua n d = d n" "writeAtomic ua n c d = (True, d(n \<mapsto> c))" "removeFile ua n d = d(n := None)"
    "readState ua n d = Inr (case d n of None \<Rightarrow> [] | Some b \<Rightarrow> TrimSpace (stringOf b))" "uaRead ua n"
  using assms by (auto simp: stateOk_def readFile_def writeAtomic_def removeFile_def readState_def split: option.splits)

lemma tryInstall_broken:
  assumes "stateOk ua" "brokenPayload env v (pgFiles pg)" "\<not> (IsPackageManaged env \<and> \<not> ueAllowPackaged env)"
    and "ImportPublicKeyBase64 (ueKey64 env) = Some key" "0 \<le> n" "n + 1 < 2 ^ 63"
    and "pgFiles pg installRetriesFile = (if n = 0 then None else Some (bytesOf (showInt n)))"
    and "mx = (if ueMaxRetries env \<le> 0 then 3 else ueMaxRetries env)"
    and "pg' = tryInstallStagedUpdate env ua pg"
  shows "pgExe pg' = pgExe pg \<and> pgBak pg' = pgBak pg \<and>
    (if n < mx then pgFiles pg' = (pgFiles pg)(installRetriesFile \<mapsto> bytesOf (showInt (n + 1)))
     else pgFiles pg' (binaryName env) = None)"
proof -
  note s = stateOk_simps [OF assms(1)]
  have h: "HasStagedUpdate env ua (pgFiles pg) = Inr (Some (stagedOf env v))"
    using assms(2) s by (auto simp: HasStagedUpdate_def brokenPayload_def stagedOf_def)
  have r: "ReadInstallRetries ua (pgFiles pg) = n"
    using ReadInstallRetries_written [OF s(5), of "pgFiles pg" n] assms(5-7)
    by (cases "n = 0") (simp_all add: ReadInstallRetries_def s(4))
  have "VerifyChecksum (ueLib env) ua (suBinary (stagedOf env v)) (suChecksum (stagedOf env v)) (pgFiles pg) \<noteq> None"
    using assms(2) unfolding VerifyChecksum_None by (auto simp: s brokenPayload_def stagedOf_def)
  then have "\<exists>e. Install env key ua (Some (stagedOf env v)) pg = (Some e, pg)"
    by (cases "uaContext ua"; cases "uaWritable ua") (auto simp: Install_def)
  then obtain e where i: "Install env key ua (Some (stagedOf env v)) pg = (Some e, pg)" by blast
  show ?thesis
  proof (cases "n < mx")
    case True
    then show ?thesis using assms(3, 4, 8) h r i unfolding assms(9)
      by (auto simp: tryInstallStagedUpdate_def Let_def WriteInstallRetries_def s(2))
  next
    case False
    then show ?thesis using assms(3, 4, 8) h r i unfolding assms(9)
      by (auto simp: tryInstallStagedUpdate_def Let_def ClearInstallRetries_def cleanStaging_def removeStagedFiles_def s(3) stagedOf_def)
  qed
qed

definition retriesAre :: "int \<Rightarrow> dir \<Rightarrow> bool" where
  "retriesAre n d \<longleftrightarrow> d installRetriesFile = (if n = 0 then None else Some (bytesOf (showInt n)))"

lemma brokenPayload_retries: "brokenPayload env v (d(installRetriesFile \<mapsto> x)) = brokenPayload env v d"
proof -
  have "binaryName env \<noteq> installRetriesFile" "stagedVersionFile \<noteq> installRetriesFile" "''checksums.txt'' \<noteq> installRetriesFile"
    by (simp_all add: binaryName_def stagedVersionFile_def installRetriesFile_def)
  then show ?thesis by (simp add: brokenPayload_def)
qed

lemma tryInstall_broken_until:
  assumes "\<not> (IsPackageManaged env \<and> \<not> ueAllowPackaged env)" "ImportPublicKeyBase64 (ueKey64 env) = Some key"
    and "mx = (if ueMaxRetries env \<le> 0 then 3 else ueMaxRetries env)" "mx + 1 < 2 ^ 63"
  shows "length uas = k + 1 \<Longrightarrow> \<forall>ua\<in>set uas. stateOk ua \<Longrightarrow> brokenPayload env v (pgFiles pg) \<Longrightarrow> 0 \<le> n \<Longrightarrow> int k = mx - n \<Longrightarrow>
    retriesAre n (pgFiles pg) \<Longrightarrow> q = fold (tryInstallStagedUpdate env) uas pg \<Longrightarrow>
    pgExe q = pgExe pg \<and> pgBak q = pgBak pg \<and> pgFiles q (binaryName env) = None"
proof (induction k arbitrary: uas pg n)
  case 0
  then obtain ua where u: "uas = [ua]" by (cases uas) auto
  have "stateOk ua" using 0 u by simp
  from tryInstall_broken [OF this 0(3) assms(1, 2), of n mx q] 0 u assms(3, 4) show ?case
    by (simp add: retriesAre_def)
next
  case (Suc k)
  then obtain ua us where u: "uas = ua # us" "length us = k + 1" by (cases uas) auto
  let ?p = "tryInstallStagedUpdate env ua pg"
  have st: "stateOk ua" "\<forall>ua\<in>set us. stateOk ua" using Suc.prems(2) u by simp_all
  have n: "n < mx" "n + 1 < 2 ^ 63" using Suc.prems(5) assms(4) by simp_all
  have p: "pgExe ?p = pgExe pg" "pgBak ?p = pgBak pg"
    "pgFiles ?p = (pgFiles pg)(installRetriesFile \<mapsto> bytesOf (showInt (n + 1)))"
    using tryInstall_broken [OF st(1) Suc.prems(3) assms(1, 2) Suc.prems(4) n(2) _ assms(3) refl] Suc.prems(6) n(1)
    by (simp_all add: retriesAre_def)
  have "brokenPayload env v (pgFiles ?p)" using Suc.prems(3) by (simp add: p(3) brokenPayload_retries)
  moreover have "retriesAre (n + 1) (pgFiles ?p)" using Suc.prems(4) by (simp add: p(3) retriesAre_def)
  moreover have "int k = mx - (n + 1)" "0 \<le> n + 1" using Suc.prems(4, 5) by simp_all
  moreover have "q = fold (tryInstallStagedUpdate env) us ?p" using Suc.prems(7) u by simp
  ultimately have "pgExe q = pgExe ?p \<and> pgBak q = pgBak ?p \<and> pgFiles q (binaryName env) = None"
    by (intro Suc.IH [OF u(2) st(2)])
  then show ?case using p(1, 2) by simp
qed

section \<open>A sample release\<close>

lemma hexEncode_not_space: "c \<in> set (hexEncode bs) \<Longrightarrow> \<not> isSpaceChar c"
proof -
  assume "c \<in> set (hexEncode bs)"
  then have "isHexLower c" by (auto simp: hexEncode_def dest: hex02_isHex)
  then show ?thesis by (auto simp: isHexLower_def isSpaceChar_def isDigit_def)
qed

lemma hexEncode_Nil: "hexEncode bs = [] \<longleftrightarrow> bs = []"
  by (cases bs) (simp_all add: hexEncode_def hex02_def)

lemma splitPair_append: "CHR '' '' \<notin> set h \<Longrightarrow> splitPair (h @ CHR '' '' # CHR '' '' # s) = Some (h, s)"
proof (induction h)
  case (Cons c h)
  then show ?case by (cases h) auto
qed simp

lemma findChecksum_single:
  assumes "list_all (\<lambda>c. \<not> isSpaceChar c) h" "list_all (\<lambda>c. \<not> isSpaceChar c) name" "h \<noteq> []" "name \<noteq> []"
    and "length h + length name < 65534"
  shows "findChecksum name (bytesOf (h @ ''  '' @ name @ [CHR 0x0A])) = Some h"
proof -
  let ?l = "h @ CHR '' '' # CHR '' '' # name"
  have sp: "isSpaceChar CHR '' ''" "isSpaceChar CHR 0x0A" "isSpaceChar CHR 0x0D" by (simp_all add: isSpaceChar_def)
  have ns: "\<not> isSpaceChar (hd h)" "\<not> isSpaceChar (last h)" "\<not> isSpaceChar (hd name)" "\<not> isSpaceChar (last name)"
    using assms(1-4) by (auto simp: list_all_iff)
  have nl: "CHR 0x0A \<notin> set ?l" "CHR '' '' \<notin> set h" using assms(1, 2) sp by (auto simp: list_all_iff)
  have "splitOn CHR 0x0A (?l @ CHR 0x0A # []) = ?l # splitOn CHR 0x0A []" by (rule splitOn_Cons [OF nl(1)])
  moreover have "TrimSuffix ?l [CHR 0x0D] = ?l"
    using ns(4) sp(3) assms(4) by (cases name rule: rev_cases) (auto simp: TrimSuffix_def HasSuffix_def)
  ultimately have lines: "scanLines (h @ CHR '' '' # CHR '' '' # name @ [CHR 0x0A]) = [?l]"
    using assms(5) by (simp add: scanLines_def)
  have "TrimSpace ?l = ?l" by (rule TrimSpace_plain) (use assms(3, 4) ns in auto)
  moreover have "TrimSpace name = name" "TrimSpace h = h" using TrimSpace_plain assms(3, 4) ns by blast+
  ultimately show ?thesis using assms(3)
    by (simp add: findChecksum_def lines Let_def splitPair_append [OF nl(2)])
qed

definition sampleBinary :: bytes where "sampleBinary = replicate 20 7"

definition sampleSums :: bytes where
  "sampleSums = bytesOf (hexEncode sampleBinary @ ''  le_voile_linux_amd64'' @ [CHR 0x0A])"

definition sampleUpdEnv :: updEnv where
  "sampleUpdEnv = \<lparr>ueLib = toyLib, ueKey64 = b64enc Std (replicate 32 0), ueGoos = ''linux'', ueGoarch = ''amd64'',
     ueExePath = ''/opt/levoile/le_voile'', ueAllowPackaged = False, ueMaxRetries = 3,
     ueParseURL = (\<lambda>u. Some (''https'', ''github.com'', ''/velia-the-veil/le_voile/releases/'' @ u)),
     ueRelease = (\<lambda>b. Some \<lparr>ghTag = ''v2.0.0'', ghBody = [],
        ghAssets = map (\<lambda>n. (n, n)) [''le_voile_linux_amd64'', ''checksums.txt'', ''checksums.txt.sig'']\<rparr>),
     ueMarshalRS = (\<lambda>(j, v). bytesOf v), ueUnmarshalRS = (\<lambda>b. Some (True, stringOf b))\<rparr>"

definition sampleUpdAnswers :: updAnswers where
  "sampleUpdAnswers = \<lparr>uaLatest = Some (200, Some []),
     uaGet = (\<lambda>u. ([], Some (200, if u = ''checksums.txt'' then sampleSums
        else if u = ''checksums.txt.sig'' then rev sampleSums @ [1] else sampleBinary, True))),
     uaRead = (\<lambda>_. True), uaWrite = (\<lambda>_. True), uaRename = (\<lambda>_. [True]), uaRemove = (\<lambda>_. True), uaContext = True,
     uaWritable = True, uaCopyBackup = True, uaCopyNew = True, uaStatNew = True, uaExecutable = True, uaRestore = [True]\<rparr>"

definition samplePayload :: dir where
  "samplePayload = [''le_voile_linux_amd64'' \<mapsto> sampleBinary, ''checksums.txt'' \<mapsto> sampleSums,
     ''checksums.txt.sig'' \<mapsto> rev sampleSums @ [1], ''staged_version.txt'' \<mapsto> bytesOf ''2.0.0'']"

definition sampleProgram :: updProgram where
  "sampleProgram = \<lparr>pgFiles = Map.empty, pgExe = Some [1], pgBak = None, pgVersion = ''1.0.0'', pgStaged = [], pgPending = [],
     pgInstalled = [], pgInstallError = None, pgRolledBack = None\<rparr>"

lemma sample_allOk: "allOk sampleUpdAnswers"
  by (simp add: allOk_def sampleUpdAnswers_def renameWithRetry_def)

lemma sample_binaryName: "binaryName sampleUpdEnv = ''le_voile_linux_amd64''"
  by (simp add: binaryName_def sampleUpdEnv_def)

lemma sample_key: "ImportPublicKeyBase64 (ueKey64 sampleUpdEnv) = Some (replicate 32 0)"
  by (simp add: ImportPublicKeyBase64_def sampleUpdEnv_def del: b64enc.simps)

lemma sample_checksum: "findChecksum ''le_voile_linux_amd64'' sampleSums = Some (hashFile toyLib sampleBinary)"
proof -
  have "length (hexEncode sampleBinary) = 40" by (simp add: sampleBinary_def)
  moreover have "list_all (\<lambda>c. \<not> isSpaceChar c) ''le_voile_linux_amd64''" by (simp add: isSpaceChar_def)
  moreover have "hexEncode sampleBinary \<noteq> []" by (simp add: hexEncode_Nil) (simp add: sampleBinary_def)
  ultimately show ?thesis
    using findChecksum_single [of "hexEncode sampleBinary" "''le_voile_linux_amd64''"] hexEncode_not_space [of _ sampleBinary]
    by (simp add: sampleSums_def hashFile_def toyLib_def list_all_iff)
qed

lemma sample_signature: "length (rev sampleSums @ [1]) = 64" "VerifyMsg toyLib (replicate 32 0) sampleSums (rev sampleSums @ [1])"
  by (simp_all add: sampleSums_def sampleBinary_def bytesOf_def VerifyMsg_def toyLib_def)

lemma sample_payload: "payload sampleUpdEnv sampleBinary ''2.0.0'' samplePayload"
proof -
  have "TrimSpace ''2.0.0'' = ''2.0.0''" by code_simp
  then show ?thesis
    using sample_key sample_checksum sample_signature
    by (simp add: payload_def sample_binaryName samplePayload_def stagedVersionFile_def sampleBinary_def)
      (simp add: sampleUpdEnv_def)
qed

lemma sample_installable: "installable sampleUpdEnv samplePayload"
  by (simp add: installable_def IsPackageManaged_def packageManagedPrefixes_def sampleUpdEnv_def HasPrefix_def
      samplePayload_def installRetriesFile_def)

lemma splitOn_append: "splitOn c (p @ c # n) = splitOn c p @ splitOn c n"
proof (induction p)
  case (Cons x p)
  then show ?case using splitOn_not_Nil [of c p] by (cases "splitOn c p") auto
qed simp

lemma pathBase_append:
  assumes "n \<noteq> []" "CHR ''/'' \<notin> set n"
  shows "pathBase (p @ CHR ''/'' # n) = n"
proof -
  let ?s = "p @ CHR ''/'' # n"
  obtain ys y where n: "n = ys @ [y]" "y \<noteq> CHR ''/''" using assms by (cases n rule: rev_cases) auto
  have d: "dropWhile (\<lambda>c. c = CHR ''/'') (rev ?s) = rev ?s" using n by simp
  have "rev (rev ?s) \<noteq> []" by simp
  then show ?thesis unfolding pathBase_def Let_def d by (simp add: splitOn_append splitOn_single [OF assms(2)])
qed

section \<open>Properties\<close>

text \<open>
  C14: only signed binaries become the executable.  Whatever anybody writes to the staging directory,
  whatever the network and the system calls answer, after any sequence of starts, update cycles and
  seedings the service has an executable, and it is the original one, the backup there was, or
  content that a list of checksums signed under the release key names as the binary of the platform.
\<close>

theorem only_signed_binaries_run:
  assumes "pgExe pg = Some b0"
  shows "\<exists>b. pgExe (fold (updStep env) evs pg) = Some b \<and> (b = b0 \<or> pgBak pg = Some b \<or> signedBinary env b)"
proof -
  let ?P = "\<lambda>b. b = b0 \<or> pgBak pg = Some b \<or> signedBinary env b"
  have "trustedProgram ?P pg" using assms by (simp add: trustedProgram_def)
  then have "trustedProgram ?P (fold (updStep env) evs pg)" by (rule updSteps_trusted) simp
  then show ?thesis by (simp only: trustedProgram_def)
qed

theorem only_signed_binaries_run_witness:
  "\<exists>b. pgExe (fold (updStep sampleUpdEnv)
     [EvWriteStaging samplePayload, EvStart sampleUpdAnswers (\<lambda>_. ''1.0.0'') (\<lambda>_. None)] sampleProgram) = Some b \<and>
     signedBinary sampleUpdEnv b \<and> b = sampleBinary"
proof -
  let ?evs = "[EvWriteStaging samplePayload, EvStart sampleUpdAnswers (\<lambda>_. ''1.0.0'') (\<lambda>_. None)]"
  let ?pg = "sampleProgram\<lparr>pgFiles := samplePayload, pgVersion := ''1.0.0'', pgInstalled := [], pgInstallError := None,
    pgRolledBack := None\<rparr>"
  have "tryInstallStagedUpdate sampleUpdEnv sampleUpdAnswers ?pg = ?pg\<lparr>pgBak := Some [1], pgExe := Some sampleBinary,
      pgFiles := installedFiles sampleUpdEnv ''2.0.0'' (pgFiles ?pg), pgVersion := ''2.0.0'', pgInstalled := ''2.0.0''\<rparr>"
    by (rule tryInstall_payload [OF sample_allOk])
      (simp_all add: sample_payload sample_installable, simp add: sampleProgram_def)
  then have e: "pgExe (fold (updStep sampleUpdEnv) ?evs sampleProgram) = Some sampleBinary"
    by (simp add: startService_def sampleProgram_def confirmUpdate_def CleanupBackup_def sampleUpdAnswers_def)
  have "pgExe sampleProgram = Some [1]" "pgBak sampleProgram = None" "sampleBinary \<noteq> [1]"
    by (simp_all add: sampleProgram_def sampleBinary_def numeral_eq_Suc)
  with only_signed_binaries_run [of sampleProgram "[1]" sampleUpdEnv ?evs] e show ?thesis by auto
qed



text \<open>
  a rollback brings back the binary that ran before.  After an installation, a rollback restores
  exactly the previous executable, marks the version as failed, and as long as that version is the
  latest release no cycle changes anything.
\<close>

theorem rollback_restores:
  assumes "allOk ua" "payload env b v (pgFiles pg)" "installable env (pgFiles pg)" "pgExe pg = Some old"
    and "ueUnmarshalRS env (ueMarshalRS env (True, v)) = Some (True, v)" "TrimSpace v = v"
    and "tryRollbackIfNeeded env ua (tryInstallStagedUpdate env ua pg) = (done, pg')"
  shows "done \<and> pgExe pg' = Some old \<and> pgRolledBack pg' = Some v \<and>
    (\<forall>ua' u r. uaRead ua' failedVersionFile \<and> CheckLatest env ua' (uCurrent u) = Inr (Some r) \<and> riVersion r = v \<longrightarrow>
       snd (CheckAndDownload env ua' u pg') = pg')"
proof -
  let ?pg1 = "pg\<lparr>pgBak := Some old, pgExe := Some b, pgFiles := installedFiles env v (pgFiles pg), pgVersion := v, pgInstalled := v\<rparr>"
  have "v \<noteq> []" using assms(2) by (simp add: payload_def)
  have "tryInstallStagedUpdate env ua pg = ?pg1" by (rule tryInstall_payload [OF assms(1-4)])
  moreover have "pgFiles ?pg1 rollbackStateFile = Some (ueMarshalRS env (True, v))" by (simp add: installedFiles_def)
  ultimately have r: "done" "pg' = ?pg1\<lparr>pgExe := Some old, pgBak := None,
       pgFiles := (pgFiles ?pg1)(failedVersionFile \<mapsto> bytesOf v, rollbackStateFile := None),
       pgRolledBack := Some v, pgInstalled := []\<rparr>"
    using assms(7) tryRollback_restores [OF assms(1), of ?pg1 old env v] assms(5) by simp_all
  have "failedVersionFile \<noteq> rollbackStateFile" by (simp add: failedVersionFile_def rollbackStateFile_def)
  then have "pgFiles pg' failedVersionFile = Some (bytesOf v)" unfolding r(2) by simp
  then have f: "ReadFailedVersion ua' (pgFiles pg') = Inr v" if "uaRead ua' failedVersionFile" for ua'
    using that assms(6) by (simp add: ReadFailedVersion_def readState_def)
  have "snd (CheckAndDownload env ua' u pg') = pg'"
    if "uaRead ua' failedVersionFile \<and> CheckLatest env ua' (uCurrent u) = Inr (Some q) \<and> riVersion q = v" for ua' u q
    using CheckAndDownload_failed [OF f] that \<open>v \<noteq> []\<close> by blast
  moreover have "pgExe pg' = Some old" "pgRolledBack pg' = Some v" by (simp_all add: r(2))
  ultimately show ?thesis using r(1) by blast
qed

theorem rollback_restores_witness:
  "\<exists>pg'. tryRollbackIfNeeded sampleUpdEnv sampleUpdAnswers
      (tryInstallStagedUpdate sampleUpdEnv sampleUpdAnswers (sampleProgram\<lparr>pgFiles := samplePayload\<rparr>)) = (True, pg') \<and>
     pgExe pg' = Some [1]"
proof -
  let ?pg = "sampleProgram\<lparr>pgFiles := samplePayload\<rparr>"
  obtain d pg' where t: "tryRollbackIfNeeded sampleUpdEnv sampleUpdAnswers
      (tryInstallStagedUpdate sampleUpdEnv sampleUpdAnswers ?pg) = (d, pg')" by fastforce
  have a: "payload sampleUpdEnv sampleBinary ''2.0.0'' (pgFiles ?pg)" "installable sampleUpdEnv (pgFiles ?pg)" "pgExe ?pg = Some [1]"
    using sample_payload sample_installable by (simp_all add: sampleProgram_def)
  have b: "ueUnmarshalRS sampleUpdEnv (ueMarshalRS sampleUpdEnv (True, ''2.0.0'')) = Some (True, ''2.0.0'')"
    by (simp add: sampleUpdEnv_def)
  have "TrimSpace ''2.0.0'' = ''2.0.0''" by code_simp
  from rollback_restores [OF sample_allOk a b this t] t show ?thesis by simp
qed

text \<open>
  a payload that cannot be installed is abandoned.  While the binary in the staging directory
  does not match the list of checksums, no start replaces the executable, and the start after the
  configured number of attempts (three by default) removes the payload.
\<close>

theorem broken_payload_is_abandoned:
  assumes "\<not> (IsPackageManaged env \<and> \<not> ueAllowPackaged env)" "ImportPublicKeyBase64 (ueKey64 env) = Some key"
    and "mx = (if ueMaxRetries env \<le> 0 then 3 else ueMaxRetries env)" "mx + 1 < 2 ^ 63"
    and "length uas = nat mx + 1" "\<forall>ua\<in>set uas. stateOk ua" "brokenPayload env v (pgFiles pg)"
    and "pgFiles pg installRetriesFile = None" "q = fold (tryInstallStagedUpdate env) uas pg"
  shows "pgExe q = pgExe pg \<and> pgBak q = pgBak pg \<and> pgFiles q (binaryName env) = None"
proof (rule tryInstall_broken_until [OF assms(1-6, 7)])
  show "(0 :: int) \<le> 0" "int (nat mx) = mx - 0" using assms(3) by (simp_all split: if_splits)
  show "retriesAre 0 (pgFiles pg)" using assms(8) by (simp add: retriesAre_def)
qed (rule assms(9))

theorem broken_payload_is_abandoned_witness:
  "pgFiles (fold (tryInstallStagedUpdate sampleUpdEnv) (replicate 4 sampleUpdAnswers)
     (sampleProgram\<lparr>pgFiles := samplePayload(''le_voile_linux_amd64'' \<mapsto> [])\<rparr>)) ''le_voile_linux_amd64'' = None"
proof -
  let ?pg = "sampleProgram\<lparr>pgFiles := samplePayload(''le_voile_linux_amd64'' \<mapsto> [])\<rparr>"
  have m: "\<not> (IsPackageManaged sampleUpdEnv \<and> \<not> ueAllowPackaged sampleUpdEnv)" "pgFiles ?pg installRetriesFile = None"
    using sample_installable by (simp_all add: installable_def installRetriesFile_def samplePayload_def)
  have x: "(3 :: int) = (if ueMaxRetries sampleUpdEnv \<le> 0 then 3 else ueMaxRetries sampleUpdEnv)" by (simp add: sampleUpdEnv_def)
  have h: "hashFile toyLib sampleBinary \<noteq> hashFile toyLib []" by (simp add: hashFile_def toyLib_def sampleBinary_def)
  have "TrimSpace ''2.0.0'' = ''2.0.0''" by code_simp
  then have b: "brokenPayload sampleUpdEnv ''2.0.0'' (pgFiles ?pg)"
    using sample_checksum h
    by (simp add: brokenPayload_def sample_binaryName samplePayload_def stagedVersionFile_def) (simp add: sampleUpdEnv_def)
  have s: "\<forall>ua\<in>set (replicate 4 sampleUpdAnswers). stateOk ua"
    by (simp add: stateOk_def sampleUpdAnswers_def renameWithRetry_def)
  have l: "(3 :: int) + 1 < 2 ^ 63" "length (replicate 4 sampleUpdAnswers) = nat 3 + 1" by simp_all
  from broken_payload_is_abandoned [OF m(1) sample_key x l s b m(2) refl] show ?thesis
    by (simp only: sample_binaryName)
qed

text \<open>
  C24: the rollback net does not cover the binary it is meant for.  The start that installs an update
  still runs the old image, and it is the old image's connection that confirms the update: the backup
  and the rollback mark are removed before the new binary has ever run.  If the new binary cannot
  connect, it stays the executable for ever, through any number of starts.
\<close>

theorem rollback_never_sees_new_binary:
  assumes "allOk ua" "payload env b v (pgFiles pg)" "installable env (pgFiles pg)" "pgExe pg = Some old"
    and "connects old = None" "connects b = Some e"
  shows "pgExe (fold (\<lambda>ua. startService env ua builtin connects) (ua # uas) pg) = Some b"
proof -
  let ?start = "\<lambda>ua. startService env ua builtin connects"
  let ?J = "\<lambda>q. pgExe q = Some b \<and> pgBak q = None \<and> pgFiles q (binaryName env) = None \<and> pgFiles q rollbackStateFile = None"
  let ?pg0 = "pg\<lparr>pgVersion := builtin old, pgInstalled := [], pgInstallError := None, pgRolledBack := None\<rparr>"
  have "tryInstallStagedUpdate env ua ?pg0 = ?pg0\<lparr>pgBak := Some old, pgExe := Some b,
      pgFiles := installedFiles env v (pgFiles ?pg0), pgVersion := v, pgInstalled := v\<rparr>"
    by (rule tryInstall_payload [OF assms(1)]) (use assms in simp_all)
  then have "?start ua pg = confirmUpdate ua (?pg0\<lparr>pgBak := Some old, pgExe := Some b,
      pgFiles := installedFiles env v (pgFiles pg), pgVersion := v, pgInstalled := v\<rparr>)"
    using assms(4, 5) by (simp add: startService_def)
  moreover have "uaRemove ua ''.bak''" using assms(1) by (simp add: allOk_def)
  ultimately have first: "?J (?start ua pg)"
    by (simp add: confirmUpdate_def CleanupBackup_def ClearRollbackState_def allOk_simps [OF assms(1)] installedFiles_def)
  have keep: "?J (?start w q)" if j: "?J q" for w q
  proof -
    let ?q0 = "q\<lparr>pgVersion := builtin b, pgInstalled := [], pgInstallError := None, pgRolledBack := None\<rparr>"
    have "tryInstallStagedUpdate env w ?q0 = ?q0"
      using j by (simp add: tryInstallStagedUpdate_def HasStagedUpdate_def split: option.split)
    moreover have "snd (tryRollbackIfNeeded env w ?q0) = ?q0"
      using j by (simp add: tryRollbackIfNeeded_def ReadRollbackState_def readFile_def)
    ultimately have "?start w q = ?q0" using j assms(6) by (simp add: startService_def Let_def)
    then show ?thesis using j by simp
  qed
  have "?J (fold ?start us q)" if "?J q" for us q
    using that
  proof (induction us arbitrary: q)
    case (Cons w us)
    show ?case using Cons.IH [OF keep [OF Cons.prems]] by simp
  qed simp
  from this [OF first, of uas] show ?thesis by simp
qed

theorem rollback_never_sees_new_binary_witness:
  "pgExe (fold (\<lambda>ua. startService sampleUpdEnv ua (\<lambda>_. ''1.0.0'') (\<lambda>img. if img = sampleBinary then Some VerifyErr else None))
     (replicate 5 sampleUpdAnswers) (sampleProgram\<lparr>pgFiles := samplePayload\<rparr>)) = Some sampleBinary"
proof -
  let ?pg = "sampleProgram\<lparr>pgFiles := samplePayload\<rparr>"
  let ?c = "\<lambda>img. if img = sampleBinary then Some VerifyErr else None"
  have a: "payload sampleUpdEnv sampleBinary ''2.0.0'' (pgFiles ?pg)" "installable sampleUpdEnv (pgFiles ?pg)" "pgExe ?pg = Some [1]"
    using sample_payload sample_installable by (simp_all add: sampleProgram_def)
  have "[1] \<noteq> sampleBinary" by (simp add: sampleBinary_def numeral_eq_Suc)
  then have c: "?c [1] = None" "?c sampleBinary = Some VerifyErr" by simp_all
  have r: "replicate 5 sampleUpdAnswers = sampleUpdAnswers # replicate 4 sampleUpdAnswers" by (simp add: numeral_eq_Suc)
  show ?thesis unfolding r by (rule rollback_never_sees_new_binary [OF sample_allOk a c])
qed

end
