(* ===== verification/DnsFilter.thy ===== *)
theory DnsFilter
  imports Go_Net
begin

text \<open>
  DNS filtering and forwarding on both sides.  The relay: \<^verbatim>\<open>blocklist.go\<close> (blocked names),
  \<^verbatim>\<open>dns_resolver.go\<close> (resolution through DoH upstreams), \<^verbatim>\<open>doh_handler.go\<close> (the DoH endpoint with its
  active upstream).  The client: \<^verbatim>\<open>linux/internal/blocklist\<close> (the downloaded list and its cache) and
  \<^verbatim>\<open>linux/internal/dns/proxy.go\<close> (the local proxy, which reads and answers wire-format queries
  itself).

  The DNS library of the relay is the record \<open>dnsLib\<close>; what an upstream answers is an argument.
\<close>

section \<open>Hosts files\<close>

definition stripComment :: "string \<Rightarrow> string" where
  "stripComment line = (case IndexByte line CHR ''#'' of None \<Rightarrow> line | Some i \<Rightarrow> TrimSpace (take i line))"

definition parseHostsLine :: "string \<Rightarrow> string option" where
  \<comment> \<open>the domain of a line, on the relay\<close>
  "parseHostsLine text =
     (let line = TrimSpace text in
      if line = [] \<or> hd line = CHR ''#'' then None
      else let fields = wordsOf (stripComment line) in
        if length fields < 2 then None
        else if fields ! 0 \<noteq> ''0.0.0.0'' \<and> fields ! 0 \<noteq> ''127.0.0.1'' then None
        else let domain = ToLower (TrimSuffix (fields ! 1) ''.'') in
          if domain = [] \<or> domain = ''localhost'' \<or> domain = ''localhost.localdomain'' then None else Some domain)"

definition parseHostsFile :: "string \<Rightarrow> string set" where
  "parseHostsFile content = set (List.map_filter parseHostsLine (scanLines content))"

definition parseBlockLine :: "string \<Rightarrow> string option" where
  \<comment> \<open>the domain of a line, on the client\<close>
  "parseBlockLine text =
     (let line = TrimSpace text in
      if line = [] \<or> HasPrefix line ''#'' then None
      else let fields = wordsOf (stripComment line) in
        if length fields < 2 then None
        else if fields ! 0 \<noteq> ''0.0.0.0'' then None
        else let domain = fields ! 1 in
          if domain = [] \<or> domain = ''0.0.0.0'' \<or> domain = ''localhost'' \<or> domain = ''broadcasthost'' then None
          else Some domain)"

definition parseBlocklist :: "string \<Rightarrow> string set" where
  \<comment> \<open>\<^verbatim>\<open>parse\<close>; trimming blanks trims the carriage return too\<close>
  "parseBlocklist content = set (List.map_filter parseBlockLine (splitOn CHR 0x0A content))"

section \<open>The relay's blocklist\<close>

definition LoadBlocklist :: "(nat \<times> string) option \<Rightarrow> string set \<Rightarrow> bool \<times> string set" where
  \<comment> \<open>\<^verbatim>\<open>Load\<close>: status and body of the download; the old map is kept on failure\<close>
  "LoadBlocklist answer m =
     (case answer of
        None \<Rightarrow> (False, m)
      | Some (status, body) \<Rightarrow> if status \<noteq> 200 then (False, m) else (True, parseHostsFile body))"

function walkUp :: "string set \<Rightarrow> string \<Rightarrow> bool" where
  "walkUp m domain =
     (if domain = [] then False
      else if domain \<in> m then True
      else case IndexByte domain CHR ''.'' of
        None \<Rightarrow> False
      | Some i \<Rightarrow> walkUp m (drop (i + 1) domain))"
  by pat_completeness auto
termination by (relation "measure (\<lambda>(m, d). length d)") auto

declare walkUp.simps [simp del]

definition IsBlocked :: "string set \<Rightarrow> string \<Rightarrow> bool" where
  "IsBlocked m fqdn = walkUp m (ToLower (TrimSuffix fqdn ''.''))"

section \<open>The relay's resolver\<close>

record 'm dnsLib =
  dlUnpack :: "bytes \<Rightarrow> 'm option"
  dlQuestions :: "'m \<Rightarrow> string list"
  dlAuthentic :: "'m \<Rightarrow> bool"
  dlPackDO :: "'m \<Rightarrow> bytes option"
  dlNXDOMAIN :: "'m \<Rightarrow> bytes"
  dlSERVFAIL :: "'m \<Rightarrow> bytes"
  dlBareSERVFAIL :: bytes

record dnsMetrics =
  queriesTotal :: nat
  blockedTotal :: nat
  upstreamFailuresTotal :: nat
  dnssecFailuresTotal :: nat

definition synthesizeSERVFAIL :: "'m dnsLib \<Rightarrow> bytes \<Rightarrow> bytes" where
  "synthesizeSERVFAIL dl query = (case dlUnpack dl query of None \<Rightarrow> dlBareSERVFAIL dl | Some m \<Rightarrow> dlSERVFAIL dl m)"

type_synonym dohServer = "string \<Rightarrow> bytes \<Rightarrow> (nat \<times> bytes option) option"
  \<comment> \<open>URL and query to status and body; \<open>None\<close> is a transport error\<close>

definition doHPost :: "dohServer \<Rightarrow> string \<Rightarrow> bytes \<Rightarrow> bytes option" where
  "doHPost post upstream wire =
     (case post upstream wire of
        None \<Rightarrow> None
      | Some (status, body) \<Rightarrow> if status \<noteq> 200 then None else map_option (take 65535) body)"

fun tryUpstreams ::
  "'m dnsLib \<Rightarrow> dohServer \<Rightarrow> bytes \<Rightarrow> string list \<Rightarrow> dnsMetrics \<Rightarrow> bytes option \<times> string list \<times> dnsMetrics" where
  \<comment> \<open>the answer, the upstreams asked, the counters\<close>
  "tryUpstreams dl post wire [] c = (None, [], c)"
| "tryUpstreams dl post wire (u # us) c =
     (case doHPost post u wire of
        None \<Rightarrow>
          (case tryUpstreams dl post wire us (c\<lparr>upstreamFailuresTotal := upstreamFailuresTotal c + 1\<rparr>) of
             (r, asked, c') \<Rightarrow> (r, u # asked, c'))
      | Some resp \<Rightarrow>
          (case dlUnpack dl resp of
             None \<Rightarrow>
               (case tryUpstreams dl post wire us (c\<lparr>upstreamFailuresTotal := upstreamFailuresTotal c + 1\<rparr>) of
                  (r, asked, c') \<Rightarrow> (r, u # asked, c'))
           | Some m \<Rightarrow>
               (Some resp, [u],
                if \<not> dlAuthentic dl m then c\<lparr>dnssecFailuresTotal := dnssecFailuresTotal c + 1\<rparr> else c)))"

definition Resolve ::
  "'m dnsLib \<Rightarrow> dohServer \<Rightarrow> string list \<Rightarrow> string set option \<Rightarrow> bytes \<Rightarrow> dnsMetrics \<Rightarrow>
     bytes \<times> string list \<times> dnsMetrics" where
  "Resolve dl post ups blocklist query c0 =
     (let c = c0\<lparr>queriesTotal := queriesTotal c0 + 1\<rparr>; fail = synthesizeSERVFAIL dl query in
      case dlUnpack dl query of
        None \<Rightarrow> (fail, [], c)
      | Some msg \<Rightarrow>
          if length (dlQuestions dl msg) \<noteq> 1 then (fail, [], c)
          else
            let qname = ToLower (TrimSuffix (hd (dlQuestions dl msg)) ''.'') in
            if (case blocklist of None \<Rightarrow> False | Some m \<Rightarrow> IsBlocked m qname)
            then (dlNXDOMAIN dl msg, [], c\<lparr>blockedTotal := blockedTotal c + 1\<rparr>)
            else case dlPackDO dl msg of
              None \<Rightarrow> (fail, [], c)
            | Some wire \<Rightarrow>
                (case tryUpstreams dl post wire ups c of
                   (None, asked, c') \<Rightarrow> (fail, asked, c')
                 | (Some resp, asked, c') \<Rightarrow> (resp, asked, c')))"

section \<open>The relay's DoH endpoint\<close>

definition doRequest :: "dohServer \<Rightarrow> string \<Rightarrow> bytes \<Rightarrow> (bytes \<times> nat) option" where
  "doRequest post upstream query =
     (case post upstream query of
        None \<Rightarrow> None
      | Some (status, body) \<Rightarrow>
          (case map_option (take 65536) body of
             None \<Rightarrow> None
           | Some b \<Rightarrow> if length b > 65535 then None else if status \<ge> 500 then None else Some (b, status)))"

fun forwardFrom :: "dohServer \<Rightarrow> string list \<Rightarrow> bytes \<Rightarrow> nat list \<Rightarrow> ((bytes \<times> nat) \<times> nat) option" where
  \<comment> \<open>the first index whose upstream answers\<close>
  "forwardFrom post ups query [] = None"
| "forwardFrom post ups query (idx # idxs) =
     (case doRequest post (ups ! idx) query of
        Some r \<Rightarrow> Some (r, idx) | None \<Rightarrow> forwardFrom post ups query idxs)"

definition forwardToUpstream :: "dohServer \<Rightarrow> string list \<Rightarrow> bytes \<Rightarrow> nat \<Rightarrow> (bytes \<times> nat) option \<times> nat" where
  \<comment> \<open>the argument and the second result are \<^verbatim>\<open>activeIdx\<close>\<close>
  "forwardToUpstream post ups query startIdx =
     (let n = length ups in
      case forwardFrom post ups query (map (\<lambda>i. (startIdx + i) mod n) [0..<n]) of
        None \<Rightarrow> (None, startIdx)
      | Some (r, idx) \<Rightarrow> (Some r, if idx \<noteq> startIdx then idx else startIdx))"

definition recoveryTick :: "(nat \<times> unit) option \<Rightarrow> string list \<Rightarrow> nat \<Rightarrow> nat" where
  \<comment> \<open>a tick of the goroutine of \<^verbatim>\<open>Start\<close>, with what the probe of the primary answers\<close>
  "recoveryTick probe ups activeIdx =
     (if length ups \<le> 1 then activeIdx
      else if activeIdx = 0 then activeIdx
      else case probe of None \<Rightarrow> activeIdx | Some (status, _) \<Rightarrow> if status < 500 then 0 else activeIdx)"

definition dohServeHTTP ::
  "dohServer \<Rightarrow> string list \<Rightarrow> string \<Rightarrow> string \<Rightarrow> bytes option \<Rightarrow> nat \<Rightarrow> nat \<times> bytes \<times> nat" where
  \<comment> \<open>method, content type and body to status, body and \<^verbatim>\<open>activeIdx\<close>\<close>
  "dohServeHTTP post ups meth ctype body activeIdx =
     (if meth \<noteq> ''POST'' then (405, [], activeIdx)
      else if ctype \<noteq> ''application/dns-message'' then (400, [], activeIdx)
      else case map_option (take 65536) body of
        None \<Rightarrow> (400, [], activeIdx)
      | Some b \<Rightarrow>
          if length b = 0 then (400, [], activeIdx)
          else if length b > 65535 then (400, [], activeIdx)
          else (case forwardToUpstream post ups b activeIdx of
            (None, act) \<Rightarrow> (502, [], act)
          | (Some (resp, status), act) \<Rightarrow> (status, resp, act)))"

datatype dohEvent =
    Request dohServer string string "bytes option"
  | Tick "(nat \<times> unit) option"

definition dohStep :: "string list \<Rightarrow> dohEvent \<Rightarrow> nat \<Rightarrow> nat" where
  \<comment> \<open>\<^verbatim>\<open>activeIdx\<close> after a request or a tick of the recovery goroutine\<close>
  "dohStep ups e activeIdx =
     (case e of
        Request post meth ctype body \<Rightarrow> snd (snd (dohServeHTTP post ups meth ctype body activeIdx))
      | Tick probe \<Rightarrow> recoveryTick probe ups activeIdx)"

section \<open>The client's blocklist manager\<close>

record blManager =
  blCaching :: bool
  blCache :: "(string \<times> int) option"
  blDomains :: "string set"
  blLastUpdate :: "int option"
  blFails :: nat
  blLastError :: bool

definition loadCache :: "bool \<Rightarrow> int \<Rightarrow> blManager \<Rightarrow> blManager" where
  \<comment> \<open>whether the file can be read; the time in seconds; the cache is content and modification time\<close>
  "loadCache readable now m =
     (if \<not> blCaching m then m
      else case blCache m of
        None \<Rightarrow> m
      | Some (content, mtime) \<Rightarrow>
          if now - mtime > 7 * 24 * 3600 then m
          else if \<not> readable then m
          else let domains = parseBlocklist content in
            if domains = {} then m else m\<lparr>blDomains := domains, blLastUpdate := Some mtime\<rparr>)"

definition saveCache :: "bool \<Rightarrow> int \<Rightarrow> string \<Rightarrow> blManager \<Rightarrow> blManager" where
  "saveCache ok now content m = (if blCaching m \<and> ok then m\<lparr>blCache := Some (content, now)\<rparr> else m)"

definition downloadFrom :: "(nat \<times> string option) option \<Rightarrow> string option" where
  \<comment> \<open>status and body; a body that reaches the limit of 10 MiB is an error\<close>
  "downloadFrom answer =
     (case answer of
        None \<Rightarrow> None
      | Some (status, body) \<Rightarrow>
          if status \<noteq> 200 then None
          else case map_option (take (10 * 1024 * 1024)) body of
            None \<Rightarrow> None
          | Some data \<Rightarrow> if length data \<ge> 10 * 1024 * 1024 then None else Some data)"

definition refreshList :: "(nat \<times> string option) option \<Rightarrow> bool \<Rightarrow> int \<Rightarrow> blManager \<Rightarrow> blManager" where
  \<comment> \<open>what the server answers, whether the cache can be written\<close>
  "refreshList answer cacheOk now m =
     (case downloadFrom answer of
        None \<Rightarrow> m\<lparr>blFails := blFails m + 1, blLastError := True\<rparr>
      | Some content \<Rightarrow>
          let domains = parseBlocklist content in
          if domains = {} then m\<lparr>blFails := blFails m + 1, blLastError := True\<rparr>
          else saveCache cacheOk now content
            (m\<lparr>blDomains := domains, blLastUpdate := Some now, blFails := 0, blLastError := False\<rparr>))"

fun refreshLoop :: "((nat \<times> string option) option \<times> bool \<times> int) list \<Rightarrow> blManager \<Rightarrow> blManager" where
  \<comment> \<open>the refresh at the start and at each tick\<close>
  "refreshLoop [] m = m"
| "refreshLoop ((answer, cacheOk, now) # ticks) m = refreshLoop ticks (refreshList answer cacheOk now m)"

definition blStart :: "bool \<Rightarrow> int \<Rightarrow> ((nat \<times> string option) option \<times> bool \<times> int) list \<Rightarrow> blManager \<Rightarrow> blManager" where
  \<comment> \<open>the goroutine of \<^verbatim>\<open>Start\<close>: the cache, then the downloads\<close>
  "blStart readable now ticks m = refreshLoop ticks (loadCache readable now m)"

definition mIsBlocked :: "blManager \<Rightarrow> string \<Rightarrow> bool" where
  "mIsBlocked m domain \<longleftrightarrow> domain \<in> blDomains m"

definition mIsReady :: "blManager \<Rightarrow> bool" where
  "mIsReady m \<longleftrightarrow> blLastUpdate m \<noteq> None"

section \<open>The client's DNS proxy\<close>

function qnameLabels :: "bytes \<Rightarrow> nat \<Rightarrow> string list option" where
  "qnameLabels p pos =
     (if pos \<ge> length p then Some []
      else let n = unat (p ! pos) in
        if p ! pos AND 0xC0 = 0xC0 then None
        else if n = 0 then Some []
        else if n > 63 then None
        else if pos + 1 + n > length p then None
        else map_option (Cons (stringOf (bslice p (pos + 1) (pos + 1 + n)))) (qnameLabels p (pos + 1 + n)))"
  by pat_completeness auto
termination by (relation "measure (\<lambda>(p, pos). length p - pos)") auto

declare qnameLabels.simps [simp del]

definition extractDomain :: "bytes \<Rightarrow> string" where
  "extractDomain payload =
     (if length payload \<le> 12 then []
      else case qnameLabels payload 12 of None \<Rightarrow> [] | Some labels \<Rightarrow> joinWith ''.'' labels)"

function questionEnd :: "bytes \<Rightarrow> nat \<Rightarrow> nat" where
  "questionEnd q pos =
     (if pos \<ge> length q then pos
      else if q ! pos = 0 then pos + 1
      else if q ! pos AND 0xC0 = 0xC0 then pos + 2
      else questionEnd q (pos + 1 + unat (q ! pos)))"
  by pat_completeness auto
termination by (relation "measure (\<lambda>(q, pos). length q - pos)") auto

declare questionEnd.simps [simp del]

definition buildNXDOMAINResponse :: "bytes \<Rightarrow> bytes option" where
  "buildNXDOMAINResponse query =
     (if length query < 12 then None
      else
        let pos = questionEnd query 12 + 4; pos = (if pos > length query then length query else pos);
            resp = take pos query
        in Some (resp[2 := (query ! 2 AND 0x79) OR 0x84, 3 := 3, 6 := 0, 7 := 0, 8 := 0, 9 := 0, 10 := 0, 11 := 0]))"

record proxyResult =
  prForwarded :: bool
  prReply :: "bytes option"

definition handleQuery :: "blManager option \<Rightarrow> (bytes \<Rightarrow> bytes option) \<Rightarrow> bytes \<Rightarrow> proxyResult" where
  \<comment> \<open>with the socket open; \<open>queryFunc\<close> is the query through the tunnel\<close>
  "handleQuery bl queryFunc payload =
     (let domain = extractDomain payload in
      if (case bl of None \<Rightarrow> False | Some m \<Rightarrow> mIsReady m \<and> domain \<noteq> [] \<and> mIsBlocked m (ToLower domain))
      then \<lparr>prForwarded = False, prReply = buildNXDOMAINResponse payload\<rparr>
      else \<lparr>prForwarded = True, prReply = queryFunc payload\<rparr>)"

definition proxyPacket :: "blManager option \<Rightarrow> (bytes \<Rightarrow> bytes option) \<Rightarrow> bytes \<Rightarrow> proxyResult option" where
  \<comment> \<open>a turn of the read loop: the datagram cut to the buffer, dropped if shorter than a header\<close>
  "proxyPacket bl queryFunc datagram =
     (let payload = take 4096 datagram in
      if length payload < 12 then None else Some (handleQuery bl queryFunc payload))"

end
