(* ===== verification/DnsFilter_Props.thy ===== *)
theory DnsFilter_Props
  imports DnsFilter
begin

text \<open>
  The properties of the DNS filters and forwarders.
\<close>

section \<open>Blocked subtrees\<close>

definition under :: "string \<Rightarrow> string \<Rightarrow> bool" where
  \<comment> \<open>the name is the domain or ends in a dot and the domain\<close>
  "under q d \<longleftrightarrow> q = d \<or> HasSuffix q (CHR ''.'' # d)"

lemma IndexByte_Some:
  "IndexByte s c = Some i \<Longrightarrow> i < length s \<and> s = take i s @ c # drop (i + 1) s \<and> c \<notin> set (take i s)"
proof (induction s arbitrary: i)
  case (Cons x s)
  then show ?case
    by (cases "x = c") (auto split: option.splits)
qed simp

lemma HasSuffix_iff: "HasSuffix s p \<longleftrightarrow> (\<exists>r. s = r @ p)"
proof
  assume "HasSuffix s p"
  then have "s = take (length s - length p) s @ p"
    by (metis HasSuffix_def append_take_drop_id)
  then show "\<exists>r. s = r @ p" ..
qed (auto simp: HasSuffix_def)

lemma under_step:
  assumes "c \<notin> set a" and "c = CHR ''.''"
  shows "under (a @ c # b) d \<longleftrightarrow> a @ c # b = d \<or> under b d"
proof -
  have "(\<exists>r. a @ c # b = r @ c # d) \<longleftrightarrow> b = d \<or> (\<exists>r. b = r @ c # d)"
  proof
    assume "\<exists>r. a @ c # b = r @ c # d"
    then obtain r where r: "a @ c # b = r @ c # d" by blast
    from r consider us where "a = r @ us" "us @ c # b = c # d" | us where "a @ us = r" "c # b = us @ c # d"
      by (auto simp: append_eq_append_conv2)
    then show "b = d \<or> (\<exists>r. b = r @ c # d)"
    proof cases
      case 1
      then show ?thesis using assms(1) by (cases us) auto
    next
      case 2
      then show ?thesis by (cases us) auto
    qed
  next
    assume "b = d \<or> (\<exists>r. b = r @ c # d)"
    then show "\<exists>r. a @ c # b = r @ c # d" by (metis append.assoc append_Cons)
  qed
  then show ?thesis by (auto simp: under_def HasSuffix_iff assms(2))
qed

lemma under_no_dot: "CHR ''.'' \<notin> set q \<Longrightarrow> under q d \<longleftrightarrow> q = d"
  by (auto simp: under_def HasSuffix_iff)

lemma walkUp_under: "walkUp m q \<longleftrightarrow> (\<exists>d \<in> m. d \<noteq> [] \<and> under q d)"
proof (induction m q rule: walkUp.induct)
  case (1 m q)
  show ?case
  proof (cases "q = []")
    case True
    then show ?thesis by (subst walkUp.simps) (auto simp: under_no_dot)
  next
    case ne: False
    show ?thesis
    proof (cases "q \<in> m")
      case True
      with ne show ?thesis by (subst walkUp.simps) (auto simp: under_def)
    next
      case nm: False
      show ?thesis
      proof (cases "IndexByte q CHR ''.''")
        case None
        then have "under q d \<longleftrightarrow> q = d" for d
          by (simp add: IndexByte_None under_no_dot)
        moreover have "\<not> walkUp m q"
          using nm None by (subst walkUp.simps) simp
        ultimately show ?thesis using nm by auto
      next
        case (Some i)
        let ?r = "drop (i + 1) q"
        from IndexByte_Some [OF Some] have q: "q = take i q @ CHR ''.'' # ?r" and na: "CHR ''.'' \<notin> set (take i q)"
          by simp_all
        have "under q d \<longleftrightarrow> q = d \<or> under ?r d" for d
          using under_step [OF na refl, of ?r d] q by simp
        moreover have "walkUp m q \<longleftrightarrow> walkUp m ?r"
          using ne nm Some by (subst walkUp.simps) simp
        ultimately show ?thesis using 1 [OF ne nm Some] nm by auto
      qed
    qed
  qed
qed

lemma parseHostsLine_domain:
  assumes "parseHostsLine line = Some d"
  shows "d \<noteq> [] \<and> ToLower d = d"
  using assms
  by (auto simp: parseHostsLine_def Let_def simp del: One_nat_def split: if_splits)

text \<open>
  The relay's blocklist blocks exactly the domains of its hosts file and all names below them:
  a name is blocked if and only if, in lower case and without a final dot, it is a listed domain or
  ends in a dot followed by a listed domain. A name that merely ends in the same letters is not.
\<close>

theorem relay_blocks_listed_subtrees:
  "IsBlocked (parseHostsFile content) fqdn \<longleftrightarrow>
     (\<exists>line d. line \<in> set (scanLines content) \<and> parseHostsLine line = Some d \<and>
        under (ToLower (TrimSuffix fqdn ''.'')) d)"
proof -
  have mem: "d \<in> parseHostsFile content \<longleftrightarrow> (\<exists>line \<in> set (scanLines content). parseHostsLine line = Some d)" for d
    by (force simp: parseHostsFile_def map_filter_def)
  show ?thesis
    unfolding IsBlocked_def walkUp_under Bex_def mem using parseHostsLine_domain by blast
qed

section \<open>The resolver\<close>

definition usable :: "'m dnsLib \<Rightarrow> dohServer \<Rightarrow> bytes \<Rightarrow> string \<Rightarrow> bool" where
  \<comment> \<open>the upstream answers 200 with a message\<close>
  "usable dl post wire u \<longleftrightarrow> (case doHPost post u wire of None \<Rightarrow> False | Some r \<Rightarrow> dlUnpack dl r \<noteq> None)"

lemma tryUpstreams_first:
  "tryUpstreams dl post wire ups c = (r, asked, c') \<Longrightarrow>
     (let n = length (takeWhile (\<lambda>u. \<not> usable dl post wire u) ups) in
       asked = take (n + 1) ups \<and>
       r = (if n < length ups then doHPost post (ups ! n) wire else None) \<and>
       upstreamFailuresTotal c' = upstreamFailuresTotal c + n \<and>
       queriesTotal c' = queriesTotal c \<and> blockedTotal c' = blockedTotal c)"
proof (induction ups arbitrary: c r asked c')
  case (Cons u us)
  show ?case
  proof (cases "usable dl post wire u")
    case True
    then obtain resp m where "doHPost post u wire = Some resp" "dlUnpack dl resp = Some m"
      by (auto simp: usable_def split: option.splits)
    with Cons.prems True show ?thesis by (auto simp: Let_def)
  next
    case False
    let ?c = "c\<lparr>upstreamFailuresTotal := Suc (upstreamFailuresTotal c)\<rparr>"
    obtain r1 a1 c1 where t: "tryUpstreams dl post wire us ?c = (r1, a1, c1)" by (metis prod_cases3)
    from False have "tryUpstreams dl post wire (u # us) c = (r1, u # a1, c1)"
      by (auto simp: usable_def t split: option.splits)
    with Cons.prems Cons.IH [OF t] False show ?thesis by (simp add: Let_def)
  qed
qed (simp add: Let_def)

definition toForward :: "'m dnsLib \<Rightarrow> string set option \<Rightarrow> bytes \<Rightarrow> bytes option" where
  \<comment> \<open>what a query that is answered by an upstream is forwarded as\<close>
  "toForward dl bl query =
     (case dlUnpack dl query of
        None \<Rightarrow> None
      | Some msg \<Rightarrow>
          if length (dlQuestions dl msg) \<noteq> 1 then None
          else if (case bl of None \<Rightarrow> False | Some m \<Rightarrow> IsBlocked m (ToLower (TrimSuffix (hd (dlQuestions dl msg)) ''.'')))
          then None
          else dlPackDO dl msg)"

text \<open>
  The resolver of the relay asks no upstream for a query that is malformed, does not hold one
  question or asks for a blocked name; it answers NXDOMAIN if the name is blocked and SERVFAIL
  otherwise. Any other query is sent to the upstreams in order up to the first that answers 200
  with a DNS message, whose answer is returned unchanged; if there is none it is SERVFAIL. The
  counters grow by exactly one query and by the number of upstreams that failed.
\<close>

theorem resolver_first_usable_upstream:
  assumes "Resolve dl post ups bl query c0 = (resp, asked, c)"
  shows "queriesTotal c = queriesTotal c0 + 1 \<and>
    (case toForward dl bl query of
       None \<Rightarrow>
         asked = [] \<and> upstreamFailuresTotal c = upstreamFailuresTotal c0 \<and>
         (if blockedTotal c = blockedTotal c0 then resp = synthesizeSERVFAIL dl query
          else blockedTotal c = blockedTotal c0 + 1 \<and>
            (\<exists>msg m. dlUnpack dl query = Some msg \<and> bl = Some m \<and>
               IsBlocked m (ToLower (TrimSuffix (hd (dlQuestions dl msg)) ''.'')) \<and> resp = dlNXDOMAIN dl msg))
     | Some wire \<Rightarrow>
         let n = length (takeWhile (\<lambda>u. \<not> usable dl post wire u) ups) in
         asked = take (n + 1) ups \<and> blockedTotal c = blockedTotal c0 \<and>
         upstreamFailuresTotal c = upstreamFailuresTotal c0 + n \<and>
         Some resp = (if n < length ups then doHPost post (ups ! n) wire else Some (synthesizeSERVFAIL dl query)))"
proof (cases "toForward dl bl query")
  case None
  with assms show ?thesis
    by (auto simp: Resolve_def toForward_def Let_def split: option.splits if_splits)
next
  case (Some wire)
  let ?c = "c0\<lparr>queriesTotal := queriesTotal c0 + 1\<rparr>"
  obtain r a c1 where t: "tryUpstreams dl post wire ups ?c = (r, a, c1)" by (metis prod_cases3)
  have R: "Resolve dl post ups bl query c0 =
      (case r of None \<Rightarrow> (synthesizeSERVFAIL dl query, a, c1) | Some x \<Rightarrow> (x, a, c1))"
    using Some t by (auto simp: Resolve_def toForward_def Let_def split: option.splits if_splits)
  have u: "doHPost post (ups ! n) wire \<noteq> None"
    if "n = length (takeWhile (\<lambda>u. \<not> usable dl post wire u) ups)" "n < length ups" for n
    using nth_length_takeWhile [of "\<lambda>u. \<not> usable dl post wire u" ups] that
    by (auto simp: usable_def split: option.splits)
  show ?thesis
    using tryUpstreams_first [OF t] assms R u Some
    by (auto simp: Let_def split: option.splits if_splits)
qed

theorem resolver_first_usable_upstream_witness:
  defines "dl \<equiv> \<lparr>dlUnpack = (\<lambda>b. if b = [] then None else Some b), dlQuestions = (\<lambda>m. [''ads.x.com.'']),
      dlAuthentic = (\<lambda>m. True), dlPackDO = (\<lambda>m. Some m), dlNXDOMAIN = (\<lambda>m. [3]), dlSERVFAIL = (\<lambda>m. [2]),
      dlBareSERVFAIL = [2]\<rparr>"
    and "post \<equiv> (\<lambda>u b. if u = ''up1'' then None else Some (200, Some [7, 7]))"
    and "c0 \<equiv> \<lparr>queriesTotal = 0, blockedTotal = 0, upstreamFailuresTotal = 0, dnssecFailuresTotal = 0\<rparr>"
  shows "fst (snd (Resolve dl post [''up1'', ''up2'', ''up3''] None [1] c0)) = [''up1'', ''up2'']
    \<and> fst (Resolve dl post [''up1'', ''up2'', ''up3''] (Some {''x.com''}) [1] c0) = [3]"
proof -
  let ?R = "\<lambda>bl. Resolve dl post [''up1'', ''up2'', ''up3''] bl [1] c0"
  have low: "ToLower (TrimSuffix ''ads.x.com.'' ''.'') = ''ads.x.com''"
    by (simp add: ToLower_def TrimSuffix_def HasSuffix_def lowerChar_def)
  have bl: "IsBlocked {''x.com''} ''ads.x.com''"
    by (simp add: IsBlocked_def walkUp_under under_def HasSuffix_def ToLower_def TrimSuffix_def lowerChar_def)
  have F: "toForward dl None [1] = Some [1]" by (simp add: toForward_def dl_def)
  have N: "toForward dl (Some {''x.com''}) [1] = None" using bl low by (simp add: toForward_def dl_def)
  have us: "usable dl post [1] ''up1'' = False" "usable dl post [1] ''up2'' = True"
    by (simp_all add: usable_def doHPost_def post_def dl_def)
  have asked: "fst (snd (?R None)) = [''up1'', ''up2'']"
    using resolver_first_usable_upstream [where dl = dl and post = post and ups = "[''up1'', ''up2'', ''up3'']"
        and bl = None and query = "[1]" and ?c0.0 = c0, OF prod.collapse [symmetric, THEN trans,
          OF arg_cong [where f = "Pair _", OF prod.collapse [symmetric]]]] F us
    by (simp add: Let_def)
  have "dnsMetrics.blockedTotal (snd (snd (?R (Some {''x.com''})))) = 1"
    using bl low by (simp add: Resolve_def dl_def c0_def)
  then have "fst (?R (Some {''x.com''})) = [3]"
    using resolver_first_usable_upstream [where dl = dl and post = post and ups = "[''up1'', ''up2'', ''up3'']"
        and bl = "Some {''x.com''}" and query = "[1]" and ?c0.0 = c0, OF prod.collapse [symmetric, THEN trans,
          OF arg_cong [where f = "Pair _", OF prod.collapse [symmetric]]]] N
    by (auto simp: c0_def dl_def)
  with asked show ?thesis by simp
qed

section \<open>The DoH endpoint\<close>

lemma forwardFrom_Some:
  "forwardFrom post ups q idxs = Some (r, i) \<Longrightarrow>
     \<exists>pre suf. idxs = pre @ i # suf \<and> doRequest post (ups ! i) q = Some r \<and>
       (\<forall>j \<in> set pre. doRequest post (ups ! j) q = None)"
proof (induction idxs)
  case (Cons j js)
  show ?case
  proof (cases "doRequest post (ups ! j) q")
    case None
    with Cons obtain pre suf where "js = pre @ i # suf" "doRequest post (ups ! i) q = Some r"
      "\<forall>j \<in> set pre. doRequest post (ups ! j) q = None" by auto
    with None show ?thesis by (intro exI [of _ "j # pre"] exI [of _ suf]) auto
  next
    case (Some x)
    with Cons.prems show ?thesis by (intro exI [of _ "[]"] exI [of _ js]) auto
  qed
qed simp

lemma forwardFrom_None:
  "forwardFrom post ups q idxs = None \<longleftrightarrow> (\<forall>j \<in> set idxs. doRequest post (ups ! j) q = None)"
  by (induction idxs) (auto split: option.splits)

lemma cyclic_indices:
  assumes "a < n"
  shows "set (map (\<lambda>i. (a + i) mod n) [0..<n]) = {..<n}"
proof -
  have "j \<in> (\<lambda>i. (a + i) mod n) ` {..<n}" if "j < n" for j
  proof (cases "a \<le> j")
    case True
    with that show ?thesis by (intro image_eqI [of _ _ "j - a"]) auto
  next
    case False
    with that assms show ?thesis by (intro image_eqI [of _ _ "n + j - a"]) auto
  qed
  with assms show ?thesis by (auto simp: atLeast0LessThan)
qed

lemma cyclic_prefix:
  assumes "map (\<lambda>i. (a + i) mod n) [0..<n] = pre @ x # suf"
  shows "x = (a + length pre) mod n \<and> length pre < n \<and> (\<forall>d < length pre. (a + d) mod n \<in> set pre)"
proof -
  let ?xs = "map (\<lambda>i. (a + i) mod n) [0..<n]"
  have len: "length pre < n" using arg_cong [OF assms, of length] by simp
  have nth: "?xs ! d = (a + d) mod n" if "d < n" for d using that by simp
  have "?xs ! length pre = x" unfolding assms by simp
  moreover have "(a + d) mod n \<in> set pre" if "d < length pre" for d
  proof -
    have "(pre @ x # suf) ! d = pre ! d" using that by (simp add: nth_append)
    then have "pre ! d = (a + d) mod n" using nth [of d] that len unfolding assms by simp
    with that show ?thesis by (metis nth_mem)
  qed
  ultimately show ?thesis using nth [OF len] len by simp
qed

lemma forwardToUpstream_cases:
  assumes "act < length ups"
  obtains (none) "\<forall>u \<in> set ups. doRequest post u q = None" "forwardToUpstream post ups q act = (None, act)"
  | (answer) d r where "d < length ups" "forwardToUpstream post ups q act = (Some r, (act + d) mod length ups)"
      "doRequest post (ups ! ((act + d) mod length ups)) q = Some r"
      "\<forall>d' < d. doRequest post (ups ! ((act + d') mod length ups)) q = None"
proof (cases "forwardFrom post ups q (map (\<lambda>i. (act + i) mod length ups) [0..<length ups])")
  case None
  then have "doRequest post (ups ! j) q = None" if "j < length ups" for j
    using that cyclic_indices [OF assms] unfolding forwardFrom_None by blast
  then have "\<forall>u \<in> set ups. doRequest post u q = None" by (auto simp: in_set_conv_nth)
  with None show ?thesis by (intro none) (simp_all add: forwardToUpstream_def Let_def)
next
  case (Some ri)
  obtain r i where ri: "ri = (r, i)" by (cases ri)
  from forwardFrom_Some [OF Some [unfolded ri]] obtain pre suf where
    l: "map (\<lambda>i. (act + i) mod length ups) [0..<length ups] = pre @ i # suf"
    and d: "doRequest post (ups ! i) q = Some r" "\<forall>j \<in> set pre. doRequest post (ups ! j) q = None" by blast
  from cyclic_prefix [OF l] d show ?thesis
    by (intro answer [of "length pre" r]) (auto simp: forwardToUpstream_def Let_def Some [unfolded ri])
qed

lemma forward_in_range: "act < length ups \<Longrightarrow> snd (forwardToUpstream post ups q act) < length ups"
  by (cases rule: forwardToUpstream_cases [of act ups post q]) (auto intro!: mod_less_divisor)

lemma dohStep_in_range:
  assumes "act < length ups"
  shows "dohStep ups e act < length ups"
proof (cases e)
  case (Request post meth ctype body)
  have "snd (snd (dohServeHTTP post ups meth ctype body act)) < length ups"
    using assms forward_in_range [OF assms, of post]
    by (auto simp: dohServeHTTP_def Let_def split: option.splits prod.splits) (metis snd_conv)+
  with Request show ?thesis by (simp add: dohStep_def)
next
  case (Tick probe)
  with assms show ?thesis by (auto simp: dohStep_def recoveryTick_def split: option.splits)
qed

lemma dohSteps_in_range: "act < length ups \<Longrightarrow> fold (dohStep ups) es act < length ups"
  by (induction es arbitrary: act) (simp_all add: dohStep_in_range)

lemma doRequest_status: "doRequest post u q = Some (b, s) \<Longrightarrow> s < 500"
  by (auto simp: doRequest_def split: option.splits if_splits)

text \<open>
  After any history of requests and recovery ticks the DoH endpoint answers a well-formed
  request with 502 exactly when every upstream fails; otherwise the answer is that of the first
  upstream that works in cyclic order from the active one, that upstream becomes the active one,
  and it is always one of the list. A recovery tick that finds the primary reachable makes it the
  active one again.
\<close>

theorem doh_answers_iff_some_upstream_works:
  assumes "ups \<noteq> []" and "act = fold (dohStep ups) history 0"
    and "body \<noteq> []" and "length body \<le> 65535"
    and "dohServeHTTP post ups ''POST'' ''application/dns-message'' (Some body) act = (status, resp, act')"
  shows "act < length ups \<and> act' < length ups \<and>
    (status = 502 \<longleftrightarrow> (\<forall>u \<in> set ups. doRequest post u body = None)) \<and>
    (status \<noteq> 502 \<longrightarrow>
       (\<exists>d < length ups. act' = (act + d) mod length ups \<and> doRequest post (ups ! act') body = Some (resp, status) \<and>
          (\<forall>d' < d. doRequest post (ups ! ((act + d') mod length ups)) body = None))) \<and>
    (status = 502 \<longrightarrow> act' = act) \<and>
    (\<forall>s. s < 500 \<longrightarrow> recoveryTick (Some (s, ())) ups act' = 0)"
proof -
  have act: "act < length ups" using assms(1,2) dohSteps_in_range [of 0 ups history] by simp
  have tk: "take 65536 body = body" using assms(4) by simp
  have S: "(status, resp, act') = (case forwardToUpstream post ups body act of
      (None, act) \<Rightarrow> (502, [], act) | (Some (resp, status), act) \<Rightarrow> (status, resp, act))"
    using assms(3-5) by (simp add: dohServeHTTP_def tk Let_def)
  have tick: "recoveryTick (Some (s, ())) ups act' = 0" if "s < 500" "act' < length ups" for s
    using that by (auto simp: recoveryTick_def)
  show ?thesis
  proof (rule forwardToUpstream_cases [OF act, of post body], goal_cases)
    case 1
    with S act tick show ?thesis by simp
  next
    case answer: (2 d r)
    obtain b s where r: "r = (b, s)" by (cases r)
    have s: "s < 500" using answer(3) doRequest_status r by blast
    from S answer(2) r have e: "status = s" "resp = b" "act' = (act + d) mod length ups" by simp_all
    have lt: "act' < length ups" unfolding e(3) using act by (intro mod_less_divisor) linarith
    have some: "\<not> (\<forall>u \<in> set ups. doRequest post u body = None)"
      using answer(3) lt e(3) nth_mem by fastforce
    show ?thesis using act lt s some answer(1,3,4) e r tick by auto
  qed
qed

theorem doh_answers_iff_some_upstream_works_witness:
  defines "post \<equiv> (\<lambda>u q. if u = ''a'' then None else Some (200, Some q))"
  shows "dohServeHTTP post [''a'', ''b''] ''POST'' ''application/dns-message'' (Some [1, 2]) 0 = (200, [1, 2], 1)
    \<and> recoveryTick (Some (200, ())) [''a'', ''b''] 1 = 0"
proof -
  have run: "dohServeHTTP post [''a'', ''b''] ''POST'' ''application/dns-message'' (Some [1, 2]) 0 = (200, [1, 2], 1)"
    by (simp add: dohServeHTTP_def forwardToUpstream_def doRequest_def post_def Let_def upt_rec)
  show ?thesis
    using doh_answers_iff_some_upstream_works [where history = "[]" and ups = "[''a'', ''b'']" and act = 0
        and body = "[1, 2]" and post = post, OF _ _ _ _ run] run by simp
qed

section \<open>The client's DNS proxy\<close>

definition encodeName :: "string list \<Rightarrow> bytes" where
  \<comment> \<open>a name on the wire\<close>
  "encodeName labels = concat (map (\<lambda>l. of_nat (length l) # bytesOf l) labels) @ [0]"

lemma encodeName_simps [simp]:
  "encodeName [] = [0]"
  "encodeName (l # ls) = of_nat (length l) # bytesOf l @ encodeName ls"
  by (simp_all add: encodeName_def)

lemma encodeName_not_Nil [simp]: "encodeName ls \<noteq> []"
  by (simp add: encodeName_def)

declare length_bytesOf [simp]

lemma label_byte:
  assumes "0 < n" "n \<le> 63"
  shows "unat (of_nat n :: byte) = n \<and> (of_nat n :: byte) \<noteq> 0 \<and> (of_nat n :: byte) AND 0xC0 \<noteq> 0xC0"
proof -
  have u: "unat (of_nat n :: byte) = n" using assms by (simp add: unat_of_nat take_bit_nat_eq_self_iff)
  have "(of_nat n :: byte) AND 0xC0 \<noteq> 0xC0"
  proof
    assume "(of_nat n :: byte) AND 0xC0 = 0xC0"
    then have "0xC0 \<le> (of_nat n :: byte)" by (metis word_and_le2)
    with u assms show False by (simp add: word_le_nat_alt)
  qed
  with u assms show ?thesis by (metis unat_0 not_gr_zero)
qed

lemma qnameLabels_encodeName:
  assumes "\<forall>l \<in> set labels. 0 < length l \<and> length l \<le> 63"
  shows "qnameLabels (hdr @ encodeName labels @ rest) (length hdr) = Some labels"
  using assms
proof (induction labels arbitrary: hdr)
  case Nil
  show ?case by (subst qnameLabels.simps) simp
next
  case (Cons l ls)
  let ?p = "hdr @ encodeName (l # ls) @ rest" and ?hdr = "hdr @ of_nat (length l) # bytesOf l"
  have l: "0 < length l" "length l \<le> 63" using Cons.prems by auto
  have b: "unat (of_nat (length l) :: byte) = length l" "(of_nat (length l) :: byte) AND 0xC0 \<noteq> 0xC0"
    using label_byte [OF l] by auto
  have p: "?p = ?hdr @ encodeName ls @ rest" by simp
  have IH: "qnameLabels ?p (length hdr + 1 + length l) = Some ls"
    using Cons.IH [of ?hdr] Cons.prems unfolding p by simp
  have sl: "bslice ?p (length hdr + 1) (length hdr + 1 + length l) = bytesOf l"
    by (simp add: bslice_def)
  have "?p ! length hdr = of_nat (length l)" "length hdr + 1 + length l \<le> length ?p" by simp_all
  with b l IH sl show ?case by (subst qnameLabels.simps) (simp add: Let_def del: encodeName_simps)
qed

lemma questionEnd_encodeName:
  assumes "\<forall>l \<in> set labels. 0 < length l \<and> length l \<le> 63"
  shows "questionEnd (hdr @ encodeName labels @ rest) (length hdr) = length hdr + length (encodeName labels)"
  using assms
proof (induction labels arbitrary: hdr)
  case Nil
  show ?case by (subst questionEnd.simps) simp
next
  case (Cons l ls)
  let ?p = "hdr @ encodeName (l # ls) @ rest" and ?hdr = "hdr @ of_nat (length l) # bytesOf l"
  have l: "0 < length l" "length l \<le> 63" using Cons.prems by auto
  note b = label_byte [OF l]
  have p: "?p = ?hdr @ encodeName ls @ rest" by simp
  have IH: "questionEnd ?p (length hdr + 1 + length l) = length ?hdr + length (encodeName ls)"
    using Cons.IH [of ?hdr] Cons.prems unfolding p by simp
  have "?p ! length hdr = of_nat (length l)" "length hdr < length ?p" by simp_all
  with b IH show ?case by (subst questionEnd.simps) (simp add: Let_def)
qed

lemma list12:
  assumes "length h = 12"
  obtains a b c d e f g i j k l m where "h = [a, b, c, d, e, f, g, i, j, k, l, m]"
  using assms by (auto simp: numeral_eq_Suc length_Suc_conv)

lemma extractDomain_query:
  assumes "length hdr = 12" and "\<forall>l \<in> set labels. 0 < length l \<and> length l \<le> 63"
  shows "extractDomain (hdr @ encodeName labels @ rest) = joinWith ''.'' labels"
  using qnameLabels_encodeName [OF assms(2), of hdr rest] assms(1)
  by (simp add: extractDomain_def)

lemma buildNXDOMAINResponse_query:
  assumes "length hdr = 12" and "length qt = 4" and "\<forall>l \<in> set labels. 0 < length l \<and> length l \<le> 63"
  shows "buildNXDOMAINResponse (hdr @ encodeName labels @ qt @ rest) =
    Some (take 2 hdr @ [(hdr ! 2 AND 0x79) OR 0x84, 3, hdr ! 4, hdr ! 5, 0, 0, 0, 0, 0, 0] @ encodeName labels @ qt)"
proof -
  let ?q = "hdr @ encodeName labels @ qt @ rest"
  have e: "questionEnd ?q 12 + 4 = 12 + length (encodeName labels) + 4"
    using questionEnd_encodeName [OF assms(3), of hdr "qt @ rest"] assms(1) by simp
  have t: "take (12 + length (encodeName labels) + 4) ?q = hdr @ encodeName labels @ qt"
    using assms(1,2) by simp
  from assms(1) obtain a b c d e f g i j k l m where h: "hdr = [a, b, c, d, e, f, g, i, j, k, l, m]" by (rule list12)
  have "?q ! 2 = c" by (simp add: h)
  with e t show ?thesis using assms(2) by (simp add: buildNXDOMAINResponse_def Let_def h)
qed

lemma joinWith_eq_Nil: "ws \<noteq> [] \<Longrightarrow> \<forall>w \<in> set ws. 0 < length w \<Longrightarrow> joinWith sep ws \<noteq> []"
  by (cases ws; cases "tl ws") auto

text \<open>
  C38: For a well-formed query the local DNS proxy of the client reads exactly the queried name. If
  the list is loaded and holds that name in lower case, nothing is forwarded and the reply keeps
  the identifier and the question, has response code 3 and no other section, and names the same
  domain; otherwise the query, cut to the 4096 bytes of the buffer, goes through the tunnel.
\<close>

theorem client_proxy_filters:
  assumes "length hdr = 12" and "length qt = 4"
    and "labels \<noteq> []" and "\<forall>l \<in> set labels. 0 < length l \<and> length l \<le> 63"
    and "length (encodeName labels) \<le> 4080"
    and "datagram = hdr @ encodeName labels @ qt @ rest"
    and "nx = take 2 hdr @ [(hdr ! 2 AND 0x79) OR 0x84, 3, hdr ! 4, hdr ! 5, 0, 0, 0, 0, 0, 0] @ encodeName labels @ qt"
  shows "proxyPacket (Some m) queryFunc datagram =
      Some (if mIsReady m \<and> ToLower (joinWith ''.'' labels) \<in> blDomains m
            then \<lparr>prForwarded = False, prReply = Some nx\<rparr>
            else \<lparr>prForwarded = True, prReply = queryFunc (take 4096 datagram)\<rparr>) \<and>
    extractDomain nx = joinWith ''.'' labels"
proof -
  let ?r = "take (4096 - (16 + length (encodeName labels))) rest"
  have p: "take 4096 datagram = hdr @ encodeName labels @ qt @ ?r"
    using assms(1,2,5,6) by simp
  have d: "extractDomain (take 4096 datagram) = joinWith ''.'' labels"
    unfolding p by (rule extractDomain_query [OF assms(1,4)])
  have ne: "joinWith ''.'' labels \<noteq> []" using assms(3,4) by (intro joinWith_eq_Nil) auto
  have n: "buildNXDOMAINResponse (take 4096 datagram) = Some nx"
    unfolding p assms(7) by (rule buildNXDOMAINResponse_query [OF assms(1,2,4)])
  have l: "\<not> length (take 4096 datagram) < 12" using assms(1) unfolding p by simp
  let ?h = "take 2 hdr @ [(hdr ! 2 AND 0x79) OR 0x84, 3, hdr ! 4, hdr ! 5, 0, 0, 0, 0, 0, 0]"
  have "extractDomain (?h @ encodeName labels @ qt) = joinWith ''.'' labels"
    using assms(1,4) by (intro extractDomain_query) simp_all
  then have "extractDomain nx = joinWith ''.'' labels" unfolding assms(7) by simp
  with d ne n l show ?thesis by (simp add: proxyPacket_def handleQuery_def mIsBlocked_def Let_def)
qed

theorem client_proxy_filters_witness:
  defines "m \<equiv> \<lparr>blCaching = False, blCache = None, blDomains = {''t.co''}, blLastUpdate = Some 5, blFails = 0,
      blLastError = False\<rparr>"
  shows "proxyPacket (Some m) (\<lambda>q. None)
      ([9, 8, 1, 0, 0, 1, 0, 0, 0, 0, 0, 1] @ encodeName [''T'', ''co''] @ [0, 1, 0, 1] @ [7, 7]) =
    Some \<lparr>prForwarded = False, prReply =
      Some ([9, 8, 0x85, 3, 0, 1, 0, 0, 0, 0, 0, 0] @ encodeName [''T'', ''co''] @ [0, 1, 0, 1])\<rparr>"
proof -
  have "ToLower (joinWith ''.'' [''T'', ''co'']) \<in> blDomains m" "mIsReady m"
    unfolding m_def by code_simp+
  then show ?thesis
    using client_proxy_filters [where hdr = "[9, 8, 1, 0, 0, 1, 0, 0, 0, 0, 0, 1]" and qt = "[0, 1, 0, 1]"
        and labels = "[''T'', ''co'']" and rest = "[7, 7]" and m = m and queryFunc = "\<lambda>q. None",
        OF _ _ _ _ _ refl refl] by simp
qed

section \<open>The client's list\<close>

definition goodList :: "(nat \<times> string option) option \<times> bool \<times> int \<Rightarrow> bool" where
  \<comment> \<open>the download succeeds and lists a domain\<close>
  "goodList t \<longleftrightarrow> (case downloadFrom (fst t) of None \<Rightarrow> False | Some c \<Rightarrow> parseBlocklist c \<noteq> {})"

lemma refresh_good:
  assumes "goodList (answer, ok, now)"
  obtains c where "downloadFrom answer = Some c" "parseBlocklist c \<noteq> {}"
    "refreshList answer ok now m = saveCache ok now c
       (m\<lparr>blDomains := parseBlocklist c, blLastUpdate := Some now, blFails := 0, blLastError := False\<rparr>)"
  using assms by (auto simp: goodList_def refreshList_def Let_def split: option.splits)

lemma refresh_bad:
  "\<not> goodList (answer, ok, now) \<Longrightarrow>
     refreshList answer ok now m = m\<lparr>blFails := blFails m + 1, blLastError := True\<rparr>"
  by (auto simp: goodList_def refreshList_def Let_def split: option.splits)

lemma refreshLoop_bad:
  "\<forall>t \<in> set ts. \<not> goodList t \<Longrightarrow>
     refreshLoop ts m = m\<lparr>blFails := blFails m + length ts, blLastError := blLastError m \<or> ts \<noteq> []\<rparr>"
  by (induction ts m rule: refreshLoop.induct) (auto simp: refresh_bad)

lemma refreshLoop_append: "refreshLoop (as @ bs) m = refreshLoop bs (refreshLoop as m)"
  by (induction as m rule: refreshLoop.induct) simp_all

lemma blCaching_refreshLoop [simp]: "blCaching (refreshLoop ts m) = blCaching m"
  by (induction ts m rule: refreshLoop.induct)
    (auto simp: refreshList_def saveCache_def Let_def split: option.splits)

text \<open>
  The client always filters with the last good list. After any refreshes that end with a good
  download at time \<open>t\<close> followed by failures only (transport errors, statuses other than 200, bodies
  of 10 MiB or more, or lists without a domain), the domains are those of that download, the
  manager is ready and the failures are counted exactly. If that list was cached, a restart within
  seven days filters with the same domains before any download, and keeps them while the
  downloads fail; later than that it starts with none.
\<close>

theorem last_good_list_survives:
  assumes "goodList (answer, ok, t)" and "\<forall>x \<in> set bad. \<not> goodList x"
    and "m' = refreshLoop (before @ (answer, ok, t) # bad) m"
    and "m'' = m'\<lparr>blDomains := {}, blLastUpdate := None, blFails := 0, blLastError := False\<rparr>"
    and "\<forall>x \<in> set bad'. \<not> goodList x"
  shows "\<exists>c. downloadFrom answer = Some c \<and> blDomains m' = parseBlocklist c \<and> blDomains m' \<noteq> {} \<and>
    mIsReady m' \<and> blLastUpdate m' = Some t \<and> blFails m' = length bad \<and> (blLastError m' \<longleftrightarrow> bad \<noteq> []) \<and>
    (blCaching m \<and> ok \<longrightarrow>
       (\<forall>now. now - t \<le> 604800 \<longrightarrow>
          blDomains (blStart True now bad' m'') = blDomains m' \<and> mIsReady (blStart True now bad' m'')) \<and>
       (\<forall>now. now - t > 604800 \<longrightarrow> \<not> mIsReady (blStart True now bad' m'')))"
proof -
  let ?m = "refreshLoop before m"
  from refresh_good [OF assms(1), of ?m] obtain c where c: "downloadFrom answer = Some c" "parseBlocklist c \<noteq> {}"
    and r: "refreshList answer ok t ?m = saveCache ok t c
       (?m\<lparr>blDomains := parseBlocklist c, blLastUpdate := Some t, blFails := 0, blLastError := False\<rparr>)" by blast
  have m': "m' = (refreshList answer ok t ?m)\<lparr>blFails := length bad, blLastError := bad \<noteq> []\<rparr>"
    unfolding assms(3) using refreshLoop_bad [OF assms(2), of "refreshList answer ok t ?m"] r
    by (simp add: refreshLoop_append saveCache_def)
  have st: "blStart True now bad' m'' = (loadCache True now m'')\<lparr>
      blFails := blFails (loadCache True now m'') + length bad',
      blLastError := blLastError (loadCache True now m'') \<or> bad' \<noteq> []\<rparr>" for now
    unfolding blStart_def by (rule refreshLoop_bad [OF assms(5)])
  have "blDomains m' = parseBlocklist c \<and> mIsReady m' \<and> blLastUpdate m' = Some t \<and> blFails m' = length bad \<and>
      (blLastError m' \<longleftrightarrow> bad \<noteq> [])"
    unfolding m' r by (simp add: saveCache_def mIsReady_def)
  moreover have "blDomains (blStart True now bad' m'') = parseBlocklist c \<and> mIsReady (blStart True now bad' m'')"
    if "blCaching m \<and> ok" "now - t \<le> 604800" for now
    using that c(2) unfolding st unfolding assms(4) m' r by (simp add: saveCache_def loadCache_def mIsReady_def Let_def)
  moreover have "\<not> mIsReady (blStart True now bad' m'')" if "blCaching m \<and> ok" "now - t > 604800" for now
    using that unfolding st unfolding assms(4) m' r by (simp add: saveCache_def loadCache_def mIsReady_def Let_def)
  ultimately show ?thesis using c by auto
qed

theorem last_good_list_survives_witness:
  defines "good \<equiv> (Some (200, Some ''0.0.0.0 a.b''), True, 5)"
    and "m \<equiv> \<lparr>blCaching = True, blCache = None, blDomains = {}, blLastUpdate = None, blFails = 0, blLastError = False\<rparr>"
  shows "blDomains (refreshLoop ([] @ good # [(None, True, 9)]) m) = {''a.b''}
    \<and> blFails (refreshLoop ([] @ good # [(None, True, 9)]) m) = 1"
proof -
  have p: "parseBlocklist ''0.0.0.0 a.b'' = {''a.b''}" by code_simp
  have d: "downloadFrom (Some (200, Some ''0.0.0.0 a.b'')) = Some ''0.0.0.0 a.b''"
    by (simp add: downloadFrom_def)
  have g: "goodList (Some (200, Some ''0.0.0.0 a.b''), True, 5)" by (simp add: goodList_def d p)
  have b: "\<forall>x \<in> set [(None, True, 9)]. \<not> goodList x" by (simp add: goodList_def downloadFrom_def)
  show ?thesis
    using last_good_list_survives [OF g b refl refl, where before = "[]" and m = m and bad' = "[]"] d p
    unfolding good_def by simp
qed

end
