(* ===== verification/VolumeTracker.thy ===== *)
theory VolumeTracker
  imports Go_Net
begin

text \<open>
  The local HTTP CONNECT proxy of the client (\<^verbatim>\<open>internal/httpproxy\<close>): which connections leave the
  tunnel.  A connection is dialled directly when its host is on the fixed list of game launcher CDNs or
  when the volume tracker has flagged its domain; everything else goes to the relay's CONNECT
  endpoint.

  The public suffix list is the argument \<open>etld\<close>; time is in seconds.  The operations are first
  modelled as atomic; \<open>addStep\<close> below is \<^verbatim>\<open>AddBytes\<close> cut at its atomic accesses.
\<close>

section \<open>Targets\<close>

definition alwaysBypassSuffixes :: "string list" where
  "alwaysBypassSuffixes =
     [''cdn.ubi.com'', ''static3.cdn.ubi.com'', ''dl.ubi.com'', ''ubistatic-a.akamaihd.net'', ''ubistatic-3.cdn.ubi.com'',
      ''download.epicgames.com'', ''download2.epicgames.com'', ''epicgames-download1.akamaized.net'',
      ''cdn.gog.com'', ''cdn-hw.gog.com'', ''gog-cdn-fastly.gog.com'',
      ''origin-a.akamaihd.net'', ''eaassets-a.akamaihd.net'', ''download.dm.origin.com'', ''lvlt.dm.origin.com'',
      ''level3.blizzard.com'', ''blzddist1-a.akamaihd.net'', ''blzddist2-a.akamaihd.net'', ''blzddist3-a.akamaihd.net'',
      ''nydus.battle.net'']"

definition hostOf :: "string \<Rightarrow> string" where
  \<comment> \<open>the host of a target, or the target itself\<close>
  "hostOf target = (case SplitHostPort target of Some (h, _) \<Rightarrow> h | None \<Rightarrow> target)"

definition IsAlwaysBypassed :: "string \<Rightarrow> bool" where
  "IsAlwaysBypassed target =
     (let hostname = ToLower (hostOf target) in
      list_ex (\<lambda>suffix. hostname = suffix \<or> HasSuffix hostname (''.'' @ suffix)) alwaysBypassSuffixes)"

definition sharedCDNs :: "string list" where
  "sharedCDNs =
     [''akamaized.net'', ''cloudfront.net'', ''fastly.net'', ''edgecast.net'', ''azureedge.net'', ''cdn77.org'',
      ''jsdelivr.net'', ''googleapis.com'', ''gstatic.com'', ''cdninstagram.com'', ''fbcdn.net'', ''akamai.net'',
      ''llnwd.net'', ''edgesuite.net'']"

definition domainKey :: "(string \<Rightarrow> string option) \<Rightarrow> string \<Rightarrow> string" where
  "domainKey etld target =
     (let hostname = hostOf target in
      if ParseIP hostname \<noteq> None then hostname
      else case etld hostname of
        None \<Rightarrow> hostname
      | Some registered \<Rightarrow> if registered \<in> set sharedCDNs then hostname else registered)"

section \<open>The tracker\<close>

record domainState =
  bytesUsed :: int
  windowStart :: int
  bypassed :: bool
  bypassedAt :: int
  directFailures :: int
  seenAt :: int
  markedForDeletion :: bool

definition freshDomain :: domainState where
  "freshDomain = \<lparr>bytesUsed = 0, windowStart = 0, bypassed = False, bypassedAt = 0, directFailures = 0,
     seenAt = 0, markedForDeletion = False\<rparr>"

record volumeTracker =
  vtDomains :: "string \<Rightarrow> domainState option"
  vtConns :: "string \<Rightarrow> (int \<times> nat) list option"
  vtThreshold :: int
  connIDGen :: int
  closedConns :: "nat set"
    \<comment> \<open>the connections that were closed by force\<close>
  stoppedReaders :: "nat set"

definition NewVolumeTracker :: "int \<Rightarrow> volumeTracker" where
  "NewVolumeTracker threshold =
     \<lparr>vtDomains = (\<lambda>_. None), vtConns = (\<lambda>_. None), vtThreshold = threshold, connIDGen = 0, closedConns = {},
      stoppedReaders = {}\<rparr>"

definition bypassStep :: "int \<Rightarrow> domainState \<Rightarrow> bool \<times> domainState" where
  \<comment> \<open>\<^verbatim>\<open>IsBypassed\<close> on the state of a domain\<close>
  "bypassStep now st =
     (if \<not> bypassed st then (False, st)
      else if now - bypassedAt st > 86400
        then (False, st\<lparr>bypassed := False, directFailures := 0, bytesUsed := 0, windowStart := 0\<rparr>)
      else if directFailures st \<ge> 3 then (False, st)
      else (True, st))"

definition IsBypassed :: "string \<Rightarrow> int \<Rightarrow> volumeTracker \<Rightarrow> bool \<times> volumeTracker" where
  "IsBypassed key now vt =
     (case vtDomains vt key of
        None \<Rightarrow> (False, vt)
      | Some st \<Rightarrow> (case bypassStep now st of (b, st') \<Rightarrow> (b, vt\<lparr>vtDomains := (vtDomains vt)(key \<mapsto> st')\<rparr>)))"

definition closeAll :: "string \<Rightarrow> volumeTracker \<Rightarrow> volumeTracker" where
  "closeAll key vt =
     (case vtConns vt key of
        None \<Rightarrow> vt
      | Some cs \<Rightarrow> vt\<lparr>vtConns := (vtConns vt)(key \<mapsto> []), closedConns := closedConns vt \<union> snd ` set cs\<rparr>)"

definition addStepAtomic :: "int \<Rightarrow> int \<Rightarrow> int \<Rightarrow> domainState \<Rightarrow> bool \<times> domainState" where
  \<comment> \<open>\<^verbatim>\<open>AddBytes\<close> on the state of a domain: threshold, time, bytes\<close>
  "addStepAtomic threshold now n st0 =
     (let st = st0\<lparr>markedForDeletion := False\<rparr>;
          st = (if windowStart st = 0 then st\<lparr>windowStart := now\<rparr> else st);
          st = (if now - windowStart st > 3600 then st\<lparr>windowStart := now, bytesUsed := 0\<rparr> else st);
          st = st\<lparr>bytesUsed := bytesUsed st + n, seenAt := now\<rparr>
      in if bytesUsed st > threshold \<and> \<not> bypassed st then (True, st\<lparr>bypassed := True, bypassedAt := now\<rparr>)
         else (False, st))"

definition AddBytes :: "string \<Rightarrow> int \<Rightarrow> int \<Rightarrow> volumeTracker \<Rightarrow> bool \<times> volumeTracker" where
  "AddBytes key now n vt =
     (let st0 = (case vtDomains vt key of None \<Rightarrow> freshDomain | Some st \<Rightarrow> st) in
      case addStepAtomic (vtThreshold vt) now n st0 of
        (triggered, st) \<Rightarrow>
          (let vt' = vt\<lparr>vtDomains := (vtDomains vt)(key \<mapsto> st)\<rparr> in
           if triggered then (True, closeAll key vt') else (False, vt')))"

definition RegisterConn :: "string \<Rightarrow> nat \<Rightarrow> volumeTracker \<Rightarrow> int \<times> volumeTracker" where
  "RegisterConn key conn vt =
     (let connID = connIDGen vt + 1;
          cs = (case vtConns vt key of None \<Rightarrow> [] | Some cs \<Rightarrow> cs)
      in (connID, vt\<lparr>connIDGen := connID, vtConns := (vtConns vt)(key \<mapsto> (connID, conn) # cs)\<rparr>))"

definition UnregisterConn :: "string \<Rightarrow> int \<Rightarrow> volumeTracker \<Rightarrow> volumeTracker" where
  "UnregisterConn key connID vt =
     (case vtConns vt key of
        None \<Rightarrow> vt
      | Some cs \<Rightarrow> vt\<lparr>vtConns := (vtConns vt)(key \<mapsto> filter (\<lambda>(i, _). i \<noteq> connID) cs)\<rparr>)"

definition RecordDirectFailure :: "string \<Rightarrow> volumeTracker \<Rightarrow> volumeTracker" where
  "RecordDirectFailure key vt =
     (case vtDomains vt key of
        None \<Rightarrow> vt
      | Some st \<Rightarrow> vt\<lparr>vtDomains := (vtDomains vt)(key \<mapsto> st\<lparr>directFailures := directFailures st + 1\<rparr>)\<rparr>)"

definition vtCleanup :: "int \<Rightarrow> volumeTracker \<Rightarrow> volumeTracker" where
  \<comment> \<open>\<^verbatim>\<open>cleanup\<close>\<close>
  "vtCleanup now vt = vt
     \<lparr>vtDomains := (\<lambda>key. case vtDomains vt key of
          None \<Rightarrow> None
        | Some st \<Rightarrow>
            if seenAt st < now - 86400
            then (if markedForDeletion st then None else Some (st\<lparr>markedForDeletion := True\<rparr>))
            else Some st),
      vtConns := (\<lambda>key. if vtConns vt key = Some [] then None else vtConns vt key)\<rparr>"

definition crRead :: "nat \<Rightarrow> string \<Rightarrow> int \<Rightarrow> int \<Rightarrow> volumeTracker \<Rightarrow> volumeTracker" where
  \<comment> \<open>\<^verbatim>\<open>countingReader.Read\<close> of the reader with this number, when the read gave \<open>n\<close> bytes\<close>
  "crRead rid key now n vt =
     (if n > 0 \<and> rid \<notin> stoppedReaders vt then
        (case IsBypassed key now vt of
           (True, vt1) \<Rightarrow> vt1\<lparr>stoppedReaders := insert rid (stoppedReaders vt1)\<rparr>
         | (False, vt1) \<Rightarrow>
             (case AddBytes key now n vt1 of
                (True, vt2) \<Rightarrow> vt2\<lparr>stoppedReaders := insert rid (stoppedReaders vt2)\<rparr>
              | (False, vt2) \<Rightarrow> vt2))
      else vt)"

section \<open>The CONNECT handler\<close>

record proxyNet =
  pnDial :: "nat \<Rightarrow> bool"
    \<comment> \<open>whether the \<open>n\<close>-th direct dial of the request succeeds\<close>
  pnHijack :: "bool option"
    \<comment> \<open>\<open>None\<close> if the writer does not support it\<close>
  pnEnsureToken :: bool
  pnRequest :: bool
    \<comment> \<open>whether the request to the relay can be built\<close>
  pnRelay :: "nat option"
    \<comment> \<open>the status of the relay\<close>

datatype route = ProxyError nat | HijackLost | ViaRelay string | Direct string

definition tryDirectBypass :: "proxyNet \<Rightarrow> nat \<Rightarrow> string \<Rightarrow> volumeTracker \<Rightarrow> bool \<times> volumeTracker" where
  "tryDirectBypass pn i key vt =
     (if \<not> pnDial pn i then (False, RecordDirectFailure key vt)
      else (pnHijack pn = Some True, vt))"

definition viaRelay :: "proxyNet \<Rightarrow> string \<Rightarrow> route" where
  "viaRelay pn target =
     (if \<not> pnEnsureToken pn then ProxyError 502
      else if \<not> pnRequest pn then ProxyError 500
      else case pnRelay pn of
        None \<Rightarrow> ProxyError 502
      | Some status \<Rightarrow>
          if status \<noteq> 200 then ProxyError status
          else (case pnHijack pn of
            None \<Rightarrow> ProxyError 500 | Some False \<Rightarrow> HijackLost | Some True \<Rightarrow> ViaRelay target))"

definition connectTarget :: "string \<Rightarrow> string \<Rightarrow> string" where
  \<comment> \<open>from the Host header and the URL\<close>
  "connectTarget reqHost urlHost =
     (let target = (if reqHost = [] then urlHost else reqHost) in
      if target = [] then [] else if SplitHostPort target = None then target @ '':443'' else target)"

definition handleConnect ::
  "(string \<Rightarrow> string option) \<Rightarrow> proxyNet \<Rightarrow> string \<Rightarrow> string \<Rightarrow> int \<Rightarrow> volumeTracker \<Rightarrow> (route \<times> nat) \<times> volumeTracker" where
  \<comment> \<open>with a volume tracker; the route and the number of direct dials\<close>
  "handleConnect etld pn reqHost urlHost now vt =
     (let target = connectTarget reqHost urlHost; key = domainKey etld target in
      if target = [] then ((ProxyError 400, 0), vt)
      else
        let (done1, i, vt1) =
              (if IsAlwaysBypassed target
               then (case tryDirectBypass pn 0 key vt of (b, v) \<Rightarrow> (b, 1, v)) else (False, 0, vt))
        in if done1 then ((Direct target, i), vt1)
        else case IsBypassed key now vt1 of
          (False, vt2) \<Rightarrow> ((viaRelay pn target, i), vt2)
        | (True, vt2) \<Rightarrow>
            (case tryDirectBypass pn i key vt2 of
               (True, vt3) \<Rightarrow> ((Direct target, i + 1), vt3)
             | (False, vt3) \<Rightarrow> ((viaRelay pn target, i + 1), vt3)))"

section \<open>AddBytes cut at its atomic accesses\<close>

datatype addPc =
    PcRescue | PcInit | PcLoad | PcExpire int | PcSwap | PcAdd | PcSeen int | PcTrigger int | PcBypassedAt | PcRet bool

fun addStep :: "int \<Rightarrow> int \<Rightarrow> int \<Rightarrow> addPc \<times> domainState \<Rightarrow> addPc \<times> domainState" where
  "addStep threshold now n (PcRescue, st) = (PcInit, st\<lparr>markedForDeletion := False\<rparr>)"
| "addStep threshold now n (PcInit, st) = (PcLoad, if windowStart st = 0 then st\<lparr>windowStart := now\<rparr> else st)"
| "addStep threshold now n (PcLoad, st) = (if now - windowStart st > 3600 then PcExpire (windowStart st) else PcAdd, st)"
| "addStep threshold now n (PcExpire ws, st) =
     (if windowStart st = ws then (PcSwap, st\<lparr>windowStart := now\<rparr>) else (PcAdd, st))"
| "addStep threshold now n (PcSwap, st) = (PcAdd, st\<lparr>bytesUsed := 0\<rparr>)"
| "addStep threshold now n (PcAdd, st) = (PcSeen (bytesUsed st + n), st\<lparr>bytesUsed := bytesUsed st + n\<rparr>)"
| "addStep threshold now n (PcSeen tot, st) = (PcTrigger tot, st\<lparr>seenAt := now\<rparr>)"
| "addStep threshold now n (PcTrigger tot, st) =
     (if tot > threshold \<and> \<not> bypassed st then (PcBypassedAt, st\<lparr>bypassed := True\<rparr>) else (PcRet False, st))"
| "addStep threshold now n (PcBypassedAt, st) = (PcRet True, st\<lparr>bypassedAt := now\<rparr>)"
| "addStep threshold now n (PcRet b, st) = (PcRet b, st)"

fun interleaved ::
  "int \<Rightarrow> int \<Rightarrow> nat list \<Rightarrow> (int \<times> addPc) list \<times> domainState \<Rightarrow> (int \<times> addPc) list \<times> domainState" where
  \<comment> \<open>goroutines, each with its bytes and its position, stepping in the given order\<close>
  "interleaved threshold now [] s = s"
| "interleaved threshold now (i # sched) (ths, st) =
     interleaved threshold now sched
       (if i < length ths then
          (case addStep threshold now (fst (ths ! i)) (snd (ths ! i), st) of
             (pc, st') \<Rightarrow> (ths[i := (fst (ths ! i), pc)], st'))
        else (ths, st))"

end
