(* ===== verification/Volume_Props.thy ===== *)
theory Volume_Props
  imports VolumeTracker
begin

text \<open>
  The properties of the volume tracker and of the CONNECT proxy: which traffic leaves the tunnel.
\<close>

section \<open>Runs of the proxy\<close>

datatype vtOp =
    OpRead nat string int
  | OpRegister string nat
  | OpUnregister string int
  | OpCleanup
  | OpConnect proxyNet string string

definition vtStep :: "(string \<Rightarrow> string option) \<Rightarrow> int \<times> vtOp \<Rightarrow> volumeTracker \<Rightarrow> volumeTracker" where
  "vtStep etld e vt =
     (case e of (now, op) \<Rightarrow>
        (case op of
           OpRead rid key n \<Rightarrow> crRead rid key now n vt
         | OpRegister key conn \<Rightarrow> snd (RegisterConn key conn vt)
         | OpUnregister key i \<Rightarrow> UnregisterConn key i vt
         | OpCleanup \<Rightarrow> vtCleanup now vt
         | OpConnect pn host url \<Rightarrow> snd (handleConnect etld pn host url now vt)))"

fun opVolume :: "string \<Rightarrow> vtOp \<Rightarrow> int" where
  "opVolume key (OpRead rid k n) = (if k = key \<and> n > 0 then n else 0)"
| "opVolume key op = 0"

definition relayed :: "string \<Rightarrow> int \<Rightarrow> int \<Rightarrow> (int \<times> vtOp) list \<Rightarrow> int" where
  \<comment> \<open>the bytes of a domain that came through the relay between two times\<close>
  "relayed key a b h = (\<Sum>(t, op) \<leftarrow> h. if a \<le> t \<and> t \<le> b then opVolume key op else 0)"

lemma opVolume_nonneg [simp]: "0 \<le> opVolume key op"
  by (cases op) auto

lemma relayed_append: "relayed key a b (h @ [(t, op)]) = relayed key a b h + (if a \<le> t \<and> t \<le> b then opVolume key op else 0)"
  by (simp add: relayed_def)

lemma relayed_mono:
  assumes "a' \<le> a" "b \<le> b'"
  shows "relayed key a b h \<le> relayed key a' b' h"
  unfolding relayed_def
proof (rule sum_list_mono)
  fix e :: "int \<times> vtOp"
  show "(case e of (t, op) \<Rightarrow> if a \<le> t \<and> t \<le> b then opVolume key op else 0)
    \<le> (case e of (t, op) \<Rightarrow> if a' \<le> t \<and> t \<le> b' then opVolume key op else 0)"
    using assms by (auto split: prod.split)
qed

lemma relayed_nonneg [simp]: "0 \<le> relayed key a b h"
  by (induction h) (auto simp: relayed_def)

lemma relayed_grows: "relayed key a b h \<le> relayed key a b (h @ [e])"
  by (cases e) (simp add: relayed_append)

section \<open>What the state of a domain says of the history\<close>

definition domInv :: "int \<Rightarrow> string \<Rightarrow> (int \<times> vtOp) list \<Rightarrow> int \<Rightarrow> domainState \<Rightarrow> bool" where
  "domInv thr key h now st \<longleftrightarrow>
     windowStart st \<le> now \<and>
     (windowStart st \<noteq> 0 \<longrightarrow> bytesUsed st \<le> relayed key (windowStart st) now h) \<and>
     (windowStart st = 0 \<longrightarrow> bytesUsed st \<le> 0) \<and>
     (bypassed st \<longrightarrow> bypassedAt st \<le> now \<and> thr < relayed key (bypassedAt st - 3600) (bypassedAt st) h)"

definition vtInv :: "int \<Rightarrow> (int \<times> vtOp) list \<Rightarrow> int \<Rightarrow> volumeTracker \<Rightarrow> bool" where
  "vtInv thr h now vt \<longleftrightarrow>
     vtThreshold vt = thr \<and> (\<forall>key st. vtDomains vt key = Some st \<longrightarrow> domInv thr key h now st)"

lemma domInv_later:
  assumes "domInv thr key h now st" and "now \<le> now'"
  shows "domInv thr key h now' st" and "domInv thr key (h @ [e]) now' st"
proof -
  show d: "domInv thr key h now' st"
    using assms relayed_mono [of "windowStart st" "windowStart st" now now' key h] by (auto simp: domInv_def)
  show "domInv thr key (h @ [e]) now' st"
    using d relayed_grows [of key "windowStart st" now' h e]
      relayed_grows [of key "bypassedAt st - 3600" "bypassedAt st" h e] by (auto simp: domInv_def)
qed

lemma vtInv_later: "vtInv thr h now vt \<Longrightarrow> now \<le> now' \<Longrightarrow> vtInv thr h now' vt \<and> vtInv thr (h @ [e]) now' vt"
  by (auto simp: vtInv_def intro: domInv_later)

lemma domInv_bypassStep: "domInv thr key h now st \<Longrightarrow> 0 \<le> now \<Longrightarrow> domInv thr key h now (snd (bypassStep now st))"
  by (auto simp: domInv_def bypassStep_def)

lemma vtInv_IsBypassed: "vtInv thr h now vt \<Longrightarrow> 0 \<le> now \<Longrightarrow> vtInv thr h now (snd (IsBypassed key now vt))"
  using domInv_bypassStep by (fastforce simp: vtInv_def IsBypassed_def split: option.splits prod.splits)

lemma vtInv_RecordDirectFailure: "vtInv thr h now vt \<Longrightarrow> vtInv thr h now (RecordDirectFailure key vt)"
  by (auto simp: vtInv_def RecordDirectFailure_def domInv_def split: option.splits)

lemma vtDomains_closeAll [simp]: "vtDomains (closeAll key vt) = vtDomains vt"
  and vtThreshold_closeAll [simp]: "vtThreshold (closeAll key vt) = vtThreshold vt"
  by (simp_all add: closeAll_def split: option.splits)

lemma domInv_add:
  assumes "domInv thr key h now st" and "n > 0" and "0 < now"
  shows "domInv thr key (h @ [(now, OpRead rid key n)]) now (snd (addStepAtomic thr now n st))"
proof -
  let ?h = "h @ [(now, OpRead rid key n)]"
  have r: "relayed key a now ?h = relayed key a now h + n" if "a \<le> now" for a
    using that assms(2) by (simp add: relayed_append)
  have w: "bytesUsed st \<le> relayed key (windowStart st) now h" if "windowStart st \<noteq> 0"
    using assms(1) that by (simp add: domInv_def)
  have r0: "n \<le> relayed key now now ?h" using r [of now] by simp
  have m: "relayed key (windowStart st) now ?h \<le> relayed key (now - 3600) now ?h" if "now - windowStart st \<le> 3600"
    using that by (intro relayed_mono) auto
  have m0: "relayed key now now ?h \<le> relayed key (now - 3600) now ?h" by (intro relayed_mono) auto
  have old: "domInv thr key ?h now st" using assms(1) by (rule domInv_later(2)) simp
  show ?thesis
    using old w r [of "windowStart st"] r0 m m0 assms(1,3)
    by (auto simp: domInv_def addStepAtomic_def Let_def)
qed

lemma vtInv_AddBytes:
  assumes "vtInv thr h now vt" and "n > 0" and "0 < now"
  shows "vtInv thr (h @ [(now, OpRead rid key n)]) now (snd (AddBytes key now n vt))"
proof -
  let ?st = "case vtDomains vt key of None \<Rightarrow> freshDomain | Some st \<Rightarrow> st"
  have "domInv thr key h now ?st"
    using assms by (auto simp: vtInv_def domInv_def freshDomain_def split: option.splits)
  from domInv_add [OF this assms(2,3)] have new: "domInv thr key (h @ [(now, OpRead rid key n)]) now (snd (addStepAtomic thr now n ?st))" .
  have thr: "vtThreshold vt = thr" using assms(1) by (simp add: vtInv_def)
  obtain b st where a: "addStepAtomic thr now n ?st = (b, st)" by (metis surj_pair)
  have "vtInv thr (h @ [(now, OpRead rid key n)]) now (vt\<lparr>vtDomains := (vtDomains vt)(key \<mapsto> st)\<rparr>)"
    using vtInv_later [OF assms(1) order_refl] new a by (auto simp: vtInv_def)
  then show ?thesis by (simp add: AddBytes_def Let_def thr a vtInv_def)
qed

lemma vtInv_stopped [simp]: "vtInv thr h now (vt\<lparr>stoppedReaders := S\<rparr>) = vtInv thr h now vt"
  by (simp add: vtInv_def)

lemma vtInv_crRead:
  assumes "vtInv thr h now vt" and "0 < now"
  shows "vtInv thr (h @ [(now, OpRead rid key n)]) now (crRead rid key now n vt)"
proof -
  obtain b1 vt1 where i: "IsBypassed key now vt = (b1, vt1)" by (metis surj_pair)
  have i1: "vtInv thr h now vt1" using vtInv_IsBypassed [OF assms(1), of key] assms(2) i by simp
  obtain b2 vt2 where a: "AddBytes key now n vt1 = (b2, vt2)" by (metis surj_pair)
  have "vtInv thr (h @ [(now, OpRead rid key n)]) now vt2" if "n > 0"
    using vtInv_AddBytes [OF i1 that assms(2), of rid key] a by simp
  then show ?thesis
    using vtInv_later [OF assms(1) order_refl] vtInv_later [OF i1 order_refl]
    by (cases b1; cases b2) (simp_all add: crRead_def i a)
qed

lemma vtInv_cleanup: "vtInv thr h now vt \<Longrightarrow> vtInv thr h now (vtCleanup t vt)"
  by (auto simp: vtInv_def vtCleanup_def domInv_def split: option.splits if_splits)

lemma tryDirectBypass_vt: "snd (tryDirectBypass pn i key vt) = vt \<or> snd (tryDirectBypass pn i key vt) = RecordDirectFailure key vt"
  by (simp add: tryDirectBypass_def)

lemma vtInv_tryDirect: "vtInv thr h now vt \<Longrightarrow> vtInv thr h now (snd (tryDirectBypass pn i key vt))"
  by (simp add: tryDirectBypass_def vtInv_RecordDirectFailure)

lemma handleConnect_cases:
  fixes etld pn host url now vt
  defines "target \<equiv> connectTarget host url"
  defines "key \<equiv> domainKey etld target"
  defines "vt1 \<equiv> (if IsAlwaysBypassed target then snd (tryDirectBypass pn 0 key vt) else vt)"
  obtains (refused) "handleConnect etld pn host url now vt = ((ProxyError 400, 0), vt)"
  | (always) "handleConnect etld pn host url now vt = ((Direct target, 1), vt1)" "IsAlwaysBypassed target"
  | (relay) i where "handleConnect etld pn host url now vt = ((viaRelay pn target, i), snd (IsBypassed key now vt1))"
      "i = (if IsAlwaysBypassed target then 1 else 0)" "\<not> fst (IsBypassed key now vt1)"
  | (volume) r i j where "handleConnect etld pn host url now vt =
        ((r, i), snd (tryDirectBypass pn j key (snd (IsBypassed key now vt1))))" "fst (IsBypassed key now vt1)"
proof -
  obtain b v where t: "tryDirectBypass pn 0 key vt = (b, v)" by (metis surj_pair)
  obtain c w where i: "IsBypassed key now vt1 = (c, w)" by (metis surj_pair)
  let ?i = "if IsAlwaysBypassed target then 1 else 0 :: nat"
  obtain d x where u: "tryDirectBypass pn ?i key w = (d, x)" by (metis surj_pair)
  show thesis
  proof (cases "target = [] \<or> IsAlwaysBypassed target \<and> b")
    case True
    show thesis
    proof (cases "target = []")
      case True
      then show thesis by (intro refused) (simp add: handleConnect_def Let_def target_def [symmetric])
    next
      case False
      with True have "IsAlwaysBypassed target" "b" by simp_all
      with False t show thesis
        by (intro always) (simp_all add: handleConnect_def Let_def target_def [symmetric] key_def [symmetric] vt1_def)
    qed
  next
    case False
    then have h: "handleConnect etld pn host url now vt =
        (if c then (if d then ((Direct target, ?i + 1), x) else ((viaRelay pn target, ?i + 1), x))
         else ((viaRelay pn target, ?i), w))"
      using t i u
      by (auto simp: handleConnect_def Let_def target_def [symmetric] key_def [symmetric] vt1_def split: if_splits)
    show thesis
    proof (cases c)
      case True
      then show thesis using volume [of "fst (fst (handleConnect etld pn host url now vt))"
          "snd (fst (handleConnect etld pn host url now vt))" ?i] h i u by (cases d) simp_all
    next
      case False
      then show thesis using relay [of ?i] h i by simp
    qed
  qed
qed

lemma vtInv_handleConnect:
  assumes "vtInv thr h now vt" and "0 < now"
  shows "vtInv thr h now (snd (handleConnect etld pn host url now vt))"
proof -
  let ?vt1 = "if IsAlwaysBypassed (connectTarget host url)
    then snd (tryDirectBypass pn 0 (domainKey etld (connectTarget host url)) vt) else vt"
  have 1: "vtInv thr h now ?vt1" using assms by (simp add: vtInv_tryDirect)
  have 2: "vtInv thr h now (snd (IsBypassed key now ?vt1))" for key
    using 1 assms(2) by (intro vtInv_IsBypassed) simp_all
  show ?thesis
    by (rule handleConnect_cases [of etld pn host url now vt]) (use assms 1 2 vtInv_tryDirect [OF 2] in simp_all)
qed

lemma vtInv_step:
  assumes "vtInv thr h now vt" and "now \<le> fst e" and "0 < fst e"
  shows "vtInv thr (h @ [e]) (fst e) (vtStep etld e vt)"
proof -
  obtain t op where e: "e = (t, op)" by (cases e)
  have now: "vtInv thr h t vt" and later: "vtInv thr (h @ [e]) t vt"
    using vtInv_later [OF assms(1,2), of e] e by simp_all
  have pos: "0 < t" using assms(3) e by simp
  show ?thesis
  proof (cases op)
    case (OpRead rid key n)
    then show ?thesis using vtInv_crRead [OF now pos, of rid key n] by (simp add: vtStep_def e)
  next
    case (OpRegister key conn)
    then show ?thesis using later by (simp add: vtStep_def e RegisterConn_def Let_def vtInv_def)
  next
    case (OpUnregister key i)
    then show ?thesis using later by (simp add: vtStep_def e UnregisterConn_def vtInv_def split: option.splits)
  next
    case OpCleanup
    then show ?thesis using vtInv_cleanup [OF later, of t] by (simp add: vtStep_def e)
  next
    case (OpConnect pn host url)
    then show ?thesis using vtInv_handleConnect [OF later pos, of etld pn host url] by (simp add: vtStep_def e)
  qed
qed

lemma vtInv_run:
  assumes "sorted (map fst h)" and "\<forall>e \<in> set h. 0 < fst e \<and> fst e \<le> now" and "0 < now"
  shows "vtInv thr h now (fold (vtStep etld) h (NewVolumeTracker thr))"
  using assms
proof (induction h arbitrary: now rule: rev_induct)
  case Nil
  then show ?case by (simp add: vtInv_def NewVolumeTracker_def)
next
  case (snoc e h)
  have "vtInv thr h (fst e) (fold (vtStep etld) h (NewVolumeTracker thr))"
    using snoc.prems by (intro snoc.IH) (auto simp: sorted_append)
  from vtInv_step [OF this order_refl] snoc.prems
  have "vtInv thr (h @ [e]) (fst e) (fold (vtStep etld) (h @ [e]) (NewVolumeTracker thr))" by simp
  then show ?case using snoc.prems vtInv_later by fastforce
qed



section \<open>What triggers the bypass\<close>

definition readAll :: "string \<Rightarrow> (nat \<times> int \<times> int) list \<Rightarrow> volumeTracker \<Rightarrow> volumeTracker" where
  \<comment> \<open>reads of a domain, each with its reader, its time and its bytes\<close>
  "readAll key reads = fold (\<lambda>(rid, t, n). crRead rid key t n) reads"

definition volumeOf :: "(nat \<times> int \<times> int) list \<Rightarrow> int" where
  "volumeOf reads = (\<Sum>(rid, t, n) \<leftarrow> reads. n)"

lemma readAll_below:
  assumes "vtDomains vt key = None" and "\<forall>(rid, t, n) \<in> set reads. 0 < t0 \<and> t0 \<le> t \<and> t \<le> t0 + 3600 \<and> 0 < n \<and> rid \<notin> stoppedReaders vt"
    and "reads \<noteq> []" and "fst (snd (hd reads)) = t0" and "volumeOf reads \<le> vtThreshold vt"
  shows "readAll key reads vt = vt\<lparr>vtDomains := (vtDomains vt)(key \<mapsto>
      \<lparr>bytesUsed = volumeOf reads, windowStart = t0, bypassed = False, bypassedAt = 0, directFailures = 0,
       seenAt = fst (snd (last reads)), markedForDeletion = False\<rparr>)\<rparr>"
  using assms(2-5)
proof (induction reads rule: rev_induct)
  case (snoc e reads)
  obtain rid t n where e: "e = (rid, t, n)" by (cases e)
  have en: "0 < t0" "t0 \<le> t" "t \<le> t0 + 3600" "0 < n" "rid \<notin> stoppedReaders vt"
    using snoc.prems(1) e by auto
  have vol: "volumeOf (reads @ [e]) = volumeOf reads + n" by (simp add: volumeOf_def e)
  show ?case
  proof (cases "reads = []")
    case True
    then show ?thesis using snoc.prems en assms(1)
      by (simp add: e readAll_def crRead_def IsBypassed_def AddBytes_def addStepAtomic_def freshDomain_def volumeOf_def Let_def
          fun_upd_def)
  next
    case False
    have IH: "readAll key reads vt = vt\<lparr>vtDomains := (vtDomains vt)(key \<mapsto>
      \<lparr>bytesUsed = volumeOf reads, windowStart = t0, bypassed = False, bypassedAt = 0, directFailures = 0,
       seenAt = fst (snd (last reads)), markedForDeletion = False\<rparr>)\<rparr>"
      using False snoc.prems vol en(4) by (intro snoc.IH) (auto simp: hd_append)
    have "readAll key (reads @ [e]) vt = crRead rid key t n (readAll key reads vt)" by (simp add: readAll_def e)
    then show ?thesis unfolding IH using en snoc.prems(4) unfolding vol
      by (simp add: e crRead_def IsBypassed_def bypassStep_def AddBytes_def addStepAtomic_def Let_def)
        (simp add: fun_upd_def)
  qed
qed simp

lemma connect_unflagged:
  assumes "target = connectTarget host url" and "target \<noteq> []" and "\<not> IsAlwaysBypassed target"
    and "vtDomains vt (domainKey etld target) = Some st" and "\<not> bypassed st"
  shows "fst (handleConnect etld pn host url now vt) = (viaRelay pn target, 0)"
  using assms by (simp add: handleConnect_def Let_def IsBypassed_def bypassStep_def)

lemma connect_flagged:
  assumes "target = connectTarget host url" and "target \<noteq> []" and "\<not> IsAlwaysBypassed target"
    and "vtDomains vt (domainKey etld target) = Some st" and "bypassed st" and "now - bypassedAt st \<le> 86400"
    and "directFailures st < 3"
  shows "pnDial pn 0 \<Longrightarrow> pnHijack pn = Some True \<Longrightarrow> handleConnect etld pn host url now vt = ((Direct target, 1), vt)"
    and "\<not> pnDial pn 0 \<Longrightarrow> handleConnect etld pn host url now vt = ((viaRelay pn target, 1),
      vt\<lparr>vtDomains := (vtDomains vt)(domainKey etld target \<mapsto> st\<lparr>directFailures := directFailures st + 1\<rparr>)\<rparr>)"
proof -
  have "vt\<lparr>vtDomains := (vtDomains vt)(domainKey etld target \<mapsto> st)\<rparr> = vt"
    using assms(4) by (simp add: fun_upd_idem)
  then have i: "IsBypassed (domainKey etld target) now vt = (True, vt)"
    using assms(4-7) by (simp add: IsBypassed_def bypassStep_def)
  show "pnDial pn 0 \<Longrightarrow> pnHijack pn = Some True \<Longrightarrow> handleConnect etld pn host url now vt = ((Direct target, 1), vt)"
    using assms(1-3) i by (simp add: handleConnect_def Let_def tryDirectBypass_def)
  show "\<not> pnDial pn 0 \<Longrightarrow> handleConnect etld pn host url now vt = ((viaRelay pn target, 1),
      vt\<lparr>vtDomains := (vtDomains vt)(domainKey etld target \<mapsto> st\<lparr>directFailures := directFailures st + 1\<rparr>)\<rparr>)"
    using assms(1-4) i by (simp add: handleConnect_def Let_def tryDirectBypass_def RecordDirectFailure_def)
qed

lemma connect_exhausted:
  assumes "target = connectTarget host url" and "target \<noteq> []" and "\<not> IsAlwaysBypassed target"
    and "vtDomains vt (domainKey etld target) = Some st" and "now - bypassedAt st \<le> 86400"
    and "directFailures st \<ge> 3"
  shows "fst (handleConnect etld pn host url now vt) = (viaRelay pn target, 0)"
  using assms by (auto simp: handleConnect_def Let_def IsBypassed_def bypassStep_def)

text \<open>
  The bypass starts exactly when the bytes of a domain within an hour exceed the threshold. Up to
  the threshold every CONNECT to the domain goes to the relay; the read that exceeds it closes all the
  connections of that domain and no other, and for the next 24 hours each CONNECT to the domain is
  dialled directly, until three direct dials have failed: then it goes to the relay again.
\<close>

theorem volume_triggers_bypass:
  assumes "vtDomains vt key = None" and "vtConns vt key = Some cs" and "vt1 = readAll key reads vt"
    and "\<forall>(rid, t, n) \<in> set reads. 0 < t0 \<and> t0 \<le> t \<and> t \<le> t0 + 3600 \<and> 0 < n \<and> rid \<notin> stoppedReaders vt"
    and "reads \<noteq> []" and "fst (snd (hd reads)) = t0" and "volumeOf reads \<le> vtThreshold vt"
    and "t0 \<le> t" and "t \<le> t0 + 3600" and "rid \<notin> stoppedReaders vt" and "vtThreshold vt < volumeOf reads + n" and "0 < n"
    and "vt2 = crRead rid key t n vt1"
    and "target = connectTarget host url" and "target \<noteq> []" and "\<not> IsAlwaysBypassed target" and "domainKey etld target = key"
    and "t \<le> now" and "now \<le> t + 86400"
  shows "fst (handleConnect etld pn host url now vt1) = (viaRelay pn target, 0) \<and>
    closedConns vt1 = closedConns vt \<and> closedConns vt2 = closedConns vt \<union> snd ` set cs \<and>
    (pnDial pn 0 \<and> pnHijack pn = Some True \<longrightarrow> handleConnect etld pn host url now vt2 = ((Direct target, 1), vt2)) \<and>
    (\<not> pnDial pn 0 \<longrightarrow>
       (let step = (\<lambda>v. snd (handleConnect etld pn host url now v)) in
        fst (handleConnect etld pn host url now (step (step vt2))) = (viaRelay pn target, 1) \<and>
        fst (handleConnect etld pn host url now (step (step (step vt2)))) = (viaRelay pn target, 0)))"
proof -
  let ?st1 = "\<lparr>bytesUsed = volumeOf reads, windowStart = t0, bypassed = False, bypassedAt = 0, directFailures = 0,
       seenAt = fst (snd (last reads)), markedForDeletion = False\<rparr>"
  let ?st2 = "\<lparr>bytesUsed = volumeOf reads + n, windowStart = t0, bypassed = True, bypassedAt = t, directFailures = 0,
       seenAt = t, markedForDeletion = False\<rparr>"
  have vt1: "vt1 = vt\<lparr>vtDomains := (vtDomains vt)(key \<mapsto> ?st1)\<rparr>"
    unfolding assms(3) by (rule readAll_below [OF assms(1,4-7)])
  have t0: "0 < t0" using assms(4,5) by (cases reads) auto
  have vt2: "vt2 = vt\<lparr>vtDomains := (vtDomains vt)(key \<mapsto> ?st2), vtConns := (vtConns vt)(key \<mapsto> []),
      closedConns := closedConns vt \<union> snd ` set cs, stoppedReaders := insert rid (stoppedReaders vt)\<rparr>"
    unfolding assms(13) vt1 using assms(2,8-12) t0
    by (simp add: crRead_def IsBypassed_def bypassStep_def AddBytes_def addStepAtomic_def closeAll_def Let_def)
  define v where "v k = vt2\<lparr>vtDomains := (vtDomains vt2)(key \<mapsto> ?st2\<lparr>directFailures := k\<rparr>)\<rparr>" for k
  have v0: "vt2 = v 0" by (simp add: v_def vt2)
  have dom: "vtDomains (v k) key = Some (?st2\<lparr>directFailures := k\<rparr>)" for k by (simp add: v_def)
  have fail: "handleConnect etld pn host url now (v k) = ((viaRelay pn target, 1), v (k + 1))"
    if "\<not> pnDial pn 0" "k < 3" for k
    using connect_flagged(2) [OF assms(14-16), of "v k" etld "?st2\<lparr>directFailures := k\<rparr>" now pn] dom [of k] that assms(17,19)
    by (simp add: v_def)
  have "fst (handleConnect etld pn host url now vt1) = (viaRelay pn target, 0)"
    by (rule connect_unflagged [OF assms(14-16), of _ _ ?st1]) (simp_all add: vt1 assms(17))
  moreover have "handleConnect etld pn host url now vt2 = ((Direct target, 1), vt2)" if "pnDial pn 0" "pnHijack pn = Some True"
    by (rule connect_flagged(1) [OF assms(14-16), of _ _ ?st2]) (use that assms(17,19) in \<open>simp_all add: vt2\<close>)
  moreover have "fst (handleConnect etld pn host url now (v 3)) = (viaRelay pn target, 0)"
    by (rule connect_exhausted [OF assms(14-16), of _ _ "?st2\<lparr>directFailures := 3\<rparr>"]) (use assms(17,19) dom [of 3] in simp_all)
  ultimately show ?thesis using fail [of 0] fail [of 1] fail [of 2] unfolding v0 by (simp add: vt1 v_def vt2 Let_def)
qed

theorem volume_triggers_bypass_witness:
  defines "pn \<equiv> \<lparr>pnDial = (\<lambda>_. True), pnHijack = Some True, pnEnsureToken = True, pnRequest = True, pnRelay = Some 200\<rparr>"
    and "vt \<equiv> (NewVolumeTracker 100)\<lparr>vtConns := [''a.co'' \<mapsto> [(1, 7)]]\<rparr>"
  shows "closedConns (crRead 0 ''a.co'' 20 50 (readAll ''a.co'' [(0, 10, 60)] vt)) = {7} \<and>
    fst (handleConnect (\<lambda>_. Some ''a.co'') pn ''a.co:443'' [] 30 (crRead 0 ''a.co'' 20 50 (readAll ''a.co'' [(0, 10, 60)] vt)))
      = (Direct ''a.co:443'', 1)"
proof -
  have s: "SplitHostPort ''a.co:443'' = Some (''a.co'', ''443'')" by code_simp
  have p: "ParseIP ''a.co'' = None" by code_simp
  have n: "\<not> IsAlwaysBypassed ''a.co:443''" by code_simp
  have t: "''a.co:443'' = connectTarget ''a.co:443'' []" by (simp add: connectTarget_def s)
  have k: "domainKey (\<lambda>_. Some ''a.co'') ''a.co:443'' = ''a.co''" by (simp add: domainKey_def hostOf_def s p sharedCDNs_def)
  show ?thesis
    using volume_triggers_bypass [where vt = vt and key = "''a.co''" and cs = "[(1, 7)]" and reads = "[(0, 10, 60)]"
        and ?t0.0 = 10 and t = 20 and rid = 0 and n = 50 and now = 30 and pn = pn, OF _ _ refl _ _ _ _ _ _ _ _ _ refl t _ n k]
    by (simp add: vt_def pn_def NewVolumeTracker_def volumeOf_def)
qed

section \<open>Concurrent counting\<close>

text \<open>One goroutine alone performs the atomic operation.\<close>

lemma addStep_sequential:
  "(addStep threshold now n ^^ 9) (PcRescue, st) = (case addStepAtomic threshold now n st of (b, st') \<Rightarrow> (PcRet b, st'))"
  by (simp add: addStepAtomic_def Let_def numeral_eq_Suc)

definition added :: "addPc \<Rightarrow> bool" where
  \<comment> \<open>the goroutine is past its addition\<close>
  "added pc \<longleftrightarrow> (case pc of PcSeen _ \<Rightarrow> True | PcTrigger _ \<Rightarrow> True | PcBypassedAt \<Rightarrow> True | PcRet _ \<Rightarrow> True | _ \<Rightarrow> False)"

definition triggered :: "addPc \<Rightarrow> bool" where
  "triggered pc \<longleftrightarrow> pc = PcBypassedAt \<or> pc = PcRet True"

definition pending :: "int \<Rightarrow> addPc \<Rightarrow> bool" where
  \<comment> \<open>the goroutine has still to compare this total with the threshold\<close>
  "pending tot pc \<longleftrightarrow> pc = PcSeen tot \<or> pc = PcTrigger tot"

definition addsInv :: "int \<Rightarrow> int \<Rightarrow> int \<Rightarrow> bool \<Rightarrow> (int \<times> addPc) list \<Rightarrow> domainState \<Rightarrow> bool" where
  "addsInv thr now b0 by0 ths st \<longleftrightarrow>
     windowStart st \<noteq> 0 \<and> now - windowStart st \<le> 3600 \<and>
     (\<forall>(n, pc) \<in> set ths. pc \<noteq> PcSwap \<and> (\<forall>ws. pc \<noteq> PcExpire ws)) \<and>
     bytesUsed st = b0 + (\<Sum>(n, pc) \<leftarrow> ths. if added pc then n else 0) \<and>
     (\<Sum>(n, pc) \<leftarrow> ths. if triggered pc then 1 else 0 :: int) = (if bypassed st \<and> \<not> by0 then 1 else 0) \<and>
     (by0 \<longrightarrow> bypassed st) \<and>
     ((\<exists>(n, pc) \<in> set ths. added pc) \<longrightarrow> bytesUsed st \<le> thr \<or> bypassed st \<or> (\<exists>(n, pc) \<in> set ths. pending (bytesUsed st) pc))"

lemma sum_list_update_pc:
  fixes f :: "'a \<Rightarrow> int"
  shows "i < length xs \<Longrightarrow> sum_list (map f (xs[i := y])) = sum_list (map f xs) - f (xs ! i) + f y"
  by (induction xs arbitrary: i) (auto split: nat.splits)

lemma length_filter_sum: "int (length (filter P xs)) = (\<Sum>x \<leftarrow> xs. if P x then 1 else 0)"
  by (induction xs) auto

lemma bex_list_update:
  assumes "i < length xs" and "P y \<or> (\<exists>x \<in> set xs. P x \<and> x \<noteq> xs ! i)"
  shows "\<exists>x \<in> set (xs[i := y]). P x"
  using assms(2)
proof
  assume "P y"
  then show ?thesis using assms(1) by (meson set_update_memI)
next
  assume "\<exists>x \<in> set xs. P x \<and> x \<noteq> xs ! i"
  then obtain j where j: "j < length xs" "P (xs ! j)" "j \<noteq> i" by (metis in_set_conv_nth)
  then have "xs[i := y] ! j = xs ! j" by simp
  with j show ?thesis by (metis length_list_update nth_mem)
qed

lemma ball_list_update: "\<forall>x \<in> set xs. P x \<Longrightarrow> P y \<Longrightarrow> \<forall>x \<in> set (xs[i := y]). P x"
  using set_update_subset_insert [of xs i y] by blast

lemma addsInv_step:
  assumes inv: "addsInv thr now b0 by0 ths st" and i: "i < length ths" and th: "ths ! i = (n, pc)"
    and step: "addStep thr now n (pc, st) = (pc', st')"
  shows "addsInv thr now b0 by0 (ths[i := (n, pc')]) st'"
proof -
  let ?ths = "ths[i := (n, pc')]"
  have mem: "(n, pc) \<in> set ths" using i th by (metis nth_mem)
  have pc: "pc \<noteq> PcSwap" "\<And>ws. pc \<noteq> PcExpire ws"
    using inv mem by (auto simp: addsInv_def)
  have ws: "windowStart st \<noteq> 0" "now - windowStart st \<le> 3600" using inv by (simp_all add: addsInv_def)
  have pc': "pc' \<noteq> PcSwap \<and> (\<forall>ws. pc' \<noteq> PcExpire ws)"
    using step pc ws by (cases pc) (auto split: if_splits)
  have st: "windowStart st' = windowStart st"
    "bytesUsed st' = bytesUsed st + (if pc = PcAdd then n else 0)"
    "bypassed st \<Longrightarrow> bypassed st'"
    using step pc ws by (cases pc; auto split: if_splits)+
  have ad: "added pc' \<longleftrightarrow> added pc \<or> pc = PcAdd" "\<not> added PcAdd"
    using step pc ws by (cases pc; auto simp: added_def split: if_splits)+
  have tr: "(if triggered pc' then 1 else 0 :: int) = (if triggered pc then 1 else 0) +
      (if bypassed st' \<and> \<not> bypassed st then 1 else 0)"
    using step pc ws by (cases pc; auto simp: triggered_def split: if_splits)
  have 1: "\<forall>(n, pc) \<in> set ?ths. pc \<noteq> PcSwap \<and> (\<forall>ws. pc \<noteq> PcExpire ws)"
    using inv pc' by (intro ball_list_update) (auto simp: addsInv_def)
  have "(\<Sum>(n, pc) \<leftarrow> ?ths. if added pc then n else 0) =
      (\<Sum>(n, pc) \<leftarrow> ths. if added pc then n else 0) - (if added pc then n else 0) + (if added pc' then n else 0)"
    using sum_list_update_pc [OF i, of "\<lambda>(n, pc). if added pc then n else 0" "(n, pc')"] th by simp
  moreover have "bytesUsed st = b0 + (\<Sum>(n, pc) \<leftarrow> ths. if added pc then n else 0)"
    using inv by (simp add: addsInv_def)
  ultimately have 2: "bytesUsed st' = b0 + (\<Sum>(n, pc) \<leftarrow> ?ths. if added pc then n else 0)"
    unfolding st(2) using ad by (simp split: if_splits)
  have "(\<Sum>(n, pc) \<leftarrow> ?ths. if triggered pc then 1 else 0 :: int) =
      (\<Sum>(n, pc) \<leftarrow> ths. if triggered pc then 1 else 0) + (if bypassed st' \<and> \<not> bypassed st then 1 else 0)"
    using sum_list_update_pc [OF i, of "\<lambda>(n, pc). if triggered pc then 1 else 0" "(n, pc')"] th tr by simp
  moreover have "(\<Sum>(n, pc) \<leftarrow> ths. if triggered pc then 1 else 0 :: int) = (if bypassed st \<and> \<not> by0 then 1 else 0)"
    "by0 \<longrightarrow> bypassed st"
    using inv by (simp_all add: addsInv_def)
  ultimately have 3: "(\<Sum>(n, pc) \<leftarrow> ?ths. if triggered pc then 1 else 0 :: int) = (if bypassed st' \<and> \<not> by0 then 1 else 0)"
    using st(3) by (cases "bypassed st"; cases "bypassed st'") simp_all
  have 4: "by0 \<longrightarrow> bypassed st'" using inv st(3) by (auto simp: addsInv_def)
  have 5: "bytesUsed st' \<le> thr \<or> bypassed st' \<or> (\<exists>(n, pc) \<in> set ?ths. pending (bytesUsed st') pc)"
    if a: "\<exists>(n, pc) \<in> set ?ths. added pc"
  proof (cases "pc = PcAdd")
    case True
    then have "pending (bytesUsed st') pc'" using step by (auto simp: pending_def)
    then show ?thesis using bex_list_update [OF i, of "\<lambda>(n, pc). pending (bytesUsed st') pc" "(n, pc')"] by simp
  next
    case False
    then have b: "bytesUsed st' = bytesUsed st" using st(2) by simp
    from a have "\<exists>(n, pc) \<in> set ths. added pc"
      using ad False mem set_update_subset_insert [of ths i "(n, pc')"] by fastforce
    then consider "bytesUsed st \<le> thr" | "bypassed st" | m p where "(m, p) \<in> set ths" "pending (bytesUsed st) p" "\<not> bypassed st" "thr < bytesUsed st"
      using inv unfolding addsInv_def by force
    then show ?thesis
    proof cases
      case 3
      show ?thesis
      proof (cases "(m, p) = ths ! i")
        case True
        with th have p: "p = pc" by simp
        from 3(2,3,4) have "pending (bytesUsed st) pc' \<or> bypassed st'"
          using step unfolding p by (auto simp: pending_def split: if_splits)
        then show ?thesis using b bex_list_update [OF i, of "\<lambda>(n, pc). pending (bytesUsed st') pc" "(n, pc')"] by auto
      next
        case False
        with 3 b show ?thesis
          using bex_list_update [OF i, of "\<lambda>(n, pc). pending (bytesUsed st') pc" "(n, pc')"] by fastforce
      qed
    qed (use b st(3) in auto)
  qed
  show ?thesis using 1 2 3 4 5 ws st(1) by (simp add: addsInv_def)
qed

lemma addsInv_interleaved:
  "addsInv thr now b0 by0 ths st \<Longrightarrow> interleaved thr now sched (ths, st) = (ths', st') \<Longrightarrow>
     addsInv thr now b0 by0 ths' st'"
proof (induction sched arbitrary: ths st)
  case (Cons i sched)
  obtain pc s1 where s: "addStep thr now (fst (ths ! i)) (snd (ths ! i), st) = (pc, s1)" by (metis surj_pair)
  show ?case
  proof (cases "i < length ths")
    case True
    with addsInv_step [OF Cons.prems(1) True, of "fst (ths ! i)" "snd (ths ! i)" pc s1] s
    have "addsInv thr now b0 by0 (ths[i := (fst (ths ! i), pc)]) s1" by simp
    with Cons s True show ?thesis by simp
  next
    case False
    with Cons show ?thesis by simp
  qed
qed simp

lemma interleaved_bytes:
  "interleaved thr now sched (ths, st) = (ths', st') \<Longrightarrow> map fst ths' = map fst ths"
proof (induction sched arbitrary: ths st)
  case (Cons i sched)
  obtain pc s1 where s: "addStep thr now (fst (ths ! i)) (snd (ths ! i), st) = (pc, s1)" by (metis surj_pair)
  have "map fst (ths[i := (fst (ths ! i), pc)]) = map fst ths"
    by (cases "i < length ths") (simp_all add: map_update list_update_same_conv list_update_beyond)
  with Cons s show ?case by (cases "i < length ths") auto
qed simp

text \<open>
  C36: Within a window the concurrent calls of \<^verbatim>\<open>AddBytes\<close> are exact under every interleaving of their
  atomic accesses: when all have returned, the counter has grown by the sum of their bytes, at most
  one of them reports the bypass, and exactly one does if and only if the domain was not yet
  bypassed and now is; it is bypassed whenever the counter is above the threshold.
\<close>

theorem concurrent_adds_exact:
  assumes "windowStart st \<noteq> 0" and "now - windowStart st \<le> 3600"
    and "interleaved threshold now sched (map (\<lambda>n. (n, PcRescue)) ns, st) = (ths, st')"
    and "ns \<noteq> []" and "\<forall>(n, pc) \<in> set ths. \<exists>b. pc = PcRet b"
  shows "bytesUsed st' = bytesUsed st + sum_list ns \<and>
    length (filter (\<lambda>(n, pc). pc = PcRet True) ths) = (if bypassed st' \<and> \<not> bypassed st then 1 else 0) \<and>
    (bypassed st \<or> threshold < bytesUsed st' \<longrightarrow> bypassed st')"
proof -
  have "addsInv threshold now (bytesUsed st) (bypassed st) (map (\<lambda>n. (n, PcRescue)) ns) st"
    using assms(1,2) by (auto simp: addsInv_def added_def triggered_def comp_def)
  from addsInv_interleaved [OF this assms(3)]
  have inv: "addsInv threshold now (bytesUsed st) (bypassed st) ths st'" .
  have ret: "\<And>n pc. (n, pc) \<in> set ths \<Longrightarrow> \<exists>b. pc = PcRet b" using assms(5) by auto
  have fs: "map fst ths = ns" using interleaved_bytes [OF assms(3)] by (simp add: comp_def)
  have "(\<Sum>(n, pc) \<leftarrow> ths. if added pc then n else 0) = sum_list (map fst ths)"
    using ret by (intro arg_cong [where f = sum_list] map_cong) (fastforce simp: added_def)+
  then have 1: "bytesUsed st' = bytesUsed st + sum_list ns" using inv fs by (simp add: addsInv_def)
  have "(\<Sum>(n, pc) \<leftarrow> ths. if triggered pc then 1 else 0 :: int) = (\<Sum>x \<leftarrow> ths. if (case x of (n, pc) \<Rightarrow> pc = PcRet True) then 1 else 0)"
    using ret by (intro arg_cong [where f = sum_list] map_cong) (fastforce simp: triggered_def)+
  then have "int (length (filter (\<lambda>(n, pc). pc = PcRet True) ths)) = (if bypassed st' \<and> \<not> bypassed st then 1 else 0)"
    using inv unfolding addsInv_def length_filter_sum by presburger
  then have 2: "length (filter (\<lambda>(n, pc). pc = PcRet True) ths) = (if bypassed st' \<and> \<not> bypassed st then 1 else 0)"
    by (simp split: if_splits)
  obtain n pc where x: "(n, pc) \<in> set ths" using fs assms(4) by (cases ths) auto
  then have "\<exists>(n, pc) \<in> set ths. added pc" using ret [OF x] by (force simp: added_def)
  moreover have "\<not> (\<exists>(n, pc) \<in> set ths. pending (bytesUsed st') pc)" using ret by (fastforce simp: pending_def)
  ultimately have "bypassed st \<or> threshold < bytesUsed st' \<longrightarrow> bypassed st'"
    using inv unfolding addsInv_def by force
  with 1 2 show ?thesis by simp
qed

theorem concurrent_adds_exact_witness:
  defines "st \<equiv> freshDomain\<lparr>windowStart := 5, bytesUsed := 90\<rparr>"
  shows "bytesUsed (snd (interleaved 100 9 ([0, 1, 1, 0] @ replicate 7 1 @ replicate 7 0) ([(6, PcRescue), (7, PcRescue)], st))) = 103"
proof -
  let ?sched = "[0, 1, 1, 0, 1, 1, 1, 1, 1, 1, 1, 0, 0, 0, 0, 0, 0, 0]"
  have run: "interleaved 100 9 ?sched (map (\<lambda>n. (n, PcRescue)) [6, 7], st) =
      ([(6, PcRet True), (7, PcRet False)], st\<lparr>bytesUsed := 103, seenAt := 9, bypassed := True, bypassedAt := 9\<rparr>)"
    by (simp add: st_def freshDomain_def)
  have sc: "[0, 1, 1, 0] @ replicate 7 1 @ replicate 7 0 = ?sched" by (simp add: numeral_eq_Suc)
  show ?thesis
    using concurrent_adds_exact [OF _ _ run] run unfolding sc by (simp add: st_def freshDomain_def)
qed

text \<open>
  Across the end of a window they are not: while the winner of the reset is between its exchange
  of the window start and its exchange of the counter, another call adds to the old total and can
  send the domain out of the tunnel although hardly any bytes came in the new window, and its bytes
  are wiped by the reset, although the comment in the code says that none are lost.  One after the
  other the same two calls count both and trigger nothing.
\<close>

theorem window_reset_races:
  assumes "windowStart st \<noteq> 0" and "now \<noteq> 0" and "now - windowStart st > 3600" and "\<not> bypassed st"
    and "bytesUsed st \<le> threshold" and "threshold < bytesUsed st + n1" and "0 < n0" and "0 < n1" and "n0 + n1 \<le> threshold"
  shows "(\<exists>sched b0 st'. interleaved threshold now sched ([(n0, PcRescue), (n1, PcRescue)], st) =
        ([(n0, PcRet b0), (n1, PcRet True)], st') \<and> bypassed st' \<and> windowStart st' = now \<and> bytesUsed st' = n0) \<and>
    (let (b0, st1) = addStepAtomic threshold now n0 st; (b1, st2) = addStepAtomic threshold now n1 st1
     in \<not> b0 \<and> \<not> b1 \<and> \<not> bypassed st2 \<and> bytesUsed st2 = n0 + n1)"
proof (intro conjI)
  have r: "interleaved threshold now ([0, 0, 0, 0, 1, 1, 1, 1, 1, 1, 1, 1, 0, 0, 0, 0]) ([(n0, PcRescue), (n1, PcRescue)], st) =
      ([(n0, PcRet False), (n1, PcRet True)], st\<lparr>markedForDeletion := False, windowStart := now, bytesUsed := n0,
         seenAt := now, bypassed := True, bypassedAt := now\<rparr>)"
    using assms by simp
  show "\<exists>sched b0 st'. interleaved threshold now sched ([(n0, PcRescue), (n1, PcRescue)], st) =
        ([(n0, PcRet b0), (n1, PcRet True)], st') \<and> bypassed st' \<and> windowStart st' = now \<and> bytesUsed st' = n0"
    by (intro exI conjI, rule r) simp_all
  show "let (b0, st1) = addStepAtomic threshold now n0 st; (b1, st2) = addStepAtomic threshold now n1 st1
     in \<not> b0 \<and> \<not> b1 \<and> \<not> bypassed st2 \<and> bytesUsed st2 = n0 + n1"
    using assms by (simp add: addStepAtomic_def Let_def)
qed

theorem window_reset_races_witness:
  defines "st \<equiv> freshDomain\<lparr>windowStart := 1, bytesUsed := 100\<rparr>"
  shows "\<exists>sched b0 st'. interleaved 100 5000 sched ([(1, PcRescue), (1, PcRescue)], st) =
        ([(1, PcRet b0), (1, PcRet True)], st') \<and> bypassed st' \<and> windowStart st' = 5000 \<and> bytesUsed st' = 1"
  using window_reset_races [of st 5000 100 1 1] by (simp add: st_def freshDomain_def)

text \<open>
  The bypass itself can be lost: between the flag and the time of the bypass a reader sees an old
  time, takes the cooldown for over and clears the flag and the counter, and the call that set it
  still reports the bypass.
\<close>

lemma bypass_lost_before_time_is_set:
  assumes "bypassed st" and "bypassedAt st = 0" and "now > 86400"
  shows "bypassStep now st = (False, st\<lparr>bypassed := False, directFailures := 0, bytesUsed := 0, windowStart := 0\<rparr>) \<and>
    fst (addStep threshold now n (PcBypassedAt, snd (bypassStep now st))) = PcRet True"
  using assms by (simp add: bypassStep_def)

end
