(* ===== verification/LeakCheck.thy ===== *)
theory LeakCheck
  imports Go_Net TunnelState
begin

text \<open>
  The leak checks (\<^verbatim>\<open>internal/leakcheck\<close>) and the STUN header parser (\<^verbatim>\<open>internal/stun\<close>): a Binding
  Request per server, the address in the answer compared with the relay's, the cache of the relay's
  address and the scheduler's callbacks.  The random identifiers, the answers of the servers, of the
  DoH resolver and the clock are arguments.
\<close>

section \<open>STUN headers (\<^verbatim>\<open>parser.go\<close>, \<^verbatim>\<open>stun.go\<close>)\<close>

definition HeaderSize :: nat where "HeaderSize = 20"
definition MagicCookie :: u32 where "MagicCookie = 0x2112A442"
definition TypeBindingRequest :: u16 where "TypeBindingRequest = 1"

record stunHeader =
  shType :: u16
  shLength :: u16
  shCookie :: u32
  shTransactionID :: bytes

datatype stunError = StunTooShort | StunFirstBits | StunCookie

definition IsSTUN :: "bytes \<Rightarrow> bool" where
  "IsSTUN packet =
     (if length packet < HeaderSize then False
      else if packet ! 0 AND 0xC0 \<noteq> 0 then False
      else get32 packet 4 = MagicCookie)"

definition IsBindingRequest :: "bytes \<Rightarrow> bool" where
  "IsBindingRequest packet = (if length packet < 2 then False else get16 packet 0 = TypeBindingRequest)"

definition IsTURN :: "bytes \<Rightarrow> bool" where
  "IsTURN packet =
     (if \<not> IsSTUN packet then False else get16 packet 0 \<in> {0x0003, 0x0008, 0x0009, 0x0016, 0x0017})"

definition ParseHeader :: "bytes \<Rightarrow> stunError + stunHeader" where
  "ParseHeader packet =
     (if length packet < HeaderSize then Inl StunTooShort
      else if packet ! 0 AND 0xC0 \<noteq> 0 then Inl StunFirstBits
      else if get32 packet 4 \<noteq> MagicCookie then Inl StunCookie
      else Inr \<lparr>shType = get16 packet 0, shLength = get16 packet 2, shCookie = get32 packet 4,
                shTransactionID = bslice packet 8 20\<rparr>)"

definition BuildBindingRequest :: "bytes \<Rightarrow> bytes" where
  \<comment> \<open>the argument is the random transaction ID\<close>
  "BuildBindingRequest rnd =
     copy_at (put32 (put16 (put16 (replicate 20 0) 0 0x0001) 2 0) 4 MagicCookie) 8 20 rnd"

section \<open>XOR-MAPPED-ADDRESS (\<^verbatim>\<open>xor_mapped.go\<close>)\<close>

datatype leakError =
    RespTooShort | AttrNotFound | AttrTooShort | AttrIPv4Short | AttrIPv6Short | AttrFamily
  | NetError | TxnMismatch | ResolveRelayIP | EmptyExpectedIP | AllUnreachable

definition cookieBytes :: bytes where
  "cookieBytes = [byte_at MagicCookie 24, byte_at MagicCookie 16, byte_at MagicCookie 8, byte_at MagicCookie 0]"

definition decodeXORMappedAddress :: "bytes \<Rightarrow> bytes \<Rightarrow> leakError + bytes" where
  "decodeXORMappedAddress data transactionID =
     (if length data < 4 then Inl AttrTooShort
      else if data ! 1 = 0x01 then
        (if length data < 8 then Inl AttrIPv4Short
         else Inr (map (\<lambda>i. (data ! (4 + i)) XOR (cookieBytes ! i)) [0..<4]))
      else if data ! 1 = 0x02 then
        (if length data < 20 then Inl AttrIPv6Short
         else Inr (map (\<lambda>i. (data ! (4 + i)) XOR ((cookieBytes @ transactionID) ! i)) [0..<16]))
      else Inl AttrFamily)"

definition padLen :: "nat \<Rightarrow> nat" where
  "padLen n = (if n mod 4 \<noteq> 0 then 4 - n mod 4 else 0)"

function walkAttrs :: "bytes \<Rightarrow> bytes \<Rightarrow> nat \<Rightarrow> nat \<Rightarrow> leakError + bytes" where
  "walkAttrs response txn offset stop =
     (if \<not> offset + 4 \<le> stop then Inl AttrNotFound
      else
        let aType = get16 response offset; aLen = unat (get16 response (offset + 2)); off = offset + 4 in
        if off + aLen > stop then Inl AttrNotFound
        else if aType = 0x0020 then decodeXORMappedAddress (bslice response off (off + aLen)) txn
        else walkAttrs response txn (off + aLen + padLen aLen) stop)"
  by pat_completeness auto
termination by (relation "measure (\<lambda>(r, t, off, e). e - off)") auto

declare walkAttrs.simps [simp del]

definition ParseXORMappedAddress :: "bytes \<Rightarrow> leakError + bytes" where
  "ParseXORMappedAddress response =
     (if length response < HeaderSize then Inl RespTooShort
      else
        let attrLen = unat (get16 response 2);
            attrLen = (if length response < HeaderSize + attrLen then length response - HeaderSize else attrLen)
        in walkAttrs response (bslice response 8 20) HeaderSize (HeaderSize + attrLen))"

section \<open>The check (\<^verbatim>\<open>webrtc.go\<close>)\<close>

definition defaultSTUNServers :: "string list" where
  "defaultSTUNServers =
     [''stun.l.google.com:19302'', ''stun1.l.google.com:19302'', ''stun.cloudflare.com:3478'',
      ''stun.mullvad.net:3478'', ''stun.sipgate.net:3478'']"

record leakResult =
  lkServer :: string
  lkIP :: bytes
  lkLeaked :: bool
  lkError :: "leakError option"

datatype leakStatus = LeakOK | LeakDetected
datatype leakReason = TUNDown | StunIPDiffers

record leakReport =
  lpStatus :: leakStatus
  lpSTUNIP :: string
  lpExpectedIP :: string
  lpReason :: "leakReason option"
  lpResults :: "leakResult list"

type_synonym probe = "string \<times> bytes \<times> bytes option"
  \<comment> \<open>a server, the random bytes of the request and the datagram read, \<open>None\<close> for a network error\<close>

definition CheckSTUNLeak :: "probe \<Rightarrow> leakError + leakResult" where
  "CheckSTUNLeak pr =
     (case pr of (server, rnd, answer) \<Rightarrow>
        let txnID = bslice (BuildBindingRequest rnd) 8 20 in
        case answer of
          None \<Rightarrow> Inl NetError
        | Some resp \<Rightarrow>
            if length resp < 20 then Inl RespTooShort
            else if bslice resp 8 20 \<noteq> txnID then Inl TxnMismatch
            else case ParseXORMappedAddress resp of
              Inl e \<Rightarrow> Inl e
            | Inr ip \<Rightarrow> Inr \<lparr>lkServer = server, lkIP = ip, lkLeaked = False, lkError = None\<rparr>)"

definition ClassifyLeak :: "bytes \<Rightarrow> leakReason" where
  "ClassifyLeak ip =
     (if ip = [] then StunIPDiffers
      else if IsLoopback ip \<or> IsPrivate ip \<or> IsLinkLocalUnicast ip \<or> IsUnspecified ip then TUNDown
      else StunIPDiffers)"

definition checkServer :: "bytes option \<Rightarrow> probe \<Rightarrow> leakReport \<Rightarrow> leakReport" where
  \<comment> \<open>the body of the loop over the servers\<close>
  "checkServer expectedIP pr rep =
     (case CheckSTUNLeak pr of
        Inl e \<Rightarrow>
          rep\<lparr>lpResults := lpResults rep @ [\<lparr>lkServer = fst pr, lkIP = [], lkLeaked = False, lkError = Some e\<rparr>]\<rparr>
      | Inr res \<Rightarrow>
          let leaked = (case expectedIP of None \<Rightarrow> False | Some e \<Rightarrow> \<not> ipEqual (lkIP res) e);
              rep1 = (if leaked
                      then rep\<lparr>lpStatus := LeakDetected,
                               lpReason := (case lpReason rep of None \<Rightarrow> Some (ClassifyLeak (lkIP res)) | Some r \<Rightarrow> Some r)\<rparr>
                      else rep);
              rep2 = (if lpSTUNIP rep1 = [] then rep1\<lparr>lpSTUNIP := ipString (lkIP res)\<rparr> else rep1)
          in rep2\<lparr>lpResults := lpResults rep2 @ [res\<lparr>lkLeaked := leaked\<rparr>]\<rparr>)"

definition RunFullCheck :: "(leakError + bytes) option \<Rightarrow> probe list \<Rightarrow> leakError + leakReport" where
  \<comment> \<open>what \<^verbatim>\<open>getExpectedIP\<close> gives, \<open>None\<close> if there is no such function; an empty address is \<^verbatim>\<open>nil\<close>\<close>
  "RunFullCheck expected probes =
     (let run = (\<lambda>expectedIP.
           let rep = fold (checkServer expectedIP) probes
                 \<lparr>lpStatus = LeakOK, lpSTUNIP = [],
                  lpExpectedIP = (case expectedIP of None \<Rightarrow> [] | Some ip \<Rightarrow> ipString ip), lpReason = None,
                  lpResults = []\<rparr>
           in if \<not> list_ex (\<lambda>r. lkError r = None) (lpResults rep) then Inl AllUnreachable else Inr rep)
      in case expected of
           None \<Rightarrow> run None
         | Some (Inl e) \<Rightarrow> Inl ResolveRelayIP
         | Some (Inr ip) \<Rightarrow> if ip = [] then Inl EmptyExpectedIP else run (Some ip))"

section \<open>The address of the relay (\<^verbatim>\<open>relay_ip.go\<close>)\<close>

record relayIPResolver =
  riHasResolver :: bool
  riTTL :: int
  riCachedIP :: "bytes option"
  riCachedDomain :: string
  riExpiresAt :: int

definition defaultRelayIPCacheTTL :: int where "defaultRelayIPCacheTTL = 300"

definition NewRelayIPResolver :: "bool \<Rightarrow> relayIPResolver" where
  "NewRelayIPResolver hasResolver =
     \<lparr>riHasResolver = hasResolver, riTTL = defaultRelayIPCacheTTL, riCachedIP = None, riCachedDomain = [], riExpiresAt = 0\<rparr>"

datatype resolveError = RelayDomainEmpty | NoResolver | ResolverFailed | NoRelayIP

definition ExpectedIP ::
  "string \<Rightarrow> int \<Rightarrow> bytes option \<Rightarrow> int \<Rightarrow> relayIPResolver \<Rightarrow> (resolveError + bytes) \<times> relayIPResolver" where
  \<comment> \<open>the active domain, the time of the lookup in the cache, the answer of the resolver (an invalid
     address is empty) and the time when it arrives\<close>
  "ExpectedIP domain now answer later r =
     (if domain = [] then (Inl RelayDomainEmpty, r)
      else case (if riCachedIP r \<noteq> None \<and> riCachedDomain r = domain \<and> now < riExpiresAt r then riCachedIP r else None) of
        Some ip \<Rightarrow> (Inr ip, r)
      | None \<Rightarrow>
          if \<not> riHasResolver r then (Inl NoResolver, r)
          else case answer of
            None \<Rightarrow> (Inl ResolverFailed, r)
          | Some ip \<Rightarrow>
              if ip = [] then (Inl NoRelayIP, r)
              else (Inr ip, r\<lparr>riCachedIP := Some ip, riCachedDomain := domain, riExpiresAt := later + riTTL r\<rparr>))"

definition Invalidate :: "relayIPResolver \<Rightarrow> relayIPResolver" where
  "Invalidate r = r\<lparr>riCachedIP := None, riCachedDomain := [], riExpiresAt := 0\<rparr>"

section \<open>The scheduler (\<^verbatim>\<open>scheduler.go\<close>)\<close>

record leakScheduler =
  lsRunning :: bool
  lsLastResult :: "leakReport option"
  lsLastCheckAt :: int
  lsLastWasLeak :: bool
  lsConsecutiveSkips :: nat

definition newLeakScheduler :: leakScheduler where
  "newLeakScheduler =
     \<lparr>lsRunning = False, lsLastResult = None, lsLastCheckAt = 0, lsLastWasLeak = False, lsConsecutiveSkips = 0\<rparr>"

datatype leakEvent = OnLeak leakReport | OnRecovery

definition leakStart :: "leakScheduler \<Rightarrow> bool \<times> leakScheduler" where
  \<comment> \<open>\<open>False\<close> is \<^verbatim>\<open>ErrSchedulerAlreadyRunning\<close>\<close>
  "leakStart s = (if lsRunning s then (False, s) else (True, s\<lparr>lsRunning := True\<rparr>))"

definition leakStop :: "leakScheduler \<Rightarrow> leakScheduler" where
  "leakStop s = s\<lparr>lsRunning := False\<rparr>"

definition runCheck ::
  "bool \<Rightarrow> connState \<Rightarrow> leakError + leakReport \<Rightarrow> int \<Rightarrow> leakScheduler \<Rightarrow> leakEvent list \<times> leakScheduler" where
  \<comment> \<open>whether another check is running, the state of the tunnel, the report, the time\<close>
  "runCheck busy ts outcome now s =
     (if busy then ([], s)
      else if ts \<noteq> StateConnected then ([], s\<lparr>lsConsecutiveSkips := lsConsecutiveSkips s + 1\<rparr>)
      else case outcome of
        Inl e \<Rightarrow> ([], s\<lparr>lsConsecutiveSkips := lsConsecutiveSkips s + 1\<rparr>)
      | Inr report \<Rightarrow>
          (if lpStatus report = LeakDetected then [OnLeak report]
           else if lsLastWasLeak s then [OnRecovery] else [],
           s\<lparr>lsLastResult := Some report, lsLastCheckAt := now, lsConsecutiveSkips := 0,
             lsLastWasLeak := (lpStatus report = LeakDetected)\<rparr>))"

record leakTick =
  tkBusy :: bool
  tkState :: connState
  tkDomain :: string
  tkNow :: int
  tkAnswer :: "bytes option"
  tkLater :: int
  tkProbes :: "probe list"

definition runTick ::
  "leakTick \<Rightarrow> relayIPResolver \<times> leakScheduler \<Rightarrow> leakEvent list \<times> relayIPResolver \<times> leakScheduler" where
  \<comment> \<open>\<^verbatim>\<open>runCheck\<close> with the checker whose expected address comes from the resolver; a tick that is skipped
     does not reach them\<close>
  "runTick t st =
     (case st of (r, s) \<Rightarrow>
        if tkBusy t \<or> tkState t \<noteq> StateConnected
        then (case runCheck (tkBusy t) (tkState t) (Inl ResolveRelayIP) (tkLater t) s of (evs, s') \<Rightarrow> (evs, r, s'))
        else (case ExpectedIP (tkDomain t) (tkNow t) (tkAnswer t) (tkLater t) r of
          (e, r') \<Rightarrow>
            (case runCheck False (tkState t)
                    (RunFullCheck (Some (case e of Inl _ \<Rightarrow> Inl ResolveRelayIP | Inr ip \<Rightarrow> Inr ip)) (tkProbes t)) (tkLater t) s of
               (evs, s') \<Rightarrow> (evs, r', s'))))"

end
