(* ===== verification/LeakCheck_Props.thy ===== *)
theory LeakCheck_Props
  imports LeakCheck
begin

text \<open>
  What the leak checks promise: the request and the answer of a STUN exchange are read back as they
  were written, the report says exactly what the servers saw, and every alarm of the scheduler rests on
  an address of the active relay that is at most five minutes old.
\<close>

section \<open>Reading a STUN message\<close>

lemma get16_after: "length xs \<le> i \<Longrightarrow> get16 (xs @ ys) i = get16 ys (i - length xs)"
  by (simp add: get16_def nth_append Suc_diff_le)

lemma bslice_append: "length xs \<le> i \<Longrightarrow> bslice (xs @ ys) i j = bslice ys (i - length xs) (j - length xs)"
  by (simp add: bslice_def)

definition encAttr :: "u16 \<times> bytes \<Rightarrow> bytes" where
  "encAttr a = (case a of (t, v) \<Rightarrow>
     [hi8 t, lo8 t, hi8 (of_nat (length v)), lo8 (of_nat (length v))] @ v @ replicate (padLen (length v)) 0)"

definition stunResponse :: "bytes \<Rightarrow> (u16 \<times> bytes) list \<Rightarrow> bytes" where
  \<comment> \<open>a Binding Success Response\<close>
  "stunResponse txn attrs =
     (let body = concat (map encAttr attrs) in
      [1, 1, hi8 (of_nat (length body)), lo8 (of_nat (length body))] @ cookieBytes @ txn @ body)"

definition xorMapped :: "bytes \<Rightarrow> bytes \<Rightarrow> bytes" where
  \<comment> \<open>the value of XOR-MAPPED-ADDRESS for an address, port bytes 0\<close>
  "xorMapped txn ip =
     [0, if length ip = 4 then 1 else 2, 0, 0] @ map (\<lambda>i. (ip ! i) XOR ((cookieBytes @ txn) ! i)) [0..<length ip]"

lemma length_cookieBytes [simp]: "length cookieBytes = 4"
  by (simp add: cookieBytes_def)

lemma length_encAttr [simp]: "length (encAttr (t, v)) = 4 + length v + padLen (length v)"
  by (simp add: encAttr_def)

lemma encAttr_head:
  "get16 (encAttr (t, v) @ r) 0 = t" "get16 (encAttr (t, v) @ r) 2 = of_nat (length v)"
  by (simp_all add: encAttr_def get16_def)

lemma encAttr_value: "bslice (encAttr (t, v) @ r) 4 (4 + length v) = v"
  by (simp add: encAttr_def bslice_def)

lemma decode_xorMapped:
  assumes "length txn = 12" and "length ip = 4 \<or> length ip = 16"
  shows "decodeXORMappedAddress (xorMapped txn ip) txn = Inr ip"
proof -
  have x: "(a XOR b) XOR b = a" for a b :: byte by (metis xor.assoc xor_self_eq xor.right_neutral)
  show ?thesis
  proof (cases "length ip = 4")
    case True
    have "map (\<lambda>i. xorMapped txn ip ! (4 + i) XOR cookieBytes ! i) [0..<4] = map (\<lambda>i. ip ! i) [0..<4]"
      using True by (intro map_cong) (auto simp: xorMapped_def x nth_append)
    also have "\<dots> = ip" using True map_nth [of ip] by simp
    finally show ?thesis using True by (simp add: decodeXORMappedAddress_def xorMapped_def)
  next
    case False
    with assms have l: "length ip = 16" by simp
    have "map (\<lambda>i. xorMapped txn ip ! (4 + i) XOR (cookieBytes @ txn) ! i) [0..<16] = map (\<lambda>i. ip ! i) [0..<16]"
      using l by (intro map_cong) (auto simp: xorMapped_def x)
    also have "\<dots> = ip" using l map_nth [of ip] by simp
    finally show ?thesis using l by (simp add: decodeXORMappedAddress_def xorMapped_def)
  qed
qed

lemma walkAttrs_finds:
  assumes "\<forall>a \<in> set attrs. fst a \<noteq> 0x0020 \<and> length (snd a) < 65536" and "length v < 65536"
    and "stop = length hdr + length (concat (map encAttr (attrs @ [(0x0020, v)] @ rest)))"
  shows "walkAttrs (hdr @ concat (map encAttr (attrs @ [(0x0020, v)] @ rest)) @ after) txn (length hdr) stop =
    decodeXORMappedAddress v txn"
  using assms
proof (induction attrs arbitrary: hdr)
  case Nil
  let ?r = "hdr @ encAttr (0x0020, v) @ concat (map encAttr rest) @ after"
  have "get16 ?r (length hdr) = 0x0020" by (simp add: get16_after encAttr_head)
  moreover have "unat (get16 ?r (length hdr + 2)) = length v"
    using Nil.prems(2) by (simp add: get16_after encAttr_head unat_of_nat)
  moreover have "bslice ?r (length hdr + 4) (length hdr + 4 + length v) = v"
    by (simp add: bslice_append) (simp add: encAttr_value)
  ultimately show ?case using Nil.prems(3) by (subst walkAttrs.simps) (simp add: Let_def)
next
  case (Cons a attrs)
  obtain t w where a: "a = (t, w)" by (cases a)
  let ?rest = "concat (map encAttr (attrs @ [(0x0020, v)] @ rest))"
  let ?r = "hdr @ encAttr (t, w) @ ?rest @ after"
  have h: "get16 ?r (length hdr) = t" by (simp add: get16_after encAttr_head)
  have l: "unat (get16 ?r (length hdr + 2)) = length w"
    using Cons.prems(1) by (simp add: get16_after encAttr_head unat_of_nat a)
  have ih: "walkAttrs ((hdr @ encAttr (t, w)) @ ?rest @ after) txn (length (hdr @ encAttr (t, w))) stop =
      decodeXORMappedAddress v txn"
    using Cons.prems by (intro Cons.IH) (auto simp: a)
  have "walkAttrs ?r txn (length hdr) stop = walkAttrs ?r txn (length hdr + 4 + length w + padLen (length w)) stop"
    using Cons.prems h l by (subst walkAttrs.simps) (simp add: Let_def a)
  with ih show ?case by (simp add: a add.assoc)
qed

lemma Parse_response:
  assumes "length txn = 12" and "length ip = 4 \<or> length ip = 16"
    and "\<forall>a \<in> set attrs. fst a \<noteq> 0x0020 \<and> length (snd a) < 65536"
    and "length (concat (map encAttr (attrs @ [(0x0020, xorMapped txn ip)] @ rest))) < 65536"
  shows "ParseXORMappedAddress (stunResponse txn (attrs @ [(0x0020, xorMapped txn ip)] @ rest) @ trailer) = Inr ip"
proof -
  define body where "body = concat (map encAttr (attrs @ [(0x0020, xorMapped txn ip)] @ rest))"
  define hdr where "hdr = [1, 1, hi8 (of_nat (length body)), lo8 (of_nat (length body))] @ cookieBytes @ txn"
  define resp where "resp = stunResponse txn (attrs @ [(0x0020, xorMapped txn ip)] @ rest) @ trailer"
  have r: "resp = hdr @ body @ trailer"
    by (simp add: resp_def stunResponse_def hdr_def body_def Let_def)
  have lh: "length hdr = 20" using assms(1) by (simp add: hdr_def)
  have bl: "length body < 65536" using assms(4) by (simp only: body_def)
  have "get16 resp 2 = of_nat (length body)" by (simp add: r hdr_def get16_def)
  then have al: "unat (get16 resp 2) = length body"
    using bl by (simp add: unat_of_nat)
  have tx: "bslice resp 8 20 = txn" using assms(1) by (simp add: r hdr_def bslice_def)
  have lv: "length (xorMapped txn ip) < 65536" using assms(2) by (auto simp: xorMapped_def)
  have "walkAttrs resp txn (length hdr) (20 + length body) = Inr ip"
    unfolding r body_def
    using walkAttrs_finds [OF assms(3) lv refl, of hdr rest trailer txn] lh decode_xorMapped [OF assms(1,2)] by simp
  moreover have "\<not> length resp < 20" "\<not> length resp < 20 + length body" using lh by (simp_all add: r)
  ultimately have "ParseXORMappedAddress resp = Inr ip"
    using lh by (simp add: ParseXORMappedAddress_def HeaderSize_def Let_def al tx)
  then show ?thesis by (simp only: resp_def)
qed

lemma Build_bytes:
  assumes "length rnd = 12"
  shows "BuildBindingRequest rnd = [0, 1, 0, 0] @ cookieBytes @ rnd"
proof -
  have "take 8 (put32 (put16 (put16 (replicate 20 0) 0 1) 2 0) 4 MagicCookie) = [0, 1, 0, 0] @ cookieBytes"
    by (simp add: numeral_eq_Suc put32_def put16_def cookieBytes_def hi8_def lo8_def)
  then show ?thesis using assms by (simp add: BuildBindingRequest_def copy_at_def)
qed

lemma cookie_get32: "get32 (a # b # c # d # cookieBytes @ r) 4 = MagicCookie"
  by (simp add: get32_def cookieBytes_def nth_append)

lemma parse_request:
  assumes "length rnd = 12"
  shows "ParseHeader (BuildBindingRequest rnd) =
    Inr \<lparr>shType = TypeBindingRequest, shLength = 0, shCookie = MagicCookie, shTransactionID = rnd\<rparr>"
  using assms by (simp add: Build_bytes ParseHeader_def HeaderSize_def cookie_get32 get16_def bslice_def be16_def
      TypeBindingRequest_def)

lemma IsSTUN_ParseHeader: "IsSTUN p \<longleftrightarrow> (\<exists>h. ParseHeader p = Inr h)"
  by (simp add: IsSTUN_def ParseHeader_def)

text \<open>
  A STUN exchange is read back as it was written.  A Binding Request is recognised as STUN and as a
  Binding Request, not as TURN, and its header holds the transaction ID; an answer with that ID
  whose attributes, of any types and lengths and with the padding of the protocol, contain
  XOR-MAPPED-ADDRESS gives exactly the mapped IPv4 or IPv6 address, and any other transaction ID is
  refused.
\<close>

theorem stun_exchange_roundtrip:
  assumes "length txn = 12" and "length ip = 4 \<or> length ip = 16"
    and "\<forall>a \<in> set attrs. fst a \<noteq> 0x0020 \<and> length (snd a) < 65536"
    and "length (concat (map encAttr (attrs @ [(0x0020, xorMapped txn ip)] @ rest))) < 65536"
    and "length rnd = 12"
  shows "ParseHeader (BuildBindingRequest rnd) =
      Inr \<lparr>shType = TypeBindingRequest, shLength = 0, shCookie = MagicCookie, shTransactionID = rnd\<rparr> \<and>
    IsSTUN (BuildBindingRequest rnd) \<and> IsBindingRequest (BuildBindingRequest rnd) \<and> \<not> IsTURN (BuildBindingRequest rnd) \<and>
    CheckSTUNLeak (server, rnd,
        Some (stunResponse txn (attrs @ [(0x0020, xorMapped txn ip)] @ rest) @ trailer)) =
      (if txn = rnd then Inr \<lparr>lkServer = server, lkIP = ip, lkLeaked = False, lkError = None\<rparr> else Inl TxnMismatch)"
proof -
  let ?body = "concat (map encAttr (attrs @ [(0x0020, xorMapped txn ip)] @ rest))"
  let ?resp = "stunResponse txn (attrs @ [(0x0020, xorMapped txn ip)] @ rest) @ trailer"
  have l: "\<not> length ?resp < 20" and t: "bslice ?resp 8 20 = txn"
    using assms(1) by (simp_all add: stunResponse_def Let_def bslice_def)
  have q: "bslice (BuildBindingRequest rnd) 8 20 = rnd"
    using assms(5) by (simp add: Build_bytes bslice_def)
  have c: "CheckSTUNLeak (server, rnd, Some ?resp) =
      (if txn = rnd then Inr \<lparr>lkServer = server, lkIP = ip, lkLeaked = False, lkError = None\<rparr> else Inl TxnMismatch)"
    using l t q Parse_response [OF assms(1-4), of trailer]
    by (simp only: CheckSTUNLeak_def Let_def prod.case option.case if_False sum.case split: if_split) simp
  have p: "ParseHeader (BuildBindingRequest rnd) =
      Inr \<lparr>shType = TypeBindingRequest, shLength = 0, shCookie = MagicCookie, shTransactionID = rnd\<rparr>"
    by (rule parse_request [OF assms(5)])
  have "IsBindingRequest (BuildBindingRequest rnd)" "\<not> IsTURN (BuildBindingRequest rnd)"
    using assms(5) by (simp_all add: IsBindingRequest_def IsTURN_def Build_bytes get16_def be16_def TypeBindingRequest_def)
  with c p show ?thesis by (simp add: IsSTUN_ParseHeader)
qed

theorem stun_exchange_roundtrip_witness:
  "CheckSTUNLeak (''stun.example:3478'', replicate 12 7,
      Some (stunResponse (replicate 12 7) ([(0x8022, [1, 2, 3, 4, 5])] @ [(0x0020, xorMapped (replicate 12 7) [9, 8, 7, 6])] @ []) @ [])) =
    Inr \<lparr>lkServer = ''stun.example:3478'', lkIP = [9, 8, 7, 6], lkLeaked = False, lkError = None\<rparr>"
proof -
  have "length (concat (map encAttr ([(0x8022, [1, 2, 3, 4, 5])] @ [(0x0020, xorMapped (replicate 12 7) [9, 8, 7, 6])] @ []))) < 65536"
    by (simp add: xorMapped_def padLen_def)
  then show ?thesis
    using stun_exchange_roundtrip [of "replicate 12 7" "[9, 8, 7, 6]" "[(0x8022, [1, 2, 3, 4, 5])]" "[]" "replicate 12 7"
        "''stun.example:3478''" "[]"] by simp
qed

section \<open>The report\<close>

definition seen :: "probe \<Rightarrow> bytes option" where
  \<comment> \<open>the address a server reported\<close>
  "seen pr = (case CheckSTUNLeak pr of Inl _ \<Rightarrow> None | Inr r \<Rightarrow> Some (lkIP r))"

lemma joinWith_two: "joinWith sep (a # b # ws) = [] \<longleftrightarrow> a = [] \<and> sep = [] \<and> joinWith sep (b # ws) = []"
  by simp

lemma ipString_ne: "length ip = 4 \<or> length ip = 16 \<Longrightarrow> ipString ip \<noteq> []"
proof -
  assume l: "length ip = 4 \<or> length ip = 16"
  have d: "dotted v \<noteq> []" if "length v = 4" for v
    by (rule length_4E [OF that]) (simp add: dotted_def)
  have c: "colonHex v \<noteq> []" if "length v = 16" for v
  proof -
    have "length (take 4 v) = 4" using that by simp
    then obtain a b c d where "take 4 v = [a, b, c, d]" by (rule length_4E)
    then have "v = a # b # c # d # drop 4 v" using append_take_drop_id [of 4 v] by simp
    then obtain r where "v = a # b # c # d # r" ..
    then show ?thesis by (auto simp: colonHex_def Let_def split: prod.splits)
  qed
  show ?thesis using l d [OF To4_length [of ip]] c [of ip] by (auto simp: ipString_def)
qed

lemma decode_length: "decodeXORMappedAddress d txn = Inr ip \<Longrightarrow> length ip = 4 \<or> length ip = 16"
  by (auto simp: decodeXORMappedAddress_def split: if_splits)

lemma walkAttrs_length: "walkAttrs r txn off stop = Inr ip \<Longrightarrow> length ip = 4 \<or> length ip = 16"
proof (induction r txn off stop rule: walkAttrs.induct)
  case (1 r txn off stop)
  note ih = "1.IH" [OF _ refl refl refl, simplified]
  from "1.prems" show ?case
    by (subst (asm) walkAttrs.simps) (auto simp: Let_def dest: decode_length ih split: if_splits)
qed

lemma seen_length: "seen pr = Some ip \<Longrightarrow> length ip = 4 \<or> length ip = 16"
  by (auto simp: seen_def CheckSTUNLeak_def ParseXORMappedAddress_def Let_def dest: walkAttrs_length
      split: prod.splits option.splits if_splits sum.splits)

lemma checkServer_None: "seen pr = None \<Longrightarrow> \<exists>e. checkServer x pr rep =
    rep\<lparr>lpResults := lpResults rep @ [\<lparr>lkServer = fst pr, lkIP = [], lkLeaked = False, lkError = Some e\<rparr>]\<rparr>"
  by (auto simp: checkServer_def seen_def split: sum.splits)

lemma CheckSTUNLeak_Inr: "CheckSTUNLeak pr = Inr r \<Longrightarrow> lkServer r = fst pr \<and> lkError r = None"
  by (auto simp: CheckSTUNLeak_def Let_def split: prod.splits option.splits if_splits sum.splits)

definition foldReport :: "bytes \<Rightarrow> bytes list \<Rightarrow> leakReport \<Rightarrow> leakReport \<Rightarrow> bool" where
  \<comment> \<open>what the loop does to a report when the servers saw these addresses\<close>
  "foldReport e ips rep rep' \<longleftrightarrow>
     (let bad = filter (\<lambda>ip. \<not> ipEqual ip e) ips in
      lpStatus rep' = (if bad = [] then lpStatus rep else LeakDetected) \<and>
      lpReason rep' = (case lpReason rep of Some r \<Rightarrow> Some r
                       | None \<Rightarrow> (case bad of [] \<Rightarrow> None | ip # _ \<Rightarrow> Some (ClassifyLeak ip))) \<and>
      lpSTUNIP rep' = (if lpSTUNIP rep = [] then (case ips of [] \<Rightarrow> [] | ip # _ \<Rightarrow> ipString ip) else lpSTUNIP rep) \<and>
      lpExpectedIP rep' = lpExpectedIP rep)"

lemma checkServer_Some:
  assumes "seen pr = Some ip"
  shows "foldReport e [ip] rep (checkServer (Some e) pr rep) \<and>
    (\<exists>r. lpResults (checkServer (Some e) pr rep) = lpResults rep @ [r] \<and> lkServer r = fst pr \<and> lkError r = None)"
  using assms CheckSTUNLeak_Inr [of pr] ipString_ne [OF seen_length [OF assms]]
  by (auto simp: seen_def checkServer_def foldReport_def Let_def split: sum.splits option.splits)

lemma foldReport_trans:
  assumes "foldReport e [ip] rep rep1" and "foldReport e ips rep1 rep2" and "ipString ip \<noteq> []"
  shows "foldReport e (ip # ips) rep rep2"
  using assms by (cases "lpReason rep") (auto simp: foldReport_def Let_def split: list.splits if_splits)

lemma fold_checkServer:
  "foldReport e (List.map_filter seen probes) rep (fold (checkServer (Some e)) probes rep) \<and>
   (\<exists>rs. lpResults (fold (checkServer (Some e)) probes rep) = lpResults rep @ rs \<and> map lkServer rs = map fst probes \<and>
      map (\<lambda>r. lkError r = None) rs = map (\<lambda>p. seen p \<noteq> None) probes)"
proof (induction probes arbitrary: rep)
  case Nil
  then show ?case by (auto simp: foldReport_def map_filter_simps split: option.splits)
next
  case (Cons p probes)
  let ?rep = "checkServer (Some e) p rep"
  show ?case
  proof (cases "seen p")
    case None
    from checkServer_None [OF this, of "Some e" rep] obtain err where
      r: "?rep = rep\<lparr>lpResults := lpResults rep @ [\<lparr>lkServer = fst p, lkIP = [], lkLeaked = False, lkError = Some err\<rparr>]\<rparr>" ..
    have "foldReport e ips rep rep'" if "foldReport e ips ?rep rep'" for ips rep'
      using that by (simp add: r foldReport_def Let_def)
    with Cons.IH [of ?rep] None show ?thesis
      by (auto simp: map_filter_simps) (auto simp: r)
  next
    case (Some ip)
    from checkServer_Some [OF this, of e rep] obtain r where
      f: "foldReport e [ip] rep ?rep" and r: "lpResults ?rep = lpResults rep @ [r]" "lkServer r = fst p" "lkError r = None"
      by blast
    from Cons.IH [of ?rep] Some show ?thesis
      using foldReport_trans [OF f _ ipString_ne [OF seen_length [OF Some]]] r
      by (auto simp: map_filter_simps)
  qed
qed

lemma report_facts:
  "case RunFullCheck (Some (Inr (b # bs))) probes of
        Inl e \<Rightarrow> e = AllUnreachable \<and> List.map_filter seen probes = []
      | Inr rep \<Rightarrow>
          List.map_filter seen probes \<noteq> [] \<and>
          lpStatus rep = (if \<exists>ip \<in> set (List.map_filter seen probes). \<not> ipEqual ip (b # bs) then LeakDetected else LeakOK) \<and>
          lpReason rep = (case filter (\<lambda>ip. \<not> ipEqual ip (b # bs)) (List.map_filter seen probes) of
                            [] \<Rightarrow> None | ip # _ \<Rightarrow> Some (ClassifyLeak ip)) \<and>
          lpSTUNIP rep = ipString (hd (List.map_filter seen probes)) \<and>
          lpExpectedIP rep = ipString (b # bs) \<and>
          map lkServer (lpResults rep) = map fst probes"
proof -
  define rep0 where "rep0 = \<lparr>lpStatus = LeakOK, lpSTUNIP = [], lpExpectedIP = ipString (b # bs), lpReason = None,
      lpResults = []\<rparr>"
  define rep where "rep = fold (checkServer (Some (b # bs))) probes rep0"
  from fold_checkServer [of "b # bs" probes rep0] obtain rs where
    f: "foldReport (b # bs) (List.map_filter seen probes) rep0 rep" and
    rs: "lpResults rep = rs" "map lkServer rs = map fst probes" "map (\<lambda>r. lkError r = None) rs = map (\<lambda>p. seen p \<noteq> None) probes"
    by (auto simp: rep_def rep0_def)
  have "list_ex (\<lambda>r. lkError r = None) rs \<longleftrightarrow> True \<in> set (map (\<lambda>r. lkError r = None) rs)"
    by (auto simp: list_ex_iff)
  also have "\<dots> \<longleftrightarrow> List.map_filter seen probes \<noteq> []"
    unfolding rs(3) by (induction probes) (auto simp: map_filter_simps split: option.splits)
  finally have x: "list_ex (\<lambda>r. lkError r = None) (lpResults rep) \<longleftrightarrow> List.map_filter seen probes \<noteq> []" by (simp add: rs)
  have run: "RunFullCheck (Some (Inr (b # bs))) probes =
      (if List.map_filter seen probes = [] then Inl AllUnreachable else Inr rep)"
    using x by (simp add: RunFullCheck_def Let_def rep_def rep0_def)
  show "case RunFullCheck (Some (Inr (b # bs))) probes of
        Inl e \<Rightarrow> e = AllUnreachable \<and> List.map_filter seen probes = []
      | Inr rep \<Rightarrow>
          List.map_filter seen probes \<noteq> [] \<and>
          lpStatus rep = (if \<exists>ip \<in> set (List.map_filter seen probes). \<not> ipEqual ip (b # bs) then LeakDetected else LeakOK) \<and>
          lpReason rep = (case filter (\<lambda>ip. \<not> ipEqual ip (b # bs)) (List.map_filter seen probes) of
                            [] \<Rightarrow> None | ip # _ \<Rightarrow> Some (ClassifyLeak ip)) \<and>
          lpSTUNIP rep = ipString (hd (List.map_filter seen probes)) \<and>
          lpExpectedIP rep = ipString (b # bs) \<and>
          map lkServer (lpResults rep) = map fst probes"
    using f rs unfolding run
    by (auto simp: foldReport_def Let_def rep0_def filter_empty_conv split: list.splits if_splits)
qed

text \<open>
  The report of a leak check says exactly what the STUN servers saw.  Without an expected address
  there is no report; if no server answers there is none either.  Otherwise it says that a leak was
  detected exactly when some answered address differs from the relay's, gives the class of the
  first one that differs and the first address seen, and holds one result per server.
\<close>

theorem leak_report_exact:
  "RunFullCheck (Some (Inl err)) probes = Inl ResolveRelayIP \<and>
    RunFullCheck (Some (Inr [])) probes = Inl EmptyExpectedIP \<and>
    (case RunFullCheck (Some (Inr (b # bs))) probes of
        Inl e \<Rightarrow> e = AllUnreachable \<and> List.map_filter seen probes = []
      | Inr rep \<Rightarrow>
          List.map_filter seen probes \<noteq> [] \<and>
          lpStatus rep = (if \<exists>ip \<in> set (List.map_filter seen probes). \<not> ipEqual ip (b # bs) then LeakDetected else LeakOK) \<and>
          lpReason rep = (case filter (\<lambda>ip. \<not> ipEqual ip (b # bs)) (List.map_filter seen probes) of
                            [] \<Rightarrow> None | ip # _ \<Rightarrow> Some (ClassifyLeak ip)) \<and>
          lpSTUNIP rep = ipString (hd (List.map_filter seen probes)) \<and>
          lpExpectedIP rep = ipString (b # bs) \<and>
          map lkServer (lpResults rep) = map fst probes)"
  using report_facts [where b = b and bs = bs and probes = probes] by (simp add: RunFullCheck_def Let_def)

section \<open>The scheduler and the cache\<close>

fun runTicks :: "leakTick list \<Rightarrow> relayIPResolver \<times> leakScheduler \<Rightarrow> leakEvent list \<times> relayIPResolver \<times> leakScheduler" where
  "runTicks [] st = ([], st)"
| "runTicks (t # ts) st =
     (case runTick t st of (evs, st1) \<Rightarrow> (case runTicks ts st1 of (evs', st') \<Rightarrow> (evs @ evs', st')))"

definition cacheInv :: "leakTick list \<Rightarrow> relayIPResolver \<Rightarrow> bool" where
  \<comment> \<open>a cached address answered a lookup of the cached domain in one of these ticks, five minutes before
     it expires\<close>
  "cacheInv past r \<longleftrightarrow> riTTL r = defaultRelayIPCacheTTL \<and>
     (\<forall>ip. riCachedIP r = Some ip \<longrightarrow>
        (\<exists>u \<in> set past. tkDomain u = riCachedDomain r \<and> tkAnswer u = Some ip \<and>
           riExpiresAt r = tkLater u + defaultRelayIPCacheTTL))"

definition freshIP :: "leakTick list \<Rightarrow> leakTick \<Rightarrow> bytes \<Rightarrow> bool" where
  "freshIP past t ip \<longleftrightarrow> (\<exists>u \<in> set (past @ [t]). tkDomain u = tkDomain t \<and> tkAnswer u = Some ip \<and>
     (u = t \<or> tkNow t < tkLater u + defaultRelayIPCacheTTL))"

lemma cacheInv_mono: "cacheInv past r \<Longrightarrow> cacheInv (past @ [t]) r"
  by (fastforce simp: cacheInv_def)

lemma freshI:
  "cacheInv past r \<Longrightarrow> riCachedIP r = Some ip \<Longrightarrow> riCachedDomain r = tkDomain t \<Longrightarrow> tkNow t < riExpiresAt r \<Longrightarrow>
   freshIP past t ip"
  unfolding cacheInv_def freshIP_def by fastforce

lemma ExpectedIP_outcomes:
  "ExpectedIP domain now answer later r = (e, r') \<Longrightarrow>
     (\<exists>ip. riCachedIP r = Some ip \<and> riCachedDomain r = domain \<and> now < riExpiresAt r \<and> e = Inr ip \<and> r' = r) \<or>
     (\<exists>ip. answer = Some ip \<and> e = Inr ip \<and>
        r' = r\<lparr>riCachedIP := Some ip, riCachedDomain := domain, riExpiresAt := later + riTTL r\<rparr>) \<or>
     (\<exists>err. e = Inl err \<and> r' = r)"
  by (cases "domain = []"; cases "riCachedIP r"; cases "riCachedDomain r = domain \<and> now < riExpiresAt r"; cases answer)
    (auto simp: ExpectedIP_def split: if_splits)

lemma ExpectedIP_cases:
  assumes "ExpectedIP domain now answer later r = (e, r')"
  obtains (hit) ip where "riCachedIP r = Some ip" "riCachedDomain r = domain" "now < riExpiresAt r" "e = Inr ip" "r' = r"
    | (miss) ip where "answer = Some ip" "e = Inr ip"
        "r' = r\<lparr>riCachedIP := Some ip, riCachedDomain := domain, riExpiresAt := later + riTTL r\<rparr>"
    | (fail) err where "e = Inl err" "r' = r"
  using ExpectedIP_outcomes [OF assms] by blast

lemma ExpectedIP_fresh:
  assumes inv: "cacheInv past r" and e: "ExpectedIP (tkDomain t) (tkNow t) (tkAnswer t) (tkLater t) r = (e, r')"
  shows "cacheInv (past @ [t]) r' \<and> (\<forall>ip. e = Inr ip \<longrightarrow> freshIP past t ip)"
  using e
proof (cases rule: ExpectedIP_cases)
  case (hit ip)
  with inv show ?thesis using cacheInv_mono freshI by blast
next
  case (miss ip)
  have "cacheInv (past @ [t]) r'" using inv miss by (simp add: cacheInv_def)
  moreover have "freshIP past t ip" using miss by (auto simp: freshIP_def)
  ultimately show ?thesis using miss by simp
next
  case fail
  with inv show ?thesis using cacheInv_mono by blast
qed

definition lastEvent :: "leakEvent list \<Rightarrow> bool" where
  "lastEvent evs \<longleftrightarrow> (case rev evs of OnLeak _ # _ \<Rightarrow> True | _ \<Rightarrow> False)"

lemma lastEvent_append [simp]:
  "lastEvent []  = False" "lastEvent (evs @ [OnLeak rep]) = True" "lastEvent (evs @ [OnRecovery]) = False"
  by (simp_all add: lastEvent_def)

definition ticksInv :: "leakTick list \<Rightarrow> leakEvent list \<Rightarrow> relayIPResolver \<times> leakScheduler \<Rightarrow> bool" where
  "ticksInv past evs st \<longleftrightarrow> cacheInv past (fst st) \<and> (lsLastWasLeak (snd st) \<longleftrightarrow> lastEvent evs)"

definition justified :: "leakTick list \<Rightarrow> leakEvent list \<Rightarrow> leakTick \<Rightarrow> leakEvent list \<Rightarrow> bool" where
  \<comment> \<open>the events of a tick, after the ticks \<open>past\<close> and their events \<open>evs\<close>\<close>
  "justified past evs t new \<longleftrightarrow>
     (case new of
        [] \<Rightarrow> True
      | [OnLeak rep] \<Rightarrow> tkState t = StateConnected \<and>
          (\<exists>ip x. freshIP past t ip \<and> x \<in> set (List.map_filter seen (tkProbes t)) \<and> \<not> ipEqual x ip)
      | [OnRecovery] \<Rightarrow> tkState t = StateConnected \<and> lastEvent evs \<and>
          (\<exists>ip. freshIP past t ip \<and> List.map_filter seen (tkProbes t) \<noteq> [] \<and>
             (\<forall>x \<in> set (List.map_filter seen (tkProbes t)). ipEqual x ip))
      | _ \<Rightarrow> False)"

lemma report_cases:
  assumes "RunFullCheck (Some (Inr ip)) probes = Inr rep"
  shows "List.map_filter seen probes \<noteq> []"
    and "lpStatus rep = LeakDetected \<longleftrightarrow> (\<exists>x \<in> set (List.map_filter seen probes). \<not> ipEqual x ip)"
proof -
  obtain b bs where ip: "ip = b # bs" using assms by (cases ip) (auto simp: RunFullCheck_def Let_def)
  have "case RunFullCheck (Some (Inr (b # bs))) probes of
        Inl e \<Rightarrow> True
      | Inr rep \<Rightarrow> List.map_filter seen probes \<noteq> [] \<and>
          lpStatus rep = (if \<exists>ip \<in> set (List.map_filter seen probes). \<not> ipEqual ip (b # bs) then LeakDetected else LeakOK)"
    using report_facts [where b = b and bs = bs and probes = probes] by (auto split: sum.splits)
  then show "List.map_filter seen probes \<noteq> []"
    and "lpStatus rep = LeakDetected \<longleftrightarrow> (\<exists>x \<in> set (List.map_filter seen probes). \<not> ipEqual x ip)"
    using assms by (auto simp: ip split: if_splits)
qed

lemma runCheck_events:
  assumes "runCheck busy ts outcome now s = (new, s')" and "lsLastWasLeak s \<longleftrightarrow> lastEvent evs"
  shows "(lsLastWasLeak s' \<longleftrightarrow> lastEvent (evs @ new)) \<and>
    (new = [] \<or> ts = StateConnected \<and> (\<exists>rep. outcome = Inr rep \<and>
       (new = [OnLeak rep] \<and> lpStatus rep = LeakDetected \<or> new = [OnRecovery] \<and> lpStatus rep = LeakOK \<and> lastEvent evs)))"
proof -
  have st: "x \<noteq> LeakDetected \<longleftrightarrow> x = LeakOK" for x by (cases x) simp_all
  show ?thesis using assms
    by (cases "busy \<or> ts \<noteq> StateConnected"; cases outcome) (auto simp: runCheck_def st split: if_splits)
qed

lemma runTick_step:
  assumes inv: "ticksInv past evs st" and step: "runTick t st = (new, st')"
  shows "ticksInv (past @ [t]) (evs @ new) st' \<and> justified past evs t new"
proof -
  obtain r s where st: "st = (r, s)" by (cases st)
  have c: "cacheInv past r" and w: "lsLastWasLeak s \<longleftrightarrow> lastEvent evs" using inv by (simp_all add: ticksInv_def st)
  show ?thesis
  proof (cases "tkBusy t \<or> tkState t \<noteq> StateConnected")
    case True
    obtain s' where n: "runCheck (tkBusy t) (tkState t) (Inl ResolveRelayIP) (tkLater t) s = (new, s')" "st' = (r, s')"
      using step True by (auto simp: runTick_def st split: prod.splits)
    have "new = []" and "lsLastWasLeak s' \<longleftrightarrow> lastEvent (evs @ new)"
      using runCheck_events [OF n(1) w] by auto
    then show ?thesis using n(2) cacheInv_mono [OF c] by (simp add: ticksInv_def justified_def)
  next
    case False
    obtain e r' where e: "ExpectedIP (tkDomain t) (tkNow t) (tkAnswer t) (tkLater t) r = (e, r')"
      by (cases "ExpectedIP (tkDomain t) (tkNow t) (tkAnswer t) (tkLater t) r")
    let ?out = "RunFullCheck (Some (case e of Inl _ \<Rightarrow> Inl ResolveRelayIP | Inr ip \<Rightarrow> Inr ip)) (tkProbes t)"
    obtain s' where n: "runCheck False (tkState t) ?out (tkLater t) s = (new, s')" "st' = (r', s')"
      using step False by (auto simp: runTick_def st e split: prod.splits)
    note ev = runCheck_events [OF n(1) w] and fr = ExpectedIP_fresh [OF c e]
    have "justified past evs t new"
    proof (cases "new = []")
      case True
      then show ?thesis by (simp add: justified_def)
    next
      case ne: False
      with ev obtain rep where rep: "?out = Inr rep" and
        k: "new = [OnLeak rep] \<and> lpStatus rep = LeakDetected \<or> new = [OnRecovery] \<and> lpStatus rep = LeakOK \<and> lastEvent evs"
        by blast
      from rep obtain ip where ip: "e = Inr ip" by (cases e) (auto simp: RunFullCheck_def Let_def)
      with rep have "RunFullCheck (Some (Inr ip)) (tkProbes t) = Inr rep" by simp
      note rc = report_cases [OF this]
      have f: "freshIP past t ip" using fr ip by blast
      from k show ?thesis
      proof
        assume "new = [OnLeak rep] \<and> lpStatus rep = LeakDetected"
        with f rc(2) False show ?thesis by (auto simp: justified_def)
      next
        assume "new = [OnRecovery] \<and> lpStatus rep = LeakOK \<and> lastEvent evs"
        with f rc False show ?thesis by (auto simp: justified_def)
      qed
    qed
    then show ?thesis using fr ev n(2) by (simp add: ticksInv_def)
  qed
qed

lemma runTicks_append:
  "runTicks (ts @ us) st = (case runTicks ts st of (evs, st1) \<Rightarrow> (case runTicks us st1 of (evs', st') \<Rightarrow> (evs @ evs', st')))"
  by (induction ts arbitrary: st) (auto split: prod.splits)

lemma runTicks_inv: "runTicks ts (NewRelayIPResolver h, newLeakScheduler) = (evs, st) \<Longrightarrow> ticksInv ts evs st"
proof (induction ts arbitrary: evs st rule: rev_induct)
  case Nil
  then show ?case by (auto simp: ticksInv_def cacheInv_def NewRelayIPResolver_def newLeakScheduler_def)
next
  case (snoc t ts)
  obtain evs0 st0 new where a: "runTicks ts (NewRelayIPResolver h, newLeakScheduler) = (evs0, st0)" "runTick t st0 = (new, st)"
      "evs = evs0 @ new"
    using snoc.prems by (auto simp: runTicks_append split: prod.splits)
  from runTick_step [OF snoc.IH [OF a(1)] a(2)] show ?case by (simp add: a(3))
qed

text \<open>
  C18: The alarms of the leak scheduler are justified.  After any history of ticks, with any answers of the
  network, a tick raises at most one event.  It is a leak only if the tunnel is connected and a STUN
  server of this very check saw an address other than the one that DoH gave for the domain of the
  relay now in use, in this tick or in one less than five minutes ago; it is a recovery only if
  some server answered, all of them saw that address, and the last event before was a leak.
\<close>

theorem leak_alarms_are_justified:
  assumes "runTicks past (NewRelayIPResolver h, newLeakScheduler) = (evs, st)" and "runTick t st = (new, st')"
  shows "justified past evs t new"
  using runTick_step [OF runTicks_inv [OF assms(1)] assms(2)] by blast

definition tickAt :: "int \<Rightarrow> string \<Rightarrow> bytes option \<Rightarrow> bytes \<Rightarrow> leakTick" where
  \<comment> \<open>a tick in which one server sees an address\<close>
  "tickAt now domain answer ip =
     \<lparr>tkBusy = False, tkState = StateConnected, tkDomain = domain, tkNow = now, tkAnswer = answer, tkLater = now,
      tkProbes = [(''s'', replicate 12 7,
        Some (stunResponse (replicate 12 7) ([] @ [(0x0020, xorMapped (replicate 12 7) ip)] @ []) @ []))]\<rparr>"

lemma tickAt_probe:
  assumes "length ip = 4"
  shows "CheckSTUNLeak (''s'', replicate 12 7,
      Some (stunResponse (replicate 12 7) ([] @ [(0x0020, xorMapped (replicate 12 7) ip)] @ []) @ [])) =
    Inr \<lparr>lkServer = ''s'', lkIP = ip, lkLeaked = False, lkError = None\<rparr>"
proof -
  have "ParseXORMappedAddress (stunResponse (replicate 12 7) ([] @ [(0x0020, xorMapped (replicate 12 7) ip)] @ []) @ []) = Inr ip"
    using assms by (intro Parse_response) (auto simp: xorMapped_def padLen_def)
  moreover have "bslice (stunResponse (replicate 12 7) ([] @ [(0x0020, xorMapped (replicate 12 7) ip)] @ []) @ []) 8 20 = replicate 12 7"
    "\<not> length (stunResponse (replicate 12 7) ([] @ [(0x0020, xorMapped (replicate 12 7) ip)] @ []) @ []) < 20"
    by (simp_all add: stunResponse_def Let_def bslice_def)
  moreover have "bslice (BuildBindingRequest (replicate 12 7)) 8 20 = replicate 12 7"
    by (simp add: Build_bytes bslice_def)
  ultimately show ?thesis by (simp only: CheckSTUNLeak_def Let_def prod.case option.case if_False if_True sum.case refl simp_thms)
qed

lemma tickAt_report:
  assumes "length ip = 4" and "length e = 4"
  shows "\<exists>rep. RunFullCheck (Some (Inr e)) (tkProbes (tickAt now d a ip)) = Inr rep \<and>
    lpStatus rep = (if ip = e then LeakOK else LeakDetected)"
proof -
  obtain b bs where e: "e = b # bs" using assms(2) by (cases e) auto
  have "seen (hd (tkProbes (tickAt now d a ip))) = Some ip"
    using tickAt_probe [OF assms(1)] by (simp only: tickAt_def leakTick.select_convs list.sel seen_def sum.case leakResult.select_convs)
  moreover have "tkProbes (tickAt now d a ip) = [hd (tkProbes (tickAt now d a ip))]" by (simp only: tickAt_def leakTick.select_convs list.sel)
  ultimately have s: "List.map_filter seen (tkProbes (tickAt now d a ip)) = [ip]"
    by (metis map_filter_simps option.simps(5))
  have q: "ipEqual ip e \<longleftrightarrow> ip = e" using assms by (simp add: ipEqual_def)
  show ?thesis using report_facts [where b = b and bs = bs and probes = "tkProbes (tickAt now d a ip)"] q
    unfolding s e by (cases "RunFullCheck (Some (Inr (b # bs))) (tkProbes (tickAt now d a ip))") auto
qed

theorem leak_alarms_are_justified_witness:
  "\<exists>st rep st'. runTicks [tickAt 0 ''r.dev'' (Some [9, 9, 9, 9]) [9, 9, 9, 9]] (NewRelayIPResolver True, newLeakScheduler) =
      ([], st) \<and>
    runTick (tickAt 200 ''r.dev'' None [8, 7, 6, 5]) st = ([OnLeak rep], st') \<and>
    justified [tickAt 0 ''r.dev'' (Some [9, 9, 9, 9]) [9, 9, 9, 9]] [] (tickAt 200 ''r.dev'' None [8, 7, 6, 5]) [OnLeak rep]"
proof -
  let ?t0 = "tickAt 0 ''r.dev'' (Some [9, 9, 9, 9]) [9, 9, 9, 9]" and ?t1 = "tickAt 200 ''r.dev'' None [8, 7, 6, 5]"
  obtain rep0 where r0: "RunFullCheck (Some (Inr [9, 9, 9, 9])) (tkProbes ?t0) = Inr rep0" "lpStatus rep0 = LeakOK"
    using tickAt_report [of "[9, 9, 9, 9]" "[9, 9, 9, 9]" 0 "''r.dev''" "Some [9, 9, 9, 9]"] by auto
  obtain rep1 where r1: "RunFullCheck (Some (Inr [9, 9, 9, 9])) (tkProbes ?t1) = Inr rep1" "lpStatus rep1 = LeakDetected"
    using tickAt_report [of "[8, 7, 6, 5]" "[9, 9, 9, 9]" 200 "''r.dev''" None] by auto
  have f: "tkBusy (tickAt n d a ip) = False" "tkState (tickAt n d a ip) = StateConnected" "tkDomain (tickAt n d a ip) = d"
    "tkNow (tickAt n d a ip) = n" "tkAnswer (tickAt n d a ip) = a" "tkLater (tickAt n d a ip) = n" for n d a ip
    by (simp_all add: tickAt_def)
  have "\<exists>st. runTicks [?t0] (NewRelayIPResolver True, newLeakScheduler) = ([], st) \<and>
      riCachedIP (fst st) = Some [9, 9, 9, 9] \<and> riCachedDomain (fst st) = ''r.dev'' \<and> riExpiresAt (fst st) = 300"
    using r0 by (simp add: runTick_def f ExpectedIP_def NewRelayIPResolver_def runCheck_def newLeakScheduler_def
        defaultRelayIPCacheTTL_def)
  then obtain r s where a: "runTicks [?t0] (NewRelayIPResolver True, newLeakScheduler) = ([], (r, s))"
    and c: "riCachedIP r = Some [9, 9, 9, 9]" "riCachedDomain r = ''r.dev''" "riExpiresAt r = 300" by auto
  have "\<exists>st'. runTick ?t1 (r, s) = ([OnLeak rep1], st')"
    using r1 c by (simp add: runTick_def f ExpectedIP_def runCheck_def)
  then obtain st' where b: "runTick ?t1 (r, s) = ([OnLeak rep1], st')" ..
  show ?thesis using a b leak_alarms_are_justified [OF a b] by blast
qed

end
