(* ===== verification/CtlAuth.thy ===== *)
theory CtlAuth
  imports Go_Strings
begin

text \<open>
  The machine-local token of \<^verbatim>\<open>levoile-ctl\<close> (\<^verbatim>\<open>linux/internal/ctlauth/token.go\<close>) and its check in the
  daemon (\<^verbatim>\<open>SetCtlToken\<close> and \<^verbatim>\<open>VerifyCtlToken\<close> of \<^verbatim>\<open>killswitch.go\<close>), with the small file model that the
  configuration shares: a file is absent, unreadable or its bytes, and a write says how far it got.
\<close>

section \<open>Files\<close>

type_synonym fileStore = "string \<Rightarrow> bytes option"

datatype fileRead = ReadAbsent | ReadFailed | ReadOk bytes

definition readStore :: "bool \<Rightarrow> string \<Rightarrow> fileStore \<Rightarrow> fileRead" where
  \<comment> \<open>\<^verbatim>\<open>os.ReadFile\<close>: whether an existing file can be read\<close>
  "readStore readable path fs =
     (case fs path of None \<Rightarrow> ReadAbsent | Some b \<Rightarrow> if readable then ReadOk b else ReadFailed)"

section \<open>Hexadecimal\<close>

definition hexVal :: "char \<Rightarrow> nat option" where
  "hexVal c =
     (let n = of_char c :: nat in
      if 48 \<le> n \<and> n \<le> 57 then Some (n - 48)
      else if 97 \<le> n \<and> n \<le> 102 then Some (n - 87)
      else if 65 \<le> n \<and> n \<le> 70 then Some (n - 55) else None)"

fun hexDecode :: "string \<Rightarrow> bytes option" where
  \<comment> \<open>\<^verbatim>\<open>hex.Decode\<close>\<close>
  "hexDecode [] = Some []"
| "hexDecode [c] = None"
| "hexDecode (c # d # s) =
     (case (hexVal c, hexVal d, hexDecode s) of
        (Some a, Some b, Some r) \<Rightarrow> Some (of_nat (16 * a + b) # r) | _ \<Rightarrow> None)"

lemma hexVal_hexChar [simp]: "n < 16 \<Longrightarrow> hexVal (hexChar n) = Some n"
  by (simp add: hexVal_def of_hexChar Let_def)

lemma hexDecode_hexEncode [simp]: "hexDecode (hexEncode b) = Some b"
proof (induction b)
  case Nil
  then show ?case by (simp add: hexEncode_def)
next
  case (Cons x b)
  have lt: "unat x div 16 < 16" "unat x mod 16 < 16" using unat_byte_lt [of x] by (simp_all del: unat_byte_lt)
  have v: "16 * (unat x div 16) + unat x mod 16 = unat x" by simp
  have "hexEncode (x # b) = hexChar (unat x div 16) # hexChar (unat x mod 16) # hexEncode b"
    by (simp add: hexEncode_def hex02_def)
  then show ?case using Cons.IH lt
    by (simp only: hexDecode.simps hexVal_hexChar option.case prod.case v) simp
qed

lemma hexEncode_chars: "c \<in> set (hexEncode b) \<Longrightarrow> isHexLower c"
  by (auto simp: hexEncode_def hex02_isHex)

section \<open>The token file\<close>

definition tokenLength :: nat where "tokenLength = 32"
definition hexLength :: nat where "hexLength = tokenLength * 2"

datatype ctlError = EmptyPath | TokenAbsent | TokenMalformed | TokenRead | TokenMkdir | TokenRand | TokenWrite

definition isWhitespace :: "byte \<Rightarrow> bool" where
  "isWhitespace b \<longleftrightarrow> b = 0x20 \<or> b = 0x09 \<or> b = 0x0A \<or> b = 0x0D"

definition trimASCII :: "bytes \<Rightarrow> bytes" where
  "trimASCII data = rev (dropWhile isWhitespace (rev (dropWhile isWhitespace data)))"

definition ctlLoad :: "bool \<Rightarrow> string \<Rightarrow> fileStore \<Rightarrow> ctlError + bytes" where
  "ctlLoad readable path fs =
     (case readStore readable path fs of
        ReadAbsent \<Rightarrow> Inl TokenAbsent
      | ReadFailed \<Rightarrow> Inl TokenRead
      | ReadOk data \<Rightarrow>
          let trimmed = trimASCII data in
          if length trimmed \<noteq> hexLength then Inl TokenMalformed
          else case hexDecode (stringOf trimmed) of None \<Rightarrow> Inl TokenMalformed | Some raw \<Rightarrow> Inr raw)"

datatype tokenWrite = TwOpen | TwData | TwAfter | TwDone
  \<comment> \<open>the open fails; the write fails and the file is removed; the close or the chmod fails; all is well\<close>

definition writeRestrictedFile :: "tokenWrite \<Rightarrow> string \<Rightarrow> bytes \<Rightarrow> fileStore \<Rightarrow> bool \<times> fileStore" where
  "writeRestrictedFile w path data fs =
     (case w of
        TwOpen \<Rightarrow> (False, fs)
      | TwData \<Rightarrow> (False, fs(path := None))
      | TwAfter \<Rightarrow> (False, fs(path \<mapsto> data))
      | TwDone \<Rightarrow> (True, fs(path \<mapsto> data)))"

definition Hex :: "bytes \<Rightarrow> string" where
  "Hex raw = hexEncode raw"

definition LoadOrCreate ::
  "bool \<Rightarrow> bool \<Rightarrow> bytes option \<Rightarrow> tokenWrite \<Rightarrow> string \<Rightarrow> fileStore \<Rightarrow> (ctlError + bytes) \<times> fileStore" where
  \<comment> \<open>whether the file can be read, the directory made; the random bytes; the end of the write\<close>
  "LoadOrCreate readable mkdir rnd w path fs =
     (if path = [] then (Inl EmptyPath, fs)
      else case ctlLoad readable path fs of
        Inr data \<Rightarrow> (Inr data, fs)
      | Inl TokenAbsent \<Rightarrow>
          (if \<not> mkdir then (Inl TokenMkdir, fs)
           else case rnd of
             None \<Rightarrow> (Inl TokenRand, fs)
           | Some raw \<Rightarrow>
               (case writeRestrictedFile w path (bytesOf (hexEncode raw)) fs of
                  (ok, fs') \<Rightarrow> (if ok then Inr raw else Inl TokenWrite, fs')))
      | Inl e \<Rightarrow> (Inl e, fs))"

section \<open>The check in the daemon\<close>

definition SetCtlToken :: "bytes \<Rightarrow> bytes" where
  \<comment> \<open>the stored token; an empty one means none\<close>
  "SetCtlToken token = token"

definition VerifyCtlToken :: "bytes \<Rightarrow> string \<Rightarrow> bool" where
  \<comment> \<open>\<^verbatim>\<open>ConstantTimeCompare\<close> is equality\<close>
  "VerifyCtlToken expected provided =
     (if expected = [] \<or> provided = [] then False else expected = bytesOf provided)"

section \<open>Lemmas\<close>

lemma unat_of_char_byte [simp]: "unat (of_char c :: byte) = of_char c"
proof -
  have "unat (of_char c :: byte) = unat (of_nat (of_char c) :: byte)" by (simp add: of_nat_of_char)
  then show ?thesis by (simp add: unat_of_nat)
qed

lemma isHex_not_space: "isHexLower c \<Longrightarrow> \<not> isWhitespace (of_char c)"
proof
  assume h: "isHexLower c" and w: "isWhitespace (of_char c)"
  have "(of_char c :: nat) \<in> {32, 9, 10, 13}"
    using w unat_of_char_byte [of c] by (auto simp: isWhitespace_def simp del: unat_of_char_byte)
  with h show False by (auto simp: isHexLower_def isDigit_def)
qed

lemma dropWhile_space_hex [simp]: "dropWhile isWhitespace (bytesOf (hexEncode b) @ ws) =
    (if b = [] then dropWhile isWhitespace ws else bytesOf (hexEncode b) @ ws)"
proof (cases b)
  case Nil
  then show ?thesis by (simp add: hexEncode_def bytesOf_def)
next
  case (Cons x xs)
  have "bytesOf (hexEncode b) \<noteq> []" using Cons by (simp add: bytesOf_def hexEncode_def hex02_def)
  moreover have "\<not> isWhitespace y" if "y \<in> set (bytesOf (hexEncode b))" for y
    using that isHex_not_space hexEncode_chars by (auto simp: bytesOf_def)
  ultimately have "dropWhile isWhitespace (bytesOf (hexEncode b) @ ws) = bytesOf (hexEncode b) @ ws"
    by (cases "bytesOf (hexEncode b)") auto
  with Cons show ?thesis by simp
qed

lemma trimASCII_hex:
  assumes "\<forall>w \<in> set pre \<union> set post. isWhitespace w" and "b \<noteq> []"
  shows "trimASCII (pre @ bytesOf (hexEncode b) @ post) = bytesOf (hexEncode b)"
proof -
  have h: "dropWhile isWhitespace (pre @ bytesOf (hexEncode b) @ post) = bytesOf (hexEncode b) @ post"
    using assms by (subst dropWhile_append2) auto
  have ne: "bytesOf (hexEncode b) \<noteq> []" using assms(2) by (cases b) (auto simp: bytesOf_def hexEncode_def hex02_def)
  have nw: "\<not> isWhitespace y" if "y \<in> set (bytesOf (hexEncode b))" for y
    using that isHex_not_space hexEncode_chars by (auto simp: bytesOf_def)
  have "dropWhile isWhitespace (rev post @ rev (bytesOf (hexEncode b))) = rev (bytesOf (hexEncode b))"
  proof -
    have "dropWhile isWhitespace (rev (bytesOf (hexEncode b))) = rev (bytesOf (hexEncode b))"
      using ne nw [OF last_in_set [OF ne]] by (simp add: dropWhile_eq_self_iff hd_rev)
    then show ?thesis using assms(1) by (subst dropWhile_append2) auto
  qed
  then show ?thesis by (simp add: trimASCII_def h)
qed

declare length_bytesOf [simp]

lemma bytesOf_inject [simp]: "bytesOf s = bytesOf t \<longleftrightarrow> s = t"
  by (metis stringOf_bytesOf)

lemma ctlLoad_hex:
  assumes "fs path = Some (pre @ bytesOf (hexEncode raw) @ post)" and "length raw = tokenLength"
    and "\<forall>w \<in> set pre \<union> set post. isWhitespace w"
  shows "ctlLoad True path fs = Inr raw"
  using trimASCII_hex [OF assms(3), of raw] assms(1,2)
  by (cases raw) (auto simp: ctlLoad_def readStore_def hexLength_def tokenLength_def Let_def)

lemma hexDecode_length: "hexDecode s = Some b \<Longrightarrow> length s = 2 * length b"
  by (induction s arbitrary: b rule: hexDecode.induct) (auto split: option.splits)

lemma ctlLoad_length: "ctlLoad readable path fs = Inr raw \<Longrightarrow> length raw = tokenLength"
  by (auto simp: ctlLoad_def Let_def hexLength_def stringOf_def dest!: hexDecode_length
      split: fileRead.splits if_splits option.splits)

lemma LoadOrCreate_length:
  assumes "LoadOrCreate readable mkdir rnd w path fs = (Inr raw, fs')" and "rnd = None \<or> length (the rnd) = tokenLength"
  shows "length raw = tokenLength"
proof (cases "ctlLoad readable path fs")
  case (Inr d)
  then show ?thesis using assms(1) ctlLoad_length [OF Inr] by (auto simp: LoadOrCreate_def split: if_splits)
next
  case (Inl e)
  then show ?thesis using assms
    by (cases e) (auto simp: LoadOrCreate_def split: if_splits option.splits prod.splits)
qed

text \<open>
  The check compares the stored bytes with the characters of the field: the form the clients send,
  \<open>Hex\<close>, is twice as long as the form the daemon keeps.
\<close>

lemma hex_never_verifies:
  assumes "length raw = tokenLength" and "length raw' = tokenLength"
  shows "\<not> VerifyCtlToken (SetCtlToken raw) (Hex raw')"
proof
  assume "VerifyCtlToken (SetCtlToken raw) (Hex raw')"
  then have "raw = bytesOf (hexEncode raw')" by (simp add: VerifyCtlToken_def SetCtlToken_def Hex_def split: if_splits)
  then have "length raw = 2 * length raw'" by simp
  with assms show False by (simp add: tokenLength_def)
qed

end
