(* ===== verification/Firewall.thy ===== *)
theory Firewall
  imports Go_Net
begin

text \<open>
  The kernel-level kill switch of the Linux client (\<^verbatim>\<open>linux/internal/firewall\<close>): the nftables
  scripts, the manager that applies them, and the watchdog that polls the live ruleset.

  The kernel's table \<^verbatim>\<open>levoile\<close> is the script last applied to it (\<open>None\<close>: no table); how each
  \<^verbatim>\<open>nft\<close> command ends is an argument (\<open>nftEnv\<close>).  The rules of a script are also given as data
  (\<open>nftTable\<close>), with the documented meaning of the few expressions that the templates use
  (\<open>matches\<close>): that part is the specification against which the scripts are proved.
\<close>

section \<open>The scripts\<close>

definition isAlnum :: "char \<Rightarrow> bool" where
  "isAlnum c = (let n = of_char c :: nat in isDigit c \<or> 65 \<le> n \<and> n \<le> 90 \<or> 97 \<le> n \<and> n \<le> 122)"

definition validTunName :: "string \<Rightarrow> bool" where
  "validTunName s \<longleftrightarrow> s \<noteq> [] \<and> length s \<le> 15 \<and> isAlnum (hd s) \<and>
     list_all (\<lambda>c. isAlnum c \<or> c = CHR ''_'' \<or> c = CHR ''.'' \<or> c = CHR ''-'') (tl s)"

definition quoted :: "string \<Rightarrow> string" where
  "quoted s = CHR 0x22 # s @ [CHR 0x22]"

definition rulesetTemplate :: "string \<Rightarrow> string \<Rightarrow> bool \<Rightarrow> string" where
  \<comment> \<open>\<^verbatim>\<open>ruleset.nft.tmpl\<close> executed on the relay address, the interface and the IPv6 flag\<close>
  "rulesetTemplate relay tun leak = unlines (
     [''table inet levoile {}'',
      ''flush table inet levoile'',
      ''table inet levoile {'',
      ''  chain input {'',
      ''    type filter hook input priority 0; policy drop;'',
      ''    iifname '' @ quoted ''lo'' @ '' accept'',
      ''    ct state established,related accept'',
      ''    iifname '' @ quoted tun @ '' accept''] @
     (if leak then [''    meta nfproto ipv6 accept''] else []) @
     [''  }'',
      ''  chain output {'',
      ''    type filter hook output priority 0; policy drop;'',
      ''    oifname '' @ quoted ''lo'' @ '' accept'',
      ''    ct state established,related accept'',
      ''    oifname '' @ quoted tun @ '' accept'',
      ''    ip daddr '' @ relay @ '' udp dport 443 accept'',
      ''    ip daddr '' @ relay @ '' tcp dport 443 accept''] @
     (if leak then [''    meta nfproto ipv6 accept''] else []) @
     [''  }'',
      ''}''])"

definition renderRuleset :: "bytes option \<Rightarrow> string \<Rightarrow> bool \<Rightarrow> string option" where
  "renderRuleset relayIP tunName allowIPv6Leak =
     (case relayIP of
        None \<Rightarrow> None
      | Some ip \<Rightarrow>
          if To4 ip = [] then None
          else if tunName = [] then None
          else if \<not> validTunName tunName then None
          else Some (rulesetTemplate (dotted (To4 ip)) tunName allowIPv6Leak))"

definition captiveRulesetTemplate :: "string \<Rightarrow> string" where
  "captiveRulesetTemplate gw = unlines
     [''table inet levoile {}'',
      ''flush table inet levoile'',
      ''table inet levoile {'',
      ''  chain input {'',
      ''    type filter hook input priority 0; policy drop;'',
      ''    iifname '' @ quoted ''lo'' @ '' accept'',
      ''    ct state established,related accept'',
      ''  }'',
      ''  chain output {'',
      ''    type filter hook output priority 0; policy drop;'',
      ''    oifname '' @ quoted ''lo'' @ '' accept'',
      ''    ct state established,related accept'',
      ''    ip daddr '' @ gw @ '' accept'',
      ''    udp dport 53 accept'',
      ''    tcp dport { 80, 443 } accept'',
      ''    ip protocol icmp accept'',
      ''    udp dport 67 accept'',
      ''    udp sport 68 accept'',
      ''  }'',
      ''}'']"

definition renderCaptiveRuleset :: "bytes option \<Rightarrow> string option" where
  "renderCaptiveRuleset lanGateway =
     (case lanGateway of
        None \<Rightarrow> None
      | Some ip \<Rightarrow> if To4 ip = [] then None else Some (captiveRulesetTemplate (dotted (To4 ip))))"

section \<open>The manager\<close>

datatype fwMode = ModeFull | ModeCaptive

record activateParams =
  apMode :: fwMode
  apRelayIP :: "bytes option"
  apTunName :: string
  apLanGateway :: "bytes option"

record watchdogSnapshot =
  chainsRequired :: "string list"
  minRules :: nat

record nftFirewall =
  fwAllowIPv6 :: bool
  lastParams :: "activateParams option"
  fwSnapshot :: "watchdogSnapshot option"
  fwWatching :: bool
  fwAlteredCh :: bool
    \<comment> \<open>whether the channel, of capacity one, holds an event\<close>

record nftEnv =
  neFound :: bool
    \<comment> \<open>the binary is in the path\<close>
  neProbe :: bool
    \<comment> \<open>\<^verbatim>\<open>nft list ruleset\<close> succeeds\<close>
  neApply :: bool
    \<comment> \<open>\<^verbatim>\<open>nft -f -\<close> succeeds\<close>
  neDropped :: bool
    \<comment> \<open>another program deletes the table between apply and check\<close>
  neList :: bool
    \<comment> \<open>\<^verbatim>\<open>nft list table\<close> succeeds on an existing table\<close>
  neDelete :: bool
    \<comment> \<open>\<^verbatim>\<open>nft delete table\<close> succeeds on an existing table\<close>

datatype fwError = ErrNftablesUnavailable | ErrRender | ErrApply | ErrPostCheck | ErrNotActive | ErrDeactivate | ErrNotActivated

type_synonym kernelTable = "string option"

definition newFirewall :: "bool \<Rightarrow> nftFirewall" where
  "newFirewall allow = \<lparr>fwAllowIPv6 = allow, lastParams = None, fwSnapshot = None, fwWatching = False, fwAlteredCh = False\<rparr>"

definition isActiveLocked :: "nftEnv \<Rightarrow> kernelTable \<Rightarrow> fwError + bool" where
  "isActiveLocked env k = (case k of None \<Rightarrow> Inr False | Some _ \<Rightarrow> if neList env then Inr True else Inl ErrPostCheck)"

definition snapshotForMode :: "fwMode \<Rightarrow> watchdogSnapshot" where
  "snapshotForMode mode =
     (case mode of
        ModeCaptive \<Rightarrow> \<lparr>chainsRequired = [''input'', ''output''], minRules = 4\<rparr>
      | ModeFull \<Rightarrow> \<lparr>chainsRequired = [''input'', ''output''], minRules = 6\<rparr>)"

definition renderParams :: "nftFirewall \<Rightarrow> activateParams \<Rightarrow> string option" where
  "renderParams fw ap =
     (case apMode ap of
        ModeCaptive \<Rightarrow> renderCaptiveRuleset (apLanGateway ap)
      | ModeFull \<Rightarrow> renderRuleset (apRelayIP ap) (apTunName ap) (fwAllowIPv6 fw))"

definition activateLocked ::
  "nftEnv \<Rightarrow> activateParams \<Rightarrow> nftFirewall \<Rightarrow> kernelTable \<Rightarrow> fwError option \<times> nftFirewall \<times> kernelTable" where
  "activateLocked env ap fw k =
     (if \<not> neFound env \<or> \<not> neProbe env then (Some ErrNftablesUnavailable, fw, k)
      else case renderParams fw ap of
        None \<Rightarrow> (Some ErrRender, fw, k)
      | Some script \<Rightarrow>
          if \<not> neApply env then (Some ErrApply, fw, k)
          else let k' = (if neDropped env then None else Some script) in
            case isActiveLocked env k' of
              Inl e \<Rightarrow> (Some e, fw, k')
            | Inr False \<Rightarrow> (Some ErrNotActive, fw, k')
            | Inr True \<Rightarrow>
                (None, fw\<lparr>lastParams := Some ap, fwSnapshot := Some (snapshotForMode (apMode ap)), fwWatching := True\<rparr>, k'))"

definition fwDeactivate :: "nftEnv \<Rightarrow> nftFirewall \<Rightarrow> kernelTable \<Rightarrow> fwError option \<times> nftFirewall \<times> kernelTable" where
  \<comment> \<open>\<^verbatim>\<open>Deactivate\<close>\<close>
  "fwDeactivate env fw k =
     (let fw' = fw\<lparr>fwWatching := False\<rparr> in
      case k of
        None \<Rightarrow> (None, fw', None)
      | Some _ \<Rightarrow> if neDelete env then (None, fw', None) else (Some ErrDeactivate, fw', k))"

definition SetIPv6Policy :: "nftEnv \<Rightarrow> bool \<Rightarrow> nftFirewall \<Rightarrow> kernelTable \<Rightarrow> fwError option \<times> nftFirewall \<times> kernelTable" where
  "SetIPv6Policy env allow fw k =
     (case lastParams fw of
        None \<Rightarrow> (Some ErrNotActivated, fw, k)
      | Some ap \<Rightarrow> activateLocked env ap (fw\<lparr>fwAllowIPv6 := allow\<rparr>) k)"

section \<open>The watchdog\<close>

definition isRuleLine :: "string \<Rightarrow> bool" where
  "isRuleLine line =
     (let t = TrimSpace line in
      t \<noteq> [] \<and> \<not> HasPrefix t ''#'' \<and>
      (HasSuffix t ''accept'' \<or> HasSuffix t ''drop'' \<or> HasSuffix t ''return'' \<or> ContainsStr t '' jump ''))"

definition wdCheck :: "string option \<Rightarrow> watchdogSnapshot \<Rightarrow> bool" where
  \<comment> \<open>\<^verbatim>\<open>check\<close> on what \<^verbatim>\<open>nft list table\<close> prints\<close>
  "wdCheck out snap =
     (case out of
        None \<Rightarrow> False
      | Some body \<Rightarrow>
          list_all (\<lambda>chain. ContainsStr body (''chain '' @ chain @ '' '') \<or>
                            ContainsStr body (''chain '' @ chain @ [CHR 0x0A])) (chainsRequired snap) \<and>
          length (filter isRuleLine (splitOn CHR 0x0A body)) \<ge> minRules snap)"

definition wdTick :: "string option \<Rightarrow> nftFirewall \<Rightarrow> nftFirewall" where
  \<comment> \<open>a tick of \<^verbatim>\<open>run_\<close>\<close>
  "wdTick out fw =
     (if \<not> fwWatching fw then fw
      else case fwSnapshot fw of
        None \<Rightarrow> fw
      | Some snap \<Rightarrow> if wdCheck out snap then fw else fw\<lparr>fwAlteredCh := True\<rparr>)"

section \<open>What the rules mean\<close>

datatype nftMatch =
    Iifname string
  | Oifname string
  | CtEstablished
  | NfprotoIPv6
  | IpDaddr bytes
  | UdpDport nat
  | TcpDport "nat list"
  | IpIcmp
  | UdpSport nat

record netPacket =
  pkIface :: string
  pkEstablished :: bool
  pkIPv6 :: bool
  pkDst :: bytes
  pkProto :: nat
  pkSport :: nat
  pkDport :: nat

fun matches :: "nftMatch \<Rightarrow> netPacket \<Rightarrow> bool" where
  "matches (Iifname n) p = (pkIface p = n)"
| "matches (Oifname n) p = (pkIface p = n)"
| "matches CtEstablished p = pkEstablished p"
| "matches NfprotoIPv6 p = pkIPv6 p"
| "matches (IpDaddr a) p = (\<not> pkIPv6 p \<and> pkDst p = a)"
| "matches (UdpDport n) p = (pkProto p = 17 \<and> pkDport p = n)"
| "matches (TcpDport ns) p = (pkProto p = 6 \<and> pkDport p \<in> set ns)"
| "matches IpIcmp p = (\<not> pkIPv6 p \<and> pkProto p = 1)"
| "matches (UdpSport n) p = (pkProto p = 17 \<and> pkSport p = n)"

record nftTable =
  inRules :: "nftMatch list list"
  outRules :: "nftMatch list list"
    \<comment> \<open>each rule accepts; the policy of both chains is drop\<close>

definition accepted :: "nftMatch list list \<Rightarrow> netPacket \<Rightarrow> bool" where
  "accepted rules p = list_ex (list_all (\<lambda>m. matches m p)) rules"

fun showMatch :: "nftMatch \<Rightarrow> string" where
  "showMatch (Iifname n) = ''iifname '' @ quoted n @ '' ''"
| "showMatch (Oifname n) = ''oifname '' @ quoted n @ '' ''"
| "showMatch CtEstablished = ''ct state established,related ''"
| "showMatch NfprotoIPv6 = ''meta nfproto ipv6 ''"
| "showMatch (IpDaddr a) = ''ip daddr '' @ dotted a @ '' ''"
| "showMatch (UdpDport n) = ''udp dport '' @ showNat n @ '' ''"
| "showMatch (TcpDport [n]) = ''tcp dport '' @ showNat n @ '' ''"
| "showMatch (TcpDport ns) = ''tcp dport { '' @ joinWith '', '' (map showNat ns) @ '' } ''"
| "showMatch IpIcmp = ''ip protocol icmp ''"
| "showMatch (UdpSport n) = ''udp sport '' @ showNat n @ '' ''"

definition showRule :: "nftMatch list \<Rightarrow> string" where
  "showRule ms = ''    '' @ concat (map showMatch ms) @ ''accept''"

definition scriptLines :: "nftTable \<Rightarrow> string list" where
  "scriptLines t =
     [''table inet levoile {}'', ''flush table inet levoile'', ''table inet levoile {'',
      ''  chain input {'', ''    type filter hook input priority 0; policy drop;''] @ map showRule (inRules t) @
     [''  }'', ''  chain output {'', ''    type filter hook output priority 0; policy drop;''] @ map showRule (outRules t) @
     [''  }'', ''}'']"

definition fullTable :: "bytes \<Rightarrow> string \<Rightarrow> bool \<Rightarrow> nftTable" where
  "fullTable relay tun leak =
     \<lparr>inRules = [[Iifname ''lo''], [CtEstablished], [Iifname tun]] @ (if leak then [[NfprotoIPv6]] else []),
      outRules = [[Oifname ''lo''], [CtEstablished], [Oifname tun], [IpDaddr relay, UdpDport 443],
        [IpDaddr relay, TcpDport [443]]] @ (if leak then [[NfprotoIPv6]] else [])\<rparr>"

definition captiveTable :: "bytes \<Rightarrow> nftTable" where
  "captiveTable gw =
     \<lparr>inRules = [[Iifname ''lo''], [CtEstablished]],
      outRules = [[Oifname ''lo''], [CtEstablished], [IpDaddr gw], [UdpDport 53], [TcpDport [80, 443]], [IpIcmp],
        [UdpDport 67], [UdpSport 68]]\<rparr>"

lemma showNat_consts:
  "showNat 443 = ''443''" "showNat 53 = ''53''" "showNat 80 = ''80''" "showNat 67 = ''67''" "showNat 68 = ''68''"
  by code_simp+

lemma rulesetTemplate_lines: "rulesetTemplate (dotted ip) tun leak = unlines (scriptLines (fullTable ip tun leak))"
  by (simp add: rulesetTemplate_def scriptLines_def fullTable_def showRule_def showNat_consts)

lemma captiveTemplate_lines: "captiveRulesetTemplate (dotted gw) = unlines (scriptLines (captiveTable gw))"
  by (simp add: captiveRulesetTemplate_def scriptLines_def captiveTable_def showRule_def showNat_consts)

section \<open>What an activation installs\<close>

lemma validTunName_chars:
  assumes "validTunName s" and "c \<in> set s"
  shows "c \<noteq> CHR 0x0A" and "c \<noteq> CHR 0x22"
proof -
  obtain x xs where s: "s = x # xs" using assms(1) by (cases s) (auto simp: validTunName_def)
  have "isAlnum c \<or> c = CHR ''_'' \<or> c = CHR ''.'' \<or> c = CHR ''-''"
    using assms by (auto simp: validTunName_def s list_all_iff)
  then show "c \<noteq> CHR 0x0A" "c \<noteq> CHR 0x22" by (auto simp: isAlnum_def isDigit_def Let_def)
qed

lemma dotted_chars: "c \<in> set (dotted ip) \<Longrightarrow> isDigit c \<or> c = CHR ''.''"
proof -
  have "set (joinWith ''.'' ws) \<subseteq> {c. isDigit c \<or> c = CHR ''.''}" if "\<forall>w \<in> set ws. list_all isDigit w" for ws
    using that by (induction ws rule: induct_list012) (auto simp: list_all_iff)
  from this [of "map (\<lambda>b. showNat (unat b)) ip"] show "c \<in> set (dotted ip) \<Longrightarrow> isDigit c \<or> c = CHR ''.''"
    by (auto simp: dotted_def)
qed

lemma newline_not_dotted: "CHR 0x0A \<notin> set (dotted ip)"
  using dotted_chars [of "CHR 0x0A" ip] by (auto simp: isDigit_def)

lemma fullLines_no_newline:
  assumes "validTunName tun" and "l \<in> set (scriptLines (fullTable ip tun leak))"
  shows "CHR 0x0A \<notin> set l"
proof -
  have "CHR 0x0A \<notin> set tun" using validTunName_chars(1) [OF assms(1)] by blast
  then show ?thesis using assms(2) newline_not_dotted [of ip]
    by (auto simp: scriptLines_def fullTable_def showRule_def quoted_def showNat_consts split: if_splits)
qed

lemma activate_ok:
  assumes "activateLocked env ap fw k = (None, fw', k')"
  shows "neFound env \<and> neProbe env \<and> neApply env \<and> \<not> neDropped env \<and> neList env \<and>
    (\<exists>script. renderParams fw ap = Some script \<and> k' = Some script) \<and>
    fw' = fw\<lparr>lastParams := Some ap, fwSnapshot := Some (snapshotForMode (apMode ap)), fwWatching := True\<rparr>"
  using assms
  by (auto simp: activateLocked_def isActiveLocked_def Let_def split: if_splits option.splits sum.splits bool.splits)

lemma activate_error:
  assumes "activateLocked env ap fw k = (Some e, fw', k')"
  shows "fw' = fw \<and> (k' = k \<or> neDropped env \<and> k' = None \<or> (\<exists>script. renderParams fw ap = Some script \<and> k' = Some script))"
  using assms
  by (auto simp: activateLocked_def isActiveLocked_def Let_def split: if_splits option.splits sum.splits bool.splits)



section \<open>What the watchdog sees\<close>

definition liveListing :: "string \<Rightarrow> string list \<Rightarrow> string \<Rightarrow> string list \<Rightarrow> string" where
  \<comment> \<open>a listing of the table with these hook lines and rules\<close>
  "liveListing hook1 rules1 hook2 rules2 = unlines
     ([''table inet levoile {'', CHR 0x09 # ''chain input {'', CHR 0x09 # CHR 0x09 # hook1] @ rules1 @
      [CHR 0x09 # ''}'', [], CHR 0x09 # ''chain output {'', CHR 0x09 # CHR 0x09 # hook2] @ rules2 @
      [CHR 0x09 # ''}'', ''}''])"

text \<open>
  The watchdog raises the alarm on a listing with both chains exactly when fewer rules are left
  than the floor of the mode, and always when the table is gone. It does not look at the policy of
  the chains: a third party that sets both to accept, which lets every packet out, goes unnoticed,
  and so do two removed rules of the full mode.
\<close>

theorem watchdog_only_counts_rules:
  assumes "\<forall>l \<in> set rules1 \<union> set rules2. isRuleLine l \<and> CHR 0x0A \<notin> set l"
    and "\<forall>h \<in> {CHR 0x09 # CHR 0x09 # hook1, CHR 0x09 # CHR 0x09 # hook2}. \<not> isRuleLine h \<and> CHR 0x0A \<notin> set h"
  shows "(wdCheck (Some (liveListing hook1 rules1 hook2 rules2)) (snapshotForMode mode) \<longleftrightarrow>
      (case mode of ModeFull \<Rightarrow> 6 | ModeCaptive \<Rightarrow> 4) \<le> length rules1 + length rules2) \<and>
    \<not> wdCheck None (snapshotForMode mode) \<and>
    length (inRules (fullTable ip tun False)) + length (outRules (fullTable ip tun False)) = 8"
proof -
  let ?L = "[''table inet levoile {'', CHR 0x09 # ''chain input {'', CHR 0x09 # CHR 0x09 # hook1] @ rules1 @
      [CHR 0x09 # ''}'', [], CHR 0x09 # ''chain output {'', CHR 0x09 # CHR 0x09 # hook2] @ rules2 @
      [CHR 0x09 # ''}'', ''}'']"
  let ?body = "liveListing hook1 rules1 hook2 rules2"
  have sp: "splitOn CHR 0x0A ?body = ?L @ [[]]"
    unfolding liveListing_def by (rule splitOn_unlines) (use assms in auto)
  have no: "\<not> isRuleLine ''table inet levoile {''" "\<not> isRuleLine (CHR 0x09 # ''chain input {'')"
    "\<not> isRuleLine (CHR 0x09 # ''}'')" "\<not> isRuleLine []" "\<not> isRuleLine (CHR 0x09 # ''chain output {'')" "\<not> isRuleLine ''}''"
    by code_simp+
  have n: "length (filter isRuleLine (splitOn CHR 0x0A ?body)) = length rules1 + length rules2"
    unfolding sp using assms no by (simp add: filter_id_conv [THEN iffD2])
  have c1: "ContainsStr ?body (''chain '' @ ''input'' @ '' '')"
    using ContainsStr_append [of "''table inet levoile {'' @ [CHR 0x0A, CHR 0x09]" "''chain '' @ ''input'' @ '' ''"
        "CHR ''{'' # CHR 0x0A # unlines (drop 2 ?L)"] by (simp add: liveListing_def)
  have c2: "ContainsStr ?body (''chain '' @ ''output'' @ '' '')"
    using ContainsStr_append [of "unlines ([''table inet levoile {'', CHR 0x09 # ''chain input {'', CHR 0x09 # CHR 0x09 # hook1] @ rules1 @
          [CHR 0x09 # ''}'', []]) @ [CHR 0x09]" "''chain '' @ ''output'' @ '' ''"
        "CHR ''{'' # CHR 0x0A # unlines ((CHR 0x09 # CHR 0x09 # hook2) # rules2 @ [CHR 0x09 # ''}'', ''}''])"]
    by (simp add: liveListing_def)
  show ?thesis
    using n c1 c2 by (cases mode) (simp_all add: wdCheck_def snapshotForMode_def fullTable_def)
qed

theorem watchdog_only_counts_rules_witness:
  "wdCheck (Some (liveListing ''policy accept;'' (replicate 3 ''x accept'') ''policy accept;'' (replicate 3 ''x accept'')))
     (snapshotForMode ModeFull)"
proof -
  have r: "isRuleLine ''x accept''" by code_simp
  have h: "\<not> isRuleLine (CHR 0x09 # CHR 0x09 # ''policy accept;'')" by code_simp
  show ?thesis
    using watchdog_only_counts_rules [of "replicate 3 ''x accept''" "replicate 3 ''x accept''" "''policy accept;''"
        "''policy accept;''" ModeFull] r h by simp
qed

section \<open>The interface that the service relies on\<close>

locale atomic_firewall =
  fixes activate :: "'env \<Rightarrow> 'params \<Rightarrow> 'fw \<Rightarrow> 'kernel \<Rightarrow> 'err option \<times> 'fw \<times> 'kernel"
    and undisturbed :: "'env \<Rightarrow> bool"
    and enforced :: "'kernel \<Rightarrow> bool"
  assumes success: "activate env ap fw k = (None, fw', k') \<Longrightarrow> enforced k'"
    and failure: "activate env ap fw k = (Some e, fw', k') \<Longrightarrow> undisturbed env \<Longrightarrow> enforced k \<Longrightarrow> enforced k'"
begin

lemma keeps: "activate env ap fw k = (r, fw', k') \<Longrightarrow> undisturbed env \<Longrightarrow> enforced k \<Longrightarrow> enforced k'"
  using success failure by (cases r) auto

lemma keeps_snd: "undisturbed env \<Longrightarrow> enforced k \<Longrightarrow> enforced (snd (snd (activate env ap fw k)))"
  using keeps by (metis prod.collapse)

end

interpretation nft: atomic_firewall activateLocked "\<lambda>env. \<not> neDropped env" "\<lambda>k :: kernelTable. k \<noteq> None"
proof unfold_locales
  fix env ap fw k fw' and k' :: kernelTable
  assume "activateLocked env ap fw k = (None, fw', k')"
  from activate_ok [OF this] show "k' \<noteq> None" by auto
next
  fix env ap fw k e fw' and k' :: kernelTable
  assume "activateLocked env ap fw k = (Some e, fw', k')" and "\<not> neDropped env" and "k \<noteq> None"
  with activate_error [OF this(1)] show "k' \<noteq> None" by auto
qed

end
