(* ===== verification/Routing.thy ===== *)
theory Routing
  imports Go_Net
begin

text \<open>
  The Linux route manager (\<^verbatim>\<open>linux/internal/routing/routing_linux.go\<close>): the default route through the
  TUN interface and the relay's own route, both in table 51820, and the rule that makes the kernel
  consult that table first.

  \<open>ipState\<close> is what the kernel holds of them.  A function on the number of the command within an
  operation says whether \<^verbatim>\<open>ip\<close> can run it; a command that can run still fails when it adds what is
  there or deletes what is not.
\<close>

record ipState =
  tabDefault :: "string option"
    \<comment> \<open>the interface of 0.0.0.0/0 in table 51820\<close>
  tabRelay :: "(bytes \<times> bytes \<times> string) option"
    \<comment> \<open>the /32 route: destination, gateway, interface\<close>
  ruleOn :: bool
    \<comment> \<open>the rule of priority 100\<close>
  mainRelay :: "bytes set"
    \<comment> \<open>/32 routes left in the main table by older versions\<close>

record savedRoutes =
  srOrigGateway :: bytes
  srOrigDefaultIface :: string
  srRelayIP :: bytes
  srTUNName :: string

record routeManager =
  rmActive :: bool
  rmSaved :: "savedRoutes option"

definition newRouteManager :: routeManager where
  "newRouteManager = \<lparr>rmActive = False, rmSaved = None\<rparr>"

datatype ipResult = IpOk | IpNoSuch | IpFail

type_synonym ipRuns = "nat \<Rightarrow> bool"

definition flushTable :: "bool \<Rightarrow> ipState \<Rightarrow> ipResult \<times> ipState" where
  "flushTable run s = (if run then (IpOk, s\<lparr>tabDefault := None, tabRelay := None\<rparr>) else (IpFail, s))"

definition addDefault :: "bool \<Rightarrow> string \<Rightarrow> ipState \<Rightarrow> ipResult \<times> ipState" where
  "addDefault run tun s = (if run \<and> tabDefault s = None then (IpOk, s\<lparr>tabDefault := Some tun\<rparr>) else (IpFail, s))"

definition delRule :: "bool \<Rightarrow> ipState \<Rightarrow> ipResult \<times> ipState" where
  "delRule run s =
     (if \<not> run then (IpFail, s) else if ruleOn s then (IpOk, s\<lparr>ruleOn := False\<rparr>) else (IpNoSuch, s))"

definition addRule :: "bool \<Rightarrow> ipState \<Rightarrow> ipResult \<times> ipState" where
  "addRule run s = (if run \<and> \<not> ruleOn s then (IpOk, s\<lparr>ruleOn := True\<rparr>) else (IpFail, s))"

definition delRelay :: "bool \<Rightarrow> bytes \<Rightarrow> ipState \<Rightarrow> ipResult \<times> ipState" where
  "delRelay run relay s =
     (if \<not> run then (IpFail, s)
      else if (case tabRelay s of None \<Rightarrow> False | Some (d, _) \<Rightarrow> d = relay) then (IpOk, s\<lparr>tabRelay := None\<rparr>)
      else (IpNoSuch, s))"

definition addRelay :: "bool \<Rightarrow> bytes \<Rightarrow> bytes \<Rightarrow> string \<Rightarrow> ipState \<Rightarrow> ipResult \<times> ipState" where
  "addRelay run relay gw iface s =
     (if run \<and> (case tabRelay s of None \<Rightarrow> True | Some (d, _) \<Rightarrow> d \<noteq> relay)
      then (IpOk, s\<lparr>tabRelay := Some (relay, gw, iface)\<rparr>) else (IpFail, s))"

definition delMainRelay :: "bool \<Rightarrow> bytes \<Rightarrow> ipState \<Rightarrow> ipResult \<times> ipState" where
  "delMainRelay run relay s =
     (if \<not> run then (IpFail, s)
      else if relay \<in> mainRelay s then (IpOk, s\<lparr>mainRelay := mainRelay s - {relay}\<rparr>) else (IpNoSuch, s))"

datatype rtError = ErrAlreadyActive | ErrRelayNotIPv4 | ErrGatewayResolve | ErrIfaceEmpty | ErrAddDefault | ErrAddRule | ErrAddRelay | ErrTeardown

definition Setup ::
  "ipRuns \<Rightarrow> string \<Rightarrow> bytes \<Rightarrow> bytes \<Rightarrow> string \<Rightarrow> routeManager \<Rightarrow> ipState \<Rightarrow> rtError option \<times> routeManager \<times> ipState" where
  "Setup run tunName relayIP origGateway origIface m s =
     (if rmActive m then (Some ErrAlreadyActive, m, s)
      else if To4 relayIP = [] then (Some ErrRelayNotIPv4, m, s)
      else if To4 origGateway = [] then (Some ErrGatewayResolve, m, s)
      else if origIface = [] then (Some ErrIfaceEmpty, m, s)
      else
        let relay4 = To4 relayIP; gw4 = To4 origGateway;
            m1 = m\<lparr>rmSaved := Some \<lparr>srOrigGateway = gw4, srOrigDefaultIface = origIface, srRelayIP = relay4, srTUNName = tunName\<rparr>\<rparr>;
            m0 = m\<lparr>rmSaved := None\<rparr>;
            s1 = snd (flushTable (run 0) s) in
        case addDefault (run 1) tunName s1 of
          (IpOk, s2) \<Rightarrow>
            (let s3 = snd (delRule (run 2) s2) in
             case addRule (run 3) s3 of
               (IpOk, s4) \<Rightarrow>
                 (let s5 = snd (delRelay (run 4) relay4 s4) in
                  case addRelay (run 5) relay4 gw4 origIface s5 of
                    (IpOk, s6) \<Rightarrow> (None, m1\<lparr>rmActive := True\<rparr>, s6)
                  | (_, s6) \<Rightarrow> (Some ErrAddRelay, m0, snd (flushTable (run 7) (snd (delRule (run 6) s6)))))
             | (_, s4) \<Rightarrow> (Some ErrAddRule, m0, snd (flushTable (run 4) s4)))
        | (_, s2) \<Rightarrow> (Some ErrAddDefault, m0, s2))"

definition Teardown :: "ipRuns \<Rightarrow> routeManager \<Rightarrow> ipState \<Rightarrow> rtError option \<times> routeManager \<times> ipState" where
  "Teardown run m s =
     (if \<not> rmActive m then (None, m, s)
      else
        let (r1, s1) = delRule (run 0) s;
            (r2, s2) = flushTable (run 1) s1;
            (r3, s3) = (case rmSaved m of None \<Rightarrow> (IpOk, s2) | Some sv \<Rightarrow> delMainRelay (run 2) (srRelayIP sv) s2)
        in (if r1 = IpFail \<or> r2 \<noteq> IpOk \<or> r3 = IpFail then Some ErrTeardown else None,
            m\<lparr>rmActive := False, rmSaved := None\<rparr>, s3))"

definition routeCleanup :: "ipRuns \<Rightarrow> ipState \<Rightarrow> ipState" where
  \<comment> \<open>\<^verbatim>\<open>Cleanup\<close>: two listings and the commands they call for\<close>
  "routeCleanup run s =
     (let s1 = (if run 0 \<and> ruleOn s then snd (delRule (run 1) s) else s)
      in if run 2 \<and> (tabDefault s1 \<noteq> None \<or> tabRelay s1 \<noteq> None) then snd (flushTable (run 3) s1) else s1)"

fun scanRoute :: "string list \<Rightarrow> bytes option \<Rightarrow> string \<Rightarrow> bytes option \<times> string" where
  \<comment> \<open>the loop over the fields; the last \<^verbatim>\<open>via\<close> and the last \<^verbatim>\<open>dev\<close> win\<close>
  "scanRoute (f # g # fs) gateway iface =
     scanRoute (g # fs) (if f = ''via'' then ParseIP g else gateway) (if f = ''dev'' then g else iface)"
| "scanRoute _ gateway iface = (gateway, iface)"

definition CaptureOriginalRoute :: "string option \<Rightarrow> (bytes \<times> string) option" where
  \<comment> \<open>on the output of \<^verbatim>\<open>ip route show default\<close>\<close>
  "CaptureOriginalRoute out =
     (case out of
        None \<Rightarrow> None
      | Some text \<Rightarrow>
          (case scanRoute (wordsOf text) None [] of
             (None, _) \<Rightarrow> None
           | (Some gw, iface) \<Rightarrow> if iface = [] then None else Some (To4 gw, iface)))"

section \<open>Where packets go\<close>

datatype hop = ViaTun string | ViaGateway bytes string | MainTable

definition routeOf :: "ipState \<Rightarrow> bytes \<Rightarrow> hop" where
  \<comment> \<open>the longest prefix of table 51820 first, if the rule is on\<close>
  "routeOf s dst =
     (if \<not> ruleOn s then MainTable
      else case tabRelay s of
        Some (d, gw, iface) \<Rightarrow>
          if d = dst then ViaGateway gw iface
          else (case tabDefault s of None \<Rightarrow> MainTable | Some tun \<Rightarrow> ViaTun tun)
      | None \<Rightarrow> (case tabDefault s of None \<Rightarrow> MainTable | Some tun \<Rightarrow> ViaTun tun))"

lemma setup_ok:
  assumes "Setup run tun relay gw iface m s = (None, m', s')"
  shows "rmActive m' \<and> To4 relay \<noteq> [] \<and> ruleOn s' \<and> tabDefault s' = Some tun \<and>
    tabRelay s' = Some (To4 relay, To4 gw, iface) \<and> mainRelay s' = mainRelay s \<and>
    rmSaved m' = Some \<lparr>srOrigGateway = To4 gw, srOrigDefaultIface = iface, srRelayIP = To4 relay, srTUNName = tun\<rparr>"
  using assms
  by (auto simp: Setup_def Let_def flushTable_def addDefault_def addRule_def addRelay_def delRule_def delRelay_def
      split: if_splits ipResult.splits prod.splits)

lemma setup_error_inactive:
  assumes "Setup run tun relay gw iface m s = (Some e, m', s')"
  shows "rmActive m' = rmActive m"
  using assms
  by (auto simp: Setup_def Let_def split: if_splits ipResult.splits prod.splits)

text \<open>
  Routing is all or nothing. After a successful setup every destination but the relay goes to the
  TUN interface and the relay goes through the original gateway; after a failed one, from a state
  without the rule and with a rollback that can run, every destination is routed as before. A
  teardown whose commands can run puts everything back and a second one changes nothing.
\<close>

theorem routing_all_or_nothing:
  assumes "\<not> rmActive m" and "\<not> ruleOn s" and "Setup run tun relay gw iface m s = (r, m', s')"
    and "run 6" and "run 7"
    and "run' 0" and "run' 1" and "run' 2" and "Teardown run' m' s' = (r2, m2, s2)"
  shows "(r = None \<longrightarrow>
      (\<forall>dst. routeOf s' dst = (if dst = To4 relay then ViaGateway (To4 gw) iface else ViaTun tun)) \<and>
      r2 = None \<and> tabDefault s2 = None \<and> tabRelay s2 = None \<and> To4 relay \<notin> mainRelay s2) \<and>
    (r \<noteq> None \<longrightarrow> (\<forall>dst. routeOf s' dst = MainTable) \<and> \<not> rmActive m' \<and> s2 = s') \<and>
    (\<forall>dst. routeOf s2 dst = MainTable) \<and> Teardown run'' m2 s2 = (None, m2, s2)"
proof (cases r)
  case None
  with assms(3) setup_ok [of run tun relay gw iface m s m' s']
  have ok: "rmActive m'" "ruleOn s'" "tabDefault s' = Some tun" "tabRelay s' = Some (To4 relay, To4 gw, iface)"
    "rmSaved m' = Some \<lparr>srOrigGateway = To4 gw, srOrigDefaultIface = iface, srRelayIP = To4 relay, srTUNName = tun\<rparr>"
    by auto
  from ok assms(6-9) have t: "r2 = None" "\<not> rmActive m2" "\<not> ruleOn s2" "tabDefault s2 = None" "tabRelay s2 = None"
    "To4 relay \<notin> mainRelay s2"
    by (auto simp: Teardown_def delRule_def flushTable_def delMainRelay_def Let_def split: if_splits)
  have "routeOf s' dst = (if dst = To4 relay then ViaGateway (To4 gw) iface else ViaTun tun)" for dst
    using ok by (simp add: routeOf_def)
  with t None show ?thesis by (simp add: routeOf_def Teardown_def)
next
  case (Some e)
  have off: "\<not> ruleOn s'"
    using assms(1-5) Some
    by (auto simp: Setup_def Let_def flushTable_def addDefault_def addRule_def addRelay_def delRule_def delRelay_def
        split: if_splits ipResult.splits prod.splits option.splits)
  have "\<not> rmActive m'" using setup_error_inactive [of run tun relay gw iface m s e m' s'] assms(1,3) Some by simp
  with assms(9) off Some show ?thesis by (auto simp: routeOf_def Teardown_def)
qed

theorem routing_all_or_nothing_witness:
  "routeOf (snd (snd (Setup (\<lambda>_. True) ''levoile0'' [9, 9, 9, 9] [10, 0, 0, 1] ''eth0'' newRouteManager
      \<lparr>tabDefault = None, tabRelay = None, ruleOn = False, mainRelay = {}\<rparr>))) [8, 8, 8, 8] = ViaTun ''levoile0''"
proof -
  let ?s = "\<lparr>tabDefault = None, tabRelay = None, ruleOn = False, mainRelay = {}\<rparr>"
  obtain r m' s' where s: "Setup (\<lambda>_. True) ''levoile0'' [9, 9, 9, 9] [10, 0, 0, 1] ''eth0'' newRouteManager ?s = (r, m', s')"
    by (metis prod_cases3)
  then have "r = None"
    by (auto simp: Setup_def newRouteManager_def flushTable_def addDefault_def addRule_def addRelay_def delRule_def delRelay_def Let_def)
  obtain r2 m2 s2 where t: "Teardown (\<lambda>_. True) m' s' = (r2, m2, s2)" by (metis prod_cases3)
  from routing_all_or_nothing [OF _ _ s _ _ _ _ _ t] \<open>r = None\<close> s show ?thesis by (simp add: newRouteManager_def)
qed

end
