(* ===== verification/Captive.thy ===== *)
theory Captive
  imports Go_Strings
begin

text \<open>
  The captive portal probe (\<^verbatim>\<open>internal/captive/probe.go\<close>).  What the network answers to a URL is the
  argument \<open>get\<close>: the status and the body, or \<open>None\<close> for an error.
\<close>

datatype probeResult = NoPortal | PortalDetected | ProbeError

record probeDetail =
  pdResult :: probeResult
  pdURL :: string
  pdStatus :: nat

definition DefaultProbeURLs :: "string list" where
  "DefaultProbeURLs = [''http://captive.apple.com/hotspot-detect.html'', ''http://connectivitycheck.gstatic.com/generate_204'']"

definition probeOne :: "(string \<Rightarrow> (nat \<times> string) option) \<Rightarrow> string \<Rightarrow> probeDetail" where
  "probeOne get url =
     (case get url of
        None \<Rightarrow> \<lparr>pdResult = ProbeError, pdURL = url, pdStatus = 0\<rparr>
      | Some (status, body) \<Rightarrow>
          let bodyStr = TrimSpace (take 4096 body);
              d = (\<lambda>ok. \<lparr>pdResult = (if ok then NoPortal else PortalDetected), pdURL = url, pdStatus = status\<rparr>)
          in
          if 300 \<le> status \<and> status < 400 then d False
          else if ContainsStr url ''captive.apple.com'' then d (status = 200 \<and> ContainsStr bodyStr ''Success'')
          else if ContainsStr url ''generate_204'' then d (status = 204)
          else d (status = 200))"

fun probeUntil :: "(string \<Rightarrow> (nat \<times> string) option) \<Rightarrow> string list \<Rightarrow> probeDetail \<Rightarrow> probeDetail" where
  "probeUntil get [] lastDetail = lastDetail"
| "probeUntil get (u # us) lastDetail =
     (let detail = probeOne get u in
      if pdResult detail \<noteq> ProbeError then detail else probeUntil get us detail)"

definition Probe :: "(string \<Rightarrow> (nat \<times> string) option) \<Rightarrow> string list \<Rightarrow> probeDetail" where
  \<comment> \<open>the zero value of a detail is never returned: the list is not empty\<close>
  "Probe get urls =
     probeUntil get (if urls = [] then DefaultProbeURLs else urls) \<lparr>pdResult = NoPortal, pdURL = [], pdStatus = 0\<rparr>"

text \<open>
  The probe takes the first URL that gets an answer, and an error only if none does.
\<close>

lemma probeUntil_result:
  assumes "us \<noteq> []"
  shows "pdResult (probeUntil get us d) = ProbeError \<longleftrightarrow> (\<forall>u \<in> set us. get u = None)"
  using assms
proof (induction us arbitrary: d)
  case (Cons u us)
  have p: "pdResult (probeOne get u) = ProbeError \<longleftrightarrow> get u = None"
    by (auto simp: probeOne_def Let_def split: option.splits)
  show ?case
  proof (cases "us = []")
    case True
    then show ?thesis using p by (simp add: Let_def)
  next
    case False
    then show ?thesis using Cons.IH [of "probeOne get u"] p by (cases "get u") (simp_all add: Let_def)
  qed
qed simp

lemma Probe_error_iff:
  "pdResult (Probe get urls) = ProbeError \<longleftrightarrow> (\<forall>u \<in> set (if urls = [] then DefaultProbeURLs else urls). get u = None)"
  unfolding Probe_def by (rule probeUntil_result) (simp add: DefaultProbeURLs_def)

end
