(* ===== verification/Protection.thy ===== *)
theory Protection
  imports Firewall Routing Captive
begin

text \<open>
  The part of the Linux daemon (\<^verbatim>\<open>linux/internal/service/killswitch.go\<close> and \<^verbatim>\<open>service.go\<close>) that keeps
  the traffic inside the tunnel: the start sequence up to the connection, the kill-switch mode, the
  recovery of the TUN interface, the change of relay, the reaction to an altered ruleset, and the
  teardown.

  The state \<open>l3\<close> holds the fields of \<^verbatim>\<open>Program\<close> that these operations use and what the kernel
  holds; every operation gets, as arguments, how the commands it runs end.  \<open>l3Indeterminate\<close> records that
  the daemon logged a failed rollback.
\<close>

record l3 =
  cfTUNEnabled :: bool
  cfFirewallEnabled :: bool
  cfAllowIPv6Leak :: bool
  cfCaptiveEnabled :: bool
  cfCaptiveURLs :: "string list"
  l3Captive :: bool
  l3Tun :: "string option"
  l3RelayIP :: "bytes option"
  l3Fw :: "nftFirewall option"
  l3Route :: "routeManager option"
  l3Altered :: bool
  l3Indeterminate :: bool
  l3Kernel :: kernelTable
  l3Routes :: ipState

section \<open>The kill-switch mode\<close>

datatype ksMode = KillSwitchModeNormal | KillSwitchModeDegraded

datatype svcError =
    ErrKillSwitchInvalidMode | ErrKillSwitchCaptiveActive | ErrKillSwitchNotConnected | ErrKsDeactivate
  | ErrKsActivate | ErrKsPersist | ErrSecurityPolicyLocked | ErrIPv6Policy | ErrTunNew | ErrCtxDone
  | ErrReconfigureIP | ErrReconfigureFirewall | ErrReconfigureRoute | ErrReconfigureSetup | ErrTunnelConnect

definition KillSwitchMode :: "l3 \<Rightarrow> ksMode" where
  "KillSwitchMode p = (if cfFirewallEnabled p then KillSwitchModeNormal else KillSwitchModeDegraded)"

definition fullParams :: "bytes \<Rightarrow> string \<Rightarrow> activateParams" where
  "fullParams relay tun = \<lparr>apMode = ModeFull, apRelayIP = Some relay, apTunName = tun, apLanGateway = None\<rparr>"

definition applyFirewallForModeLocked :: "nftEnv \<Rightarrow> bool \<Rightarrow> l3 \<Rightarrow> svcError option \<times> l3" where
  "applyFirewallForModeLocked env desired p =
     (if \<not> desired then
        (case l3Fw p of
           None \<Rightarrow> (None, p)
         | Some fw \<Rightarrow>
             (case fwDeactivate env fw (l3Kernel p) of
                (e, fw', k') \<Rightarrow>
                  (if e = None then None else Some ErrKsDeactivate, p\<lparr>l3Fw := Some fw', l3Kernel := k'\<rparr>)))
      else case l3Tun p of
        None \<Rightarrow> (Some ErrKillSwitchNotConnected, p)
      | Some tun \<Rightarrow>
          (case l3RelayIP p of
             None \<Rightarrow> (Some ErrKillSwitchNotConnected, p)
           | Some relay \<Rightarrow>
               let fw = (case l3Fw p of Some fw \<Rightarrow> fw | None \<Rightarrow> newFirewall (cfAllowIPv6Leak p)) in
               (case activateLocked env (fullParams relay tun) fw (l3Kernel p) of
                  (Some _, fw', k') \<Rightarrow>
                    (Some ErrKsActivate, p\<lparr>l3Fw := (if l3Fw p = None then None else Some fw'), l3Kernel := k'\<rparr>)
                | (None, fw', k') \<Rightarrow> (None, p\<lparr>l3Fw := Some fw', l3Kernel := k'\<rparr>))))"

definition SetKillSwitchMode :: "nftEnv \<Rightarrow> nftEnv \<Rightarrow> bool \<Rightarrow> ksMode option \<Rightarrow> l3 \<Rightarrow> svcError option \<times> l3" where
  \<comment> \<open>the commands of the transition and of the rollback, whether the flag is written; an unknown mode is \<open>None\<close>\<close>
  "SetKillSwitchMode env rbEnv persistOk mode p =
     (case mode of
        None \<Rightarrow> (Some ErrKillSwitchInvalidMode, p)
      | Some md \<Rightarrow>
          if l3Captive p then (Some ErrKillSwitchCaptiveActive, p)
          else
            let previous = cfFirewallEnabled p; desired = (md = KillSwitchModeNormal) in
            if previous = desired then (None, p)
            else case applyFirewallForModeLocked env desired p of
              (Some e, p1) \<Rightarrow> (Some e, p1)
            | (None, p1) \<Rightarrow>
                (let p2 = p1\<lparr>cfFirewallEnabled := desired\<rparr> in
                 if persistOk then (None, p2)
                 else case applyFirewallForModeLocked rbEnv previous p2 of
                   (rb, p3) \<Rightarrow>
                     (Some ErrKsPersist,
                      p3\<lparr>cfFirewallEnabled := previous, l3Indeterminate := l3Indeterminate p3 \<or> rb \<noteq> None\<rparr>)))"

definition MaybeRestoreKillSwitch :: "nftEnv \<Rightarrow> nftEnv \<Rightarrow> bool \<Rightarrow> l3 \<Rightarrow> l3" where
  "MaybeRestoreKillSwitch env rbEnv persistOk p =
     (if l3Captive p then p
      else if KillSwitchMode p = KillSwitchModeNormal then p
      else snd (SetKillSwitchMode env rbEnv persistOk (Some KillSwitchModeNormal) p))"

definition SetAllowIPv6Leak :: "bool \<Rightarrow> nftEnv \<Rightarrow> bool \<Rightarrow> l3 \<Rightarrow> svcError option \<times> l3" where
  \<comment> \<open>whether the policy is locked, the commands, the new policy\<close>
  "SetAllowIPv6Leak locked env allow p =
     (if locked then (Some ErrSecurityPolicyLocked, p)
      else case l3Fw p of
        None \<Rightarrow> (None, p\<lparr>cfAllowIPv6Leak := allow\<rparr>)
      | Some fw \<Rightarrow>
          (case SetIPv6Policy env allow fw (l3Kernel p) of
             (Some _, fw', k') \<Rightarrow> (Some ErrIPv6Policy, p\<lparr>l3Fw := Some fw', l3Kernel := k'\<rparr>)
           | (None, fw', k') \<Rightarrow> (None, p\<lparr>l3Fw := Some fw', l3Kernel := k', cfAllowIPv6Leak := allow\<rparr>)))"

section \<open>Recovery\<close>

record recEnv =
  reTun :: bool
    \<comment> \<open>the interface can be created\<close>
  reCtx :: bool
    \<comment> \<open>the service is still running after its creation\<close>
  reNft :: nftEnv
  reTeardown :: ipRuns
  reCleanup :: ipRuns
  reCapture :: "string option"
  reSetup :: ipRuns
  reConnect :: bool

definition recoverClose :: "l3 \<Rightarrow> string \<times> l3" where
  \<comment> \<open>the first critical section: the name to use, the old device closed\<close>
  "recoverClose p = (case l3Tun p of None \<Rightarrow> ''levoile0'' | Some n \<Rightarrow> n, p\<lparr>l3Tun := None\<rparr>)"

definition recoverCreate :: "recEnv \<Rightarrow> string \<Rightarrow> l3 \<Rightarrow> svcError option \<times> l3" where
  "recoverCreate env name p =
     (if \<not> reTun env then (Some ErrTunNew, p)
      else if \<not> reCtx env then (Some ErrCtxDone, p)
      else (None, p\<lparr>l3Tun := Some name\<rparr>))"

definition recoverFirewall :: "recEnv \<Rightarrow> string \<Rightarrow> l3 \<Rightarrow> l3" where
  "recoverFirewall env name p =
     (case l3RelayIP p of
        None \<Rightarrow> p
      | Some relay \<Rightarrow>
          if \<not> cfFirewallEnabled p then p
          else
            let fw = (case l3Fw p of Some fw \<Rightarrow> fw | None \<Rightarrow> newFirewall (cfAllowIPv6Leak p)) in
            (case activateLocked (reNft env) (fullParams relay name) fw (l3Kernel p) of
               (Some _, fw', k') \<Rightarrow> p\<lparr>l3Fw := (if l3Fw p = None then None else Some fw'), l3Kernel := k'\<rparr>
             | (None, fw', k') \<Rightarrow> p\<lparr>l3Fw := Some fw', l3Kernel := k'\<rparr>))"

definition teardownRoutes :: "ipRuns \<Rightarrow> l3 \<Rightarrow> l3" where
  "teardownRoutes run p =
     (case l3Route p of
        None \<Rightarrow> p
      | Some rm \<Rightarrow> (case Teardown run rm (l3Routes p) of (_, _, s) \<Rightarrow> p\<lparr>l3Route := None, l3Routes := s\<rparr>))"

definition recoverRoutes :: "recEnv \<Rightarrow> string \<Rightarrow> l3 \<Rightarrow> l3" where
  "recoverRoutes env name p =
     (let p1 = teardownRoutes (reTeardown env) p in
      case l3RelayIP p of
        None \<Rightarrow> p1
      | Some relay \<Rightarrow>
          (let p2 = p1\<lparr>l3Routes := routeCleanup (reCleanup env) (l3Routes p1)\<rparr> in
           case CaptureOriginalRoute (reCapture env) of
             None \<Rightarrow> p2
           | Some (gw, iface) \<Rightarrow>
               (case Setup (reSetup env) name relay gw iface newRouteManager (l3Routes p2) of
                  (None, rm, s) \<Rightarrow> p2\<lparr>l3Route := Some rm, l3Routes := s\<rparr>
                | (Some _, _, s) \<Rightarrow> p2\<lparr>l3Routes := s\<rparr>)))"

definition recoverTUN :: "recEnv \<Rightarrow> l3 \<Rightarrow> svcError option \<times> l3" where
  "recoverTUN env p =
     (case recoverClose p of
        (name, p1) \<Rightarrow>
          (case recoverCreate env name p1 of
             (Some e, p2) \<Rightarrow> (Some e, p2)
           | (None, p2) \<Rightarrow>
               (if reConnect env then None else Some ErrTunnelConnect,
                recoverRoutes env name (recoverFirewall env name p2))))"

definition firewallAlteredEvent :: "nftEnv \<Rightarrow> nftEnv \<Rightarrow> l3 \<Rightarrow> l3" where
  \<comment> \<open>\<^verbatim>\<open>watchFirewallAltered\<close> on an event: the commands of the deactivation and of the activation\<close>
  "firewallAlteredEvent denv aenv p =
     (let p0 = p\<lparr>l3Altered := True\<rparr> in
      case l3Fw p0 of
        None \<Rightarrow> p0
      | Some fw \<Rightarrow>
          (case fwDeactivate denv fw (l3Kernel p0) of
             (_, fw1, k1) \<Rightarrow>
               (let p1 = p0\<lparr>l3Fw := Some fw1, l3Kernel := k1\<rparr> in
                case (l3RelayIP p0, l3Tun p0) of
                  (Some relay, Some tun) \<Rightarrow>
                    if tun = [] then p1
                    else (case activateLocked aenv (fullParams relay tun) fw1 k1 of
                       (Some _, fw2, k2) \<Rightarrow> p1\<lparr>l3Fw := Some fw2, l3Kernel := k2\<rparr>
                     | (None, fw2, k2) \<Rightarrow> p1\<lparr>l3Fw := Some fw2, l3Kernel := k2, l3Altered := False\<rparr>)
                | _ \<Rightarrow> p1)))"

definition reconfigureFirewall :: "recEnv \<Rightarrow> bytes \<Rightarrow> l3 \<Rightarrow> fwError option \<times> l3" where
  "reconfigureFirewall env ip4 p =
     (if \<not> cfFirewallEnabled p then (None, p)
      else case (l3Fw p, l3Tun p) of
        (Some fw, Some tun) \<Rightarrow>
          (case activateLocked (reNft env) (fullParams ip4 tun) fw (l3Kernel p) of
             (r, fw', k') \<Rightarrow> (r, p\<lparr>l3Fw := Some fw', l3Kernel := k'\<rparr>))
      | _ \<Rightarrow> (None, p))"

definition reconfigureRoutes :: "recEnv \<Rightarrow> bytes \<Rightarrow> l3 \<Rightarrow> svcError option \<times> l3" where
  "reconfigureRoutes env ip4 p =
     (let p3 = teardownRoutes (reTeardown env) p in
      case l3Tun p3 of
        None \<Rightarrow> (None, p3)
      | Some tun \<Rightarrow>
          (let p4 = p3\<lparr>l3Routes := routeCleanup (reCleanup env) (l3Routes p3)\<rparr> in
           case CaptureOriginalRoute (reCapture env) of
             None \<Rightarrow> (Some ErrReconfigureRoute, p4)
           | Some (gw, iface) \<Rightarrow>
               (case Setup (reSetup env) tun ip4 gw iface newRouteManager (l3Routes p4) of
                  (None, rm, s) \<Rightarrow> (None, p4\<lparr>l3Route := Some rm, l3Routes := s\<rparr>)
                | (Some _, _, s) \<Rightarrow> (Some ErrReconfigureSetup, p4\<lparr>l3Routes := s\<rparr>))))"

definition ReconfigureForRelay :: "recEnv \<Rightarrow> bytes option \<Rightarrow> l3 \<Rightarrow> svcError option \<times> l3" where
  "ReconfigureForRelay env newRelayIP p =
     (case newRelayIP of
        None \<Rightarrow> (Some ErrReconfigureIP, p)
      | Some ip \<Rightarrow>
          if To4 ip = [] then (Some ErrReconfigureIP, p)
          else case reconfigureFirewall env (To4 ip) (p\<lparr>l3RelayIP := Some (To4 ip)\<rparr>) of
            (Some _, p2) \<Rightarrow> (Some ErrReconfigureFirewall, p2)
          | (None, p2) \<Rightarrow> reconfigureRoutes env (To4 ip) p2)"

section \<open>The start sequence and the teardown\<close>

record startEnv =
  seGet :: "string \<Rightarrow> (nat \<times> string) option"
    \<comment> \<open>what the network answers to the captive probe\<close>
  seGateway :: "string option"
    \<comment> \<open>the route listing at that time\<close>
  seReprobes :: "(string \<Rightarrow> (nat \<times> string) option) list"
    \<comment> \<open>what it answers to the later probes, until the service stops\<close>
  seCaptiveNft :: nftEnv
  seTun :: bool
  seCleanup :: ipRuns
  seRelayIPs :: "bytes list"
    \<comment> \<open>the addresses of the relay, empty if it does not resolve\<close>
  seCapture :: "string option"
  seSetup :: ipRuns
  seNft :: nftEnv
  seErrNft :: nftEnv
  seErrTeardown :: ipRuns

fun waitForCaptiveClear :: "string list \<Rightarrow> (string \<Rightarrow> (nat \<times> string) option) list \<Rightarrow> l3 \<Rightarrow> l3" where
  \<comment> \<open>the captive rules are left in place when the portal is cleared\<close>
  "waitForCaptiveClear urls [] p = p"
| "waitForCaptiveClear urls (get # gets) p =
     (if pdResult (Probe get urls) = NoPortal then p\<lparr>l3Captive := False\<rparr> else waitForCaptiveClear urls gets p)"

definition captiveParams :: "bytes \<Rightarrow> activateParams" where
  "captiveParams gw = \<lparr>apMode = ModeCaptive, apRelayIP = None, apTunName = [], apLanGateway = Some gw\<rparr>"

definition captivePhase :: "startEnv \<Rightarrow> l3 \<Rightarrow> l3" where
  "captivePhase env p =
     (if cfCaptiveEnabled p \<and> cfTUNEnabled p \<and> cfFirewallEnabled p \<and>
         pdResult (Probe (seGet env) (cfCaptiveURLs p)) = PortalDetected
      then
        let p1 = p\<lparr>l3Captive := True\<rparr> in
        (case CaptureOriginalRoute (seGateway env) of
           None \<Rightarrow> p1
         | Some (gw, _) \<Rightarrow>
             (case activateLocked (seCaptiveNft env) (captiveParams gw) (newFirewall (cfAllowIPv6Leak p1)) (l3Kernel p1) of
                (Some _, _, k') \<Rightarrow> p1\<lparr>l3Kernel := k'\<rparr>
              | (None, fw', k') \<Rightarrow>
                  waitForCaptiveClear (cfCaptiveURLs p) (seReprobes env) (p1\<lparr>l3Fw := Some fw', l3Kernel := k'\<rparr>)))
      else p)"

definition firstIPv4 :: "bytes list \<Rightarrow> bytes option" where
  "firstIPv4 ips = map_option To4 (List.find (\<lambda>ip. To4 ip \<noteq> []) ips)"

definition routesPhase :: "startEnv \<Rightarrow> string \<Rightarrow> bytes \<Rightarrow> l3 \<Rightarrow> l3" where
  "routesPhase env tunName relay p =
     (case CaptureOriginalRoute (seCapture env) of
        None \<Rightarrow> p
      | Some (gw, iface) \<Rightarrow>
          (case Setup (seSetup env) tunName relay gw iface newRouteManager (l3Routes p) of
             (None, rm, s) \<Rightarrow> p\<lparr>l3Route := Some rm, l3Routes := s\<rparr>
           | (Some _, _, s) \<Rightarrow> p\<lparr>l3Routes := s\<rparr>))"

definition firewallPhase :: "startEnv \<Rightarrow> string \<Rightarrow> bytes \<Rightarrow> l3 \<Rightarrow> l3" where
  "firewallPhase env tunName relay p =
     (if \<not> cfFirewallEnabled p then p
      else let p1 = p\<lparr>l3RelayIP := Some relay\<rparr> in
        (case activateLocked (seNft env) (fullParams relay tunName) (newFirewall (cfAllowIPv6Leak p1)) (l3Kernel p1) of
           (Some _, _, k') \<Rightarrow> p1\<lparr>l3Kernel := k'\<rparr>
         | (None, fw', k') \<Rightarrow> p1\<lparr>l3Fw := Some fw', l3Kernel := k'\<rparr>))"

definition l3Phase :: "startEnv \<Rightarrow> string \<Rightarrow> l3 \<Rightarrow> l3" where
  \<comment> \<open>TUN, routing and firewall\<close>
  "l3Phase env tunName p =
     (if \<not> cfTUNEnabled p \<or> \<not> seTun env then p
      else
        let p1 = p\<lparr>l3Tun := Some tunName, l3Routes := routeCleanup (seCleanup env) (l3Routes p)\<rparr> in
        case firstIPv4 (seRelayIPs env) of
          None \<Rightarrow> p1
        | Some relay \<Rightarrow> firewallPhase env tunName relay (routesPhase env tunName relay p1))"

definition tunCleanup :: "nftEnv \<Rightarrow> ipRuns \<Rightarrow> l3 \<Rightarrow> l3" where
  \<comment> \<open>also the L3 steps of \<^verbatim>\<open>shutdown\<close>: firewall, routes, TUN\<close>
  "tunCleanup env run p =
     (let p1 = (case l3Fw p of
            None \<Rightarrow> p
          | Some fw \<Rightarrow> (case fwDeactivate env fw (l3Kernel p) of (_, _, k') \<Rightarrow> p\<lparr>l3Fw := None, l3Kernel := k'\<rparr>))
      in (teardownRoutes run p1)\<lparr>l3Tun := None\<rparr>)"

definition l3Missing :: "l3 \<Rightarrow> bool" where
  "l3Missing p \<longleftrightarrow>
     l3Tun p = None \<or> l3Route p = None \<or> cfFirewallEnabled p \<and> l3Fw p = None"

definition startL3 :: "startEnv \<Rightarrow> string \<Rightarrow> l3 \<Rightarrow> bool \<times> l3" where
  \<comment> \<open>whether the daemon goes on to connect, and the state; the cleanup is armed once the TUN exists\<close>
  "startL3 env tunName p =
     (let p1 = l3Phase env tunName (captivePhase env p) in
      if cfTUNEnabled p1 \<and> l3Missing p1
      then (False, if seTun env then tunCleanup (seErrNft env) (seErrTeardown env) p1 else p1)
      else (True, p1))"

end
