(* ===== verification/Config.thy ===== *)
theory Config
  imports CtlAuth Protection
begin

text \<open>
  The configuration of the daemon (\<^verbatim>\<open>linux/internal/config\<close>: \<^verbatim>\<open>config.go\<close>, \<^verbatim>\<open>integrity.go\<close>,
  \<^verbatim>\<open>persist.go\<close>) and what \<^verbatim>\<open>linux/cmd/client/main.go\<close> makes of it at the start.  The TOML library, the URL
  parser, the duration parser and HMAC-SHA256 are fields of \<open>configLib\<close>.  Every system call that can
  fail is an argument.
\<close>

section \<open>Data\<close>

record relayConfig =
  rcDomain :: string
  rcPublicKeyEd25519 :: string
  rcInsecure :: bool

record clientConfig =
  ccAutoStart :: bool
  ccPreferredCountry :: string
  ccSkipQuitModal :: bool

record stunConfig =
  scDefaultServer :: string
  scServers :: "string list"
  scLeakcheckInterval :: string

record updateConfig =
  ucEnabled :: bool
  ucCheckInterval :: string
  ucRateLimitKBps :: int
  ucGitHubOwner :: string
  ucGitHubRepo :: string
  ucAllowWhenPackaged :: bool
  ucMaxInstallRetries :: int

record blocklistConfig =
  bcEnabled :: bool
  bcUpdateInterval :: string

record registryConfig =
  gcEnabled :: bool
  gcURL :: string
  gcMasterPublicKey :: string
  gcRefreshInterval :: string
  gcBootstrapDoHEnabled :: bool
  gcDoHUpstreams :: "string list"

record httpProxyConfig =
  hcEnabled :: bool
  hcPort :: int

record tunConfig =
  tcEnabled :: bool
  tcName :: string
  tcMTU :: int

record firewallConfig =
  fcEnableKillSwitch :: bool
  fcAllowIPv6Leak :: bool

record captiveConfig =
  pcEnabled :: bool
  pcProbeURLs :: "string list"

record appConfig =
  cfgRelay :: relayConfig
  cfgClient :: clientConfig
  cfgSTUN :: stunConfig
  cfgUpdate :: updateConfig
  cfgBlocklist :: blocklistConfig
  cfgRegistry :: registryConfig
  cfgHTTPProxy :: httpProxyConfig
  cfgBrowserPolicies :: bool
  cfgTUN :: tunConfig
  cfgFirewall :: firewallConfig
  cfgCaptive :: captiveConfig

record configLib =
  tomlDecode :: "bytes \<Rightarrow> appConfig \<Rightarrow> appConfig option"
  tomlEncode :: "appConfig \<Rightarrow> bytes option"
  urlParse :: "string \<Rightarrow> (string \<times> string) option"
  parseDuration :: "string \<Rightarrow> int option"
  hmacSha256 :: "bytes \<Rightarrow> bytes \<Rightarrow> bytes"

section \<open>Loading\<close>

datatype cfgError =
    CfgDecode | CfgKeyRequired | CfgTunName | CfgTunMTUZero | CfgTunMTURange | CfgTunNameInvalid | CfgUpstream
  | CfgEncode | CfgWrite | CfgPerms | KeyMalformed | KeyAbsent | KeyRead | KeyRand | EmptyKeyPath
  | HMACAbsent | HMACRead | CfgRead | IntegrityMismatch
  | InvalidDuration | RelayKeyRequired | NoStagingDir

definition defaultConfig :: appConfig where
  "defaultConfig =
     \<lparr>cfgRelay = \<lparr>rcDomain = [], rcPublicKeyEd25519 = [], rcInsecure = False\<rparr>,
      cfgClient = \<lparr>ccAutoStart = True, ccPreferredCountry = [], ccSkipQuitModal = False\<rparr>,
      cfgSTUN = \<lparr>scDefaultServer = ''stun.l.google.com:19302'', scServers = [], scLeakcheckInterval = []\<rparr>,
      cfgUpdate = \<lparr>ucEnabled = True, ucCheckInterval = ''6h'', ucRateLimitKBps = 500, ucGitHubOwner = ''velia-the-veil'',
        ucGitHubRepo = ''le_voile'', ucAllowWhenPackaged = False, ucMaxInstallRetries = 3\<rparr>,
      cfgBlocklist = \<lparr>bcEnabled = False, bcUpdateInterval = ''24h''\<rparr>,
      cfgRegistry = \<lparr>gcEnabled = False, gcURL = ''https://levoile.dev'', gcMasterPublicKey = [], gcRefreshInterval = ''6h'',
        gcBootstrapDoHEnabled = True, gcDoHUpstreams = []\<rparr>,
      cfgHTTPProxy = \<lparr>hcEnabled = False, hcPort = 50113\<rparr>,
      cfgBrowserPolicies = True,
      cfgTUN = \<lparr>tcEnabled = True, tcName = ''levoile0'', tcMTU = 1420\<rparr>,
      cfgFirewall = \<lparr>fcEnableKillSwitch = True, fcAllowIPv6Leak = False\<rparr>,
      cfgCaptive = \<lparr>pcEnabled = True, pcProbeURLs = []\<rparr>\<rparr>"

definition isLowerAZ :: "char \<Rightarrow> bool" where
  "isLowerAZ c \<longleftrightarrow> 97 \<le> (of_char c :: nat) \<and> (of_char c :: nat) \<le> 122"

definition tunNameRe :: "string \<Rightarrow> bool" where
  "tunNameRe s \<longleftrightarrow> s \<noteq> [] \<and> isLowerAZ (hd s) \<and> length (tl s) \<le> 14 \<and> list_all (\<lambda>c. isLowerAZ c \<or> isDigit c) (tl s)"

definition upstreamOk :: "configLib \<Rightarrow> string \<Rightarrow> bool" where
  "upstreamOk lib upstream =
     (case urlParse lib upstream of None \<Rightarrow> False | Some (scheme, host) \<Rightarrow> scheme = ''https'' \<and> host \<noteq> [])"

definition normalizeTUN :: "tunConfig \<Rightarrow> tunConfig" where
  \<comment> \<open>\<^verbatim>\<open>legacyMissing\<close>\<close>
  "normalizeTUN t = (if tcName t = [] \<and> tcMTU t = 0 then t\<lparr>tcName := ''levoile0'', tcMTU := 1420\<rparr> else t)"

definition validateConfig :: "configLib \<Rightarrow> appConfig \<Rightarrow> cfgError + appConfig" where
  "validateConfig lib cfg0 =
     (if rcDomain (cfgRelay cfg0) \<noteq> [] \<and> rcPublicKeyEd25519 (cfgRelay cfg0) = [] \<and> \<not> rcInsecure (cfgRelay cfg0)
      then Inl CfgKeyRequired
      else
        let t = normalizeTUN (cfgTUN cfg0); cfg = cfg0\<lparr>cfgTUN := t\<rparr> in
        if tcName t = [] then Inl CfgTunName
        else if tcMTU t = 0 then Inl CfgTunMTUZero
        else if tcMTU t < 576 \<or> tcMTU t > 9000 then Inl CfgTunMTURange
        else if \<not> tunNameRe (tcName t) then Inl CfgTunNameInvalid
        else if \<not> list_all (upstreamOk lib) (gcDoHUpstreams (cfgRegistry cfg)) then Inl CfgUpstream
        else Inr cfg)"

definition ConfigLoad :: "configLib \<Rightarrow> bool \<Rightarrow> string \<Rightarrow> fileStore \<Rightarrow> cfgError + appConfig" where
  "ConfigLoad lib readable path fs =
     (case readStore readable path fs of
        ReadAbsent \<Rightarrow> Inr defaultConfig
      | ReadFailed \<Rightarrow> Inl CfgDecode
      | ReadOk b \<Rightarrow>
          (case tomlDecode lib b defaultConfig of None \<Rightarrow> Inl CfgDecode | Some cfg \<Rightarrow> validateConfig lib cfg))"

section \<open>Writing\<close>

datatype writeEnd = WrFail | WrLoose | WrDone
  \<comment> \<open>nothing reaches the final path; it is replaced but its permissions could not be set; all is well\<close>

definition atomicWrite :: "writeEnd \<Rightarrow> string \<Rightarrow> bytes \<Rightarrow> fileStore \<Rightarrow> cfgError option \<times> fileStore" where
  \<comment> \<open>temporary file, rename, \<^verbatim>\<open>applyRestrictedPerms\<close>\<close>
  "atomicWrite w path data fs =
     (case w of
        WrFail \<Rightarrow> (Some CfgWrite, fs)
      | WrLoose \<Rightarrow> (Some CfgPerms, fs(path \<mapsto> data))
      | WrDone \<Rightarrow> (None, fs(path \<mapsto> data)))"

definition Bootstrap :: "bool \<Rightarrow> writeEnd \<Rightarrow> bytes \<Rightarrow> string \<Rightarrow> fileStore \<Rightarrow> cfgError option \<times> fileStore" where
  \<comment> \<open>whether \<^verbatim>\<open>os.Stat\<close> can tell; the write; the embedded skeleton\<close>
  "Bootstrap statOk w exampleTOML path fs =
     (if \<not> statOk then (Some CfgRead, fs)
      else if fs path \<noteq> None then (None, fs)
      else atomicWrite w path exampleTOML fs)"

definition saveBytes ::
  "configLib \<Rightarrow> writeEnd \<Rightarrow> string \<Rightarrow> appConfig \<Rightarrow> fileStore \<Rightarrow> (cfgError + bytes) \<times> fileStore" where
  "saveBytes lib w path cfg fs =
     (case tomlEncode lib cfg of
        None \<Rightarrow> (Inl CfgEncode, fs)
      | Some encoded \<Rightarrow>
          (case atomicWrite w path encoded fs of
             (Some e, fs') \<Rightarrow> (Inl e, fs') | (None, fs') \<Rightarrow> (Inr encoded, fs')))"

definition ConfigSave ::
  "configLib \<Rightarrow> writeEnd \<Rightarrow> string \<Rightarrow> appConfig \<Rightarrow> fileStore \<Rightarrow> cfgError option \<times> fileStore" where
  "ConfigSave lib w path cfg fs =
     (case saveBytes lib w path cfg fs of (Inl e, fs') \<Rightarrow> (Some e, fs') | (Inr _, fs') \<Rightarrow> (None, fs'))"

definition integrityKeyLen :: nat where "integrityKeyLen = 32"
definition hmacHexLen :: nat where "hmacHexLen = 64"

definition hmacPath :: "string \<Rightarrow> string" where
  "hmacPath path = path @ ''.hmac''"

definition SignBytes ::
  "configLib \<Rightarrow> writeEnd \<Rightarrow> string \<Rightarrow> bytes \<Rightarrow> bytes \<Rightarrow> fileStore \<Rightarrow> cfgError option \<times> fileStore" where
  "SignBytes lib w path contents key fs =
     (if length key \<noteq> integrityKeyLen then (Some KeyMalformed, fs)
      else atomicWrite w (hmacPath path) (bytesOf (hexEncode (hmacSha256 lib key contents))) fs)"

definition ConfigSign ::
  "configLib \<Rightarrow> bool \<Rightarrow> writeEnd \<Rightarrow> string \<Rightarrow> bytes \<Rightarrow> fileStore \<Rightarrow> cfgError option \<times> fileStore" where
  "ConfigSign lib readable w path key fs =
     (case readStore readable path fs of
        ReadOk contents \<Rightarrow> SignBytes lib w path contents key fs
      | _ \<Rightarrow> (Some CfgRead, fs))"

definition SaveAndSign ::
  "configLib \<Rightarrow> writeEnd \<times> writeEnd \<Rightarrow> string \<Rightarrow> bytes \<Rightarrow> appConfig \<Rightarrow> fileStore \<Rightarrow> cfgError option \<times> fileStore" where
  "SaveAndSign lib ws path key cfg fs =
     (case saveBytes lib (fst ws) path cfg fs of
        (Inl e, fs') \<Rightarrow> (Some e, fs')
      | (Inr encoded, fs') \<Rightarrow>
          if key = [] then (None, fs') else SignBytes lib (snd ws) path encoded key fs')"

definition ConfigVerify :: "configLib \<Rightarrow> bool \<Rightarrow> bool \<Rightarrow> string \<Rightarrow> bytes \<Rightarrow> fileStore \<Rightarrow> cfgError option" where
  \<comment> \<open>whether the sidecar and the configuration can be read\<close>
  "ConfigVerify lib readH readC path key fs =
     (if length key \<noteq> integrityKeyLen then Some KeyMalformed
      else case readStore readH (hmacPath path) fs of
        ReadAbsent \<Rightarrow> Some HMACAbsent
      | ReadFailed \<Rightarrow> Some HMACRead
      | ReadOk stored \<Rightarrow>
          if length stored \<noteq> hmacHexLen then Some IntegrityMismatch
          else case readStore readC path fs of
            ReadOk contents \<Rightarrow>
              if stored = bytesOf (hexEncode (hmacSha256 lib key contents)) then None else Some IntegrityMismatch
          | _ \<Rightarrow> Some CfgRead)"

section \<open>The integrity key\<close>

definition loadKey :: "bool \<Rightarrow> string \<Rightarrow> fileStore \<Rightarrow> cfgError + bytes" where
  "loadKey readable keyPath fs =
     (case readStore readable keyPath fs of
        ReadAbsent \<Rightarrow> Inl KeyAbsent
      | ReadFailed \<Rightarrow> Inl KeyRead
      | ReadOk data \<Rightarrow> if length data \<noteq> integrityKeyLen then Inl KeyMalformed else Inr data)"

definition LoadOrCreateKey ::
  "bool \<Rightarrow> bytes option \<Rightarrow> writeEnd \<Rightarrow> string \<Rightarrow> fileStore \<Rightarrow> (cfgError + bytes) \<times> fileStore" where
  "LoadOrCreateKey readable rnd w keyPath fs =
     (if keyPath = [] then (Inl EmptyKeyPath, fs)
      else case loadKey readable keyPath fs of
        Inr data \<Rightarrow> (Inr data, fs)
      | Inl KeyAbsent \<Rightarrow>
          (case rnd of
             None \<Rightarrow> (Inl KeyRand, fs)
           | Some key \<Rightarrow>
               (case atomicWrite w keyPath key fs of (Some e, fs') \<Rightarrow> (Inl e, fs') | (None, fs') \<Rightarrow> (Inr key, fs')))
      | Inl e \<Rightarrow> (Inl e, fs))"

section \<open>The start of the daemon\<close>

record bootEnv =
  beStat :: bool
  beBootstrap :: writeEnd
  beExample :: bytes
  beKeyRead :: bool
  beRand :: "bytes option"
  beKeyWrite :: writeEnd
  beHmacRead :: bool
  beCfgRead :: bool
  beSign :: writeEnd

datatype bootVerdict = BootExit cfgError | BootRun bool bytes
  \<comment> \<open>the process exits, or goes on with \<^verbatim>\<open>integrityFailed\<close> and the key\<close>

definition bootIntegrity :: "configLib \<Rightarrow> bootEnv \<Rightarrow> string \<Rightarrow> string \<Rightarrow> fileStore \<Rightarrow> bootVerdict \<times> fileStore" where
  "bootIntegrity lib env cfgPath keyPath fs =
     (case Bootstrap (beStat env) (beBootstrap env) (beExample env) cfgPath fs of
        (Some e, fs1) \<Rightarrow> (BootExit e, fs1)
      | (None, fs1) \<Rightarrow>
          (case LoadOrCreateKey (beKeyRead env) (beRand env) (beKeyWrite env) keyPath fs1 of
             (Inl e, fs2) \<Rightarrow> (BootExit e, fs2)
           | (Inr key, fs2) \<Rightarrow>
               (case ConfigVerify lib (beHmacRead env) (beCfgRead env) cfgPath key fs2 of
                  None \<Rightarrow> (BootRun False key, fs2)
                | Some HMACAbsent \<Rightarrow>
                    (case ConfigSign lib (beCfgRead env) (beSign env) cfgPath key fs2 of
                       (Some e, fs3) \<Rightarrow> (BootExit e, fs3) | (None, fs3) \<Rightarrow> (BootRun False key, fs3))
                | Some IntegrityMismatch \<Rightarrow> (BootRun True key, fs2)
                | Some e \<Rightarrow> (BootExit e, fs2))))"

record resolvedConfig =
  rvRelayDomain :: string
  rvRelayPubKey :: string
  rvInsecure :: bool
  rvSTUNDefaultServer :: string
  rvSTUNServers :: "string list"
  rvSTUNInterval :: int
  rvUpdateEnabled :: bool
  rvUpdateInterval :: int
  rvUpdateRateLimit :: int
  rvUpdateOwner :: string
  rvUpdateRepo :: string
  rvUpdateStagingDir :: string
  rvUpdateAllowWhenPackaged :: bool
  rvUpdateMaxInstallRetries :: int
  rvBlocklistEnabled :: bool
  rvBlocklistInterval :: int
  rvRegistryEnabled :: bool
  rvRegistryURL :: string
  rvRegistryMasterPubKey :: string
  rvRegistryInterval :: int
  rvRegistryBootstrapDoH :: bool
  rvRegistryDoHUpstreams :: "string list"
  rvHTTPProxyEnabled :: bool
  rvHTTPProxyPort :: int
  rvBrowserPolicies :: bool
  rvPreferredCountry :: string
  rvTUNEnabled :: bool
  rvTUNName :: string
  rvTUNMTU :: int
  rvFirewallEnabled :: bool
  rvAllowIPv6Leak :: bool
  rvCaptiveEnabled :: bool
  rvCaptiveProbeURLs :: "string list"

definition durationOr0 :: "configLib \<Rightarrow> string \<Rightarrow> int option" where
  \<comment> \<open>an empty text leaves the zero duration\<close>
  "durationOr0 lib s = (if s = [] then Some 0 else parseDuration lib s)"

definition defaultRelayDomain :: string where "defaultRelayDomain = ''levoile.dev''"

definition resolveConfig ::
  "configLib \<Rightarrow> bool \<Rightarrow> string option \<Rightarrow> bool \<Rightarrow> string \<Rightarrow> string \<Rightarrow> bool \<Rightarrow> string \<Rightarrow> fileStore \<Rightarrow> cfgError + resolvedConfig" where
  \<comment> \<open>whether the file can be read; the staging directory; \<^verbatim>\<open>LEVOILE_TUN_ENABLED=1\<close>; the three flags; the path\<close>
  "resolveConfig lib readable stagingDir envTun flagDomain flagPubKey flagInsecure cfgPath fs =
     (case ConfigLoad lib readable cfgPath fs of
        Inl e \<Rightarrow> Inl e
      | Inr cfg \<Rightarrow>
        (case durationOr0 lib (scLeakcheckInterval (cfgSTUN cfg)) of
           None \<Rightarrow> Inl InvalidDuration
         | Some dStun \<Rightarrow>
           let domain = (if flagDomain \<noteq> [] then flagDomain else rcDomain (cfgRelay cfg));
               pubKey = (if flagPubKey \<noteq> [] then flagPubKey else rcPublicKeyEd25519 (cfgRelay cfg));
               upd = cfgUpdate cfg; reg = cfgRegistry cfg in
           if pubKey = [] \<or> pubKey = ''YOUR_ED25519_PUBLIC_KEY_BASE64'' then Inl RelayKeyRequired
           else case durationOr0 lib (ucCheckInterval upd) of
             None \<Rightarrow> Inl InvalidDuration
           | Some dUpd \<Rightarrow>
             if ucEnabled upd \<and> stagingDir = None then Inl NoStagingDir
             else case durationOr0 lib (bcUpdateInterval (cfgBlocklist cfg)) of
               None \<Rightarrow> Inl InvalidDuration
             | Some dBl \<Rightarrow>
               (case durationOr0 lib (gcRefreshInterval reg) of
                  None \<Rightarrow> Inl InvalidDuration
                | Some dReg \<Rightarrow>
                  Inr \<lparr>rvRelayDomain = (if domain = [] then defaultRelayDomain else domain),
                       rvRelayPubKey = pubKey, rvInsecure = (flagInsecure \<or> rcInsecure (cfgRelay cfg)),
                       rvSTUNDefaultServer = scDefaultServer (cfgSTUN cfg), rvSTUNServers = scServers (cfgSTUN cfg),
                       rvSTUNInterval = dStun, rvUpdateEnabled = ucEnabled upd, rvUpdateInterval = dUpd,
                       rvUpdateRateLimit = ucRateLimitKBps upd * 1024, rvUpdateOwner = ucGitHubOwner upd,
                       rvUpdateRepo = ucGitHubRepo upd,
                       rvUpdateStagingDir = (if ucEnabled upd then the stagingDir else []),
                       rvUpdateAllowWhenPackaged = ucAllowWhenPackaged upd,
                       rvUpdateMaxInstallRetries = ucMaxInstallRetries upd,
                       rvBlocklistEnabled = bcEnabled (cfgBlocklist cfg), rvBlocklistInterval = dBl,
                       rvRegistryEnabled = gcEnabled reg, rvRegistryURL = gcURL reg,
                       rvRegistryMasterPubKey = gcMasterPublicKey reg, rvRegistryInterval = dReg,
                       rvRegistryBootstrapDoH = gcBootstrapDoHEnabled reg,
                       rvRegistryDoHUpstreams = gcDoHUpstreams reg,
                       rvHTTPProxyEnabled = hcEnabled (cfgHTTPProxy cfg), rvHTTPProxyPort = hcPort (cfgHTTPProxy cfg),
                       rvBrowserPolicies = cfgBrowserPolicies cfg,
                       rvPreferredCountry = ccPreferredCountry (cfgClient cfg),
                       rvTUNEnabled = (envTun \<or> tcEnabled (cfgTUN cfg)), rvTUNName = tcName (cfgTUN cfg),
                       rvTUNMTU = tcMTU (cfgTUN cfg),
                       rvFirewallEnabled = fcEnableKillSwitch (cfgFirewall cfg),
                       rvAllowIPv6Leak = fcAllowIPv6Leak (cfgFirewall cfg),
                       rvCaptiveEnabled = pcEnabled (cfgCaptive cfg),
                       rvCaptiveProbeURLs = pcProbeURLs (cfgCaptive cfg)\<rparr>)))"

definition newProgram :: "resolvedConfig \<Rightarrow> kernelTable \<Rightarrow> ipState \<Rightarrow> l3" where
  \<comment> \<open>the fields of the new daemon that guard the traffic, over what the kernel holds\<close>
  "newProgram rv k routes =
     \<lparr>cfTUNEnabled = rvTUNEnabled rv, cfFirewallEnabled = rvFirewallEnabled rv, cfAllowIPv6Leak = rvAllowIPv6Leak rv,
      cfCaptiveEnabled = rvCaptiveEnabled rv, cfCaptiveURLs = rvCaptiveProbeURLs rv,
      l3Captive = False, l3Tun = None, l3RelayIP = None, l3Fw = None, l3Route = None, l3Altered = False,
      l3Indeterminate = False, l3Kernel = k, l3Routes = routes\<rparr>"

section \<open>The writers\<close>

definition updateConfigFile ::
  "configLib \<Rightarrow> bool \<Rightarrow> writeEnd \<times> writeEnd \<Rightarrow> string \<Rightarrow> bytes \<Rightarrow> (appConfig \<Rightarrow> appConfig) \<Rightarrow> fileStore \<Rightarrow>
     cfgError option \<times> fileStore" where
  \<comment> \<open>load, modify, save and sign, under \<^verbatim>\<open>config.Mu\<close>\<close>
  "updateConfigFile lib readable ws path key upd fs =
     (case ConfigLoad lib readable path fs of
        Inl e \<Rightarrow> (Some e, fs)
      | Inr cfg \<Rightarrow> SaveAndSign lib ws path key (upd cfg) fs)"

definition setEnableKillSwitch :: "bool \<Rightarrow> appConfig \<Rightarrow> appConfig" where
  "setEnableKillSwitch b cfg = cfg\<lparr>cfgFirewall := (cfgFirewall cfg)\<lparr>fcEnableKillSwitch := b\<rparr>\<rparr>"

definition persistFirewallEnabled ::
  "configLib \<Rightarrow> bool \<Rightarrow> writeEnd \<times> writeEnd \<Rightarrow> string \<Rightarrow> bool \<Rightarrow> bytes \<Rightarrow> fileStore \<Rightarrow> cfgError option \<times> fileStore" where
  "persistFirewallEnabled lib readable ws cfgPath enabled key fs =
     (if cfgPath = [] then (None, fs)
      else updateConfigFile lib readable ws cfgPath key (setEnableKillSwitch enabled) fs)"

definition setPreferredCountry :: "string \<Rightarrow> appConfig \<Rightarrow> appConfig" where
  "setPreferredCountry code cfg = cfg\<lparr>cfgClient := (cfgClient cfg)\<lparr>ccPreferredCountry := code\<rparr>\<rparr>"

definition persistPreferredCountry ::
  "configLib \<Rightarrow> bool \<Rightarrow> writeEnd \<times> writeEnd \<Rightarrow> string \<Rightarrow> string \<Rightarrow> bytes \<Rightarrow> fileStore \<Rightarrow> cfgError option \<times> fileStore" where
  \<comment> \<open>a file that cannot be loaded is silently left\<close>
  "persistPreferredCountry lib readable ws cfgPath code key fs =
     (case ConfigLoad lib readable cfgPath fs of
        Inl _ \<Rightarrow> (None, fs)
      | Inr cfg \<Rightarrow> SaveAndSign lib ws cfgPath key (setPreferredCountry code cfg) fs)"

definition persistedMode ::
  "nftEnv \<Rightarrow> nftEnv \<Rightarrow> configLib \<Rightarrow> bool \<Rightarrow> writeEnd \<times> writeEnd \<Rightarrow> string \<Rightarrow> bytes \<Rightarrow> ksMode option \<Rightarrow>
     l3 \<times> fileStore \<Rightarrow> svcError option \<times> l3 \<times> fileStore" where
  \<comment> \<open>\<^verbatim>\<open>SetKillSwitchMode\<close> with the persister that \<^verbatim>\<open>main\<close> installs; the file is written only when the
     transition reaches it\<close>
  "persistedMode env rbEnv lib readable ws cfgPath key mode s =
     (case s of (p, fs) \<Rightarrow>
        let desired = (mode = Some KillSwitchModeNormal) in
        case persistFirewallEnabled lib readable ws cfgPath desired key fs of
          (pe, fs1) \<Rightarrow>
            (case SetKillSwitchMode env rbEnv (pe = None) mode p of
               (e, p1) \<Rightarrow>
                 let reached = (e = Some ErrKsPersist \<or> e = None \<and> cfFirewallEnabled p \<noteq> desired) in
                 (e, p1, if reached then fs1 else fs)))"

end
