(* ===== verification/Ipc.thy ===== *)
theory Ipc
  imports Config LeakCheck Failover
begin

text \<open>
  The control channel of the Linux daemon: the server that admits the peers of the Unix socket and reads
  their requests (\<^verbatim>\<open>linux/internal/ipc/server.go\<close>, \<^verbatim>\<open>peercred_linux.go\<close>, \<^verbatim>\<open>messages.go\<close>) and the
  handlers (\<^verbatim>\<open>linux/internal/ipchandler/handler.go\<close>) over the daemon's state, with the operations of
  \<^verbatim>\<open>service.go\<close> and \<^verbatim>\<open>anomaly.go\<close> that they call.  Background goroutines that a handler starts
  (address detection, discovery, recovery) are separate steps.
\<close>

section \<open>Messages\<close>

abbreviation ActionGetStatus :: string where "ActionGetStatus \<equiv> ''get_status''"
abbreviation ActionConnect :: string where "ActionConnect \<equiv> ''connect''"
abbreviation ActionDisconnect :: string where "ActionDisconnect \<equiv> ''disconnect''"
abbreviation ActionSetAutoStart :: string where "ActionSetAutoStart \<equiv> ''set_auto_start''"
abbreviation ActionQuit :: string where "ActionQuit \<equiv> ''quit''"
abbreviation ActionLeakCheck :: string where "ActionLeakCheck \<equiv> ''leak_check''"
abbreviation ActionCheckUpdate :: string where "ActionCheckUpdate \<equiv> ''check_update''"
abbreviation ActionUpdateStatus :: string where "ActionUpdateStatus \<equiv> ''update_status''"
abbreviation ActionSetBlocklist :: string where "ActionSetBlocklist \<equiv> ''set_blocklist''"
abbreviation ActionSetHTTPProxy :: string where "ActionSetHTTPProxy \<equiv> ''set_http_proxy''"
abbreviation ActionGetRegistry :: string where "ActionGetRegistry \<equiv> ''get_registry''"
abbreviation ActionSelectCountry :: string where "ActionSelectCountry \<equiv> ''select_country''"
abbreviation ActionRetryCaptive :: string where "ActionRetryCaptive \<equiv> ''retry_captive''"
abbreviation ActionGetAllowIPv6Leak :: string where "ActionGetAllowIPv6Leak \<equiv> ''get_allow_ipv6_leak''"
abbreviation ActionSetAllowIPv6Leak :: string where "ActionSetAllowIPv6Leak \<equiv> ''set_allow_ipv6_leak''"
abbreviation ActionGetUISupervision :: string where "ActionGetUISupervision \<equiv> ''get_ui_supervision''"
abbreviation ActionUIDisconnect :: string where "ActionUIDisconnect \<equiv> ''ui_disconnect''"
abbreviation ActionGetKillSwitchMode :: string where "ActionGetKillSwitchMode \<equiv> ''get_killswitch_mode''"
abbreviation ActionSetKillSwitchMode :: string where "ActionSetKillSwitchMode \<equiv> ''set_killswitch_mode''"
abbreviation ActionTriggerRecovery :: string where "ActionTriggerRecovery \<equiv> ''trigger_recovery''"

record ipcRequest =
  rqAction :: string
  rqValue :: string
  rqAuth :: string

datatype ipcError = ErrText string | ErrSvc svcError | ErrCfg cfgError | ErrClient clientError | ErrStartup | ErrProxyStart | ErrUpdate

record regCountry =
  rgCode :: string
  rgName :: string
  rgRelayCount :: nat
  rgActive :: bool

record ipcResponse =
  rsStatus :: string
  rsError :: "ipcError option"
  rsIP :: string
  rsRealIP :: string
  rsRelayDomain :: string
  rsRelayID :: string
  rsRelayLatency :: int
  rsCountry :: string
  rsUpdateVersion :: string
  rsUpdateStatus :: string
  rsInstalledVersion :: string
  rsInstallError :: string
  rsRollbackVersion :: string
  rsRollbackReason :: string
  rsLeakStatus :: string
  rsLeakExpectedIP :: string
  rsLeakReason :: "leakReason option"
  rsBlocklistEnabled :: bool
  rsHTTPProxyActive :: bool
  rsHTTPProxyAddr :: string
  rsHTTPProxySeq :: nat
  rsCircuitBreakerTripped :: bool
  rsCircuitBreakerMessage :: string
  rsFailoverAlert :: string
  rsCurrentCountryCode :: string
  rsRegistryCountries :: "regCountry list"
  rsConcurrentVPN :: bool
  rsIntegrityFailed :: bool
  rsFirewallAltered :: bool
  rsAllowIPv6Leak :: bool
  rsKillSwitchMode :: string
  rsCaptivePortal :: bool
  rsAnomalyActive :: bool
  rsAnomalyReason :: string

definition respond :: "string \<Rightarrow> ipcResponse" where
  "respond status =
     \<lparr>rsStatus = status, rsError = None, rsIP = [], rsRealIP = [], rsRelayDomain = [], rsRelayID = [], rsRelayLatency = 0,
      rsCountry = [], rsUpdateVersion = [], rsUpdateStatus = [], rsInstalledVersion = [], rsInstallError = [],
      rsRollbackVersion = [], rsRollbackReason = [], rsLeakStatus = [], rsLeakExpectedIP = [], rsLeakReason = None,
      rsBlocklistEnabled = False, rsHTTPProxyActive = False, rsHTTPProxyAddr = [], rsHTTPProxySeq = 0,
      rsCircuitBreakerTripped = False, rsCircuitBreakerMessage = [], rsFailoverAlert = [], rsCurrentCountryCode = [],
      rsRegistryCountries = [], rsConcurrentVPN = False, rsIntegrityFailed = False, rsFirewallAltered = False,
      rsAllowIPv6Leak = False, rsKillSwitchMode = [], rsCaptivePortal = False, rsAnomalyActive = False, rsAnomalyReason = []\<rparr>"

definition respondError :: "ipcError \<Rightarrow> ipcResponse" where
  "respondError e = (respond ''error'')\<lparr>rsError := Some e\<rparr>"

section \<open>Peers and lines\<close>

record peerCred =
  pcUID :: nat
  pcGID :: nat

definition groupGID :: "nat option \<Rightarrow> nat option option \<Rightarrow> nat option \<times> nat option option" where
  \<comment> \<open>what the group database says now, and the cache: unresolved, or the first answer\<close>
  "groupGID lookup cache = (case cache of Some r \<Rightarrow> (r, cache) | None \<Rightarrow> (lookup, Some lookup))"

definition authorizePeer ::
  "nat option \<Rightarrow> (nat \<Rightarrow> nat list option) \<Rightarrow> peerCred \<Rightarrow> nat option option \<Rightarrow> bool \<times> nat option option" where
  \<comment> \<open>\<open>groupsOf\<close>: the groups of a user, \<open>None\<close> when the lookup fails\<close>
  "authorizePeer lookup groupsOf cred cache =
     (if pcUID cred = 0 then (True, cache)
      else case groupGID lookup cache of
        (None, cache1) \<Rightarrow> (True, cache1)
      | (Some gid, cache1) \<Rightarrow>
          (if pcGID cred = gid then True
           else case groupsOf (pcUID cred) of None \<Rightarrow> False | Some gids \<Rightarrow> gid \<in> set gids, cache1))"

fun serveLines ::
  "(bytes \<Rightarrow> ipcRequest option) \<Rightarrow> (ipcRequest \<Rightarrow> 's \<Rightarrow> ipcResponse \<times> 's) option \<Rightarrow> bytes list \<Rightarrow> 's \<Rightarrow> ipcResponse list \<times> 's" where
  \<comment> \<open>the loop of \<^verbatim>\<open>handleConnection\<close> over the lines read; a line of 4096 bytes or more ends the scan\<close>
  "serveLines unmarshal h [] s = ([], s)"
| "serveLines unmarshal h (line # ls) s =
     (if length line \<ge> 4096 then ([], s)
      else if line = [] then serveLines unmarshal h ls s
      else case unmarshal line of
        None \<Rightarrow> (case serveLines unmarshal h ls s of (rs, s') \<Rightarrow> (respondError (ErrText ''invalid_json'') # rs, s'))
      | Some req \<Rightarrow>
          (case h of
             None \<Rightarrow> (case serveLines unmarshal h ls s of (rs, s') \<Rightarrow> (respondError (ErrText ''no_handler'') # rs, s'))
           | Some handle \<Rightarrow>
               (case handle req s of
                  (r, s1) \<Rightarrow> (case serveLines unmarshal h ls s1 of (rs, s') \<Rightarrow> (r # rs, s')))))"

definition handleConnection ::
  "nat option \<Rightarrow> (nat \<Rightarrow> nat list option) \<Rightarrow> peerCred option \<Rightarrow> (bytes \<Rightarrow> ipcRequest option) \<Rightarrow>
   (ipcRequest \<Rightarrow> 's \<Rightarrow> ipcResponse \<times> 's) option \<Rightarrow> bytes list \<Rightarrow> nat option option \<times> 's \<Rightarrow>
     ipcResponse list \<times> nat option option \<times> 's" where
  \<comment> \<open>\<open>cred\<close>: the peer's credentials, \<open>None\<close> when they cannot be read\<close>
  "handleConnection lookup groupsOf cred unmarshal h ls st =
     (case st of (cache, s) \<Rightarrow>
        (case (case cred of None \<Rightarrow> (True, cache) | Some c \<Rightarrow> authorizePeer lookup groupsOf c cache) of
           (False, cache1) \<Rightarrow> ([respondError (ErrText ''peer_unauthorized'')], cache1, s)
         | (True, cache1) \<Rightarrow> (case serveLines unmarshal h ls s of (rs, s') \<Rightarrow> (rs, cache1, s'))))"

section \<open>The daemon\<close>

record daemon =
  dmL3 :: l3
  dmFiles :: fileStore
  dmIntegrityFailed :: bool
  dmCtlToken :: bytes
  dmVPN :: "string option"
  dmLastScan :: "int option"
  dmClient :: "client option"
  dmReconnector :: "bool option"
    \<comment> \<open>whether its loop runs\<close>
  dmReconnFailed :: bool
  dmTripped :: bool
  dmTripMessage :: string
  dmFailoverAlert :: string
  dmCountry :: string
  dmVisibleIP :: string
  dmRealIP :: string
  dmDiscoverer :: "discoverer option"
  dmFailover :: "failoverManager option"
  dmBlocklist :: bool
  dmProxy :: "string option"
    \<comment> \<open>the address it listens on\<close>
  dmProxySeq :: nat
  dmLeak :: "(relayIPResolver \<times> leakScheduler) option"
  dmAnomaly :: "string option"
  dmRecoveries :: nat
    \<comment> \<open>recoveries started in the background\<close>
  dmStopping :: bool
  dmCaptiveWatch :: bool
  dmAutoStart :: bool
  dmRollback :: "(string \<times> string) option"
  dmInstalled :: string
  dmInstallError :: string
  dmPending :: string
  dmUpdater :: "(bool \<times> string) option"
    \<comment> \<open>whether it downloads, and the staged version\<close>

record ipcEnv =
  ieLib :: configLib
  ieKey :: bytes
  ieCfgPath :: string
  ieReadable :: bool
  ieWrites :: "writeEnd \<times> writeEnd"
  ieRollback :: "writeEnd \<times> writeEnd"
  ieNow :: int
  ieScan :: "string option"
    \<comment> \<open>the competing VPN that a scan finds\<close>
  ieCrypto :: cryptoLib
  ieLookup :: "string \<Rightarrow> bytes list option"
  ieRnd :: "bytes option"
  ieTransport :: transport
  ieTimedOut :: bool
  ieNft :: nftEnv
  ieNftRollback :: nftEnv
  ieRec :: recEnv
  ieLocked :: bool
  ieProxyStart :: "string option"
  ieStartup :: "bool option"
  ieTick :: leakTick
  ieUpdate :: "string option option"
    \<comment> \<open>the check for updates: fails, finds nothing, stages a version\<close>

definition preflightThrottle :: int where "preflightThrottle = 3"

definition detectConcurrentVPN :: "ipcEnv \<Rightarrow> daemon \<Rightarrow> string option \<times> daemon" where
  \<comment> \<open>a scan, or its last result within three seconds\<close>
  "detectConcurrentVPN env d =
     (if (case dmLastScan d of None \<Rightarrow> False | Some at \<Rightarrow> ieNow env - at < preflightThrottle) then (dmVPN d, d)
      else (ieScan env, d\<lparr>dmVPN := ieScan env, dmLastScan := Some (ieNow env)\<rparr>))"

definition ResetCircuitBreaker :: "daemon \<Rightarrow> daemon" where
  "ResetCircuitBreaker d =
     (let d1 = d\<lparr>dmTripped := False, dmTripMessage := [], dmFailoverAlert := []\<rparr> in
      if dmReconnector d = None then d1 else d1\<lparr>dmReconnFailed := False\<rparr>)"

definition stopReconnector :: "daemon \<Rightarrow> daemon" where
  "stopReconnector d = d\<lparr>dmReconnector := map_option (\<lambda>_. False) (dmReconnector d)\<rparr>"

definition startReconnector :: "daemon \<Rightarrow> daemon" where
  "startReconnector d = d\<lparr>dmReconnector := map_option (\<lambda>_. True) (dmReconnector d)\<rparr>"

definition connectClient :: "ipcEnv \<Rightarrow> client \<Rightarrow> clientError option \<times> client" where
  "connectClient env c = Connect (ieCrypto env) (ieRnd env) (ieTransport env) (ieTimedOut env) (ieNow env) c"

definition setMode :: "ipcEnv \<Rightarrow> ksMode \<Rightarrow> daemon \<Rightarrow> svcError option \<times> daemon" where
  \<comment> \<open>\<^verbatim>\<open>SetKillSwitchMode\<close> with the persister of \<^verbatim>\<open>main\<close>\<close>
  "setMode env md d =
     (case persistedMode (ieNft env) (ieNftRollback env) (ieLib env) (ieReadable env) (ieWrites env) (ieCfgPath env)
             (ieKey env) (Some md) (dmL3 d, dmFiles d) of
        (e, p, fs) \<Rightarrow> (e, d\<lparr>dmL3 := p, dmFiles := fs\<rparr>))"

definition maybeRestore :: "ipcEnv \<Rightarrow> daemon \<Rightarrow> daemon" where
  "maybeRestore env d =
     (if l3Captive (dmL3 d) then d
      else if KillSwitchMode (dmL3 d) = KillSwitchModeNormal then d
      else snd (setMode env KillSwitchModeNormal d))"

section \<open>Handlers that read\<close>

definition modeText :: "ksMode \<Rightarrow> string" where
  "modeText m = (case m of KillSwitchModeNormal \<Rightarrow> ''normal'' | KillSwitchModeDegraded \<Rightarrow> ''degraded'')"

definition stateText :: "connState \<Rightarrow> string" where
  "stateText s = (case s of StateDisconnected \<Rightarrow> ''disconnected'' | StateConnecting \<Rightarrow> ''connecting''
     | StateConnected \<Rightarrow> ''connected'' | StateFailed \<Rightarrow> ''failed'')"

definition leakText :: "leakStatus \<Rightarrow> string" where
  "leakText s = (case s of LeakOK \<Rightarrow> ''ok'' | LeakDetected \<Rightarrow> ''leak_detected'')"

definition countryName :: "string \<Rightarrow> string option" where
  \<comment> \<open>\<^verbatim>\<open>CountryMetaMap\<close>, names in UTF-8\<close>
  "countryName code = map_of
     [(''is'', ''Islande''), (''de'', ''Allemagne''), (''fi'', ''Finlande''), (''us'', CHR 0xC3 # CHR 0x89 # ''tats-Unis''),
      (''fr'', ''France''), (''es'', ''Espagne''), (''gb'', ''Royaume-Uni'')] code"

definition fillLeakStatus :: "daemon \<Rightarrow> ipcResponse \<Rightarrow> ipcResponse" where
  "fillLeakStatus d r =
     (case dmLeak d of
        None \<Rightarrow> r
      | Some (_, s) \<Rightarrow>
          (case lsLastResult s of
             None \<Rightarrow> r\<lparr>rsLeakStatus := ''pending''\<rparr>
           | Some rep \<Rightarrow> r\<lparr>rsLeakStatus := leakText (lpStatus rep), rsLeakExpectedIP := lpExpectedIP rep,
                             rsLeakReason := lpReason rep\<rparr>))"

definition fillRollback :: "daemon \<Rightarrow> ipcResponse \<Rightarrow> ipcResponse" where
  "fillRollback d r =
     (case dmRollback d of
        None \<Rightarrow> r
      | Some (v, reason) \<Rightarrow> r\<lparr>rsUpdateStatus := ''rollback'', rsRollbackVersion := v, rsRollbackReason := reason\<rparr>)"

definition fillCommon :: "daemon \<Rightarrow> ipcResponse \<Rightarrow> ipcResponse" where
  \<comment> \<open>the fields that every branch of \<^verbatim>\<open>handleGetStatus\<close> sets\<close>
  "fillCommon d r = r\<lparr>rsRealIP := dmRealIP d, rsBlocklistEnabled := dmBlocklist d, rsHTTPProxyActive := (dmProxy d \<noteq> None),
     rsHTTPProxyAddr := (case dmProxy d of None \<Rightarrow> [] | Some a \<Rightarrow> a), rsHTTPProxySeq := dmProxySeq d,
     rsAllowIPv6Leak := cfAllowIPv6Leak (dmL3 d), rsKillSwitchMode := modeText (KillSwitchMode (dmL3 d)),
     rsFailoverAlert := dmFailoverAlert d, rsCurrentCountryCode := dmCountry d,
     rsAnomalyActive := (dmAnomaly d \<noteq> None), rsAnomalyReason := (case dmAnomaly d of None \<Rightarrow> [] | Some a \<Rightarrow> a),
     rsIntegrityFailed := dmIntegrityFailed d\<rparr>"

definition fillTunnel :: "daemon \<Rightarrow> ipcResponse \<Rightarrow> ipcResponse" where
  \<comment> \<open>those that it sets when no competing VPN was found\<close>
  "fillTunnel d r = r\<lparr>rsCircuitBreakerTripped := dmTripped d, rsCircuitBreakerMessage := dmTripMessage d,
     rsCaptivePortal := l3Captive (dmL3 d)\<rparr>"

definition findRelay :: "string \<Rightarrow> discoverer option \<Rightarrow> relayEntry option" where
  "findRelay domain disc =
     (case disc of None \<Rightarrow> None | Some ds \<Rightarrow> List.find (\<lambda>r. reDomain r = domain) (dRelays ds))"

definition handleGetStatus :: "daemon \<Rightarrow> ipcResponse \<times> daemon" where
  "handleGetStatus d =
     (case dmVPN d of
        Some msg \<Rightarrow>
          (fillCommon d (fillRollback d ((respondError (ErrText msg))\<lparr>rsConcurrentVPN := True\<rparr>)), d)
      | None \<Rightarrow>
        (case dmClient d of
           None \<Rightarrow> (fillTunnel d (fillCommon d (fillLeakStatus d (fillRollback d (respond ''disconnected'')))), d)
         | Some c \<Rightarrow>
             let found = findRelay (relayDomain c) (dmDiscoverer d);
                 code = (case found of None \<Rightarrow> [] | Some r \<Rightarrow> ExtractCountryCode (reID r) (reDomain r));
                 d1 = (if code \<noteq> [] \<and> dmCountry d \<noteq> code then d\<lparr>dmCountry := code\<rparr> else d);
                 r0 = (respond (stateText (GetState (cState c))))\<lparr>rsIP := dmVisibleIP d, rsRelayDomain := relayDomain c\<rparr>;
                 r1 = (case found of None \<Rightarrow> r0
                       | Some r \<Rightarrow> r0\<lparr>rsRelayID := reID r,
                            rsRelayLatency := (case dmDiscoverer d of None \<Rightarrow> 0 | Some ds \<Rightarrow> max 0 (LatencyFor (reID r) ds)),
                            rsCountry := (case countryName code of None \<Rightarrow> [] | Some n \<Rightarrow> n)\<rparr>);
                 r2 = (if dmRollback d \<noteq> None then fillRollback d r1
                       else if dmPending d \<noteq> [] then r1\<lparr>rsUpdateVersion := dmPending d, rsUpdateStatus := ''update_ready''\<rparr>
                       else r1)
             in (fillTunnel d1 (fillCommon d1 (fillLeakStatus d1 r2))\<lparr>rsFirewallAltered := l3Altered (dmL3 d)\<rparr>, d1)))"

definition handleUpdateStatus :: "daemon \<Rightarrow> ipcResponse" where
  "handleUpdateStatus d =
     (if dmRollback d \<noteq> None then fillRollback d (respond ''ok'')
      else if dmInstalled d \<noteq> [] then (respond ''ok'')\<lparr>rsUpdateStatus := ''installed'', rsInstalledVersion := dmInstalled d\<rparr>
      else if dmInstallError d \<noteq> [] then (respond ''ok'')\<lparr>rsUpdateStatus := ''install_failed'', rsInstallError := dmInstallError d\<rparr>
      else case dmUpdater d of
        None \<Rightarrow> respondError (ErrText ''updates_disabled'')
      | Some (downloading, staged) \<Rightarrow>
          if downloading then (respond ''ok'')\<lparr>rsUpdateStatus := ''downloading''\<rparr>
          else if staged \<noteq> [] then (respond ''ok'')\<lparr>rsUpdateVersion := staged, rsUpdateStatus := ''update_ready''\<rparr>
          else (respond ''ok'')\<lparr>rsUpdateStatus := ''up_to_date''\<rparr>)"

definition handleGetRegistry :: "daemon \<Rightarrow> ipcResponse" where
  "handleGetRegistry d =
     (case dmDiscoverer d of
        None \<Rightarrow> respondError (ErrText ''registry_disabled'')
      | Some ds \<Rightarrow>
          let active = (case dmClient d of None \<Rightarrow> []
                | Some c \<Rightarrow> (case findRelay (relayDomain c) (dmDiscoverer d) of
                     None \<Rightarrow> [] | Some r \<Rightarrow> ExtractCountryCode (reID r) (reDomain r)));
              entry = (\<lambda>code. \<lparr>rgCode = code, rgName = (case countryName code of None \<Rightarrow> code | Some n \<Rightarrow> n),
                                rgRelayCount = length (RelaysByCountry (dRelays ds) code), rgActive = (code = active)\<rparr>)
          in (respond ''ok'')\<lparr>rsRegistryCountries := sort_key rgName (map entry (remdups (map countryOf (dRelays ds))))\<rparr>)"

definition handleGetAllowIPv6Leak :: "daemon \<Rightarrow> ipcResponse" where
  "handleGetAllowIPv6Leak d = (respond ''ok'')\<lparr>rsAllowIPv6Leak := cfAllowIPv6Leak (dmL3 d)\<rparr>"

definition handleGetKillSwitchMode :: "daemon \<Rightarrow> ipcResponse" where
  "handleGetKillSwitchMode d = (respond ''ok'')\<lparr>rsKillSwitchMode := modeText (KillSwitchMode (dmL3 d))\<rparr>"

section \<open>Handlers that write\<close>

definition handleIpcConnect :: "ipcEnv \<Rightarrow> daemon \<Rightarrow> ipcResponse \<times> daemon" where
  \<comment> \<open>\<^verbatim>\<open>handleConnect\<close>\<close>
  "handleIpcConnect env d =
     (case detectConcurrentVPN env d of
        (Some msg, d1) \<Rightarrow> ((respondError (ErrText msg))\<lparr>rsConcurrentVPN := True\<rparr>, d1)
      | (None, d1) \<Rightarrow>
          (case dmClient d1 of
             None \<Rightarrow> (respondError (ErrText ''service_not_ready''), d1)
           | Some c \<Rightarrow>
               if GetState (cState c) = StateConnected then (respond ''connected'', d1)
               else
                 let d2 = stopReconnector (ResetCircuitBreaker d1) in
                 (case connectClient env c of
                    (Some e, c') \<Rightarrow> (respondError (ErrClient e), startReconnector (d2\<lparr>dmClient := Some c'\<rparr>))
                  | (None, c') \<Rightarrow>
                      (respond ''connected'', startReconnector (maybeRestore env (d2\<lparr>dmClient := Some c'\<rparr>))))))"

definition handleIpcDisconnect :: "daemon \<Rightarrow> ipcResponse \<times> daemon" where
  "handleIpcDisconnect d =
     (case dmClient d of
        None \<Rightarrow> (respond ''disconnected'', d)
      | Some c \<Rightarrow> (respond ''disconnected'', (stopReconnector d)\<lparr>dmClient := Some (Disconnect c)\<rparr>))"

definition boolValue :: "string \<Rightarrow> bool option" where
  "boolValue v = (if v = ''true'' then Some True else if v = ''false'' then Some False else None)"

definition writeConfig :: "ipcEnv \<Rightarrow> (appConfig \<Rightarrow> appConfig) \<Rightarrow> daemon \<Rightarrow> cfgError option \<times> daemon" where
  \<comment> \<open>load, modify, save and sign under \<^verbatim>\<open>configMu\<close>\<close>
  "writeConfig env upd d =
     (case updateConfigFile (ieLib env) (ieReadable env) (ieWrites env) (ieCfgPath env) (ieKey env) upd (dmFiles d) of
        (e, fs) \<Rightarrow> (e, d\<lparr>dmFiles := fs\<rparr>))"

definition handleSetAutoStart :: "ipcEnv \<Rightarrow> string \<Rightarrow> daemon \<Rightarrow> ipcResponse \<times> daemon" where
  "handleSetAutoStart env v d =
     (case boolValue v of
        None \<Rightarrow> (respondError (ErrText ''invalid_value''), d)
      | Some on \<Rightarrow>
          if ieCfgPath env = [] then (respondError (ErrText ''no_config_file''), d)
          else case writeConfig env (\<lambda>c. c\<lparr>cfgClient := (cfgClient c)\<lparr>ccAutoStart := on\<rparr>\<rparr>) d of
            (Some e, d1) \<Rightarrow> (respondError (ErrCfg e), d1)
          | (None, d1) \<Rightarrow>
              (case ieStartup env of
                 None \<Rightarrow> (respond ''ok'', d1)
               | Some ok \<Rightarrow> if ok then (respond ''ok'', d1\<lparr>dmAutoStart := on\<rparr>) else (respondError ErrStartup, d1)))"

definition handleQuit :: "daemon \<Rightarrow> ipcResponse \<times> daemon" where
  "handleQuit d = (respond ''disconnected'', (stopReconnector d)\<lparr>dmStopping := True\<rparr>)"

definition handleLeakCheck :: "ipcEnv \<Rightarrow> daemon \<Rightarrow> ipcResponse \<times> daemon" where
  "handleLeakCheck env d =
     (case dmClient d of
        None \<Rightarrow> (respondError (ErrText ''service_not_ready''), d)
      | Some c \<Rightarrow>
          if GetState (cState c) \<noteq> StateConnected then (respondError (ErrText ''tunnel_not_connected''), d)
          else case dmLeak d of
            None \<Rightarrow> (respondError (ErrText ''leak_scheduler_not_running''), d)
          | Some st \<Rightarrow>
              (case runTick ((ieTick env)\<lparr>tkState := GetState (cState c), tkDomain := relayDomain c\<rparr>) st of
                 (_, st1) \<Rightarrow>
                   (case lsLastResult (snd st1) of
                      None \<Rightarrow> (respondError (ErrText ''leak_check_no_result''), d\<lparr>dmLeak := Some st1\<rparr>)
                    | Some rep \<Rightarrow>
                        ((respond (leakText (lpStatus rep)))\<lparr>rsIP := lpSTUNIP rep, rsLeakStatus := leakText (lpStatus rep),
                           rsLeakExpectedIP := lpExpectedIP rep, rsLeakReason := lpReason rep\<rparr>, d\<lparr>dmLeak := Some st1\<rparr>))))"

definition handleCheckUpdate :: "ipcEnv \<Rightarrow> daemon \<Rightarrow> ipcResponse \<times> daemon" where
  "handleCheckUpdate env d =
     (case dmUpdater d of
        None \<Rightarrow> (respondError (ErrText ''updates_disabled''), d)
      | Some (b, _) \<Rightarrow>
          (case ieUpdate env of
             None \<Rightarrow> (respondError ErrUpdate, d)
           | Some None \<Rightarrow> ((respond ''ok'')\<lparr>rsUpdateStatus := ''up_to_date''\<rparr>, d)
           | Some (Some v) \<Rightarrow>
               ((respond ''ok'')\<lparr>rsUpdateVersion := v, rsUpdateStatus := ''update_ready''\<rparr>, d\<lparr>dmUpdater := Some (b, v)\<rparr>)))"

definition handleSetBlocklist :: "ipcEnv \<Rightarrow> string \<Rightarrow> daemon \<Rightarrow> ipcResponse \<times> daemon" where
  "handleSetBlocklist env v d =
     (case boolValue v of
        None \<Rightarrow> (respondError (ErrText ''invalid_value''), d)
      | Some on \<Rightarrow>
          if ieCfgPath env = [] then (respondError (ErrText ''no_config_file''), d)
          else case writeConfig env (\<lambda>c. c\<lparr>cfgBlocklist := (cfgBlocklist c)\<lparr>bcEnabled := on\<rparr>\<rparr>) d of
            (Some e, d1) \<Rightarrow> (respondError (ErrCfg e), d1)
          | (None, d1) \<Rightarrow> ((respond ''ok'')\<lparr>rsBlocklistEnabled := on\<rparr>, d1\<lparr>dmBlocklist := on\<rparr>))"

definition startHTTPProxy :: "ipcEnv \<Rightarrow> daemon \<Rightarrow> bool \<times> daemon" where
  "startHTTPProxy env d =
     (if dmProxy d \<noteq> None then (True, d)
      else case ieProxyStart env of
        None \<Rightarrow> (False, d)
      | Some a \<Rightarrow> (True, d\<lparr>dmProxy := Some a, dmProxySeq := dmProxySeq d + 1\<rparr>))"

definition stopHTTPProxy :: "daemon \<Rightarrow> daemon" where
  "stopHTTPProxy d = (if dmProxy d = None then d else d\<lparr>dmProxy := None, dmProxySeq := dmProxySeq d + 1\<rparr>)"

definition handleSetHTTPProxy :: "ipcEnv \<Rightarrow> string \<Rightarrow> daemon \<Rightarrow> ipcResponse \<times> daemon" where
  "handleSetHTTPProxy env v d =
     (case boolValue v of
        None \<Rightarrow> (respondError (ErrText ''invalid_value''), d)
      | Some on \<Rightarrow>
          if ieCfgPath env = [] then (respondError (ErrText ''no_config_file''), d)
          else case writeConfig env (\<lambda>c. c\<lparr>cfgHTTPProxy := (cfgHTTPProxy c)\<lparr>hcEnabled := on\<rparr>\<rparr>) d of
            (Some e, d1) \<Rightarrow> (respondError (ErrCfg e), d1)
          | (None, d1) \<Rightarrow>
              (case (if on then startHTTPProxy env d1 else (True, stopHTTPProxy d1)) of
                 (False, d2) \<Rightarrow> (respondError ErrProxyStart, d2)
               | (True, d2) \<Rightarrow>
                   ((respond ''ok'')\<lparr>rsHTTPProxyActive := (dmProxy d2 \<noteq> None),
                      rsHTTPProxyAddr := (case dmProxy d2 of None \<Rightarrow> [] | Some a \<Rightarrow> a), rsHTTPProxySeq := dmProxySeq d2\<rparr>, d2)))"

definition switchRelay :: "ipcEnv \<Rightarrow> string \<Rightarrow> relayEntry \<Rightarrow> daemon \<Rightarrow> ipcResponse \<times> daemon" where
  \<comment> \<open>\<^verbatim>\<open>handleSelectCountry\<close> from the point where the tunnel leaves the old relay\<close>
  "switchRelay env code r d =
     (case dmClient d of
        None \<Rightarrow> (respondError (ErrText ''service_not_ready''), d)
      | Some c1 \<Rightarrow>
          let d1 = stopReconnector d in
          (case connectClient env (Disconnect c1) of
             (Some e, c2) \<Rightarrow> (respondError (ErrClient e), startReconnector (d1\<lparr>dmClient := Some c2\<rparr>))
           | (None, c2) \<Rightarrow>
               let d2 = startReconnector (maybeRestore env (d1\<lparr>dmClient := Some c2\<rparr>)) in
               (case (if ieCfgPath env = [] then (None, dmFiles d2)
                      else persistPreferredCountry (ieLib env) (ieReadable env) (ieWrites env) (ieCfgPath env) code (ieKey env) (dmFiles d2)) of
                  (Some e, fs) \<Rightarrow> (respondError (ErrCfg e), d2\<lparr>dmFiles := fs\<rparr>)
                | (None, fs) \<Rightarrow>
                    (respond ''connected'',
                     d2\<lparr>dmFiles := fs, dmFailoverAlert := [], dmCountry := code, dmVisibleIP := [],
                        dmFailover := map_option (\<lambda>fm. fm\<lparr>fmPreferred := code, fmCurrent := reID r\<rparr>) (dmFailover d2)\<rparr>))))"

definition handleSelectCountry :: "ipcEnv \<Rightarrow> string \<Rightarrow> daemon \<Rightarrow> ipcResponse \<times> daemon" where
  "handleSelectCountry env code d =
     (if code = [] then (respondError (ErrText ''missing_country_code''), d)
      else if code \<notin> set CountryCodes then (respondError (ErrText ''unknown_country_code''), d)
      else case (dmDiscoverer d, dmClient d) of
        (None, _) \<Rightarrow> (respondError (ErrText ''registry_disabled''), d)
      | (Some _, None) \<Rightarrow> (respondError (ErrText ''service_not_ready''), d)
      | (Some ds, Some c) \<Rightarrow>
          (case SelectRelay code ds of
             (Inl e, ds1) \<Rightarrow>
               (respondError (ErrText (if e = UnknownCountry then ''unknown_country_code'' else ''no_relays_for_country'')),
                d\<lparr>dmDiscoverer := Some ds1\<rparr>)
           | (Inr r, ds1) \<Rightarrow>
               let d1 = d\<lparr>dmDiscoverer := Some ds1\<rparr> in
               (case UpdateRelay (ieLookup env) (reDomain r) (rePublicKey r) c of
                  (Some e, c1) \<Rightarrow> (respondError (ErrClient e), d1\<lparr>dmClient := Some c1\<rparr>)
                | (None, c1) \<Rightarrow>
                    let d2 = d1\<lparr>dmClient := Some c1\<rparr> in
                    (case RelayIP c1 of
                       None \<Rightarrow> switchRelay env code r d2
                     | Some ip \<Rightarrow>
                         (case ReconfigureForRelay (ieRec env) (Some ip) (dmL3 d2) of
                            (Some e, p) \<Rightarrow> (respondError (ErrSvc e), d2\<lparr>dmL3 := p\<rparr>)
                          | (None, p) \<Rightarrow> switchRelay env code r (d2\<lparr>dmL3 := p\<rparr>))))))"

definition handleRetryCaptive :: "daemon \<Rightarrow> ipcResponse \<times> daemon" where
  \<comment> \<open>cancels the captive watcher, if there is one\<close>
  "handleRetryCaptive d = (respond ''ok'', d\<lparr>dmCaptiveWatch := False\<rparr>)"

definition handleSetAllowIPv6Leak :: "ipcEnv \<Rightarrow> string \<Rightarrow> daemon \<Rightarrow> ipcResponse \<times> daemon" where
  "handleSetAllowIPv6Leak env v d =
     (case boolValue v of
        None \<Rightarrow> (respondError (ErrText ''invalid_value''), d)
      | Some allow \<Rightarrow>
          let setLive = (\<lambda>d. case SetAllowIPv6Leak (ieLocked env) (ieNft env) allow (dmL3 d) of (e, p) \<Rightarrow> (e, d\<lparr>dmL3 := p\<rparr>));
              done = (respond ''ok'')\<lparr>rsAllowIPv6Leak := allow\<rparr>
          in if ieCfgPath env = [] then
               (case setLive d of (Some e, d1) \<Rightarrow> (respondError (ErrSvc e), d1) | (None, d1) \<Rightarrow> (done, d1))
             else case ConfigLoad (ieLib env) (ieReadable env) (ieCfgPath env) (dmFiles d) of
               Inl e \<Rightarrow> (respondError (ErrCfg e), d)
             | Inr cfg \<Rightarrow>
                 let save = (\<lambda>ws a fs. SaveAndSign (ieLib env) ws (ieCfgPath env) (ieKey env)
                       (cfg\<lparr>cfgFirewall := (cfgFirewall cfg)\<lparr>fcAllowIPv6Leak := a\<rparr>\<rparr>) fs) in
                 (case save (ieWrites env) allow (dmFiles d) of
                    (Some e, fs) \<Rightarrow> (respondError (ErrCfg e), d\<lparr>dmFiles := fs\<rparr>)
                  | (None, fs) \<Rightarrow>
                      (case setLive (d\<lparr>dmFiles := fs\<rparr>) of
                         (None, d1) \<Rightarrow> (done, d1)
                       | (Some e, d1) \<Rightarrow>
                           (respondError (ErrSvc e),
                            d1\<lparr>dmFiles := snd (save (ieRollback env) (fcAllowIPv6Leak (cfgFirewall cfg)) (dmFiles d1))\<rparr>))))"

definition ksModeOf :: "string \<Rightarrow> ksMode option" where
  "ksModeOf v = (if v = ''normal'' then Some KillSwitchModeNormal else if v = ''degraded'' then Some KillSwitchModeDegraded else None)"

definition handleSetKillSwitchMode :: "ipcEnv \<Rightarrow> ipcRequest \<Rightarrow> daemon \<Rightarrow> ipcResponse \<times> daemon" where
  "handleSetKillSwitchMode env req d =
     (case ksModeOf (rqValue req) of
        None \<Rightarrow> (respondError (ErrText ''invalid_value''), d)
      | Some md \<Rightarrow>
          if rqAuth req \<noteq> [] \<and> \<not> VerifyCtlToken (dmCtlToken d) (rqAuth req) then (respondError (ErrText ''auth_failed''), d)
          else case setMode env md d of
            (Some e, d1) \<Rightarrow> (respondError (ErrSvc e), d1)
          | (None, d1) \<Rightarrow> ((respond ''ok'')\<lparr>rsKillSwitchMode := rqValue req\<rparr>, d1))"

definition handleTriggerRecovery :: "ipcRequest \<Rightarrow> daemon \<Rightarrow> ipcResponse \<times> daemon" where
  "handleTriggerRecovery req d =
     (if rqAuth req = [] \<or> \<not> VerifyCtlToken (dmCtlToken d) (rqAuth req) then (respondError (ErrText ''auth_failed''), d)
      else if (case dmClient d of None \<Rightarrow> True | Some c \<Rightarrow> GetState (cState c) \<noteq> StateConnected)
      then (respondError (ErrText ''tunnel_not_connected''), d)
      else case dmAnomaly d of
        Some reason \<Rightarrow> ((respond ''ok'')\<lparr>rsAnomalyActive := True, rsAnomalyReason := reason\<rparr>, d)
      | None \<Rightarrow> (respond ''ok'', d\<lparr>dmRecoveries := dmRecoveries d + 1\<rparr>))"

section \<open>Recovery in the background\<close>

definition recoveryBegin :: "string \<Rightarrow> daemon \<Rightarrow> bool \<times> daemon" where
  \<comment> \<open>\<^verbatim>\<open>RecoverFromAnomaly\<close> up to the work: \<^verbatim>\<open>TryLock\<close> and the published reason\<close>
  "recoveryBegin reason d = (if dmAnomaly d \<noteq> None then (False, d) else (True, d\<lparr>dmAnomaly := Some reason\<rparr>))"

definition recoveryEnd :: "recEnv \<Rightarrow> daemon \<Rightarrow> svcError option \<times> daemon" where
  \<comment> \<open>the work and the deferred reset\<close>
  "recoveryEnd env d = (case recoverTUN env (dmL3 d) of (e, p) \<Rightarrow> (e, d\<lparr>dmL3 := p, dmAnomaly := None\<rparr>))"

section \<open>The dispatcher\<close>

definition mutatingActions :: "string list" where
  "mutatingActions =
     [ActionConnect, ActionDisconnect, ActionQuit, ActionUIDisconnect, ActionSetAutoStart, ActionSetBlocklist,
      ActionSetHTTPProxy, ActionSelectCountry, ActionRetryCaptive, ActionSetAllowIPv6Leak, ActionSetKillSwitchMode,
      ActionTriggerRecovery]"

definition integrityGate :: "string list" where
  \<comment> \<open>the actions refused while the configuration is suspect\<close>
  "integrityGate =
     [ActionConnect, ActionSetAutoStart, ActionSetBlocklist, ActionSetHTTPProxy, ActionSelectCountry,
      ActionSetAllowIPv6Leak, ActionSetKillSwitchMode]"

definition dispatch :: "ipcEnv \<Rightarrow> ipcRequest \<Rightarrow> daemon \<Rightarrow> ipcResponse \<times> daemon" where
  "dispatch env req d =
     (let a = rqAction req; v = rqValue req in
      if a = ActionGetStatus then handleGetStatus d
      else if a = ActionConnect then handleIpcConnect env d
      else if a = ActionDisconnect then handleIpcDisconnect d
      else if a = ActionSetAutoStart then handleSetAutoStart env v d
      else if a = ActionQuit then handleQuit d
      else if a = ActionUIDisconnect then (respond ''ok'', d)
      else if a = ActionLeakCheck then handleLeakCheck env d
      else if a = ActionCheckUpdate then handleCheckUpdate env d
      else if a = ActionUpdateStatus then (handleUpdateStatus d, d)
      else if a = ActionSetBlocklist then handleSetBlocklist env v d
      else if a = ActionSetHTTPProxy then handleSetHTTPProxy env v d
      else if a = ActionGetRegistry then (handleGetRegistry d, d)
      else if a = ActionSelectCountry then handleSelectCountry env v d
      else if a = ActionRetryCaptive then handleRetryCaptive d
      else if a = ActionGetAllowIPv6Leak then (handleGetAllowIPv6Leak d, d)
      else if a = ActionSetAllowIPv6Leak then handleSetAllowIPv6Leak env v d
      else if a = ActionGetUISupervision then (respond ''ok'', d)
      else if a = ActionGetKillSwitchMode then (handleGetKillSwitchMode d, d)
      else if a = ActionSetKillSwitchMode then handleSetKillSwitchMode env req d
      else if a = ActionTriggerRecovery then handleTriggerRecovery req d
      else (respondError (ErrText ''unknown_action''), d))"

definition ipcHandle :: "ipcEnv \<Rightarrow> ipcRequest \<Rightarrow> daemon \<Rightarrow> ipcResponse \<times> daemon" where
  \<comment> \<open>\<^verbatim>\<open>Handle\<close>, with \<^verbatim>\<open>testBypassAuthGate\<close> false\<close>
  "ipcHandle env req d =
     (if dmIntegrityFailed d \<and> rqAction req \<in> set integrityGate
      then ((respondError (ErrText ''integrity_failed''))\<lparr>rsIntegrityFailed := True\<rparr>, d)
      else if rqAction req \<in> set mutatingActions \<and> rqAuth req = [] then (respondError (ErrText ''auth_required''), d)
      else dispatch env req d)"

end
