(* ===== verification/Config_Props.thy ===== *)
theory Config_Props
  imports Config
begin

text \<open>
  What the configuration promises: whatever is loaded is well formed, so the kill switch can always be
  rendered for it; a signed write is found intact and read back at the next start; and exactly which
  states of the disk lock the daemon.
\<close>

section \<open>Well-formed configurations\<close>

definition configWf :: "configLib \<Rightarrow> appConfig \<Rightarrow> bool" where
  "configWf lib cfg \<longleftrightarrow>
     (rcDomain (cfgRelay cfg) = [] \<or> rcPublicKeyEd25519 (cfgRelay cfg) \<noteq> [] \<or> rcInsecure (cfgRelay cfg)) \<and>
     576 \<le> tcMTU (cfgTUN cfg) \<and> tcMTU (cfgTUN cfg) \<le> 9000 \<and> tunNameRe (tcName (cfgTUN cfg)) \<and>
     list_all (upstreamOk lib) (gcDoHUpstreams (cfgRegistry cfg))"

lemma default_wf: "configWf lib defaultConfig"
  by (simp add: configWf_def defaultConfig_def tunNameRe_def isLowerAZ_def isDigit_def)

lemma validate_wf: "validateConfig lib cfg0 = Inr cfg \<Longrightarrow> configWf lib cfg"
  by (auto simp: validateConfig_def configWf_def Let_def normalizeTUN_def not_less split: if_splits)

lemma load_wf: "ConfigLoad lib readable path fs = Inr cfg \<Longrightarrow> configWf lib cfg"
  by (auto simp: ConfigLoad_def default_wf dest: validate_wf split: fileRead.splits option.splits)

lemma normalizeTUN_id: "tcMTU t \<noteq> 0 \<Longrightarrow> normalizeTUN t = t"
  by (simp add: normalizeTUN_def)

lemma validate_id: "configWf lib cfg \<Longrightarrow> validateConfig lib cfg = Inr cfg"
  by (auto simp: configWf_def validateConfig_def normalizeTUN_id Let_def tunNameRe_def)

lemma tunNameRe_valid: "tunNameRe s \<Longrightarrow> validTunName s"
  by (cases s) (auto simp: tunNameRe_def validTunName_def isLowerAZ_def isAlnum_def Let_def list_all_iff)

lemma resolve_loads:
  assumes "resolveConfig lib readable stg envTun fd fk fi path fs = Inr rv"
  shows "\<exists>cfg. ConfigLoad lib readable path fs = Inr cfg \<and> rvRelayPubKey rv \<noteq> [] \<and> rvRelayDomain rv \<noteq> [] \<and>
    rvTUNName rv = tcName (cfgTUN cfg) \<and> rvTUNMTU rv = tcMTU (cfgTUN cfg) \<and>
    rvFirewallEnabled rv = fcEnableKillSwitch (cfgFirewall cfg)"
  using assms
  by (cases "ConfigLoad lib readable path fs")
    (auto simp: resolveConfig_def Let_def defaultRelayDomain_def split: option.splits if_splits)

text \<open>
  C21: Whatever configuration the daemon starts with is well formed: it has a relay domain and a key, an
  MTU between 576 and 9000, and a TUN name for which the kill-switch script of every IPv4 relay can
  be rendered, so a name in the file can never make the activation of the kill switch fail.  The mode it
  starts in is the mode of the file, and normal when there is no file.
\<close>

theorem loaded_config_is_safe:
  assumes "resolveConfig lib readable stg envTun fd fk fi path fs = Inr rv"
  shows "\<exists>cfg. ConfigLoad lib readable path fs = Inr cfg \<and> configWf lib cfg \<and>
    rvRelayPubKey rv \<noteq> [] \<and> rvRelayDomain rv \<noteq> [] \<and> 576 \<le> rvTUNMTU rv \<and> rvTUNMTU rv \<le> 9000 \<and>
    (\<forall>relay leak. To4 relay \<noteq> [] \<longrightarrow> renderRuleset (Some relay) (rvTUNName rv) leak \<noteq> None) \<and>
    KillSwitchMode (newProgram rv k routes) =
      (if fs path = None \<or> fcEnableKillSwitch (cfgFirewall cfg) then KillSwitchModeNormal else KillSwitchModeDegraded)"
proof -
  from resolve_loads [OF assms] obtain cfg where l: "ConfigLoad lib readable path fs = Inr cfg"
    and rv: "rvRelayPubKey rv \<noteq> []" "rvRelayDomain rv \<noteq> []" "rvTUNName rv = tcName (cfgTUN cfg)"
      "rvTUNMTU rv = tcMTU (cfgTUN cfg)" "rvFirewallEnabled rv = fcEnableKillSwitch (cfgFirewall cfg)" by blast
  note wf = load_wf [OF l]
  have n: "validTunName (rvTUNName rv)" using wf rv(3) by (simp add: configWf_def tunNameRe_valid)
  then have "rvTUNName rv \<noteq> []" by (simp add: validTunName_def)
  with n have "renderRuleset (Some relay) (rvTUNName rv) leak \<noteq> None" if "To4 relay \<noteq> []" for relay leak
    using that by (simp add: renderRuleset_def)
  moreover have "fcEnableKillSwitch (cfgFirewall cfg)" if "fs path = None"
    using l that by (auto simp: ConfigLoad_def readStore_def defaultConfig_def)
  ultimately show ?thesis using l wf rv
    by (auto simp: configWf_def KillSwitchMode_def newProgram_def)
qed

section \<open>Libraries that keep their documented promises\<close>

definition configLibOk :: "configLib \<Rightarrow> bool" where
  \<comment> \<open>an encoded configuration decodes to itself, and a digest has 32 bytes\<close>
  "configLibOk lib \<longleftrightarrow>
     (\<forall>c b. tomlEncode lib c = Some b \<longrightarrow> tomlDecode lib b defaultConfig = Some c) \<and>
     (\<forall>k m. length (hmacSha256 lib k m) = 32)"

definition sampleConfigLib :: configLib where
  \<comment> \<open>one byte for the kill-switch flag, over the defaults\<close>
  "sampleConfigLib =
     \<lparr>tomlDecode = (\<lambda>b d. if b = [0] then Some (setEnableKillSwitch False defaultConfig)
                         else if b = [1] then Some defaultConfig else None),
      tomlEncode = (\<lambda>c. if c = setEnableKillSwitch False defaultConfig then Some [0]
                        else if c = defaultConfig then Some [1] else None),
      urlParse = (\<lambda>u. None), parseDuration = (\<lambda>s. Some 0),
      hmacSha256 = (\<lambda>k m. take 32 (m @ k @ replicate 32 0))\<rparr>"

lemma sampleConfigLib_ok: "configLibOk sampleConfigLib"
  by (auto simp: configLibOk_def sampleConfigLib_def split: if_splits)

section \<open>Signed writes\<close>

lemma hmacPath_ne [simp]: "hmacPath p \<noteq> p" "p \<noteq> hmacPath p"
  by (simp_all add: hmacPath_def)

definition signedAt :: "configLib \<Rightarrow> string \<Rightarrow> bytes \<Rightarrow> fileStore \<Rightarrow> bool" where
  "signedAt lib path key fs \<longleftrightarrow>
     (\<exists>b. fs path = Some b \<and> fs (hmacPath path) = Some (bytesOf (hexEncode (hmacSha256 lib key b))))"

lemma SaveAndSign_cases:
  assumes "length key = integrityKeyLen"
  shows "SaveAndSign lib ws path key cfg fs =
    (case tomlEncode lib cfg of
       None \<Rightarrow> (Some CfgEncode, fs)
     | Some b \<Rightarrow>
         (let mac = bytesOf (hexEncode (hmacSha256 lib key b)) in
          case ws of
            (WrFail, _) \<Rightarrow> (Some CfgWrite, fs)
          | (WrLoose, _) \<Rightarrow> (Some CfgPerms, fs(path \<mapsto> b))
          | (WrDone, WrFail) \<Rightarrow> (Some CfgWrite, fs(path \<mapsto> b))
          | (WrDone, WrLoose) \<Rightarrow> (Some CfgPerms, fs(path \<mapsto> b, hmacPath path \<mapsto> mac))
          | (WrDone, WrDone) \<Rightarrow> (None, fs(path \<mapsto> b, hmacPath path \<mapsto> mac))))"
proof -
  have "key \<noteq> []" using assms by (auto simp: integrityKeyLen_def)
  then show ?thesis using assms
    by (simp add: SaveAndSign_def saveBytes_def SignBytes_def atomicWrite_def Let_def
        split: option.split prod.split writeEnd.split)
qed

lemma SaveAndSign_ok:
  assumes "SaveAndSign lib ws path key cfg fs = (None, fs')" and "length key = integrityKeyLen"
  shows "\<exists>b. tomlEncode lib cfg = Some b \<and>
    fs' = fs(path \<mapsto> b, hmacPath path \<mapsto> bytesOf (hexEncode (hmacSha256 lib key b)))"
  using assms(1) unfolding SaveAndSign_cases [OF assms(2)]
  by (auto simp: Let_def split: option.splits prod.splits writeEnd.splits)

lemma load_written:
  assumes "configLibOk lib" and "tomlEncode lib cfg = Some b" and "configWf lib cfg" and "fs path = Some b"
  shows "ConfigLoad lib True path fs = Inr cfg"
  using assms by (simp add: ConfigLoad_def readStore_def configLibOk_def validate_id)

lemma verify_exact:
  assumes "length key = integrityKeyLen" and "fs path = Some b" and "\<forall>k m. length (hmacSha256 lib k m) = 32"
  shows "ConfigVerify lib True True path key fs =
    (case fs (hmacPath path) of
       None \<Rightarrow> Some HMACAbsent
     | Some m \<Rightarrow> if m = bytesOf (hexEncode (hmacSha256 lib key b)) then None else Some IntegrityMismatch)"
  using assms by (auto simp: ConfigVerify_def readStore_def hmacHexLen_def split: option.splits)

definition wellRead :: "bootEnv \<Rightarrow> bool" where
  \<comment> \<open>the files of the start can be read\<close>
  "wellRead env \<longleftrightarrow> beStat env \<and> beKeyRead env \<and> beHmacRead env \<and> beCfgRead env"

lemma boot_verifies:
  assumes "wellRead env" and "fs path \<noteq> None" and "fs keyPath = Some key" and "length key = integrityKeyLen" and "keyPath \<noteq> []"
  shows "bootIntegrity lib env path keyPath fs =
    (case ConfigVerify lib True True path key fs of
       None \<Rightarrow> (BootRun False key, fs)
     | Some HMACAbsent \<Rightarrow>
         (case ConfigSign lib (beCfgRead env) (beSign env) path key fs of
            (Some e, fs3) \<Rightarrow> (BootExit e, fs3) | (None, fs3) \<Rightarrow> (BootRun False key, fs3))
     | Some IntegrityMismatch \<Rightarrow> (BootRun True key, fs)
     | Some e \<Rightarrow> (BootExit e, fs))"
  using assms
  by (simp add: bootIntegrity_def wellRead_def Bootstrap_def LoadOrCreateKey_def loadKey_def readStore_def)

text \<open>
  The start of the daemon locks it exactly when the sidecar is there and is not the digest of the
  configuration.  A configuration whose sidecar was removed is signed as it is, whatever it says: the
  lock detects a changed file, but not a changed file whose sidecar was deleted with it.
\<close>

theorem boot_locks_iff_sidecar_differs:
  assumes "wellRead env" and "fs path = Some b" and "fs keyPath = Some key" and "length key = integrityKeyLen"
    and "keyPath \<noteq> []" and "\<forall>k m. length (hmacSha256 lib k m) = 32"
  shows "bootIntegrity lib env path keyPath fs =
    (case fs (hmacPath path) of
       Some m \<Rightarrow> (BootRun (m \<noteq> bytesOf (hexEncode (hmacSha256 lib key b))) key, fs)
     | None \<Rightarrow>
         (let signed = fs(hmacPath path \<mapsto> bytesOf (hexEncode (hmacSha256 lib key b))) in
          case beSign env of
            WrDone \<Rightarrow> (BootRun False key, signed)
          | WrLoose \<Rightarrow> (BootExit CfgPerms, signed)
          | WrFail \<Rightarrow> (BootExit CfgWrite, fs)))"
proof -
  have ne: "fs path \<noteq> None" using assms(2) by simp
  show ?thesis
    unfolding boot_verifies [OF assms(1) ne assms(3-5)] verify_exact [where fs = fs and path = path and lib = lib, OF assms(4,2,6)]
    using assms(1,2,4)
    by (auto simp: wellRead_def ConfigSign_def readStore_def SignBytes_def atomicWrite_def Let_def split: option.split writeEnd.split)
qed

definition sampleBoot :: bootEnv where
  "sampleBoot = \<lparr>beStat = True, beBootstrap = WrDone, beExample = [1], beKeyRead = True, beRand = None, beKeyWrite = WrDone,
     beHmacRead = True, beCfgRead = True, beSign = WrDone\<rparr>"

definition sampleStore :: fileStore where
  \<comment> \<open>a signed configuration in normal mode\<close>
  "sampleStore = [''c'' \<mapsto> [1], ''k'' \<mapsto> replicate 32 7,
     hmacPath ''c'' \<mapsto> bytesOf (hexEncode (hmacSha256 sampleConfigLib (replicate 32 7) [1]))]"

theorem boot_locks_iff_sidecar_differs_witness:
  "bootIntegrity sampleConfigLib sampleBoot ''c'' ''k'' (sampleStore(''c'' \<mapsto> [0])) =
     (BootRun True (replicate 32 7), sampleStore(''c'' \<mapsto> [0])) \<and>
   fst (bootIntegrity sampleConfigLib sampleBoot ''c'' ''k'' (sampleStore(''c'' \<mapsto> [0], hmacPath ''c'' := None))) =
     BootRun False (replicate 32 7)"
proof -
  have w: "wellRead sampleBoot" by (simp add: wellRead_def sampleBoot_def)
  have h: "\<forall>k m. length (hmacSha256 sampleConfigLib k m) = 32" using sampleConfigLib_ok by (simp add: configLibOk_def)
  have p: "hmacPath ''c'' = ''c.hmac''" by (simp add: hmacPath_def)
  have ne: "hmacSha256 sampleConfigLib (replicate 32 7) [1] \<noteq> hmacSha256 sampleConfigLib (replicate 32 7) [0]"
    by (simp add: sampleConfigLib_def)
  show ?thesis
    using boot_locks_iff_sidecar_differs [OF w _ _ _ _ h, of "sampleStore(''c'' \<mapsto> [0])" "''c''" "[0]" "''k''" "replicate 32 7"]
      boot_locks_iff_sidecar_differs [OF w _ _ _ _ h, of "sampleStore(''c'' \<mapsto> [0], hmacPath ''c'' := None)" "''c''" "[0]" "''k''" "replicate 32 7"]
      ne
    by (auto simp: sampleStore_def p integrityKeyLen_def sampleBoot_def Let_def)
qed

theorem loaded_config_is_safe_witness:
  "\<exists>rv. resolveConfig sampleConfigLib True (Some ''/st'') False [] ''key'' False ''c'' sampleStore = Inr rv \<and>
     rvTUNMTU rv = 1420 \<and> renderRuleset (Some [9, 9, 9, 9]) (rvTUNName rv) False \<noteq> None"
proof -
  have "sampleStore ''c'' = Some [1]" by (simp add: sampleStore_def hmacPath_def)
  then have l: "ConfigLoad sampleConfigLib True ''c'' sampleStore = Inr defaultConfig"
    using validate_id [OF default_wf, of sampleConfigLib] by (simp add: ConfigLoad_def readStore_def sampleConfigLib_def)
  then have "\<exists>rv. resolveConfig sampleConfigLib True (Some ''/st'') False [] ''key'' False ''c'' sampleStore = Inr rv \<and> rvTUNMTU rv = 1420"
    by (simp add: resolveConfig_def durationOr0_def sampleConfigLib_def defaultConfig_def)
  then obtain rv where r: "resolveConfig sampleConfigLib True (Some ''/st'') False [] ''key'' False ''c'' sampleStore = Inr rv" "rvTUNMTU rv = 1420"
    by blast
  have "To4 [9, 9, 9, 9] \<noteq> []" by simp
  with loaded_config_is_safe [OF r(1), of undefined undefined] r show ?thesis by blast
qed

section \<open>The kill-switch mode on disk\<close>

lemma setEnableKillSwitch_wf [simp]: "configWf lib (setEnableKillSwitch b cfg) = configWf lib cfg"
  by (simp add: configWf_def setEnableKillSwitch_def)

lemma SetKillSwitchMode_None:
  "SetKillSwitchMode env rb ok mode p = (None, p') \<Longrightarrow>
   \<exists>md. mode = Some md \<and> cfFirewallEnabled p' = (md = KillSwitchModeNormal) \<and>
     (cfFirewallEnabled p \<noteq> (md = KillSwitchModeNormal) \<longrightarrow> ok)"
  by (auto simp: SetKillSwitchMode_def Let_def split: option.splits if_splits prod.splits)

lemma resolve_mode:
  assumes "resolveConfig lib readable stg envTun fd fk fi path fs = Inr rv" and "ConfigLoad lib readable path fs = Inr cfg"
  shows "KillSwitchMode (newProgram rv k routes) =
    (if fcEnableKillSwitch (cfgFirewall cfg) then KillSwitchModeNormal else KillSwitchModeDegraded)"
  using resolve_loads [OF assms(1)] assms(2) by (auto simp: KillSwitchMode_def newProgram_def)

text \<open>
  C17: A change of the kill-switch mode that succeeds survives a restart.  The next start finds the
  configuration intact and does not lock, reads back the configuration of before with the new
  mode and nothing else changed, and runs in that mode.
\<close>

theorem mode_survives_restart:
  assumes "persistedMode env rb lib True ws path key (Some md) (p, fs) = (None, p', fs')"
    and "cfFirewallEnabled p \<noteq> (md = KillSwitchModeNormal)" and "ConfigLoad lib True path fs = Inr cfg" and "path \<noteq> []"
    and "configLibOk lib" and "length key = integrityKeyLen"
    and "wellRead be" and "fs keyPath = Some key" and "keyPath \<notin> {[], path, hmacPath path}"
  shows "bootIntegrity lib be path keyPath fs' = (BootRun False key, fs') \<and>
    ConfigLoad lib True path fs' = Inr (setEnableKillSwitch (md = KillSwitchModeNormal) cfg) \<and>
    KillSwitchMode p' = md \<and>
    (\<forall>stg e fd fk fi rv k routes. resolveConfig lib True stg e fd fk fi path fs' = Inr rv \<longrightarrow>
       KillSwitchMode (newProgram rv k routes) = md)"
proof -
  let ?cfg = "setEnableKillSwitch (md = KillSwitchModeNormal) cfg"
  obtain pe fs1 where per: "persistFirewallEnabled lib True ws path (md = KillSwitchModeNormal) key fs = (pe, fs1)"
    by (cases "persistFirewallEnabled lib True ws path (md = KillSwitchModeNormal) key fs")
  have s: "SetKillSwitchMode env rb (pe = None) (Some md) p = (None, p')" and fs': "fs' = fs1"
    using assms(1,2) by (auto simp: persistedMode_def per Let_def split: prod.splits if_splits)
  from SetKillSwitchMode_None [OF s] assms(2) have pe: "pe = None"
    and m: "cfFirewallEnabled p' = (md = KillSwitchModeNormal)" by auto
  have "SaveAndSign lib ws path key ?cfg fs = (None, fs')"
    using per pe fs' assms(3,4) by (simp add: persistFirewallEnabled_def updateConfigFile_def)
  from SaveAndSign_ok [OF this assms(6)] obtain b where enc: "tomlEncode lib ?cfg = Some b" and
    w: "fs' = fs(path \<mapsto> b, hmacPath path \<mapsto> bytesOf (hexEncode (hmacSha256 lib key b)))" by blast
  have fp: "fs' path = Some b" and fk: "fs' keyPath = Some key" and
    fh: "fs' (hmacPath path) = Some (bytesOf (hexEncode (hmacSha256 lib key b)))"
    using assms(8,9) by (auto simp: w)
  have load: "ConfigLoad lib True path fs' = Inr ?cfg"
    using load_written [where fs = fs', OF assms(5) enc _ fp] load_wf [OF assms(3)] by simp
  have h: "\<forall>k m. length (hmacSha256 lib k m) = 32" using assms(5) by (simp add: configLibOk_def)
  have "ConfigVerify lib True True path key fs' = None"
    using verify_exact [where fs = fs', OF assms(6) fp h] fh by simp
  then have boot: "bootIntegrity lib be path keyPath fs' = (BootRun False key, fs')"
    using boot_verifies [where fs = fs', OF assms(7) _ fk assms(6)] fp assms(9) by simp
  have md: "(if fcEnableKillSwitch (cfgFirewall ?cfg) then KillSwitchModeNormal else KillSwitchModeDegraded) = md"
    by (cases md) (simp_all add: setEnableKillSwitch_def)
  have "KillSwitchMode p' = md" using m by (cases md) (simp_all add: KillSwitchMode_def)
  moreover have "KillSwitchMode (newProgram rv k routes) = md"
    if r: "resolveConfig lib True stg e fd fk fi path fs' = Inr rv" for stg e fd fk fi rv k routes
    using resolve_mode [OF r load] md by simp
  ultimately show ?thesis using boot load by blast
qed

definition sampleDaemon :: l3 where
  "sampleDaemon =
     \<lparr>cfTUNEnabled = True, cfFirewallEnabled = True, cfAllowIPv6Leak = False, cfCaptiveEnabled = True, cfCaptiveURLs = [],
      l3Captive = False, l3Tun = None, l3RelayIP = None, l3Fw = None, l3Route = None, l3Altered = False,
      l3Indeterminate = False, l3Kernel = None,
      l3Routes = \<lparr>tabDefault = None, tabRelay = None, ruleOn = False, mainRelay = {}\<rparr>\<rparr>"

lemma sample_load: "ConfigLoad sampleConfigLib True ''c'' sampleStore = Inr defaultConfig"
proof -
  have "sampleStore ''c'' = Some [1]" by (simp add: sampleStore_def hmacPath_def)
  then show ?thesis
    using validate_id [OF default_wf, of sampleConfigLib] by (simp add: ConfigLoad_def readStore_def sampleConfigLib_def)
qed

lemma degrade_differs [simp]: "setEnableKillSwitch False defaultConfig \<noteq> defaultConfig"
proof
  assume "setEnableKillSwitch False defaultConfig = defaultConfig"
  then have "fcEnableKillSwitch (cfgFirewall (setEnableKillSwitch False defaultConfig)) = fcEnableKillSwitch (cfgFirewall defaultConfig)"
    by simp
  then show False by (simp add: setEnableKillSwitch_def defaultConfig_def)
qed

lemma sample_persist:
  "persistFirewallEnabled sampleConfigLib True (WrDone, WrDone) ''c'' False (replicate 32 7) sampleStore =
     (None, sampleStore(''c'' \<mapsto> [0], hmacPath ''c'' \<mapsto> bytesOf (hexEncode (hmacSha256 sampleConfigLib (replicate 32 7) [0]))))"
  "persistFirewallEnabled sampleConfigLib True (WrLoose, w) ''c'' False (replicate 32 7) sampleStore =
     (Some CfgPerms, sampleStore(''c'' \<mapsto> [0]))"
proof -
  have enc: "tomlEncode sampleConfigLib (setEnableKillSwitch False defaultConfig) = Some [0]"
    by (simp add: sampleConfigLib_def)
  have k: "length (replicate 32 (7 :: byte)) = integrityKeyLen" by (simp add: integrityKeyLen_def)
  show "persistFirewallEnabled sampleConfigLib True (WrDone, WrDone) ''c'' False (replicate 32 7) sampleStore =
     (None, sampleStore(''c'' \<mapsto> [0], hmacPath ''c'' \<mapsto> bytesOf (hexEncode (hmacSha256 sampleConfigLib (replicate 32 7) [0]))))"
   "persistFirewallEnabled sampleConfigLib True (WrLoose, w) ''c'' False (replicate 32 7) sampleStore =
     (Some CfgPerms, sampleStore(''c'' \<mapsto> [0]))"
    by (simp_all add: persistFirewallEnabled_def updateConfigFile_def sample_load SaveAndSign_cases [OF k] enc Let_def)
qed

lemma sample_mode:
  "\<exists>p'. SetKillSwitchMode env rb ok (Some KillSwitchModeDegraded) sampleDaemon = (if ok then None else Some ErrKsPersist, p')"
proof -
  have ap: "applyFirewallForModeLocked env False sampleDaemon = (None, sampleDaemon)"
    by (simp add: applyFirewallForModeLocked_def sampleDaemon_def)
  have f: "\<not> l3Captive sampleDaemon" "cfFirewallEnabled sampleDaemon" by (simp_all add: sampleDaemon_def)
  show ?thesis by (simp add: SetKillSwitchMode_def ap f Let_def split: prod.split)
qed

lemma sample_degrade:
  "\<exists>p' fs'. persistedMode env rb sampleConfigLib True (WrDone, WrDone) ''c'' (replicate 32 7)
     (Some KillSwitchModeDegraded) (sampleDaemon, sampleStore) = (None, p', fs')"
  "\<exists>p' fs'. persistedMode env rb sampleConfigLib True (WrLoose, w) ''c'' (replicate 32 7)
     (Some KillSwitchModeDegraded) (sampleDaemon, sampleStore) = (Some ErrKsPersist, p', fs')"
  using sample_mode [of env rb True] sample_mode [of env rb False]
  by (auto simp: persistedMode_def sample_persist Let_def)

theorem mode_survives_restart_witness:
  "\<exists>p' fs'. persistedMode undefined undefined sampleConfigLib True (WrDone, WrDone) ''c'' (replicate 32 7)
      (Some KillSwitchModeDegraded) (sampleDaemon, sampleStore) = (None, p', fs') \<and>
    bootIntegrity sampleConfigLib sampleBoot ''c'' ''k'' fs' = (BootRun False (replicate 32 7), fs') \<and>
    ConfigLoad sampleConfigLib True ''c'' fs' = Inr (setEnableKillSwitch False defaultConfig)"
proof -
  obtain p' fs' where r: "persistedMode undefined undefined sampleConfigLib True (WrDone, WrDone) ''c'' (replicate 32 7)
      (Some KillSwitchModeDegraded) (sampleDaemon, sampleStore) = (None, p', fs')"
    using sample_degrade(1) [of undefined undefined] by blast
  have c: "cfFirewallEnabled sampleDaemon \<noteq> (KillSwitchModeDegraded = KillSwitchModeNormal)" by (simp add: sampleDaemon_def)
  have w: "wellRead sampleBoot" by (simp add: wellRead_def sampleBoot_def)
  have k: "length (replicate 32 (7 :: byte)) = integrityKeyLen" by (simp add: integrityKeyLen_def)
  have s: "sampleStore ''k'' = Some (replicate 32 7)" "''k'' \<notin> {[], ''c'', hmacPath ''c''}"
    by (simp_all add: sampleStore_def hmacPath_def)
  have n: "''c'' \<noteq> []" by simp
  show ?thesis using r mode_survives_restart [OF r c sample_load n sampleConfigLib_ok k w s] by auto
qed

text \<open>
  A write of the configuration whose permissions cannot be tightened locks the next start.  The change of
  mode is reported as failed and the mode in memory is the old one, but the file already holds the
  new mode and its sidecar was not rewritten: the next start takes the daemon's own write for a
  manipulation and locks the daemon.
\<close>

theorem loose_write_locks_next_start:
  assumes "persistedMode env rb lib True (WrLoose, w) path key (Some md) (p, fs) = (Some ErrKsPersist, p', fs')"
    and "ConfigLoad lib True path fs = Inr cfg" and "path \<noteq> []" and "configLibOk lib" and "length key = integrityKeyLen"
    and "wellRead be" and "fs keyPath = Some key" and "keyPath \<notin> {[], path, hmacPath path}"
    and "tomlEncode lib (setEnableKillSwitch (md = KillSwitchModeNormal) cfg) = Some new"
    and "fs (hmacPath path) = Some (bytesOf (hexEncode (hmacSha256 lib key old)))"
    and "hmacSha256 lib key new \<noteq> hmacSha256 lib key old"
  shows "KillSwitchMode p' = KillSwitchMode p \<and> KillSwitchMode p' \<noteq> md \<and>
    ConfigLoad lib True path fs' = Inr (setEnableKillSwitch (md = KillSwitchModeNormal) cfg) \<and>
    bootIntegrity lib be path keyPath fs' = (BootRun True key, fs')"
proof -
  let ?cfg = "setEnableKillSwitch (md = KillSwitchModeNormal) cfg"
  have per: "persistFirewallEnabled lib True (WrLoose, w) path (md = KillSwitchModeNormal) key fs = (Some CfgPerms, fs(path \<mapsto> new))"
    using assms(2,3,9) by (simp add: persistFirewallEnabled_def updateConfigFile_def SaveAndSign_cases [OF assms(5)] Let_def)
  have s: "SetKillSwitchMode env rb False (Some md) p = (Some ErrKsPersist, p')" and fs': "fs' = fs(path \<mapsto> new)"
    using assms(1) by (auto simp: persistedMode_def per Let_def split: prod.splits if_splits)
  have m: "cfFirewallEnabled p' = cfFirewallEnabled p" "cfFirewallEnabled p \<noteq> (md = KillSwitchModeNormal)"
    using s by (auto simp: SetKillSwitchMode_def applyFirewallForModeLocked_def Let_def split: option.splits if_splits prod.splits)
  have fp: "fs' path = Some new" and fk: "fs' keyPath = Some key" and
    fh: "fs' (hmacPath path) = Some (bytesOf (hexEncode (hmacSha256 lib key old)))"
    using assms(7,8,10) by (auto simp: fs')
  have load: "ConfigLoad lib True path fs' = Inr ?cfg"
    using load_written [where fs = fs', OF assms(4,9) _ fp] load_wf [OF assms(2)] by simp
  have h: "\<forall>k m. length (hmacSha256 lib k m) = 32" using assms(4) by (simp add: configLibOk_def)
  have "ConfigVerify lib True True path key fs' = Some IntegrityMismatch"
    using verify_exact [where fs = fs', OF assms(5) fp h] fh assms(11) by auto
  then have "bootIntegrity lib be path keyPath fs' = (BootRun True key, fs')"
    using boot_verifies [where fs = fs', OF assms(6) _ fk assms(5)] fp assms(8) by simp
  then show ?thesis using load m by (cases md) (simp_all add: KillSwitchMode_def)
qed

theorem loose_write_locks_next_start_witness:
  "\<exists>p' fs'. persistedMode undefined undefined sampleConfigLib True (WrLoose, WrDone) ''c'' (replicate 32 7)
      (Some KillSwitchModeDegraded) (sampleDaemon, sampleStore) = (Some ErrKsPersist, p', fs') \<and>
    KillSwitchMode p' = KillSwitchModeNormal \<and>
    bootIntegrity sampleConfigLib sampleBoot ''c'' ''k'' fs' = (BootRun True (replicate 32 7), fs')"
proof -
  obtain p' fs' where r: "persistedMode undefined undefined sampleConfigLib True (WrLoose, WrDone) ''c'' (replicate 32 7)
      (Some KillSwitchModeDegraded) (sampleDaemon, sampleStore) = (Some ErrKsPersist, p', fs')"
    using sample_degrade(2) [of undefined undefined WrDone] by blast
  have w: "wellRead sampleBoot" by (simp add: wellRead_def sampleBoot_def)
  have k: "length (replicate 32 (7 :: byte)) = integrityKeyLen" by (simp add: integrityKeyLen_def)
  have s: "sampleStore ''k'' = Some (replicate 32 7)" "''k'' \<notin> {[], ''c'', hmacPath ''c''}"
    "sampleStore (hmacPath ''c'') = Some (bytesOf (hexEncode (hmacSha256 sampleConfigLib (replicate 32 7) [1])))"
    by (simp_all add: sampleStore_def hmacPath_def)
  have n: "''c'' \<noteq> []" by simp
  have e: "tomlEncode sampleConfigLib (setEnableKillSwitch (KillSwitchModeDegraded = KillSwitchModeNormal) defaultConfig) = Some [0]"
    by (simp add: sampleConfigLib_def)
  have d: "hmacSha256 sampleConfigLib (replicate 32 7) [0] \<noteq> hmacSha256 sampleConfigLib (replicate 32 7) [1]"
    by (simp add: sampleConfigLib_def)
  have "KillSwitchMode sampleDaemon = KillSwitchModeNormal" by (simp add: KillSwitchMode_def sampleDaemon_def)
  with r loose_write_locks_next_start [OF r sample_load n sampleConfigLib_ok k w s(1,2) e s(3) d] show ?thesis by auto
qed

end
