(* ===== verification/Protection_Props.thy ===== *)
theory Protection_Props
  imports Protection
begin

text \<open>
  The properties of the daemon's protection: when the kill switch is in the kernel, what the start
  sequence guarantees, and where the guarantees end.
\<close>

section \<open>The kill switch is never off in silence\<close>

datatype l3Op =
    OpSetMode nftEnv nftEnv bool "ksMode option"
  | OpMaybeRestore nftEnv nftEnv bool
  | OpIPv6 bool nftEnv bool
  | OpRecover recEnv
  | OpAltered nftEnv nftEnv
  | OpReconfigure recEnv "bytes option"

fun l3Step :: "l3Op \<Rightarrow> l3 \<Rightarrow> l3" where
  "l3Step (OpSetMode env rb ok mode) p = snd (SetKillSwitchMode env rb ok mode p)"
| "l3Step (OpMaybeRestore env rb ok) p = MaybeRestoreKillSwitch env rb ok p"
| "l3Step (OpIPv6 locked env allow) p = snd (SetAllowIPv6Leak locked env allow p)"
| "l3Step (OpRecover env) p = snd (recoverTUN env p)"
| "l3Step (OpAltered denv aenv) p = firewallAlteredEvent denv aenv p"
| "l3Step (OpReconfigure env ip) p = snd (ReconfigureForRelay env ip p)"

fun undisturbedOp :: "l3Op \<Rightarrow> bool" where
  \<comment> \<open>no other program deletes the table while it is being activated\<close>
  "undisturbedOp (OpSetMode env rb ok mode) = (\<not> neDropped env \<and> \<not> neDropped rb)"
| "undisturbedOp (OpMaybeRestore env rb ok) = (\<not> neDropped env \<and> \<not> neDropped rb)"
| "undisturbedOp (OpIPv6 locked env allow) = (\<not> neDropped env)"
| "undisturbedOp (OpRecover env) = (\<not> neDropped (reNft env))"
| "undisturbedOp (OpAltered denv aenv) = (\<not> neDropped aenv)"
| "undisturbedOp (OpReconfigure env ip) = (\<not> neDropped (reNft env))"

definition guarded :: "l3 \<Rightarrow> bool" where
  \<comment> \<open>in normal mode the table is in the kernel, or the trouble has been signalled\<close>
  "guarded p \<longleftrightarrow> (cfFirewallEnabled p \<longrightarrow> l3Kernel p \<noteq> None \<or> l3Indeterminate p \<or> l3Altered p)"

lemma apply_normal:
  assumes "applyFirewallForModeLocked env True p = (r, p')"
  shows "r = None \<Longrightarrow> l3Kernel p' \<noteq> None"
    and "\<not> neDropped env \<Longrightarrow> l3Kernel p \<noteq> None \<Longrightarrow> l3Kernel p' \<noteq> None"
  using assms nft.success nft.keeps
  by (fastforce simp: applyFirewallForModeLocked_def Let_def split: option.splits prod.splits)+

lemma apply_degraded_error:
  "applyFirewallForModeLocked env False p = (Some e, p') \<Longrightarrow> l3Kernel p' = l3Kernel p"
  by (auto simp: applyFirewallForModeLocked_def fwDeactivate_def Let_def split: option.splits if_splits)

lemma apply_fields:
  assumes "applyFirewallForModeLocked env d p = (r, p')"
  shows "cfFirewallEnabled p' = cfFirewallEnabled p" "l3Indeterminate p' = l3Indeterminate p" "l3Altered p' = l3Altered p"
  using assms by (auto simp: applyFirewallForModeLocked_def Let_def split: if_splits option.splits prod.splits)

lemma guarded_SetMode:
  assumes "guarded p" and "\<not> neDropped env" and "\<not> neDropped rb"
  shows "guarded (snd (SetKillSwitchMode env rb ok mode p))"
proof -
  obtain r1 p1 where a: "applyFirewallForModeLocked env (mode = Some KillSwitchModeNormal) p = (r1, p1)" by (metis surj_pair)
  let ?p2 = "p1\<lparr>cfFirewallEnabled := (mode = Some KillSwitchModeNormal)\<rparr>"
  obtain r2 p3 where b: "applyFirewallForModeLocked rb (cfFirewallEnabled p) ?p2 = (r2, p3)" by (metis surj_pair)
  note f1 = apply_fields [OF a] and f2 = apply_fields [OF b]
  have m: "(md = KillSwitchModeNormal) = (mode = Some KillSwitchModeNormal)" if "mode = Some md" for md
    using that by simp
  show ?thesis
  proof (cases "mode = Some KillSwitchModeNormal")
    case True
    have k1: "r1 = None \<Longrightarrow> l3Kernel p1 \<noteq> None" using apply_normal(1) a True by simp
    have p1: "guarded p1" if "r1 \<noteq> None"
      using that a True assms(1,2) f1 apply_normal(2) [of env p r1 p1] by (auto simp: guarded_def)
    show ?thesis
      using True a b f1 f2 k1 p1 assms(1)
      by (auto simp: SetKillSwitchMode_def Let_def guarded_def split: option.splits if_splits prod.splits)
  next
    case False
    have p1: "guarded p1" if "r1 \<noteq> None"
      using that a False assms(1) f1 apply_degraded_error [of env p _ p1] by (auto simp: guarded_def)
    have k3: "cfFirewallEnabled p \<longrightarrow> (\<exists>e. r2 = Some e) \<or> l3Kernel p3 \<noteq> None"
      using b apply_normal(1) [of rb ?p2 r2 p3] by (cases r2) auto
    show ?thesis
      using False a b f1 f2 p1 k3 assms(1)
      by (auto simp: SetKillSwitchMode_def Let_def guarded_def split: option.splits if_splits prod.splits)
  qed
qed

lemma guarded_MaybeRestore:
  "guarded p \<Longrightarrow> \<not> neDropped env \<Longrightarrow> \<not> neDropped rb \<Longrightarrow> guarded (MaybeRestoreKillSwitch env rb ok p)"
  by (simp add: MaybeRestoreKillSwitch_def guarded_SetMode)

lemma guarded_IPv6:
  assumes "guarded p" and "\<not> neDropped env"
  shows "guarded (snd (SetAllowIPv6Leak locked env allow p))"
proof -
  have k: "k' \<noteq> None" if "l3Kernel p \<noteq> None" "SetIPv6Policy env allow fw (l3Kernel p) = (r, fw', k')" for fw r fw' k'
  proof (cases "lastParams fw")
    case None
    then have "k' = l3Kernel p" using that(2) by (simp add: SetIPv6Policy_def)
    then show ?thesis using that(1) by simp
  next
    case (Some ap)
    then show ?thesis using that nft.keeps [OF _ assms(2)] by (simp add: SetIPv6Policy_def)
  qed
  show ?thesis
    using assms(1) k by (fastforce simp: SetAllowIPv6Leak_def guarded_def split: option.splits prod.splits)
qed

lemma guarded_same_kernel:
  "guarded p \<Longrightarrow> cfFirewallEnabled p' = cfFirewallEnabled p \<Longrightarrow> (l3Kernel p \<noteq> None \<longrightarrow> l3Kernel p' \<noteq> None) \<Longrightarrow>
     l3Indeterminate p' = l3Indeterminate p \<Longrightarrow> l3Altered p' = l3Altered p \<Longrightarrow> guarded p'"
  by (auto simp: guarded_def)

lemma teardownRoutes_fields [simp]:
  "cfFirewallEnabled (teardownRoutes run p) = cfFirewallEnabled p" "l3Kernel (teardownRoutes run p) = l3Kernel p"
  "l3Indeterminate (teardownRoutes run p) = l3Indeterminate p" "l3Altered (teardownRoutes run p) = l3Altered p"
  "l3Tun (teardownRoutes run p) = l3Tun p" "l3Fw (teardownRoutes run p) = l3Fw p" "l3RelayIP (teardownRoutes run p) = l3RelayIP p"
  "cfTUNEnabled (teardownRoutes run p) = cfTUNEnabled p"
  by (simp_all add: teardownRoutes_def split: option.splits prod.splits)

lemma recoverRoutes_fields [simp]:
  "cfFirewallEnabled (recoverRoutes env n p) = cfFirewallEnabled p" "l3Kernel (recoverRoutes env n p) = l3Kernel p"
  "l3Indeterminate (recoverRoutes env n p) = l3Indeterminate p" "l3Altered (recoverRoutes env n p) = l3Altered p"
  by (simp_all add: recoverRoutes_def Let_def split: option.splits prod.splits)

lemma guarded_recoverFirewall:
  assumes "guarded p" and "\<not> neDropped (reNft env)"
  shows "guarded (recoverFirewall env n p)"
proof -
  let ?p' = "recoverFirewall env n p"
  have "l3Kernel p \<noteq> None \<Longrightarrow> l3Kernel ?p' \<noteq> None"
    using nft.keeps assms(2) by (fastforce simp: recoverFirewall_def Let_def split: option.splits prod.splits)
  moreover have "cfFirewallEnabled ?p' = cfFirewallEnabled p" "l3Indeterminate ?p' = l3Indeterminate p"
    "l3Altered ?p' = l3Altered p"
    by (simp_all add: recoverFirewall_def Let_def split: option.splits prod.splits)
  ultimately show ?thesis using guarded_same_kernel [OF assms(1)] by blast
qed

lemma guarded_recoverTUN:
  assumes "guarded p" and "\<not> neDropped (reNft env)"
  shows "guarded (snd (recoverTUN env p))"
proof -
  have "guarded (p\<lparr>l3Tun := t\<rparr>)" for t using assms(1) by (simp add: guarded_def)
  then have "guarded (recoverRoutes env n (recoverFirewall env n (p\<lparr>l3Tun := t\<rparr>)))" for n t
    using guarded_recoverFirewall [of "p\<lparr>l3Tun := t\<rparr>" env n] assms(2) by (simp add: guarded_def)
  then show ?thesis
    using assms(1) by (auto simp: recoverTUN_def recoverClose_def recoverCreate_def guarded_def)
qed

lemma guarded_altered:
  shows "guarded (firewallAlteredEvent denv aenv p)"
  using nft.success
  by (fastforce simp: firewallAlteredEvent_def guarded_def Let_def split: option.splits prod.splits)

lemma reconfigureFirewall_fields:
  assumes "reconfigureFirewall env ip p = (r, p')"
  shows "cfFirewallEnabled p' = cfFirewallEnabled p" "l3Indeterminate p' = l3Indeterminate p" "l3Altered p' = l3Altered p"
    "\<not> neDropped (reNft env) \<Longrightarrow> l3Kernel p \<noteq> None \<Longrightarrow> l3Kernel p' \<noteq> None"
  using assms nft.keeps
  by (fastforce simp: reconfigureFirewall_def split: if_splits option.splits prod.splits)+

lemma reconfigureRoutes_fields [simp]:
  "cfFirewallEnabled (snd (reconfigureRoutes env ip p)) = cfFirewallEnabled p"
  "l3Indeterminate (snd (reconfigureRoutes env ip p)) = l3Indeterminate p"
  "l3Altered (snd (reconfigureRoutes env ip p)) = l3Altered p"
  "l3Kernel (snd (reconfigureRoutes env ip p)) = l3Kernel p"
  by (simp_all add: reconfigureRoutes_def Let_def split: option.splits prod.splits)

lemma guarded_reconfigure:
  assumes "guarded p" and "\<not> neDropped (reNft env)"
  shows "guarded (snd (ReconfigureForRelay env ip p))"
proof (cases ip)
  case (Some a)
  obtain r q where f: "reconfigureFirewall env (To4 a) (p\<lparr>l3RelayIP := Some (To4 a)\<rparr>) = (r, q)" by (metis surj_pair)
  note q = reconfigureFirewall_fields [OF f]
  have "guarded q" "guarded (snd (reconfigureRoutes env (To4 a) q))"
    using assms q by (auto simp: guarded_def)
  then show ?thesis using Some f assms(1) by (cases r) (auto simp: ReconfigureForRelay_def)
qed (simp add: ReconfigureForRelay_def assms(1))

text \<open>
  C2: In normal mode the kill switch is never off in silence. After any sequence of mode changes,
  restorations, IPv6 policy changes, TUN recoveries, relay changes and alarms, with any failures of
  the commands they run, the table is in the kernel whenever the mode is normal, unless the daemon
  logged an indeterminate state or reports the firewall as altered.
\<close>

theorem kill_switch_never_silently_off:
  assumes "l3Kernel p \<noteq> None" and "\<forall>x \<in> set ops. undisturbedOp x"
    and "p' = fold l3Step ops p" and "KillSwitchMode p' = KillSwitchModeNormal"
  shows "l3Kernel p' \<noteq> None \<or> l3Indeterminate p' \<or> l3Altered p'"
proof -
  have step: "guarded (l3Step x q)" if "guarded q" "undisturbedOp x" for x q
    using that guarded_SetMode guarded_MaybeRestore guarded_IPv6 guarded_recoverTUN guarded_altered guarded_reconfigure
    by (cases x) simp_all
  have "guarded q \<Longrightarrow> \<forall>x \<in> set xs. undisturbedOp x \<Longrightarrow> guarded (fold l3Step xs q)" for q xs
    by (induction xs arbitrary: q) (simp_all add: step)
  moreover have "guarded p" using assms(1) by (simp add: guarded_def)
  ultimately have "guarded p'" using assms(2,3) by blast
  then show ?thesis using assms(4) by (auto simp: guarded_def KillSwitchMode_def split: if_splits)
qed

definition okNft :: nftEnv where
  "okNft = \<lparr>neFound = True, neProbe = True, neApply = True, neDropped = False, neList = True, neDelete = True\<rparr>"

definition noRoutes :: ipState where
  "noRoutes = \<lparr>tabDefault = None, tabRelay = None, ruleOn = False, mainRelay = {}\<rparr>"

definition bootState :: "bool \<Rightarrow> l3" where
  "bootState enabled = \<lparr>cfTUNEnabled = True, cfFirewallEnabled = enabled, cfAllowIPv6Leak = False, cfCaptiveEnabled = False, cfCaptiveURLs = [],
     l3Captive = False, l3Tun = None, l3RelayIP = None, l3Fw = None, l3Route = None, l3Altered = False,
     l3Indeterminate = False, l3Kernel = None, l3Routes = noRoutes\<rparr>"

definition okStart :: startEnv where
  "okStart = \<lparr>seGet = (\<lambda>_. None), seGateway = None, seReprobes = [], seCaptiveNft = okNft, seTun = True, seCleanup = (\<lambda>_. True), seRelayIPs = [[9, 9, 9, 9]],
     seCapture = Some ''default via 1.1.1.1 dev e'', seSetup = (\<lambda>_. True), seNft = okNft, seErrNft = okNft,
     seErrTeardown = (\<lambda>_. True)\<rparr>"

lemma capture_sample: "CaptureOriginalRoute (Some ''default via 1.1.1.1 dev e'') = Some ([1, 1, 1, 1], ''e'')"
proof -
  have w: "wordsOf ''default via 1.1.1.1 dev e'' = [''default'', ''via'', ''1.1.1.1'', ''dev'', ''e'']" by code_simp
  have d: "dotted [1, 1, 1, 1] = ''1.1.1.1''" by code_simp
  have "ParseIP ''1.1.1.1'' = Some (v4prefix @ [1, 1, 1, 1])"
    using ParseIP_dotted [of "[1, 1, 1, 1]"] unfolding d by simp
  then show ?thesis by (simp add: CaptureOriginalRoute_def w)
qed

lemma activate_okNft:
  assumes "To4 relay \<noteq> []" and "validTunName tun"
  shows "activateLocked okNft (fullParams relay tun) fw k =
    (None, fw\<lparr>lastParams := Some (fullParams relay tun), fwSnapshot := Some (snapshotForMode ModeFull), fwWatching := True\<rparr>,
     Some (rulesetTemplate (dotted (To4 relay)) tun (fwAllowIPv6 fw)))"
proof -
  have "tun \<noteq> []" using assms(2) by (auto simp: validTunName_def)
  with assms show ?thesis
    by (simp add: activateLocked_def okNft_def renderParams_def fullParams_def renderRuleset_def isActiveLocked_def)
qed

lemma levoile0_valid: "validTunName ''levoile0''"
  by code_simp

definition guardedState :: l3 where
  "guardedState = snd (startL3 okStart ''levoile0'' (bootState True))"

lemma guardedState_simps:
  "startL3 okStart ''levoile0'' (bootState True) = (True, guardedState)"
  "cfFirewallEnabled guardedState" "l3Tun guardedState = Some ''levoile0''" "l3RelayIP guardedState = Some [9, 9, 9, 9]"
  "l3Kernel guardedState = Some (rulesetTemplate (dotted [9, 9, 9, 9]) ''levoile0'' False)"
  "\<exists>fw. l3Fw guardedState = Some fw" "\<not> l3Captive guardedState" "\<not> l3Indeterminate guardedState" "\<not> l3Altered guardedState"
  by (simp_all add: guardedState_def startL3_def captivePhase_def bootState_def okStart_def l3Phase_def routesPhase_def firewallPhase_def firstIPv4_def
      capture_sample routeCleanup_def noRoutes_def Setup_def newRouteManager_def flushTable_def addDefault_def delRule_def
      addRule_def delRelay_def addRelay_def activate_okNft levoile0_valid l3Missing_def newFirewall_def Let_def)

theorem kill_switch_never_silently_off_witness:
  "\<exists>p. p = fold l3Step [OpSetMode okNft (okNft\<lparr>neApply := False\<rparr>) True (Some KillSwitchModeNormal)] guardedState \<and>
     \<not> (l3Kernel p = None \<and> \<not> l3Indeterminate p \<and> \<not> l3Altered p)"
proof -
  let ?ops = "[OpSetMode okNft (okNft\<lparr>neApply := False\<rparr>) True (Some KillSwitchModeNormal)]"
  have named: "\<exists>p. p = q \<and> \<not> (l3Kernel p = None \<and> \<not> l3Indeterminate p \<and> \<not> l3Altered p)"
    if "l3Kernel q \<noteq> None \<or> l3Indeterminate q \<or> l3Altered q" for q :: l3
    using that by (intro exI [of _ q]) simp
  have "l3Kernel (fold l3Step ?ops guardedState) \<noteq> None \<or> l3Indeterminate (fold l3Step ?ops guardedState) \<or>
      l3Altered (fold l3Step ?ops guardedState)"
  proof (rule kill_switch_never_silently_off [OF _ _ refl])
    show "l3Kernel guardedState \<noteq> None" by (simp add: guardedState_simps)
  qed (simp_all add: okNft_def KillSwitchMode_def SetKillSwitchMode_def guardedState_simps)
  then show ?thesis by (rule named)
qed

section \<open>What the start sequence guarantees\<close>

lemma firewallPhase_fields [simp]:
  "l3Route (firewallPhase env tun relay p) = l3Route p" "l3Routes (firewallPhase env tun relay p) = l3Routes p"
  "l3Tun (firewallPhase env tun relay p) = l3Tun p" "cfFirewallEnabled (firewallPhase env tun relay p) = cfFirewallEnabled p"
  "cfTUNEnabled (firewallPhase env tun relay p) = cfTUNEnabled p"
  by (auto simp: firewallPhase_def Let_def split: option.splits prod.splits)

lemma routesPhase_fields [simp]:
  "l3Tun (routesPhase env tun relay p) = l3Tun p" "l3Fw (routesPhase env tun relay p) = l3Fw p"
  "l3Kernel (routesPhase env tun relay p) = l3Kernel p" "cfFirewallEnabled (routesPhase env tun relay p) = cfFirewallEnabled p"
  "cfTUNEnabled (routesPhase env tun relay p) = cfTUNEnabled p" "cfAllowIPv6Leak (routesPhase env tun relay p) = cfAllowIPv6Leak p"
  by (auto simp: routesPhase_def split: option.splits prod.splits)

lemma waitForCaptiveClear_fields [simp]:
  "l3Route (waitForCaptiveClear urls gets p) = l3Route p" "l3Tun (waitForCaptiveClear urls gets p) = l3Tun p"
  "cfFirewallEnabled (waitForCaptiveClear urls gets p) = cfFirewallEnabled p"
  "cfTUNEnabled (waitForCaptiveClear urls gets p) = cfTUNEnabled p" "l3Fw (waitForCaptiveClear urls gets p) = l3Fw p"
  "l3Kernel (waitForCaptiveClear urls gets p) = l3Kernel p"
  by (induction gets) auto

lemma captivePhase_fields [simp]:
  "l3Route (captivePhase env p) = l3Route p" "l3Tun (captivePhase env p) = l3Tun p"
  "cfFirewallEnabled (captivePhase env p) = cfFirewallEnabled p" "cfTUNEnabled (captivePhase env p) = cfTUNEnabled p"
  by (auto simp: captivePhase_def Let_def split: option.splits prod.splits)

lemma routesPhase_ok:
  assumes "l3Route p = None" and "l3Route (routesPhase env tun relay p) \<noteq> None"
  obtains gw iface where "CaptureOriginalRoute (seCapture env) = Some (gw, iface)" "To4 relay \<noteq> []"
    "\<And>dst. routeOf (l3Routes (routesPhase env tun relay p)) dst =
      (if dst = To4 relay then ViaGateway (To4 gw) iface else ViaTun tun)"
proof -
  from assms obtain gw iface m s where c: "CaptureOriginalRoute (seCapture env) = Some (gw, iface)"
    and set: "Setup (seSetup env) tun relay gw iface newRouteManager (l3Routes p) = (None, m, s)"
    by (auto simp: routesPhase_def split: option.splits prod.splits)
  note ok = setup_ok [OF set]
  have "routeOf s dst = (if dst = To4 relay then ViaGateway (To4 gw) iface else ViaTun tun)" for dst
    using ok by (simp add: routeOf_def)
  moreover have "l3Routes (routesPhase env tun relay p) = s" using c set by (simp add: routesPhase_def)
  ultimately show thesis using that [OF c] ok by simp
qed

lemma firstIPv4_To4: "firstIPv4 ips = Some relay \<Longrightarrow> To4 relay = relay \<and> relay \<noteq> []"
  by (auto simp: firstIPv4_def find_Some_iff)

lemma firewallPhase_ok:
  assumes "cfFirewallEnabled p" and "l3Fw p = None" and "l3Fw (firewallPhase env tun relay p) \<noteq> None"
  shows "\<exists>fw. activateLocked (seNft env) (fullParams relay tun) (newFirewall (cfAllowIPv6Leak p)) (l3Kernel p) =
    (None, fw, l3Kernel (firewallPhase env tun relay p))"
  using assms by (auto simp: firewallPhase_def Let_def split: option.splits prod.splits)

lemma firewallPhase_kernel:
  assumes "l3Fw (firewallPhase env tun relay p) = None" and "neList (seNft env)" and "l3Kernel p = None"
  shows "l3Kernel (firewallPhase env tun relay p) = None"
proof (cases "cfFirewallEnabled p")
  case True
  obtain r fw k where a: "activateLocked (seNft env) (fullParams relay tun) (newFirewall (cfAllowIPv6Leak p)) None = (r, fw, k)"
    by (metis prod_cases3)
  have "r \<noteq> None" using assms(1,3) True a by (cases r) (auto simp: firewallPhase_def Let_def)
  then have "k = None" using a assms(2)
    by (auto simp: activateLocked_def isActiveLocked_def Let_def split: if_splits option.splits)
  then show ?thesis using True a assms(3) \<open>r \<noteq> None\<close> by (auto simp: firewallPhase_def Let_def)
qed (simp add: firewallPhase_def assms(3))



section \<open>Where the guarantees end\<close>

text \<open>
  C26: An alarm of the ruleset watchdog that is handled while the TUN interface is being recreated
  removes the kill switch instead of restoring it: the handler deactivates first, finds no
  interface and stops there. The mode stays normal with no table in the kernel, and if the interface
  cannot be created the recovery ends in that state.
\<close>

theorem alarm_during_recovery_opens:
  assumes "cfFirewallEnabled p" and "l3Fw p = Some fw" and "neDelete denv" and "\<not> reTun env"
  shows "(let (name, p1) = recoverClose p; p2 = firewallAlteredEvent denv aenv p1; (e, p3) = recoverCreate env name p2 in
    KillSwitchMode p3 = KillSwitchModeNormal \<and> l3Kernel p3 = None \<and> e = Some ErrTunNew \<and> l3Altered p3)"
  using assms
  by (auto simp: recoverClose_def firewallAlteredEvent_def recoverCreate_def fwDeactivate_def KillSwitchMode_def Let_def
      split: option.splits)

theorem alarm_during_recovery_opens_witness:
  "let (name, p1) = recoverClose guardedState; p2 = firewallAlteredEvent okNft okNft p1;
       (e, p3) = recoverCreate \<lparr>reTun = False, reCtx = True, reNft = okNft, reTeardown = (\<lambda>_. True),
         reCleanup = (\<lambda>_. True), reCapture = None, reSetup = (\<lambda>_. True), reConnect = True\<rparr> name p2 in
    KillSwitchMode p3 = KillSwitchModeNormal \<and> l3Kernel p3 = None \<and> e = Some ErrTunNew \<and> l3Altered p3"
proof -
  obtain fw where "l3Fw guardedState = Some fw" using guardedState_simps(6) by blast
  then show ?thesis by (intro alarm_during_recovery_opens) (simp_all add: guardedState_simps okNft_def)
qed

definition stuckDegraded :: "l3 \<Rightarrow> bool" where
  "stuckDegraded p \<longleftrightarrow> \<not> cfFirewallEnabled p \<and> l3RelayIP p = None \<and> l3Fw p = None"

lemma stuck_SetMode:
  assumes "stuckDegraded p"
  shows "SetKillSwitchMode env rb ok (Some KillSwitchModeNormal) p =
      (Some (if l3Captive p then ErrKillSwitchCaptiveActive else ErrKillSwitchNotConnected), p)"
    and "snd (SetKillSwitchMode env rb ok mode p) = p"
proof -
  have a: "applyFirewallForModeLocked env True p = (Some ErrKillSwitchNotConnected, p)"
    using assms by (simp add: applyFirewallForModeLocked_def stuckDegraded_def split: option.splits)
  show n: "SetKillSwitchMode env rb ok (Some KillSwitchModeNormal) p =
      (Some (if l3Captive p then ErrKillSwitchCaptiveActive else ErrKillSwitchNotConnected), p)"
    using assms a by (simp add: SetKillSwitchMode_def stuckDegraded_def)
  show "snd (SetKillSwitchMode env rb ok mode p) = p"
    using assms n by (cases mode; cases "the mode") (auto simp: SetKillSwitchMode_def stuckDegraded_def)
qed

lemma stuck_recover:
  assumes "stuckDegraded p"
  shows "stuckDegraded (snd (recoverTUN env p))"
proof -
  have f: "recoverFirewall env n (p\<lparr>l3Tun := t\<rparr>) = p\<lparr>l3Tun := t\<rparr>" for n t
    using assms by (simp add: recoverFirewall_def stuckDegraded_def)
  have r: "recoverRoutes env n (p\<lparr>l3Tun := t\<rparr>) = teardownRoutes (reTeardown env) (p\<lparr>l3Tun := t\<rparr>)" for n t
    using assms by (simp add: recoverRoutes_def stuckDegraded_def)
  show ?thesis
    using assms by (simp add: recoverTUN_def recoverClose_def recoverCreate_def f r stuckDegraded_def split: option.splits)
qed

lemma stuck_step:
  assumes "stuckDegraded p" and "\<forall>env ip. x \<noteq> OpReconfigure env ip"
  shows "stuckDegraded (l3Step x p)"
proof (cases x)
  case (OpMaybeRestore env rb ok)
  then show ?thesis using assms(1) stuck_SetMode(2) [OF assms(1)] by (simp add: MaybeRestoreKillSwitch_def)
next
  case (OpIPv6 locked env allow)
  then show ?thesis using assms(1) by (simp add: SetAllowIPv6Leak_def stuckDegraded_def)
next
  case (OpAltered denv aenv)
  then show ?thesis using assms(1) by (simp add: firewallAlteredEvent_def stuckDegraded_def)
qed (use assms stuck_SetMode(2) stuck_recover in simp_all)

text \<open>
  C27: A daemon that starts in degraded mode cannot be put back into normal mode, although it is
  connected: the start sequence stores the address of the relay only in normal mode, so that every
  request for normal mode is refused as not connected and the restoration after a reconnection does
  nothing, until the relay is changed. A TUN recovery in this state does not bring the routes back
  either, and all traffic leaves outside the tunnel.
\<close>

theorem degraded_start_is_stuck:
  assumes "startL3 env tun p = (True, q)" and "\<not> cfFirewallEnabled p" and "l3RelayIP p = None" and "l3Fw p = None"
    and "\<forall>x \<in> set ops. \<forall>renv ip. x \<noteq> OpReconfigure renv ip" and "q' = fold l3Step ops q"
  shows "KillSwitchMode q' = KillSwitchModeDegraded \<and>
    (\<exists>e. SetKillSwitchMode nenv rb ok (Some KillSwitchModeNormal) q' = (Some e, q')) \<and>
    MaybeRestoreKillSwitch nenv rb ok q' = q' \<and>
    (\<forall>rm renv. l3Route q' = Some rm \<and> rmActive rm \<and> reTun renv \<and> reCtx renv \<and> reTeardown renv 0 \<longrightarrow>
       l3Tun (snd (recoverTUN renv q')) \<noteq> None \<and> (\<forall>dst. routeOf (l3Routes (snd (recoverTUN renv q'))) dst = MainTable))"
proof -
  have cap: "captivePhase env p = p" using assms(2) by (simp add: captivePhase_def)
  have fp: "firewallPhase env tun relay p' = p'" if "\<not> cfFirewallEnabled p'" for relay p' using that by (simp add: firewallPhase_def)
  have "q = l3Phase env tun p" using assms(1) by (auto simp: startL3_def cap Let_def split: if_splits)
  then have "stuckDegraded q"
    using assms(2-4) by (auto simp: l3Phase_def stuckDegraded_def fp routesPhase_def Let_def split: option.splits prod.splits)
  moreover have "stuckDegraded x \<Longrightarrow> \<forall>y \<in> set xs. \<forall>renv ip. y \<noteq> OpReconfigure renv ip \<Longrightarrow> stuckDegraded (fold l3Step xs x)" for x xs
    by (induction xs arbitrary: x) (simp_all add: stuck_step)
  ultimately have st: "stuckDegraded q'" using assms(5,6) by blast
  have "MaybeRestoreKillSwitch nenv rb ok q' = q'"
    using stuck_SetMode(2) [OF st] by (simp add: MaybeRestoreKillSwitch_def)
  moreover have "l3Tun (snd (recoverTUN renv q')) \<noteq> None \<and> (\<forall>dst. routeOf (l3Routes (snd (recoverTUN renv q'))) dst = MainTable)"
    if "l3Route q' = Some rm" "rmActive rm" "reTun renv" "reCtx renv" "reTeardown renv 0" for rm renv
  proof -
    have f: "recoverRoutes renv n (recoverFirewall renv n (q'\<lparr>l3Tun := t\<rparr>)) = teardownRoutes (reTeardown renv) (q'\<lparr>l3Tun := t\<rparr>)" for n t
      using st by (simp add: recoverFirewall_def recoverRoutes_def stuckDegraded_def)
    obtain x m s where t: "Teardown (reTeardown renv) rm (l3Routes q') = (x, m, s)" by (metis prod_cases3)
    then have "\<not> ruleOn s"
      using that(2,5) by (auto simp: Teardown_def delRule_def flushTable_def delMainRelay_def Let_def split: if_splits option.splits)
    then show ?thesis
      using that t by (simp add: recoverTUN_def recoverClose_def recoverCreate_def f teardownRoutes_def routeOf_def)
  qed
  ultimately show ?thesis using stuck_SetMode(1) [OF st] st by (auto simp: KillSwitchMode_def stuckDegraded_def)
qed

theorem degraded_start_is_stuck_witness:
  "\<exists>q e. startL3 okStart ''levoile0'' (bootState False) = (True, q) \<and>
     SetKillSwitchMode okNft okNft True (Some KillSwitchModeNormal) q = (Some e, q)"
proof -
  have "\<exists>q. startL3 okStart ''levoile0'' (bootState False) = (True, q)"
    by (simp add: startL3_def captivePhase_def bootState_def okStart_def l3Phase_def routesPhase_def firewallPhase_def firstIPv4_def
      capture_sample routeCleanup_def noRoutes_def Setup_def newRouteManager_def flushTable_def addDefault_def delRule_def
      addRule_def delRelay_def addRelay_def l3Missing_def Let_def)
  then obtain q where q: "startL3 okStart ''levoile0'' (bootState False) = (True, q)" by blast
  show ?thesis
    using degraded_start_is_stuck [OF q, of "[]" q okNft okNft True] q by (auto simp: bootState_def)
qed

text \<open>
  A portal that is found while the gateway is not, or while the captive rules cannot be installed,
  leaves the captive flag set: from then on every change of mode is refused.
\<close>

lemma captive_flag_blocks_mode:
  assumes "cfCaptiveEnabled p" "cfTUNEnabled p" "cfFirewallEnabled p" and "pdResult (Probe (seGet env) (cfCaptiveURLs p)) = PortalDetected"
    and "CaptureOriginalRoute (seGateway env) = None"
  shows "l3Captive (captivePhase env p)" and "l3Captive q \<Longrightarrow> SetKillSwitchMode e1 e2 ok (Some m) q = (Some ErrKillSwitchCaptiveActive, q)"
  using assms by (simp_all add: captivePhase_def SetKillSwitchMode_def)

text \<open>
  An activation whose check after the installation fails leaves the rules in the kernel without a
  manager: the start sequence refuses to connect and nothing removes them.
\<close>

lemma failed_check_locks_out:
  "\<exists>q. startL3 (okStart\<lparr>seNft := okNft\<lparr>neList := False\<rparr>\<rparr>) ''levoile0'' (bootState True) = (False, q) \<and> l3Kernel q \<noteq> None \<and> l3Fw q = None"
proof -
  have a: "activateLocked (okNft\<lparr>neList := False\<rparr>) (fullParams [9, 9, 9, 9] ''levoile0'') fw None =
      (Some ErrPostCheck, fw, Some (rulesetTemplate (dotted [9, 9, 9, 9]) ''levoile0'' (fwAllowIPv6 fw)))" for fw
    by (simp add: activateLocked_def okNft_def renderParams_def fullParams_def renderRuleset_def isActiveLocked_def levoile0_valid)
  show ?thesis
    by (simp add: startL3_def captivePhase_def bootState_def okStart_def l3Phase_def routesPhase_def firewallPhase_def firstIPv4_def
      capture_sample routeCleanup_def noRoutes_def Setup_def newRouteManager_def flushTable_def addDefault_def delRule_def
      addRule_def delRelay_def addRelay_def l3Missing_def a tunCleanup_def teardownRoutes_def Teardown_def delMainRelay_def Let_def)
qed

text \<open>
  After a portal was cleared the captive manager stands in for the full one: if the full rules cannot
  be installed the start sequence connects all the same, with the captive rules in the kernel.
\<close>

lemma captive_rules_pass_the_gate:
  assumes "cfTUNEnabled p" and "l3Fw (captivePhase env p) \<noteq> None" and "seTun env"
    and "firstIPv4 (seRelayIPs env) = Some relay" and "\<not> neFound (seNft env)"
    and "l3Route (routesPhase env tun relay ((captivePhase env p)\<lparr>l3Tun := Some tun,
        l3Routes := routeCleanup (seCleanup env) (l3Routes (captivePhase env p))\<rparr>)) \<noteq> None"
  shows "fst (startL3 env tun p) \<and> l3Kernel (snd (startL3 env tun p)) = l3Kernel (captivePhase env p)"
proof -
  let ?c = "captivePhase env p"
  let ?p2 = "routesPhase env tun relay (?c\<lparr>l3Tun := Some tun, l3Routes := routeCleanup (seCleanup env) (l3Routes ?c)\<rparr>)"
  have f: "firewallPhase env tun relay q = q \<or> firewallPhase env tun relay q = q\<lparr>l3RelayIP := Some relay\<rparr>" for q
    using assms(5) by (simp add: firewallPhase_def activateLocked_def Let_def)
  have "l3Phase env tun ?c = firewallPhase env tun relay ?p2"
    using assms(1,3,4) by (simp add: l3Phase_def Let_def)
  moreover have "\<not> l3Missing (firewallPhase env tun relay ?p2) \<and> l3Kernel (firewallPhase env tun relay ?p2) = l3Kernel ?c"
    using f [of ?p2] assms(2,6) by (auto simp: l3Missing_def)
  ultimately show ?thesis by (simp add: startL3_def Let_def)
qed

end
