(* ===== verification/Ipc_Props.thy ===== *)
theory Ipc_Props
  imports Ipc Config_Props Protection_Props LeakCheck_Props
begin

text \<open>
  What the control channel promises and what it does not: who is checked, what a locked
  configuration protects, that no sequence of requests removes the kill switch, and how a change of
  country ends.
\<close>

section \<open>Who is checked\<close>

lemma respond_status [simp]: "rsStatus (respond s) = s" "rsStatus (respondError e) = ''error''"
  by (simp_all add: respond_def respondError_def)

lemma dispatch_SetKillSwitchMode:
  "rqAction req = ActionSetKillSwitchMode \<Longrightarrow> dispatch env req d = handleSetKillSwitchMode env req d"
  by (simp add: dispatch_def Let_def)

lemma dispatch_TriggerRecovery: "rqAction req = ActionTriggerRecovery \<Longrightarrow> dispatch env req d = handleTriggerRecovery req d"
  by (simp add: dispatch_def Let_def)

lemma dispatch_auth:
  "rqAction req \<notin> {ActionSetKillSwitchMode, ActionTriggerRecovery} \<Longrightarrow>
   dispatch env (req\<lparr>rqAuth := x\<rparr>) d = dispatch env (req\<lparr>rqAuth := y\<rparr>) d"
  by (simp add: dispatch_def Let_def)

text \<open>
  C22: The gate of the control channel asks for an authentication field and never looks at it.  A request
  that changes state and has none is refused and changes nothing; but for every action except the
  change of mode and the manual recovery, any non-empty text in the field has the same effect as the token:
  a peer that guesses nothing can connect, disconnect, quit, switch the country or open IPv6.
\<close>

theorem auth_field_is_never_checked:
  assumes "rqAction req \<notin> {ActionSetKillSwitchMode, ActionTriggerRecovery}" and "x \<noteq> []" and "y \<noteq> []"
  shows "ipcHandle env (req\<lparr>rqAuth := x\<rparr>) d = ipcHandle env (req\<lparr>rqAuth := y\<rparr>) d \<and>
    (rqAction req \<in> set mutatingActions \<longrightarrow>
       rsStatus (fst (ipcHandle env (req\<lparr>rqAuth := []\<rparr>) d)) = ''error'' \<and> snd (ipcHandle env (req\<lparr>rqAuth := []\<rparr>) d) = d)"
  using assms dispatch_auth [OF assms(1), of env x d y]
  by (simp add: ipcHandle_def respondError_def respond_def)

text \<open>
  C20: No client can change the mode of the kill switch or start a recovery.  The daemon keeps the 32 bytes
  of the token and compares them with the text of the field; the clients of the repository send
  the token in hexadecimal, which is never equal to it, and a request without the field is refused before.
  Whatever the token file holds, both actions fail and change nothing.
\<close>

theorem no_client_can_switch_mode:
  assumes "LoadOrCreate readable mkdir rnd w path fs = (Inr tok, fs')" and "rnd = None \<or> length (the rnd) = tokenLength"
    and "dmCtlToken d = SetCtlToken tok" and "ctlLoad readable' path' fs'' = Inr raw"
    and "rqAction req \<in> {ActionSetKillSwitchMode, ActionTriggerRecovery}" and "rqAuth req \<in> {[], Hex raw}"
  shows "snd (ipcHandle env req d) = d \<and> rsStatus (fst (ipcHandle env req d)) = ''error''"
proof -
  have v: "\<not> VerifyCtlToken (SetCtlToken tok) (Hex raw)"
    by (rule hex_never_verifies [OF LoadOrCreate_length [OF assms(1,2)] ctlLoad_length [OF assms(4)]])
  have m: "rqAction req \<in> set mutatingActions" using assms(5) by (auto simp: mutatingActions_def)
  have h: "snd (dispatch env req d) = d \<and> rsStatus (fst (dispatch env req d)) = ''error''" if "rqAuth req = Hex raw" "rqAuth req \<noteq> []"
    using assms(5)
  proof
    assume "rqAction req = ActionSetKillSwitchMode"
    with v that show ?thesis
      by (cases "ksModeOf (rqValue req)") (simp_all add: dispatch_SetKillSwitchMode handleSetKillSwitchMode_def assms(3))
  next
    assume "rqAction req \<in> {ActionTriggerRecovery}"
    with v that show ?thesis by (simp add: dispatch_TriggerRecovery handleTriggerRecovery_def assms(3))
  qed
  show ?thesis using assms(6) m h
    by (cases "rqAuth req = []") (auto simp: ipcHandle_def)
qed

definition refusedPeer :: "nat option \<Rightarrow> (nat \<Rightarrow> nat list option) \<Rightarrow> peerCred option \<Rightarrow> bool" where
  \<comment> \<open>readable credentials, neither root nor a member of the known group\<close>
  "refusedPeer found groupsOf cred \<longleftrightarrow>
     (case (cred, found) of
        (Some c, Some gid) \<Rightarrow> pcUID c \<noteq> 0 \<and> pcGID c \<noteq> gid \<and>
          (case groupsOf (pcUID c) of None \<Rightarrow> True | Some gids \<Rightarrow> gid \<notin> set gids)
      | _ \<Rightarrow> False)"

text \<open>
  C40: The socket serves exactly the peers that are root, in the group, or cannot be checked.  A refused
  peer gets one error and reaches no handler; a peer whose credentials cannot be read is served; and
  once a single lookup of the group has failed, every later peer is served for the rest of the run, whatever
  the group database says by then.
\<close>

theorem peer_gate:
  "handleConnection lookup groupsOf cred unmarshal h ls (cache, s) =
     (if refusedPeer (fst (groupGID lookup cache)) groupsOf cred
      then ([respondError (ErrText ''peer_unauthorized'')], snd (groupGID lookup cache), s)
      else (fst (serveLines unmarshal h ls s),
            (case cred of None \<Rightarrow> cache | Some c \<Rightarrow> if pcUID c = 0 then cache else snd (groupGID lookup cache)),
            snd (serveLines unmarshal h ls s))) \<and>
   snd (groupGID None None) = Some None \<and>
   handleConnection lookup' groupsOf' cred' unmarshal h ls (Some None, s) =
     (fst (serveLines unmarshal h ls s), Some None, snd (serveLines unmarshal h ls s))"
proof -
  have g: "handleConnection lookup groupsOf cred unmarshal h ls (cache, s) =
     (if refusedPeer (fst (groupGID lookup cache)) groupsOf cred
      then ([respondError (ErrText ''peer_unauthorized'')], snd (groupGID lookup cache), s)
      else (fst (serveLines unmarshal h ls s),
            (case cred of None \<Rightarrow> cache | Some c \<Rightarrow> if pcUID c = 0 then cache else snd (groupGID lookup cache)),
            snd (serveLines unmarshal h ls s)))" for lookup groupsOf cred cache
  proof (cases cred)
    case None
    then show ?thesis by (simp add: handleConnection_def refusedPeer_def split: prod.split)
  next
    case (Some c)
    obtain g c1 where gc: "groupGID lookup cache = (g, c1)" by fastforce
    show ?thesis
      by (cases g; cases "groupsOf (pcUID c)")
        (auto simp: handleConnection_def authorizePeer_def refusedPeer_def Some gc split: prod.split)
  qed
  have "handleConnection lookup' groupsOf' cred' unmarshal h ls (Some None, s) =
     (fst (serveLines unmarshal h ls s), Some None, snd (serveLines unmarshal h ls s))"
    by (simp add: g groupGID_def refusedPeer_def split: option.split)
  then show ?thesis using g [where lookup = lookup and cache = cache and groupsOf = groupsOf and cred = cred] by (simp add: groupGID_def)
qed

section \<open>Requests and the rest of the state\<close>

lemma recon_fields [simp]:
  "dmL3 (startReconnector d) = dmL3 d" "dmL3 (stopReconnector d) = dmL3 d" "dmL3 (ResetCircuitBreaker d) = dmL3 d"
  "dmFiles (startReconnector d) = dmFiles d" "dmFiles (stopReconnector d) = dmFiles d" "dmFiles (ResetCircuitBreaker d) = dmFiles d"
  "dmClient (startReconnector d) = dmClient d" "dmClient (stopReconnector d) = dmClient d" "dmClient (ResetCircuitBreaker d) = dmClient d"
  "dmDiscoverer (startReconnector d) = dmDiscoverer d" "dmDiscoverer (stopReconnector d) = dmDiscoverer d"
  "dmFailover (startReconnector d) = dmFailover d" "dmFailover (stopReconnector d) = dmFailover d"
  by (simp_all add: startReconnector_def stopReconnector_def ResetCircuitBreaker_def Let_def)

lemma Disconnect_state:
  "dmL3 (snd (handleIpcDisconnect d)) = dmL3 d \<and> dmFiles (snd (handleIpcDisconnect d)) = dmFiles d \<and>
   dmClient (snd (handleIpcDisconnect d)) = map_option Disconnect (dmClient d)"
  by (cases "dmClient d") (simp_all add: handleIpcDisconnect_def)

definition quiet :: "daemon \<Rightarrow> daemon \<Rightarrow> bool" where
  "quiet d d' \<longleftrightarrow> dmL3 d' = dmL3 d \<and> dmFiles d' = dmFiles d \<and> dmClient d' = dmClient d"

lemma quiet_GetStatus: "quiet d (snd (handleGetStatus d))"
  by (cases "dmVPN d"; cases "dmClient d") (simp_all add: handleGetStatus_def Let_def quiet_def)

lemma quiet_LeakCheck: "quiet d (snd (handleLeakCheck env d))"
  by (cases "dmClient d"; cases "dmLeak d")
    (auto simp: handleLeakCheck_def quiet_def split: option.split prod.split)

lemma quiet_CheckUpdate: "quiet d (snd (handleCheckUpdate env d))"
  by (auto simp: handleCheckUpdate_def quiet_def split: option.split)

lemma quiet_TriggerRecovery: "quiet d (snd (handleTriggerRecovery req d))"
  by (auto simp: handleTriggerRecovery_def quiet_def split: option.split)

lemma quiet_others: "quiet d d" "quiet d (snd (handleQuit d))" "quiet d (snd (handleRetryCaptive d))"
  by (simp_all add: quiet_def handleQuit_def handleRetryCaptive_def)

lemmas quiet_handlers [simp] = quiet_GetStatus quiet_LeakCheck quiet_CheckUpdate quiet_TriggerRecovery quiet_others

lemma dispatch_quiet:
  assumes "rqAction req \<notin> {ActionConnect, ActionDisconnect, ActionSetAutoStart, ActionSetBlocklist, ActionSetHTTPProxy,
      ActionSelectCountry, ActionSetAllowIPv6Leak, ActionSetKillSwitchMode}"
  shows "quiet d (snd (dispatch env req d))"
proof -
  show ?thesis using assms
    by (simp add: dispatch_def Let_def if_distrib [where f = snd] if_distrib [where f = "quiet d"])
qed


section \<open>The kill switch under requests\<close>

definition calmEnv :: "ipcEnv \<Rightarrow> bool" where
  \<comment> \<open>no other program deletes the table while it is being activated\<close>
  "calmEnv env \<longleftrightarrow> \<not> neDropped (ieNft env) \<and> \<not> neDropped (ieNftRollback env) \<and> \<not> neDropped (reNft (ieRec env))"

definition tight :: "daemon \<Rightarrow> daemon \<Rightarrow> bool" where
  \<comment> \<open>the token is the same, and neither the guard nor the normal mode is lost\<close>
  "tight d d' \<longleftrightarrow> dmCtlToken d' = dmCtlToken d \<and> (guarded (dmL3 d) \<longrightarrow> guarded (dmL3 d')) \<and>
     (cfFirewallEnabled (dmL3 d) \<longrightarrow> cfFirewallEnabled (dmL3 d'))"

lemma tight_refl [simp]: "tight d d"
  by (simp add: tight_def)

lemma tight_trans: "tight d d1 \<Longrightarrow> tight d1 d2 \<Longrightarrow> tight d d2"
  by (simp add: tight_def)

lemma tight_same: "dmCtlToken d' = dmCtlToken d \<Longrightarrow> dmL3 d' = dmL3 d \<Longrightarrow> tight d d'"
  by (simp add: tight_def)

lemma token_fields [simp]:
  "dmCtlToken (startReconnector d) = dmCtlToken d" "dmCtlToken (stopReconnector d) = dmCtlToken d"
  "dmCtlToken (ResetCircuitBreaker d) = dmCtlToken d"
  by (simp_all add: startReconnector_def stopReconnector_def ResetCircuitBreaker_def Let_def)

lemma tight_detect:
  assumes "detectConcurrentVPN env d = (r, d1)"
  shows "tight d d1"
proof -
  have "tight d (snd (detectConcurrentVPN env d))" by (simp add: detectConcurrentVPN_def tight_def)
  then show ?thesis by (simp add: assms)
qed

lemma setMode_l3:
  obtains ok fs where "setMode env md d = (fst (setMode env md d),
    d\<lparr>dmL3 := snd (SetKillSwitchMode (ieNft env) (ieNftRollback env) ok (Some md) (dmL3 d)), dmFiles := fs\<rparr>)"
proof -
  obtain pe fs1 where a: "persistFirewallEnabled (ieLib env) (ieReadable env) (ieWrites env) (ieCfgPath env)
      (md = KillSwitchModeNormal) (ieKey env) (dmFiles d) = (pe, fs1)" by (metis surj_pair)
  obtain e p1 where b: "SetKillSwitchMode (ieNft env) (ieNftRollback env) (pe = None) (Some md) (dmL3 d) = (e, p1)"
    by (metis surj_pair)
  show thesis
    by (rule that [where ok = "pe = None" and fs = "if e = Some ErrKsPersist \<or> e = None \<and>
        cfFirewallEnabled (dmL3 d) \<noteq> (md = KillSwitchModeNormal) then fs1 else dmFiles d"])
      (simp add: setMode_def persistedMode_def Let_def a b)
qed

lemma tight_restore:
  assumes "calmEnv env"
  shows "tight d (maybeRestore env d)"
proof -
  obtain ok fs where s: "snd (setMode env KillSwitchModeNormal d) =
      d\<lparr>dmL3 := snd (SetKillSwitchMode (ieNft env) (ieNftRollback env) ok (Some KillSwitchModeNormal) (dmL3 d)), dmFiles := fs\<rparr>"
    using setMode_l3 [of env KillSwitchModeNormal d] by (metis snd_conv)
  show ?thesis using assms guarded_SetMode [of "dmL3 d" "ieNft env" "ieNftRollback env" ok "Some KillSwitchModeNormal"]
    by (simp add: maybeRestore_def s tight_def calmEnv_def KillSwitchMode_def)
qed

lemma tight_client: "tight d (startReconnector ((stopReconnector (ResetCircuitBreaker d))\<lparr>dmClient := c\<rparr>))"
  "tight d ((stopReconnector (ResetCircuitBreaker d))\<lparr>dmClient := c\<rparr>)" "tight d (startReconnector d)"
  "tight d (startReconnector ((stopReconnector d)\<lparr>dmClient := c\<rparr>))" "tight d ((stopReconnector d)\<lparr>dmClient := c\<rparr>)"
  "tight d (d\<lparr>dmClient := c\<rparr>)" "tight d (d\<lparr>dmDiscoverer := ds\<rparr>)"
  by (simp_all add: tight_def)

lemma tight_connect:
  assumes "calmEnv env"
  shows "tight d (snd (handleIpcConnect env d))"
proof -
  obtain r d1 where v: "detectConcurrentVPN env d = (r, d1)" by fastforce
  let ?d2 = "\<lambda>c. (stopReconnector (ResetCircuitBreaker d1))\<lparr>dmClient := c\<rparr>"
  have b: "tight d1 (startReconnector (maybeRestore env (?d2 c)))" for c
    using tight_trans [OF tight_trans [OF tight_client(2) tight_restore [OF assms]] tight_client(3)] .
  have "tight d1 (snd (handleIpcConnect env d))"
    using b tight_client(1) by (simp add: handleIpcConnect_def v Let_def split: option.split prod.split)
  then show ?thesis using tight_trans [OF tight_detect [OF v]] by blast
qed

lemma tight_writeConfig: "writeConfig env upd d = (e, d1) \<Longrightarrow> dmL3 d1 = dmL3 d \<and> dmCtlToken d1 = dmCtlToken d"
  by (auto simp: writeConfig_def split: prod.splits)

lemma tight_toggles:
  "tight d (snd (handleSetAutoStart env v d))" "tight d (snd (handleSetBlocklist env v d))"
  "tight d (snd (handleSetHTTPProxy env v d))"
  by (auto simp: handleSetAutoStart_def handleSetBlocklist_def handleSetHTTPProxy_def startHTTPProxy_def stopHTTPProxy_def
      intro!: tight_same dest!: tight_writeConfig split: option.splits prod.splits if_splits)

lemma tight_IPv6:
  assumes "calmEnv env"
  shows "tight d (snd (handleSetAllowIPv6Leak env v d))"
proof -
  have f: "cfFirewallEnabled (snd (SetAllowIPv6Leak l e a p)) = cfFirewallEnabled p" for l e a p
    by (auto simp: SetAllowIPv6Leak_def split: option.splits prod.splits)
  have g: "tight d (d\<lparr>dmFiles := fs1, dmL3 := p\<rparr>)" "tight d (d\<lparr>dmL3 := p\<rparr>)"
    "tight d (d\<lparr>dmL3 := p, dmFiles := fs1\<rparr>)" if "SetAllowIPv6Leak (ieLocked env) (ieNft env) a (dmL3 d) = (e, p)" for a fs1 e p
    using assms guarded_IPv6 [of "dmL3 d" "ieNft env" "ieLocked env" a] f [of "ieLocked env" "ieNft env" a "dmL3 d"] that
    by (simp_all add: tight_def calmEnv_def)
  have h: "tight d (d\<lparr>dmFiles := fs1\<rparr>)" for fs1 by (rule tight_same) simp_all
  show ?thesis
    by (auto simp: handleSetAllowIPv6Leak_def Let_def g h split: option.split prod.split sum.split)
qed

lemma tight_reconfigure:
  assumes "calmEnv env" and "ReconfigureForRelay (ieRec env) ip (dmL3 d) = (e, p)"
  shows "tight d (d\<lparr>dmL3 := p\<rparr>)"
proof -
  have "cfFirewallEnabled (snd (ReconfigureForRelay r ip q)) = cfFirewallEnabled q" for r q
    by (auto simp: ReconfigureForRelay_def reconfigureFirewall_fields split: option.split prod.split)
  from this [of "ieRec env" "dmL3 d"] show ?thesis
    using assms guarded_reconfigure [of "dmL3 d" "ieRec env" ip] by (simp add: tight_def calmEnv_def)
qed

lemma tight_switchRelay:
  assumes "calmEnv env"
  shows "tight d (snd (switchRelay env code r d))"
proof -
  have b: "tight d (startReconnector (maybeRestore env ((stopReconnector d)\<lparr>dmClient := c\<rparr>)))" for c
    using tight_trans [OF tight_trans [OF tight_client(5) tight_restore [OF assms]] tight_client(3)] .
  have s: "tight d (q\<lparr>dmFiles := fs\<rparr>)" "tight d (q\<lparr>dmFiles := fs, dmFailoverAlert := a, dmCountry := co, dmVisibleIP := i, dmFailover := m\<rparr>)"
    if "tight d q" for q fs a co i m
    using that by (simp_all add: tight_def)
  show ?thesis
    using s [OF b] tight_client(4)
    by (simp add: switchRelay_def Let_def split: option.split prod.split)
qed

lemma tight_selectCountry:
  assumes "calmEnv env"
  shows "tight d (snd (handleSelectCountry env code d))"
proof -
  have 1: "tight d (d\<lparr>dmDiscoverer := ds, dmClient := c\<rparr>)" for ds c by (rule tight_same) simp_all
  have 2: "tight d (d\<lparr>dmDiscoverer := ds, dmClient := c, dmL3 := p\<rparr>)"
    if "ReconfigureForRelay (ieRec env) ip (dmL3 d) = (e, p)" for ds c ip e p
    using tight_trans [OF 1 tight_reconfigure [OF assms, of ip "d\<lparr>dmDiscoverer := ds, dmClient := c\<rparr>"]] that by simp
  show ?thesis
    by (simp add: handleSelectCountry_def Let_def 1 2 tight_client tight_trans [OF 1 tight_switchRelay [OF assms]]
        tight_trans [OF 2 tight_switchRelay [OF assms]] split: option.split prod.split sum.split)
qed

lemma dispatch_actions:
  "rqAction req = ActionConnect \<Longrightarrow> dispatch env req d = handleIpcConnect env d"
  "rqAction req = ActionDisconnect \<Longrightarrow> dispatch env req d = handleIpcDisconnect d"
  "rqAction req = ActionSetAutoStart \<Longrightarrow> dispatch env req d = handleSetAutoStart env (rqValue req) d"
  "rqAction req = ActionSetBlocklist \<Longrightarrow> dispatch env req d = handleSetBlocklist env (rqValue req) d"
  "rqAction req = ActionSetHTTPProxy \<Longrightarrow> dispatch env req d = handleSetHTTPProxy env (rqValue req) d"
  "rqAction req = ActionSelectCountry \<Longrightarrow> dispatch env req d = handleSelectCountry env (rqValue req) d"
  "rqAction req = ActionSetAllowIPv6Leak \<Longrightarrow> dispatch env req d = handleSetAllowIPv6Leak env (rqValue req) d"
  by (simp_all add: dispatch_def Let_def)

lemma token_quiet:
  "dmCtlToken (snd (handleGetStatus d)) = dmCtlToken d" "dmCtlToken (snd (handleLeakCheck env d)) = dmCtlToken d"
  "dmCtlToken (snd (handleCheckUpdate env d)) = dmCtlToken d" "dmCtlToken (snd (handleTriggerRecovery req d)) = dmCtlToken d"
  "dmCtlToken (snd (handleQuit d)) = dmCtlToken d" "dmCtlToken (snd (handleRetryCaptive d)) = dmCtlToken d"
  "dmCtlToken (snd (handleIpcDisconnect d)) = dmCtlToken d"
  by (auto simp: handleGetStatus_def handleLeakCheck_def handleCheckUpdate_def handleTriggerRecovery_def handleQuit_def
      handleRetryCaptive_def handleIpcDisconnect_def Let_def split: option.split prod.split)

lemma tight_quiet:
  assumes "rqAction req \<notin> {ActionConnect, ActionSetAutoStart, ActionSetBlocklist, ActionSetHTTPProxy,
      ActionSelectCountry, ActionSetAllowIPv6Leak, ActionSetKillSwitchMode}"
  shows "tight d (snd (dispatch env req d))"
proof (cases "rqAction req = ActionDisconnect")
  case True
  then show ?thesis using Disconnect_state [of d] by (intro tight_same) (simp_all add: dispatch_actions token_quiet)
next
  case False
  have "dmCtlToken (snd (dispatch env req d)) = dmCtlToken d"
    using assms False
    by (simp add: dispatch_def Let_def token_quiet if_distrib [where f = snd] if_distrib [where f = dmCtlToken])
  then show ?thesis using dispatch_quiet [of req d env] assms False by (intro tight_same) (simp_all add: quiet_def)
qed

lemma tight_handle:
  assumes "calmEnv env" and "\<not> VerifyCtlToken (dmCtlToken d) (rqAuth req)"
  shows "tight d (snd (ipcHandle env req d))"
proof (cases "rqAction req = ActionSetKillSwitchMode")
  case True
  then have "snd (dispatch env req d) = d" if "rqAuth req \<noteq> []"
    using assms(2) that
    by (cases "ksModeOf (rqValue req)") (simp_all add: dispatch_SetKillSwitchMode handleSetKillSwitchMode_def)
  then show ?thesis using True by (simp add: ipcHandle_def mutatingActions_def)
next
  case False
  have "tight d (snd (dispatch env req d))"
  proof (cases "rqAction req \<in> {ActionConnect, ActionSetAutoStart, ActionSetBlocklist, ActionSetHTTPProxy, ActionSelectCountry,
      ActionSetAllowIPv6Leak}")
    case True
    then show ?thesis
      by (elim insertE emptyE)
        (simp_all add: dispatch_actions tight_connect tight_toggles tight_selectCountry tight_IPv6 assms(1))
  next
    case f: False
    show ?thesis by (rule tight_quiet) (use f False in simp)
  qed
  then show ?thesis by (simp add: ipcHandle_def)
qed

definition ipcRun :: "(ipcEnv \<times> ipcRequest) list \<Rightarrow> daemon \<Rightarrow> daemon" where
  \<comment> \<open>the requests of all connections in the order in which they are handled\<close>
  "ipcRun xs d = fold (\<lambda>(env, req) d. snd (ipcHandle env req d)) xs d"

lemma tight_run:
  "\<forall>(env, req) \<in> set xs. calmEnv env \<and> \<not> VerifyCtlToken (dmCtlToken d) (rqAuth req) \<Longrightarrow> tight d (ipcRun xs d)"
proof (induction xs arbitrary: d)
  case (Cons x xs)
  obtain env req where x: "x = (env, req)" by fastforce
  then have t: "tight d (snd (ipcHandle env req d))" using Cons.prems tight_handle by simp
  moreover have "dmCtlToken (snd (ipcHandle env req d)) = dmCtlToken d" using t by (simp add: tight_def)
  ultimately show ?case using Cons.IH [of "snd (ipcHandle env req d)"] Cons.prems x tight_trans
    by (auto simp: ipcRun_def)
qed (simp add: ipcRun_def)


section \<open>Changing the country\<close>

lemma client_fields [simp]:
  "relayDomain (Disconnect c) = relayDomain c" "relayIP (Disconnect c) = relayIP c" "relayPubKey (Disconnect c) = relayPubKey c"
  by (simp_all add: Disconnect_def ResetTransport_def stopHeartbeat_def resetDoHFailures_def setSt_def)

lemma Connect_fields:
  assumes "Connect lib rnd resp timedOut now c = (e, c')"
  shows "relayDomain c' = relayDomain c \<and> relayIP c' = relayIP c \<and> relayPubKey c' = relayPubKey c"
proof -
  obtain e1 c1 where v: "verifyRelay lib rnd resp now (setSt StateConnecting c) = (e1, c1)" by fastforce
  have "relayDomain c1 = relayDomain c \<and> relayIP c1 = relayIP c \<and> relayPubKey c1 = relayPubKey c"
  proof (cases e1)
    case None
    obtain vr :: verifyResponse where "c1 = (case vrSessionToken vr of None \<Rightarrow> setSt StateConnecting c | Some tok \<Rightarrow>
        if tok = [] then setSt StateConnecting c
        else (setSt StateConnecting c)\<lparr>sessionToken := tok, sessionTokenIssued := now, sessionTokenTTL := 14400\<rparr>)"
      using verifyRelay_ok [OF v [unfolded None]] by blast
    then show ?thesis by (simp add: setSt_def split: option.split)
  next
    case (Some x)
    then show ?thesis using verifyRelay_err [OF v [unfolded Some]] by (simp add: setSt_def)
  qed
  then show ?thesis using assms v
    by (cases e1) (auto simp: Connect_def resetDoHFailures_def startHeartbeat_def setSt_def)
qed

lemma maybeRestore_fields:
  "dmClient (maybeRestore env d) = dmClient d" "dmFailover (maybeRestore env d) = dmFailover d"
proof -
  obtain ok fs where s: "snd (setMode env KillSwitchModeNormal d) =
      d\<lparr>dmL3 := snd (SetKillSwitchMode (ieNft env) (ieNftRollback env) ok (Some KillSwitchModeNormal) (dmL3 d)), dmFiles := fs\<rparr>"
    using setMode_l3 [of env KillSwitchModeNormal d] by (metis snd_conv)
  show "dmClient (maybeRestore env d) = dmClient d" "dmFailover (maybeRestore env d) = dmFailover d"
    by (simp_all add: maybeRestore_def s)
qed

lemma recon_client [simp]:
  "dmClient (startReconnector d) = dmClient d" "dmClient (stopReconnector d) = dmClient d"
  "dmFailover (startReconnector d) = dmFailover d" "dmFailover (stopReconnector d) = dmFailover d"
  by (simp_all add: startReconnector_def stopReconnector_def)

lemma switchRelay_ok:
  assumes "switchRelay env code r d = (resp, d')" and "rsStatus resp = ''connected''" and "dmClient d = Some c"
  shows "\<exists>c'. connectClient env (Disconnect c) = (None, c') \<and> dmClient d' = Some c' \<and> dmCountry d' = code \<and>
    dmFailover d' = map_option (\<lambda>fm. fm\<lparr>fmPreferred := code, fmCurrent := reID r\<rparr>) (dmFailover d)"
proof -
  obtain e c2 where c: "connectClient env (Disconnect c) = (e, c2)" by fastforce
  have e: "e = None" using assms c by (cases e) (auto simp: switchRelay_def Let_def)
  let ?d = "startReconnector (maybeRestore env ((stopReconnector d)\<lparr>dmClient := Some c2\<rparr>))"
  obtain s fs where s: "(if ieCfgPath env = [] then (None, dmFiles ?d)
      else persistPreferredCountry (ieLib env) (ieReadable env) (ieWrites env) (ieCfgPath env) code (ieKey env) (dmFiles ?d)) = (s, fs)"
    by fastforce
  have "s = None" using assms c e s by (cases s) (auto simp: switchRelay_def Let_def)
  then have "d' = ?d\<lparr>dmFiles := fs, dmFailoverAlert := [], dmCountry := code, dmVisibleIP := [],
      dmFailover := map_option (\<lambda>fm. fm\<lparr>fmPreferred := code, fmCurrent := reID r\<rparr>) (dmFailover ?d)\<rparr>"
    using assms c e s by (simp add: switchRelay_def)
  then show ?thesis using c e by (simp add: maybeRestore_fields)
qed

lemma UpdateRelay_ok:
  "UpdateRelay lk domain key c = (None, c') \<Longrightarrow> relayDomain c' = domain \<and> ImportPublicKeyBase64 key = Some (relayPubKey c') \<and>
     cState c' = cState c \<and> sessionToken c' = sessionToken c \<and> quicConn c' = quicConn c"
  by (auto simp: UpdateRelay_def split: option.splits)

lemma selectCountry_ok:
  assumes "handleSelectCountry env code d = (resp, d')" and "rsStatus resp = ''connected''"
  obtains ds ds1 e c c1 d2 where "dmDiscoverer d = Some ds" "code \<in> set CountryCodes" "dmClient d = Some c"
    "SelectRelay code ds = (Inr e, ds1)" "UpdateRelay (ieLookup env) (reDomain e) (rePublicKey e) c = (None, c1)"
    "dmClient d2 = Some c1" "dmFailover d2 = dmFailover d" "switchRelay env code e d2 = (resp, d')"
proof -
  have k: "code \<noteq> []" "code \<in> set CountryCodes" using assms by (auto simp: handleSelectCountry_def split: if_splits)
  obtain ds where ds: "dmDiscoverer d = Some ds"
    using assms k by (cases "dmDiscoverer d") (auto simp: handleSelectCountry_def)
  obtain c where c: "dmClient d = Some c"
    using assms k ds by (cases "dmClient d") (auto simp: handleSelectCountry_def)
  obtain x ds1 where s: "SelectRelay code ds = (x, ds1)" by fastforce
  obtain e where e: "x = Inr e"
    using assms k ds c s by (cases x) (auto simp: handleSelectCountry_def)
  obtain u c1 where u: "UpdateRelay (ieLookup env) (reDomain e) (rePublicKey e) c = (u, c1)" by fastforce
  have n: "u = None"
    using assms k ds c s e u by (cases u) (auto simp: handleSelectCountry_def Let_def)
  let ?d1 = "d\<lparr>dmDiscoverer := Some ds1, dmClient := Some c1\<rparr>"
  obtain d2 where d2: "dmClient d2 = Some c1" "dmFailover d2 = dmFailover d" "switchRelay env code e d2 = (resp, d')"
  proof (cases "RelayIP c1")
    case None
    then show thesis using assms k ds c s e u n
      by (intro that [of ?d1]) (simp_all add: handleSelectCountry_def Let_def)
  next
    case (Some ip)
    obtain r p where r: "ReconfigureForRelay (ieRec env) (Some ip) (dmL3 d) = (r, p)" by fastforce
    then have "r = None" using assms k ds c s e u n Some by (cases r) (auto simp: handleSelectCountry_def Let_def)
    then show thesis using assms k ds c s e u n Some r
      by (intro that [of "?d1\<lparr>dmL3 := p\<rparr>"]) (simp_all add: handleSelectCountry_def Let_def)
  qed
  show thesis using that [OF ds k(2) c s [unfolded e] u [unfolded n] d2] .
qed

text \<open>
  C19: A change of country that is reported as a success is one.  The tunnel is connected to a relay that
  discovery offers for that country: that relay answered this handshake's own nonce with a signature that
  verifies under the key discovery lists for it, and the country shown to the user and the starting point
  of the next failover are this country and this relay.
\<close>

theorem country_switch_is_authenticated:
  assumes "handleSelectCountry env code d = (resp, d')" and "rsStatus resp = ''connected''"
  shows "\<exists>ds e c' nonce vr sig key. dmDiscoverer d = Some ds \<and> e \<in> set (dRelays ds) \<and> countryOf e = code \<and>
    dmClient d' = Some c' \<and> relayDomain c' = reDomain e \<and> GetState (cState c') = StateConnected \<and>
    ieTransport env (relayURL ''/verify'' c') (b64enc Std nonce) = Some (200, Some vr) \<and> ieRnd env = Some nonce \<and>
    b64decode Std (vrSignature vr) = Some sig \<and> ImportPublicKeyBase64 (rePublicKey e) = Some key \<and>
    edVerify (ieCrypto env) key nonce sig \<and> dmCountry d' = code \<and>
    dmFailover d' = map_option (\<lambda>fm. fm\<lparr>fmPreferred := code, fmCurrent := reID e\<rparr>) (dmFailover d)"
proof -
  obtain ds ds1 e c c1 d2 where ds: "dmDiscoverer d = Some ds" "SelectRelay code ds = (Inr e, ds1)"
    and u: "UpdateRelay (ieLookup env) (reDomain e) (rePublicKey e) c = (None, c1)"
    and d2: "dmClient d2 = Some c1" "dmFailover d2 = dmFailover d" and s: "switchRelay env code e d2 = (resp, d')"
    using selectCountry_ok [OF assms] by metis
  obtain c' where c': "connectClient env (Disconnect c1) = (None, c')" "dmClient d' = Some c'" "dmCountry d' = code"
      "dmFailover d' = map_option (\<lambda>fm. fm\<lparr>fmPreferred := code, fmCurrent := reID e\<rparr>) (dmFailover d)"
    using switchRelay_ok [OF s assms(2) d2(1)] d2(2) by auto
  note con = c'(1) [unfolded connectClient_def]
  note f = Connect_fields [OF con] and a = connect_authenticates_relay [OF con]
  have "relayURL ''/verify'' c' = relayURL ''/verify'' (Disconnect c1)" using f by (simp add: relayURL_def)
  then show ?thesis using SelectRelay_pool [OF ds(2)] UpdateRelay_ok [OF u] f a c' ds by auto
qed

lemma findRelay_unique:
  assumes "e \<in> set (dRelays ds)" and "\<forall>e' \<in> set (dRelays ds). reDomain e' = reDomain e \<longrightarrow> e' = e"
  shows "findRelay (reDomain e) (Some ds) = Some e"
proof -
  obtain e' where "List.find (\<lambda>r. reDomain r = reDomain e) (dRelays ds) = Some e'"
    using assms(1) by (cases "List.find (\<lambda>r. reDomain r = reDomain e) (dRelays ds)") (auto simp: find_None_iff)
  moreover from this have "e' = e" using assms(2) by (auto simp: find_Some_iff)
  ultimately show ?thesis by (simp add: findRelay_def)
qed

text \<open>
  A change of country that fails after the relay was chosen is not undone.  When the firewall or the
  routes cannot be moved to the new relay the user is told of an error, but the client already names the
  new relay while its connection and its token are those of the old one, and the next status
  shows a connected tunnel in the new country.
\<close>

theorem failed_switch_shows_new_country:
  assumes "dmVPN d = None" and "dmClient d = Some c" and "GetState (cState c) = StateConnected"
    and "dmDiscoverer d = Some ds" and "SelectRelay code ds = (Inr e, ds1)" and "code \<in> set CountryCodes"
    and "UpdateRelay (ieLookup env) (reDomain e) (rePublicKey e) c = (None, c1)" and "RelayIP c1 = Some ip"
    and "ReconfigureForRelay (ieRec env) (Some ip) (dmL3 d) = (Some err, p)"
    and "\<forall>e' \<in> set (dRelays ds). reDomain e' = reDomain e \<longrightarrow> e' = e"
  shows "\<exists>d1 r2 d2 c2. handleSelectCountry env code d = (respondError (ErrSvc err), d1) \<and> handleGetStatus d1 = (r2, d2) \<and>
    rsStatus r2 = ''connected'' \<and> rsRelayDomain r2 = reDomain e \<and> rsCurrentCountryCode r2 = code \<and>
    dmClient d2 = Some c2 \<and> quicConn c2 = quicConn c \<and> sessionToken c2 = sessionToken c"
proof -
  have ne: "code \<noteq> []" using assms(6) by (auto simp: CountryCodes_def)
  let ?d1 = "d\<lparr>dmDiscoverer := Some ds1, dmClient := Some c1, dmL3 := p\<rparr>"
  have 1: "handleSelectCountry env code d = (respondError (ErrSvc err), ?d1)"
    using assms ne by (simp add: handleSelectCountry_def Let_def)
  note u = UpdateRelay_ok [OF assms(7)] and pool = SelectRelay_pool [OF assms(5)]
  have dr: "dRelays ds1 = dRelays ds" using SelectRelay_spec [OF assms(5)] by simp
  have fr: "findRelay (reDomain e) (Some ds1) = Some e"
    using findRelay_unique [of e ds1] assms(10) pool by (simp add: dr)
  have code: "ExtractCountryCode (reID e) (reDomain e) = code"
    using pool assms(6) by (auto simp: countryOf_def CountryCodes_def Let_def split: if_splits)
  have "handleGetStatus ?d1 = (fst (handleGetStatus ?d1), snd (handleGetStatus ?d1))" by simp
  moreover have "rsStatus (fst (handleGetStatus ?d1)) = ''connected'' \<and> rsRelayDomain (fst (handleGetStatus ?d1)) = reDomain e \<and>
    rsCurrentCountryCode (fst (handleGetStatus ?d1)) = code \<and> dmClient (snd (handleGetStatus ?d1)) = Some c1"
    using assms(1,3) u ne
    by (simp add: handleGetStatus_def Let_def fr code fillTunnel_def fillCommon_def fillLeakStatus_def fillRollback_def
        stateText_def split: option.split prod.split)
  ultimately show ?thesis using 1 u by blast
qed

section \<open>A sample daemon\<close>

definition icelandRelay :: relayEntry where
  "icelandRelay = \<lparr>reID = ''relay-is-01'', reDomain = ''9.9.9.9'', rePublicKey = b64enc Std (replicate 32 5), reSignature = [], reAdded = 0\<rparr>"

definition sampleIpc :: "l3 \<Rightarrow> daemon" where
  "sampleIpc p =
     \<lparr>dmL3 = p, dmFiles = sampleStore, dmIntegrityFailed = False, dmCtlToken = replicate 32 7, dmVPN = None, dmLastScan = None,
      dmClient = Some (setSt StateConnected sampleClient), dmReconnector = None, dmReconnFailed = False, dmTripped = False,
      dmTripMessage = [], dmFailoverAlert = [], dmCountry = ''de'', dmVisibleIP = [], dmRealIP = [],
      dmDiscoverer = Some (NewDiscoverer sampleRegClient NoFile icelandRelay False), dmFailover = None, dmBlocklist = False,
      dmProxy = None, dmProxySeq = 0, dmLeak = None, dmAnomaly = None, dmRecoveries = 0, dmStopping = False, dmCaptiveWatch = False,
      dmAutoStart = False, dmRollback = None, dmInstalled = [], dmInstallError = [], dmPending = [], dmUpdater = None\<rparr>"

definition sampleRec :: recEnv where
  "sampleRec = \<lparr>reTun = True, reCtx = True, reNft = okNft, reTeardown = (\<lambda>_. True), reCleanup = (\<lambda>_. True), reCapture = None,
     reSetup = (\<lambda>_. True), reConnect = True\<rparr>"

definition sampleIpcEnv :: ipcEnv where
  "sampleIpcEnv =
     \<lparr>ieLib = sampleConfigLib, ieKey = replicate 32 7, ieCfgPath = [], ieReadable = True, ieWrites = (WrDone, WrDone),
      ieRollback = (WrDone, WrDone), ieNow = 0, ieScan = None, ieCrypto = toyLib, ieLookup = (\<lambda>_. None), ieRnd = Some [1, 2],
      ieTransport = (\<lambda>u n. Some (200, Some \<lparr>vrSignature = b64enc Std [2, 1, 1], vrSessionToken = None\<rparr>)), ieTimedOut = False,
      ieNft = okNft, ieNftRollback = okNft, ieRec = sampleRec, ieLocked = False, ieProxyStart = None, ieStartup = None,
      ieTick = tickAt 0 ''9.9.9.9'' None [1, 2, 3, 4], ieUpdate = None\<rparr>"

lemma sampleIpc_simps [simp]:
  "dmL3 (sampleIpc p) = p" "dmVPN (sampleIpc p) = None" "dmClient (sampleIpc p) = Some (setSt StateConnected sampleClient)"
  "dmDiscoverer (sampleIpc p) = Some (NewDiscoverer sampleRegClient NoFile icelandRelay False)"
  "dmCtlToken (sampleIpc p) = replicate 32 7" "\<not> dmIntegrityFailed (sampleIpc p)" "dmFiles (sampleIpc p) = sampleStore"
  by (simp_all add: sampleIpc_def)

lemma calm_sample: "calmEnv sampleIpcEnv"
  by (simp add: calmEnv_def sampleIpcEnv_def sampleRec_def okNft_def)

lemma iceland_selected:
  "\<exists>ds1. SelectRelay ''is'' (NewDiscoverer sampleRegClient NoFile icelandRelay False) = (Inr icelandRelay, ds1)"
proof -
  have "ExtractCountryCode ''relay-is-01'' ''9.9.9.9'' = ''is''" by code_simp
  then have c: "countryOf icelandRelay = ''is''" by (simp add: countryOf_def icelandRelay_def del: b64enc.simps)
  have "dRelays (NewDiscoverer sampleRegClient NoFile icelandRelay False) = [icelandRelay]" by (simp add: NewDiscoverer_def)
  then show ?thesis using c by (simp add: SelectRelay_def RelaysByCountry_def CountryCodes_def pick_def Let_def)
qed

lemma iceland_updated:
  defines "c1 \<equiv> (setSt StateConnected sampleClient)\<lparr>relayDomain := ''9.9.9.9'', relayIP := ''9.9.9.9'', relayPubKey := replicate 32 5\<rparr>"
  shows "UpdateRelay (ieLookup sampleIpcEnv) (reDomain icelandRelay) (rePublicKey icelandRelay) (setSt StateConnected sampleClient) = (None, c1)"
    and "RelayIP c1 = Some [9, 9, 9, 9]"
proof -
  have "dotted [9, 9, 9, 9] = ''9.9.9.9''" by code_simp
  then have i: "ParseIP ''9.9.9.9'' = Some (v4prefix @ [9, 9, 9, 9])" using ParseIP_dotted [of "[9, 9, 9, 9]"] by simp
  have k: "ImportPublicKeyBase64 (b64enc Std (replicate 32 5)) = Some (replicate 32 5)"
    by (simp add: ImportPublicKeyBase64_def del: b64enc.simps)
  show "UpdateRelay (ieLookup sampleIpcEnv) (reDomain icelandRelay) (rePublicKey icelandRelay) (setSt StateConnected sampleClient) = (None, c1)"
    by (simp add: UpdateRelay_def icelandRelay_def resolveRelayIP_def i k c1_def del: b64enc.simps)
  have s: "SplitHostPort ''9.9.9.9'' = None" by code_simp
  show "RelayIP c1 = Some [9, 9, 9, 9]" by (simp add: RelayIP_def c1_def s i v4prefix_def To4_def)
qed

theorem auth_field_is_never_checked_witness:
  "ipcHandle sampleIpcEnv \<lparr>rqAction = ''disconnect'', rqValue = [], rqAuth = ''x''\<rparr> (sampleIpc guardedState) =
     ipcHandle sampleIpcEnv \<lparr>rqAction = ''disconnect'', rqValue = [], rqAuth = ''token''\<rparr> (sampleIpc guardedState) \<and>
   snd (ipcHandle sampleIpcEnv \<lparr>rqAction = ''disconnect'', rqValue = [], rqAuth = []\<rparr> (sampleIpc guardedState)) = sampleIpc guardedState"
  using auth_field_is_never_checked [of "\<lparr>rqAction = ''disconnect'', rqValue = [], rqAuth = []\<rparr>" "''x''" "''token''" sampleIpcEnv "sampleIpc guardedState"]
  by (simp add: mutatingActions_def)

theorem no_client_can_switch_mode_witness:
  "snd (ipcHandle sampleIpcEnv \<lparr>rqAction = ''trigger_recovery'', rqValue = [], rqAuth = Hex (replicate 32 7)\<rparr> (sampleIpc guardedState)) =
     sampleIpc guardedState"
proof -
  define fs :: fileStore where "fs = [''/t'' \<mapsto> bytesOf (hexEncode (replicate 32 7))]"
  have l: "ctlLoad True ''/t'' fs = Inr (replicate 32 7)"
    using ctlLoad_hex [where raw = "replicate 32 7" and fs = fs and path = "''/t''" and pre = "[]" and post = "[]"] by (simp add: fs_def tokenLength_def)
  then have "LoadOrCreate True True None TokenWritten ''/t'' fs = (Inr (replicate 32 7), fs)" by (simp add: LoadOrCreate_def)
  then show ?thesis
    using no_client_can_switch_mode [where d = "sampleIpc guardedState" and env = sampleIpcEnv and readable' = True and path' = "''/t''" and fs'' = fs
        and raw = "replicate 32 7" and req = "\<lparr>rqAction = ''trigger_recovery'', rqValue = [], rqAuth = Hex (replicate 32 7)\<rparr>"] l
    by (simp add: SetCtlToken_def)
qed



theorem failed_switch_shows_new_country_witness:
  "\<exists>d1 r2 d2. handleSelectCountry sampleIpcEnv ''is'' (sampleIpc ((bootState False)\<lparr>l3Tun := Some ''t''\<rparr>)) =
       (respondError (ErrSvc ErrReconfigureRoute), d1) \<and> handleGetStatus d1 = (r2, d2) \<and>
     rsStatus r2 = ''connected'' \<and> rsCurrentCountryCode r2 = ''is''"
proof -
  let ?p = "(bootState False)\<lparr>l3Tun := Some ''t''\<rparr>"
  obtain ds1 where s: "SelectRelay ''is'' (NewDiscoverer sampleRegClient NoFile icelandRelay False) = (Inr icelandRelay, ds1)"
    using iceland_selected by blast
  obtain p' where r: "ReconfigureForRelay (ieRec sampleIpcEnv) (Some [9, 9, 9, 9]) ?p = (Some ErrReconfigureRoute, p')"
    by (simp add: ReconfigureForRelay_def reconfigureFirewall_def reconfigureRoutes_def teardownRoutes_def bootState_def
        sampleIpcEnv_def sampleRec_def CaptureOriginalRoute_def Let_def)
  have "dRelays (NewDiscoverer sampleRegClient NoFile icelandRelay False) = [icelandRelay]" by (simp add: NewDiscoverer_def)
  then show ?thesis
    using failed_switch_shows_new_country [where d = "sampleIpc ?p" and env = sampleIpcEnv, OF _ _ _ _ s _ iceland_updated(1) iceland_updated(2)] r
    by (simp add: CountryCodes_def) blast
qed

theorem country_switch_is_authenticated_witness:
  "\<exists>resp d' c'. handleSelectCountry sampleIpcEnv ''is'' (sampleIpc (bootState False)) = (resp, d') \<and> dmCountry d' = ''is'' \<and>
     dmClient d' = Some c' \<and> relayDomain c' = ''9.9.9.9'' \<and> GetState (cState c') = StateConnected"
proof -
  obtain ds1 where s: "SelectRelay ''is'' (NewDiscoverer sampleRegClient NoFile icelandRelay False) = (Inr icelandRelay, ds1)"
    using iceland_selected by blast
  obtain p' where r: "ReconfigureForRelay (ieRec sampleIpcEnv) (Some [9, 9, 9, 9]) (bootState False) = (None, p')"
    by (simp add: ReconfigureForRelay_def reconfigureFirewall_def reconfigureRoutes_def teardownRoutes_def bootState_def Let_def)
  obtain resp d' where h: "handleSelectCountry sampleIpcEnv ''is'' (sampleIpc (bootState False)) = (resp, d')" by fastforce
  define c1 where "c1 = (setSt StateConnected sampleClient)\<lparr>relayDomain := ''9.9.9.9'', relayIP := ''9.9.9.9'', relayPubKey := replicate 32 5\<rparr>"
  have con: "\<exists>c2. connectClient sampleIpcEnv (Disconnect c1) = (None, c2)"
  proof -
    have "relayPubKey (setSt StateConnecting (Disconnect c1)) = replicate 32 5" by (simp add: c1_def)
    then show ?thesis
      by (simp add: connectClient_def Connect_def verifyRelay_def VerifyMsg_def sampleIpcEnv_def toyLib_def del: b64enc.simps)
  qed
  have "rsStatus resp = ''connected''"
    using h con s r iceland_updated
    by (auto simp: handleSelectCountry_def switchRelay_def CountryCodes_def c1_def [symmetric] sampleIpcEnv_def Let_def
        split: prod.splits option.splits)
  from country_switch_is_authenticated [OF h this] obtain ds e c' where
    "dmDiscoverer (sampleIpc (bootState False)) = Some ds" "e \<in> set (dRelays ds)" "dmClient d' = Some c'" "relayDomain c' = reDomain e"
    "GetState (cState c') = StateConnected" "dmCountry d' = ''is''" by blast
  then show ?thesis using h by (auto simp: NewDiscoverer_def icelandRelay_def)
qed

end
