(* ===== verification/DnsWatch.thy ===== *)
theory DnsWatch
  imports DnsControl
begin

text \<open>
  The watch over the system resolver: reading the current one (\<^verbatim>\<open>linux/internal/dns/check_linux.go\<close>)
  and the watchdog of \<^verbatim>\<open>internal/watchdog/watchdog.go\<close> that puts it back, with the check that
  \<^verbatim>\<open>shutdown\<close> makes at the end.  Each call of the checker and of the fixer has its own system answers.
\<close>

section \<open>Reading the resolver\<close>

definition isIPAddr :: "string \<Rightarrow> bool" where
  "isIPAddr s \<longleftrightarrow> ParseIP s \<noteq> None"

definition linkResolver :: "string \<Rightarrow> string option" where
  \<comment> \<open>the first address on a \<^verbatim>\<open>Link\<close> line\<close>
  "linkResolver out =
     List.find isIPAddr (concat (map wordsOf (filter (\<lambda>l. HasPrefix l ''Link'') (map TrimSpace (splitOn CHR 0x0A out)))))"

definition nameserverOf :: "string \<Rightarrow> string option" where
  "nameserverOf content =
     map_option (\<lambda>parts. parts ! 1)
       (List.find (\<lambda>parts. length parts \<ge> 2)
          (map wordsOf (filter (\<lambda>l. HasPrefix l ''nameserver'') (map TrimSpace (splitOn CHR 0x0A content)))))"

definition CheckCurrentResolver :: "sysAnswers \<Rightarrow> host \<Rightarrow> string option \<times> host" where
  "CheckCurrentResolver io h =
     (if ansCtxErr io then (None, h)
      else case run io [''resolvectl'', ''dns''] h of
        ((ok, out), h1) \<Rightarrow>
          (case (if ok then linkResolver out else None) of
             Some a \<Rightarrow> (Some a, h1)
           | None \<Rightarrow>
               (case ReadFile io resolvConfPath h1 of
                  None \<Rightarrow> (None, h1)
                | Some content \<Rightarrow> (nameserverOf content, h1))))"

section \<open>The watchdog\<close>

record cycleAnswers =
  cyCheck :: sysAnswers
  cyFix :: sysAnswers
  cyCtxDone :: bool
    \<comment> \<open>the context ends during the pause before the second attempt\<close>
  cyRetry :: sysAnswers

definition checkAndFix :: "cycleAnswers \<Rightarrow> string \<Rightarrow> host \<Rightarrow> host" where
  "checkAndFix cy expectedAddr h =
     (case CheckCurrentResolver (cyCheck cy) h of
        (None, h1) \<Rightarrow> h1
      | (Some current, h1) \<Rightarrow>
          if current \<noteq> expectedAddr then
            (case ForceResolver (cyFix cy) expectedAddr h1 of
               (True, h2) \<Rightarrow> h2
             | (False, h2) \<Rightarrow> if cyCtxDone cy then h2 else snd (ForceResolver (cyRetry cy) expectedAddr h2))
          else h1)"

definition VerifyAndRestore :: "sysAnswers \<Rightarrow> sysAnswers \<Rightarrow> string \<Rightarrow> host \<Rightarrow> bool \<times> host" where
  "VerifyAndRestore io io' expectedAddr h =
     (case CheckCurrentResolver io h of
        (None, h1) \<Rightarrow> (False, h1)
      | (Some current, h1) \<Rightarrow> if current \<noteq> expectedAddr then ForceResolver io' expectedAddr h1 else (True, h1))"

definition OriginalResolver :: "linuxManager \<Rightarrow> string" where
  "OriginalResolver m = originalDNS m"

section \<open>Which files the DNS operations touch\<close>

lemma run_host [simp]: "files (snd (run io args h)) = files h" "proxyUp (snd (run io args h)) = proxyUp h" "httpUp (snd (run io args h)) = httpUp h"
  by (simp_all add: run_def)

lemma CheckCurrentResolver_host:
  "CheckCurrentResolver io h = (r, h') \<Longrightarrow> files h' = files h \<and> proxyUp h' = proxyUp h \<and> httpUp h' = httpUp h"
  by (auto simp: CheckCurrentResolver_def run_def split: if_splits option.splits prod.splits)

lemma ForceResolver_files:
  "ForceResolver io addr h = (ok, h') \<Longrightarrow> p \<noteq> resolvConfPath \<Longrightarrow> files h' p = files h p"
  by (auto simp: ForceResolver_def discoverInterfaces_def WriteFile_def run_def Let_def
      split: prod.splits bool.splits option.splits if_splits dest: forceInterfaces_host)

lemma revertInterfaces_files: "revertInterfaces io ifs ok h = (r, h') \<Longrightarrow> files h' = files h \<and> proxyUp h' = proxyUp h \<and> httpUp h' = httpUp h"
  by (induction io ifs ok h rule: revertInterfaces.induct) (auto simp: run_def split: prod.splits)

lemma reapply_files:
  "files (foldl (\<lambda>h iface. snd (run io [a, b, c, iface] h)) h ifs) = files h"
  "proxyUp (foldl (\<lambda>h iface. snd (run io [a, b, c, iface] h)) h ifs) = proxyUp h"
  "httpUp (foldl (\<lambda>h iface. snd (run io [a, b, c, iface] h)) h ifs) = httpUp h"
  by (induction ifs arbitrary: h) simp_all

lemma SetResolver_files:
  "SetResolver io addr m h = (ok, m', h') \<Longrightarrow> p \<notin> {resolvConfPath, resolvConfBackup} \<Longrightarrow> files h' p = files h p"
  by (auto simp: SetResolver_def setResolverResolvectl_def setResolverResolvConf_def WriteFile_def run_def Let_def
      split: prod.splits bool.splits option.splits if_splits dest: pointInterfaces_host)

lemma RestoreResolver_files:
  "RestoreResolver io m h = (ok, m', h') \<Longrightarrow> p \<notin> {resolvConfPath, resolvConfBackup} \<Longrightarrow> files h' p = files h p"
  by (auto simp: RestoreResolver_def restoreResolvectl_def restoreResolvConf_def WriteFile_def RemoveFile_def reapply_files Let_def
      split: prod.splits bool.splits option.splits if_splits dest: revertInterfaces_files)

lemma RestoreResolver_host:
  "RestoreResolver io m h = (ok, m', h') \<Longrightarrow> proxyUp h' = proxyUp h \<and> httpUp h' = httpUp h"
  by (auto simp: RestoreResolver_def restoreResolvectl_def restoreResolvConf_def WriteFile_def RemoveFile_def reapply_files Let_def
      split: prod.splits bool.splits option.splits if_splits dest: revertInterfaces_files)

lemma checkAndFix_effect:
  "proxyUp (checkAndFix cy addr h) = proxyUp h \<and> httpUp (checkAndFix cy addr h) = httpUp h \<and>
   (\<forall>p. p \<noteq> resolvConfPath \<longrightarrow> files (checkAndFix cy addr h) p = files h p)"
proof -
  obtain r h1 where c: "CheckCurrentResolver (cyCheck cy) h = (r, h1)" by fastforce
  obtain ok h2 where f: "ForceResolver (cyFix cy) addr h1 = (ok, h2)" by fastforce
  obtain ok' h3 where g: "ForceResolver (cyRetry cy) addr h2 = (ok', h3)" by fastforce
  show ?thesis
    using CheckCurrentResolver_host [OF c] ForceResolver_host [OF f] ForceResolver_host [OF g]
      ForceResolver_files [OF f] ForceResolver_files [OF g] c f g
    by (auto simp: checkAndFix_def split: option.splits bool.splits)
qed

lemma VerifyAndRestore_files: "VerifyAndRestore io io' addr h = (ok, h') \<Longrightarrow> p \<noteq> resolvConfPath \<Longrightarrow> files h' p = files h p"
  by (auto simp: VerifyAndRestore_def split: prod.splits option.splits if_splits
      dest!: CheckCurrentResolver_host dest: ForceResolver_files)

lemma VerifyAndRestore_host: "VerifyAndRestore io io' addr h = (ok, h') \<Longrightarrow> proxyUp h' = proxyUp h \<and> httpUp h' = httpUp h"
  by (auto simp: VerifyAndRestore_def split: prod.splits option.splits if_splits
      dest!: CheckCurrentResolver_host ForceResolver_host)

section \<open>The forced resolver is the one that is read\<close>

lemma nameserver_generated: "nameserverOf (generatedConf ''127.0.0.1'') = Some ''127.0.0.1''"
  by code_simp

lemma loopback_parses: "ParseIP ''127.0.0.1'' \<noteq> None"
  by code_simp

lemma ForceResolver_plain:
  assumes "\<not> fst (ansRun io [''which'', ''resolvectl''])" and "\<not> ansCtxErr io"
  shows "ForceResolver io ''127.0.0.1'' h =
    (ansWrite io resolvConfPath,
     (h\<lparr>commands := commands h @ [[''which'', ''resolvectl'']]\<rparr>)
       \<lparr>files := (if ansWrite io resolvConfPath then (files h)(resolvConfPath \<mapsto> generatedConf ''127.0.0.1'') else files h)\<rparr>)"
  using assms loopback_parses by (cases "ansRun io [''which'', ''resolvectl'']") (auto simp: ForceResolver_def run_def WriteFile_def)

lemma watch_converges:
  assumes "CheckCurrentResolver (cyCheck cy) h = (Some a, h1)" and "a \<noteq> ''127.0.0.1''"
    and "\<not> fst (ansRun (cyFix cy) [''which'', ''resolvectl''])" and "\<not> ansCtxErr (cyFix cy)" and "ansWrite (cyFix cy) resolvConfPath"
    and "\<not> fst (ansRun io [''resolvectl'', ''dns''])" and "\<not> ansCtxErr io" and "ansRead io resolvConfPath"
  shows "fst (CheckCurrentResolver io (checkAndFix cy ''127.0.0.1'' h)) = Some ''127.0.0.1''"
proof -
  have "files (checkAndFix cy ''127.0.0.1'' h) resolvConfPath = Some (generatedConf ''127.0.0.1'')"
    using assms(1,2,5) by (simp add: checkAndFix_def ForceResolver_plain [OF assms(3,4)])
  then show ?thesis using assms(6-8) nameserver_generated
    by (auto simp: CheckCurrentResolver_def run_def ReadFile_def split: prod.splits)
qed

end
