(* ===== verification/Browser.thy ===== *)
theory Browser
  imports Go_Net "HOL-Library.Finite_Map"
begin

text \<open>
  The WebRTC policies that the Linux daemon writes for the installed browsers
  (\<^verbatim>\<open>linux/internal/browser\<close>): detection, the policy files and their merge, the record of the
  originals on disk, the restoration and the recovery after a crash.  The file system is a map from
  paths to contents; how each system call ends is the argument \<open>polAnswers\<close>.  The JSON library is
  the argument \<open>policyLib\<close>; a failing write leaves the file as it was (temporary file and rename).
\<close>

section \<open>Browsers and their policy files\<close>

datatype browserFamily = Chromium | Firefox

record browserInfo =
  biName :: string
  biFamily :: browserFamily
  biPath :: string

definition chromiumVendorLinux :: "(string \<times> string) list" where
  "chromiumVendorLinux =
     [(''Google Chrome'', ''/etc/opt/chrome/policies/managed/''),
      (''Microsoft Edge'', ''/etc/opt/edge/policies/managed/''),
      (''Brave'', ''/etc/brave/policies/managed/''),
      (''Vivaldi'', ''/etc/vivaldi/policies/managed/''),
      (''Opera'', ''/etc/opera/policies/managed/''),
      (''Chromium'', ''/etc/chromium/policies/managed/'')]"

definition firefoxPolicyPathsLinux :: "string list" where
  "firefoxPolicyPathsLinux =
     [''/etc/firefox/policies/policies.json'', ''/usr/lib/firefox/distribution/policies.json'']"

definition linuxExeNames :: "(string \<times> string) list" where
  "linuxExeNames =
     [(''google-chrome'', ''Google Chrome''), (''google-chrome-stable'', ''Google Chrome''),
      (''chromium'', ''Chromium''), (''chromium-browser'', ''Chromium''), (''microsoft-edge'', ''Microsoft Edge''),
      (''brave-browser'', ''Brave''), (''vivaldi'', ''Vivaldi''), (''opera'', ''Opera''), (''firefox'', ''Firefox'')]"

definition linuxSearchDirs :: "string list" where
  "linuxSearchDirs = [''/usr/bin'', ''/usr/local/bin'', ''/snap/bin'', ''/opt'']"

definition joinPath :: "string \<Rightarrow> string \<Rightarrow> string" where
  \<comment> \<open>\<^verbatim>\<open>filepath.Join\<close> on the clean directories used here\<close>
  "joinPath dir f = (if HasSuffix dir ''/'' then dir @ f else dir @ ''/'' @ f)"

definition dirOf :: "string \<Rightarrow> string" where
  \<comment> \<open>\<^verbatim>\<open>filepath.Dir\<close> on the clean paths used here\<close>
  "dirOf p = (case LastIndexByte p CHR ''/'' of None \<Rightarrow> ''.'' | Some i \<Rightarrow> take i p)"

definition browserInfoForLinux :: "(string \<Rightarrow> bool) \<Rightarrow> string \<Rightarrow> browserInfo option" where
  "browserInfoForLinux stat name =
     (if name = ''Firefox'' then
        Some \<lparr>biName = ''Firefox'', biFamily = Firefox,
              biPath = (case List.find (\<lambda>p. stat (dirOf p)) firefoxPolicyPathsLinux of
                          Some p \<Rightarrow> p | None \<Rightarrow> firefoxPolicyPathsLinux ! 0)\<rparr>
      else case map_of chromiumVendorLinux name of
        None \<Rightarrow> None
      | Some policyDir \<Rightarrow> Some \<lparr>biName = name, biFamily = Chromium, biPath = policyDir\<rparr>)"

fun detectIn ::
  "(string \<Rightarrow> bool) \<Rightarrow> string \<Rightarrow> (string \<times> string) list \<Rightarrow> string list \<times> browserInfo list \<Rightarrow> string list \<times> browserInfo list" where
  "detectIn stat dir [] acc = acc"
| "detectIn stat dir ((exeName, browserName) # es) (seen, bs) =
     (if browserName \<in> set seen then detectIn stat dir es (seen, bs)
      else if \<not> stat (joinPath dir exeName) then detectIn stat dir es (seen, bs)
      else case browserInfoForLinux stat browserName of
        None \<Rightarrow> detectIn stat dir es (seen, bs)
      | Some info \<Rightarrow> detectIn stat dir es (browserName # seen, bs @ [info]))"

definition DetectBrowsers :: "(string \<Rightarrow> (string \<times> string) list) \<Rightarrow> (string \<Rightarrow> bool) \<Rightarrow> browserInfo list" where
  \<comment> \<open>\<open>order\<close>: the order in which the map of executables is ranged over for each directory\<close>
  "DetectBrowsers order stat =
     snd (fold (\<lambda>dir. detectIn stat dir (order dir)) linuxSearchDirs ([], []))"

definition chromiumPolicyFileName :: string where
  "chromiumPolicyFileName = ''levoile-webrtc.json''"

section \<open>The file system and the library\<close>

datatype json = JObject "(string, json) fmap" | JBool bool | JOther string

type_synonym jsonMap = "(string, json) fmap"
type_synonym polFiles = "string \<Rightarrow> string option"

record browserSavedState =
  bsName :: string
  bsFamily :: browserFamily
  bsPath :: string
  bsOriginal :: string
  bsHad :: bool

record policyLib =
  plUnmarshal :: "string \<Rightarrow> jsonMap option option"
    \<comment> \<open>into a map; \<open>Some None\<close> for the text \<^verbatim>\<open>null\<close>, which leaves the map nil\<close>
  plIndent :: "jsonMap \<Rightarrow> string"
  plEncode :: "browserSavedState list \<Rightarrow> string"
  plDecode :: "string \<Rightarrow> browserSavedState list option"

record polAnswers =
  paLock :: bool
  paMkdir :: "string \<Rightarrow> bool"
  paRead :: "string \<Rightarrow> bool"
  paWrite :: "string \<Rightarrow> bool"
  paRemove :: "string \<Rightarrow> bool"
  paRename :: "string \<Rightarrow> bool"
  paPersist :: "nat \<Rightarrow> bool"
  paList :: "string list option"

definition polRead :: "polAnswers \<Rightarrow> string \<Rightarrow> polFiles \<Rightarrow> string option" where
  "polRead env path fs = (if paRead env path then fs path else None)"

definition atomicWriteFile :: "polAnswers \<Rightarrow> string \<Rightarrow> string \<Rightarrow> polFiles \<Rightarrow> bool \<times> polFiles" where
  "atomicWriteFile env path c fs = (if paWrite env path then (True, fs(path \<mapsto> c)) else (False, fs))"

datatype rmResult = RmOk | RmMissing | RmFail

definition polRemove :: "polAnswers \<Rightarrow> string \<Rightarrow> polFiles \<Rightarrow> rmResult \<times> polFiles" where
  "polRemove env path fs =
     (if fs path = None then (RmMissing, fs)
      else if paRemove env path then (RmOk, fs(path := None)) else (RmFail, fs))"

definition policyStatePath :: string where "policyStatePath = ''/var/lib/levoile''"

definition policyStateFilePath :: string where
  "policyStateFilePath = joinPath policyStatePath ''browser-policies-original.json''"

definition persistStateIncremental ::
  "policyLib \<Rightarrow> polAnswers \<Rightarrow> browserSavedState list \<Rightarrow> polFiles \<Rightarrow> bool \<times> polFiles" where
  "persistStateIncremental lib env st fs =
     (if paPersist env (length st) then (True, fs(policyStateFilePath \<mapsto> plEncode lib st)) else (False, fs))"

definition removePersistedState :: "polAnswers \<Rightarrow> polFiles \<Rightarrow> polFiles" where
  "removePersistedState env fs = snd (polRemove env policyStateFilePath fs)"

section \<open>Applying\<close>

datatype polError = MkdirFailed | InvalidJSON | WriteFailed
datatype applyOne = ApSaved browserSavedState | ApFail polError | ApPanic

definition originalState :: "browserInfo \<Rightarrow> string option \<Rightarrow> browserSavedState" where
  "originalState b orig =
     \<lparr>bsName = biName b, bsFamily = biFamily b, bsPath = biPath b,
      bsOriginal = (case orig of None \<Rightarrow> [] | Some c \<Rightarrow> c), bsHad = (orig \<noteq> None)\<rparr>"

definition chromiumContent :: string where
  "chromiumContent = ''{'' @ [CHR 0x22] @ ''WebRtcIPHandlingPolicy'' @ [CHR 0x22] @ '': '' @ [CHR 0x22] @
     ''disable_non_proxied_udp'' @ [CHR 0x22] @ ''}'' @ [CHR 0x0A]"

definition applyChromium :: "polAnswers \<Rightarrow> browserInfo \<Rightarrow> polFiles \<Rightarrow> applyOne \<times> polFiles" where
  "applyChromium env b fs =
     (let policyFile = joinPath (biPath b) chromiumPolicyFileName in
      if \<not> paMkdir env (biPath b) then (ApFail MkdirFailed, fs)
      else
        let saved = originalState b (polRead env policyFile fs) in
        (case atomicWriteFile env policyFile chromiumContent fs of
           (False, fs1) \<Rightarrow> (ApFail WriteFailed, fs1)
         | (True, fs1) \<Rightarrow> (ApSaved saved, fs1)))"

definition asObject :: "json option \<Rightarrow> jsonMap option" where
  "asObject v = (case v of Some (JObject m) \<Rightarrow> Some m | _ \<Rightarrow> None)"

definition memberObj :: "jsonMap \<Rightarrow> string \<Rightarrow> jsonMap" where
  \<comment> \<open>the member as an object, an empty one if it is not an object\<close>
  "memberObj m k = (case asObject (fmlookup m k) of Some p \<Rightarrow> p | None \<Rightarrow> fmempty)"

definition firefoxPrefs :: "(string \<times> json) list" where
  "firefoxPrefs = [(''media.peerconnection.enabled'', JBool False)]"

definition mergePrefs :: "jsonMap \<Rightarrow> jsonMap" where
  "mergePrefs root =
     (let policies = memberObj root ''policies'';
          prefs = fold (\<lambda>(k, v). fmupd k v) firefoxPrefs (memberObj policies ''Preferences'')
      in fmupd ''policies'' (JObject (fmupd ''Preferences'' (JObject prefs) policies)) root)"

definition applyFirefox :: "policyLib \<Rightarrow> polAnswers \<Rightarrow> browserInfo \<Rightarrow> polFiles \<Rightarrow> applyOne \<times> polFiles" where
  "applyFirefox lib env b fs =
     (if \<not> paMkdir env (dirOf (biPath b)) then (ApFail MkdirFailed, fs)
      else
        let orig = polRead env (biPath b) fs;
            write = (\<lambda>root. case atomicWriteFile env (biPath b) (plIndent lib (mergePrefs root) @ [CHR 0x0A]) fs of
                (False, fs1) \<Rightarrow> (ApFail WriteFailed, fs1)
              | (True, fs1) \<Rightarrow> (ApSaved (originalState b orig), fs1))
        in case orig of
             None \<Rightarrow> write fmempty
           | Some c \<Rightarrow>
               (case plUnmarshal lib c of
                  None \<Rightarrow> (ApFail InvalidJSON, fs)
                | Some None \<Rightarrow> (ApPanic, fs)
                | Some (Some root) \<Rightarrow> write root))"

definition applyBrowser :: "policyLib \<Rightarrow> polAnswers \<Rightarrow> browserInfo \<Rightarrow> polFiles \<Rightarrow> applyOne \<times> polFiles" where
  "applyBrowser lib env b fs =
     (case biFamily b of Chromium \<Rightarrow> applyChromium env b fs | Firefox \<Rightarrow> applyFirefox lib env b fs)"

section \<open>Restoring\<close>

definition restorePref :: "jsonMap \<Rightarrow> string \<Rightarrow> jsonMap \<Rightarrow> jsonMap" where
  "restorePref origPrefs k prefs =
     (case fmlookup origPrefs k of Some v \<Rightarrow> fmupd k v prefs | None \<Rightarrow> fmdrop k prefs)"

definition setOrDrop :: "string \<Rightarrow> jsonMap \<Rightarrow> jsonMap \<Rightarrow> jsonMap" where
  \<comment> \<open>an empty container is removed\<close>
  "setOrDrop k v m = (if v = fmempty then fmdrop k m else fmupd k (JObject v) m)"

definition unmergePrefs :: "policyLib \<Rightarrow> string \<Rightarrow> jsonMap \<Rightarrow> jsonMap option" where
  \<comment> \<open>the reverse merge of the current root, given the original text; \<open>None\<close> if there is nothing to undo\<close>
  "unmergePrefs lib orig root =
     (case asObject (fmlookup root ''policies'') of
        None \<Rightarrow> None
      | Some policies \<Rightarrow>
          (case asObject (fmlookup policies ''Preferences'') of
             None \<Rightarrow> None
           | Some prefs \<Rightarrow>
               let origPrefs = (case plUnmarshal lib orig of
                       Some (Some r) \<Rightarrow> memberObj (memberObj r ''policies'') ''Preferences''
                     | _ \<Rightarrow> fmempty);
                   prefs1 = fold (restorePref origPrefs) (map fst firefoxPrefs) prefs
               in Some (setOrDrop ''policies'' (setOrDrop ''Preferences'' prefs1 policies) root)))"

definition restoreFirefoxLinux ::
  "policyLib \<Rightarrow> polAnswers \<Rightarrow> browserSavedState \<Rightarrow> polFiles \<Rightarrow> bool \<times> polFiles" where
  "restoreFirefoxLinux lib env b fs =
     (if \<not> bsHad b then (case polRemove env (bsPath b) fs of (r, fs1) \<Rightarrow> (r = RmOk, fs1))
      else case polRead env (bsPath b) fs of
        None \<Rightarrow> atomicWriteFile env (bsPath b) (bsOriginal b) fs
      | Some current \<Rightarrow>
          (case plUnmarshal lib current of
             None \<Rightarrow> atomicWriteFile env (bsPath b) (bsOriginal b) fs
           | Some None \<Rightarrow> (True, fs)
           | Some (Some root) \<Rightarrow>
               (case unmergePrefs lib (bsOriginal b) root of
                  None \<Rightarrow> (True, fs)
                | Some root1 \<Rightarrow> atomicWriteFile env (bsPath b) (plIndent lib root1 @ [CHR 0x0A]) fs)))"

definition restoreOneLinux ::
  "policyLib \<Rightarrow> polAnswers \<Rightarrow> browserSavedState \<Rightarrow> polFiles \<Rightarrow> bool \<times> polFiles" where
  "restoreOneLinux lib env b fs =
     (case bsFamily b of
        Chromium \<Rightarrow>
          (let policyFile = joinPath (bsPath b) chromiumPolicyFileName in
           if bsHad b then atomicWriteFile env policyFile (bsOriginal b) fs
           else (case polRemove env policyFile fs of (r, fs1) \<Rightarrow> (r \<noteq> RmFail, fs1)))
      | Firefox \<Rightarrow> restoreFirefoxLinux lib env b fs)"

fun restoreAll :: "policyLib \<Rightarrow> polAnswers \<Rightarrow> browserSavedState list \<Rightarrow> bool \<Rightarrow> polFiles \<Rightarrow> bool \<times> polFiles" where
  \<comment> \<open>the flag says that no restoration has failed so far\<close>
  "restoreAll lib env [] ok fs = (ok, fs)"
| "restoreAll lib env (b # bs) ok fs =
     (case restoreOneLinux lib env b fs of (r, fs1) \<Rightarrow> restoreAll lib env bs (ok \<and> r) fs1)"

section \<open>The manager\<close>

record policyManager =
  pmSaved :: "browserSavedState list option"
  pmLocked :: bool

record applyResult =
  arApplied :: "string list"
  arFailed :: "(string \<times> polError) list"

datatype applyEnd = ApplyOk | ApplyErrLock | ApplyErrPersist | ApplyPanicked

definition newPolicyManager :: policyManager where
  "newPolicyManager = \<lparr>pmSaved = None, pmLocked = False\<rparr>"

fun applyLoop ::
  "policyLib \<Rightarrow> polAnswers \<Rightarrow> polAnswers \<Rightarrow> browserInfo list \<Rightarrow> applyResult \<Rightarrow> browserSavedState list \<Rightarrow> polFiles \<Rightarrow>
     applyEnd \<times> applyResult \<times> browserSavedState list option \<times> polFiles" where
  \<comment> \<open>\<open>rb\<close>: the answers during a rollback\<close>
  "applyLoop lib env rb [] res st fs = (ApplyOk, res, Some st, fs)"
| "applyLoop lib env rb (b # bs) res st fs =
     (case applyBrowser lib env b fs of
        (ApPanic, fs1) \<Rightarrow> (ApplyPanicked, res, Some st, fs1)
      | (ApFail e, fs1) \<Rightarrow> applyLoop lib env rb bs (res\<lparr>arFailed := arFailed res @ [(biName b, e)]\<rparr>) st fs1
      | (ApSaved saved, fs1) \<Rightarrow>
          (let st1 = st @ [saved] in
           case persistStateIncremental lib env st1 fs1 of
             (False, fs2) \<Rightarrow> (ApplyErrPersist, \<lparr>arApplied = [], arFailed = []\<rparr>, None, snd (restoreAll lib rb st1 True fs2))
           | (True, fs2) \<Rightarrow> applyLoop lib env rb bs (res\<lparr>arApplied := arApplied res @ [biName b]\<rparr>) st1 fs2))"

definition ApplyPolicies ::
  "policyLib \<Rightarrow> polAnswers \<Rightarrow> polAnswers \<Rightarrow> browserInfo list \<Rightarrow> policyManager \<Rightarrow> polFiles \<Rightarrow>
     applyEnd \<times> applyResult \<times> policyManager \<times> polFiles" where
  "ApplyPolicies lib env rb browsers m fs =
     (if \<not> paLock env then (ApplyErrLock, \<lparr>arApplied = [], arFailed = []\<rparr>, m, fs)
      else if browsers = [] then (ApplyOk, \<lparr>arApplied = [], arFailed = []\<rparr>, m\<lparr>pmLocked := False\<rparr>, fs)
      else case applyLoop lib env rb browsers \<lparr>arApplied = [], arFailed = []\<rparr> [] fs of
        (e, res, st, fs1) \<Rightarrow> (e, res, m\<lparr>pmSaved := st, pmLocked := (e \<noteq> ApplyErrPersist)\<rparr>, fs1))"

definition RestorePolicies ::
  "policyLib \<Rightarrow> polAnswers \<Rightarrow> policyManager \<Rightarrow> polFiles \<Rightarrow> bool \<times> policyManager \<times> polFiles" where
  "RestorePolicies lib env m fs =
     (case pmSaved m of
        None \<Rightarrow> (True, m\<lparr>pmLocked := False\<rparr>, fs)
      | Some st \<Rightarrow>
          (case restoreAll lib env st True fs of
             (ok, fs1) \<Rightarrow> (ok, \<lparr>pmSaved = None, pmLocked = False\<rparr>, removePersistedState env fs1)))"

section \<open>Recovery after a crash\<close>

definition isOrphanTemp :: "string \<Rightarrow> bool" where
  "isOrphanTemp name \<longleftrightarrow> HasPrefix name ''browser-policies-'' \<and> HasSuffix name ''.tmp''"

definition renameTo :: "polAnswers \<Rightarrow> string \<Rightarrow> string \<Rightarrow> polFiles \<Rightarrow> bool \<times> polFiles" where
  "renameTo env src dst fs =
     (if paRename env src \<and> fs src \<noteq> None then (True, fs(dst := fs src, src := None)) else (False, fs))"

fun cleanTemps :: "polAnswers \<Rightarrow> string list \<Rightarrow> bool \<Rightarrow> polFiles \<Rightarrow> polFiles" where
  "cleanTemps env [] finalExists fs = fs"
| "cleanTemps env (e # es) finalExists fs =
     (if \<not> isOrphanTemp e then cleanTemps env es finalExists fs
      else
        let tmpPath = joinPath policyStatePath e;
            drop = (\<lambda>fs. cleanTemps env es finalExists (snd (polRemove env tmpPath fs)))
        in if \<not> finalExists then
             (case renameTo env tmpPath policyStateFilePath fs of
                (True, fs1) \<Rightarrow> cleanTemps env es True fs1
              | (False, fs1) \<Rightarrow> drop fs1)
           else drop fs)"

definition cleanOrphanTemps :: "polAnswers \<Rightarrow> polFiles \<Rightarrow> polFiles" where
  "cleanOrphanTemps env fs =
     (case paList env of
        None \<Rightarrow> fs
      | Some entries \<Rightarrow> cleanTemps env entries (fs policyStateFilePath \<noteq> None) fs)"

datatype loadedState = Loaded "browserSavedState list" | NoPersistedState | LoadError

definition loadOrphanTemp :: "polAnswers \<Rightarrow> polFiles \<Rightarrow> string option option" where
  \<comment> \<open>\<open>None\<close>: the directory cannot be read; \<open>Some None\<close>: no temporary file can be read\<close>
  "loadOrphanTemp env fs =
     (case paList env of
        None \<Rightarrow> None
      | Some entries \<Rightarrow>
          (case List.find (\<lambda>e. isOrphanTemp e \<and> polRead env (joinPath policyStatePath e) fs \<noteq> None) entries of
             None \<Rightarrow> Some None
           | Some e \<Rightarrow> Some (polRead env (joinPath policyStatePath e) fs)))"

definition loadPersistedState :: "policyLib \<Rightarrow> polAnswers \<Rightarrow> polFiles \<Rightarrow> loadedState" where
  "loadPersistedState lib env fs =
     (let decode = (\<lambda>d. case plDecode lib d of None \<Rightarrow> LoadError | Some st \<Rightarrow> Loaded st) in
      case polRead env policyStateFilePath fs of
        Some d \<Rightarrow> decode d
      | None \<Rightarrow>
          (case loadOrphanTemp env fs of
             None \<Rightarrow> LoadError
           | Some None \<Rightarrow> NoPersistedState
           | Some (Some d) \<Rightarrow> decode d))"

definition RecoverOrphanPolicies :: "policyLib \<Rightarrow> polAnswers \<Rightarrow> polFiles \<Rightarrow> bool \<times> polFiles" where
  "RecoverOrphanPolicies lib env fs0 =
     (let fs = cleanOrphanTemps env fs0 in
      case loadPersistedState lib env fs of
        NoPersistedState \<Rightarrow> (True, fs)
      | LoadError \<Rightarrow> (False, removePersistedState env fs)
      | Loaded [] \<Rightarrow> (True, removePersistedState env fs)
      | Loaded st \<Rightarrow> (case restoreAll lib env st True fs of (ok, fs1) \<Rightarrow> (ok, removePersistedState env fs1)))"

end
