(* ===== verification/Lifecycle.thy ===== *)
theory Lifecycle
  imports DnsWatch Protection Client Browser
begin

text \<open>
  The life of the Linux daemon from \<^verbatim>\<open>run\<close> to \<^verbatim>\<open>shutdown\<close> (\<^verbatim>\<open>linux/internal/service/service.go\<close>):
  the start sequence with its early returns, the shutdown as the list of its steps, over the states
  of the other components.  The discovery of the relay, the installation of an update and the
  rollback after a failed connection are modelled with their components; the goroutines that
  \<^verbatim>\<open>run\<close> starts act through the operations of theirs.
\<close>

section \<open>The machine\<close>

record machine =
  mcL3 :: l3
  mcClient :: "client option"
  mcKS :: killSwitch
    \<comment> \<open>also the DNS manager and the host, which exist before the kill switch\<close>
  mcHasDns :: bool
  mcHasKS :: bool
  mcWatch :: bool
  mcPolicies :: "policyManager option"

definition mcHost :: "machine \<Rightarrow> host" where
  "mcHost m = ksHost (mcKS m)"

definition onHost :: "(host \<Rightarrow> host) \<Rightarrow> machine \<Rightarrow> machine" where
  "onHost f m = m\<lparr>mcKS := (mcKS m)\<lparr>ksHost := f (mcHost m)\<rparr>\<rparr>"

definition mapL3 :: "(l3 \<Rightarrow> l3) \<Rightarrow> machine \<Rightarrow> machine" where
  "mapL3 f m = m\<lparr>mcL3 := f (mcL3 m)\<rparr>"

definition mapClient :: "(client \<Rightarrow> client) \<Rightarrow> machine \<Rightarrow> machine" where
  "mapClient f m = m\<lparr>mcClient := map_option f (mcClient m)\<rparr>"

section \<open>The start sequence\<close>

record runEnv =
  rnPolRecover :: polAnswers
  rnStart :: startEnv
  rnTun :: string
  rnLookup :: "string \<Rightarrow> bytes list option"
  rnInsecure :: bool
  rnDomain :: string
  rnKey :: string
  rnCrypto :: cryptoLib
  rnRandom :: "bytes option"
  rnRespond :: transport
  rnTimedOut :: bool
  rnNow :: int
  rnProxy :: sysAnswers
  rnHTTP :: bool
  rnPolicies :: bool
  rnPolApply :: polAnswers
  rnPolRollback :: polAnswers
  rnOrder :: "string \<Rightarrow> (string \<times> string) list"
  rnStat :: "string \<Rightarrow> bool"
  rnDns :: sysAnswers

datatype runEnd =
    StoppedL3 | StoppedClient | StoppedConnect | StoppedProxy | RunPanicked | StoppedDns | Running

definition relayHint :: "runEnv \<Rightarrow> l3 \<Rightarrow> string" where
  \<comment> \<open>\<^verbatim>\<open>resolvedRelayIP\<close>, which is looked up once the TUN exists\<close>
  "relayHint env p =
     (if cfTUNEnabled p \<and> seTun (rnStart env)
      then (case firstIPv4 (seRelayIPs (rnStart env)) of None \<Rightarrow> [] | Some ip \<Rightarrow> ipString ip) else [])"

definition runCleanup :: "runEnv \<Rightarrow> machine \<Rightarrow> machine" where
  \<comment> \<open>\<^verbatim>\<open>tunCleanup\<close>, armed once the TUN exists\<close>
  "runCleanup env m =
     (if cfTUNEnabled (mcL3 m) \<and> seTun (rnStart env)
      then mapL3 (tunCleanup (seErrNft (rnStart env)) (seErrTeardown (rnStart env))) m else m)"

definition startClient :: "runEnv \<Rightarrow> machine \<Rightarrow> runEnd option \<times> machine" where
  "startClient env m =
     (case NewClient (rnLookup env) (rnInsecure env) False (relayHint env (mcL3 m)) (rnDomain env) (rnKey env) of
        Inl _ \<Rightarrow> (Some StoppedClient, runCleanup env m)
      | Inr c \<Rightarrow>
          (case Connect (rnCrypto env) (rnRandom env) (rnRespond env) (rnTimedOut env) (rnNow env) c of
             (Some _, _) \<Rightarrow> (Some StoppedConnect, runCleanup env (m\<lparr>mcClient := None\<rparr>))
           | (None, c1) \<Rightarrow> (None, m\<lparr>mcClient := Some c1\<rparr>)))"

definition startHTTP :: "runEnv \<Rightarrow> host \<Rightarrow> host" where
  "startHTTP env h = (if rnHTTP env \<and> ansHTTPReady (rnProxy env) then h\<lparr>httpUp := True\<rparr> else h)"

definition policiesPhase :: "policyLib \<Rightarrow> runEnv \<Rightarrow> machine \<Rightarrow> bool \<times> machine" where
  "policiesPhase lib env m =
     (if \<not> rnPolicies env then (True, m)
      else case ApplyPolicies lib (rnPolApply env) (rnPolRollback env) (DetectBrowsers (rnOrder env) (rnStat env))
                  newPolicyManager (files (mcHost m)) of
        (e, _, pm, fs) \<Rightarrow> (e \<noteq> ApplyPanicked, (onHost (\<lambda>h. h\<lparr>files := fs\<rparr>) m)\<lparr>mcPolicies := Some pm\<rparr>))"

definition dnsPhase :: "runEnv \<Rightarrow> machine \<Rightarrow> runEnd \<times> machine" where
  "dnsPhase env m =
     (case newManagerWithRunner (rnDns env) (mcHost m) of
        (dm, h1) \<Rightarrow>
          (case SetResolver (rnDns env) ''127.0.0.1'' dm h1 of
             (False, dm1, h2) \<Rightarrow>
               (StoppedDns, runCleanup env (mapClient Disconnect
                  (m\<lparr>mcKS := (mcKS m)\<lparr>ksMgr := dm1, ksHost := h2\<lparr>proxyUp := False\<rparr>\<rparr>, mcHasDns := True\<rparr>)))
           | (True, dm1, h2) \<Rightarrow>
               (Running, m\<lparr>mcKS := SetForceResolver (NewKillSwitch dm1 h2), mcHasDns := True, mcHasKS := True, mcWatch := True\<rparr>)))"

definition runStart :: "policyLib \<Rightarrow> runEnv \<Rightarrow> machine \<Rightarrow> runEnd \<times> machine" where
  "runStart lib env m =
     (let m0 = onHost (\<lambda>h. h\<lparr>files := snd (RecoverOrphanPolicies lib (rnPolRecover env) (files h))\<rparr>) m in
      case startL3 (rnStart env) (rnTun env) (mcL3 m0) of
        (False, p) \<Rightarrow> (StoppedL3, m0\<lparr>mcL3 := p\<rparr>)
      | (True, p) \<Rightarrow>
          (case startClient env (m0\<lparr>mcL3 := p\<rparr>) of
             (Some e, m1) \<Rightarrow> (e, m1)
           | (None, m1) \<Rightarrow>
               (case startProxy (rnProxy env) (mcHost m1) of
                  (False, h) \<Rightarrow> (StoppedProxy, runCleanup env (mapClient Disconnect (onHost (\<lambda>_. h) m1)))
                | (True, h) \<Rightarrow>
                    (case policiesPhase lib env (onHost (\<lambda>_. startHTTP env h) m1) of
                       (False, m2) \<Rightarrow> (RunPanicked, m2)
                     | (True, m2) \<Rightarrow> dnsPhase env m2))))"

section \<open>The shutdown\<close>

record shutEnv =
  shKS :: sysAnswers
  shHTTP :: bool
  shPol :: polAnswers
  shDns :: sysAnswers
  shCheck :: sysAnswers
  shFix :: sysAnswers
  shNft :: nftEnv
  shTeardown :: ipRuns

definition stepCaptive :: "machine \<Rightarrow> machine" where
  "stepCaptive m = mapL3 (\<lambda>p. p\<lparr>l3Captive := False\<rparr>) m"

definition stepHTTP :: "machine \<Rightarrow> machine" where
  "stepHTTP m = onHost (\<lambda>h. h\<lparr>httpUp := False\<rparr>) m"

definition stepKillSwitch :: "shutEnv \<Rightarrow> machine \<Rightarrow> machine" where
  "stepKillSwitch env m =
     (if mcHasKS m \<and> IsActive (mcKS m) then m\<lparr>mcKS := snd (Deactivate (shHTTP env) (shKS env) (mcKS m))\<rparr> else m)"

definition stepPolicies :: "policyLib \<Rightarrow> shutEnv \<Rightarrow> machine \<Rightarrow> machine" where
  "stepPolicies lib env m =
     (case mcPolicies m of
        None \<Rightarrow> m
      | Some pm \<Rightarrow>
          (case RestorePolicies lib (shPol env) pm (files (mcHost m)) of
             (_, _, fs) \<Rightarrow> (onHost (\<lambda>h. h\<lparr>files := fs\<rparr>) m)\<lparr>mcPolicies := None\<rparr>))"

definition stepResolver :: "shutEnv \<Rightarrow> machine \<Rightarrow> machine" where
  "stepResolver env m =
     (if mcHasDns m then
        (case RestoreResolver (shDns env) (ksMgr (mcKS m)) (mcHost m) of
           (_, dm, h) \<Rightarrow> m\<lparr>mcKS := (mcKS m)\<lparr>ksMgr := dm, ksHost := h\<rparr>\<rparr>)
      else m)"

definition stepVerify :: "shutEnv \<Rightarrow> machine \<Rightarrow> machine" where
  "stepVerify env m =
     (if mcHasDns m \<and> mcWatch m \<and> OriginalResolver (ksMgr (mcKS m)) \<noteq> []
      then onHost (\<lambda>h. snd (VerifyAndRestore (shCheck env) (shFix env) (OriginalResolver (ksMgr (mcKS m))) h)) m
      else m)"

definition stepProxy :: "machine \<Rightarrow> machine" where
  "stepProxy m = onHost (\<lambda>h. h\<lparr>proxyUp := False\<rparr>) m"

definition stepClient :: "machine \<Rightarrow> machine" where
  "stepClient m = mapClient (\<lambda>c. (Disconnect c)\<lparr>cState := CloseUpdates (cState (Disconnect c))\<rparr>) m"

definition stepFirewall :: "shutEnv \<Rightarrow> machine \<Rightarrow> machine" where
  "stepFirewall env m =
     mapL3 (\<lambda>p. case l3Fw p of
        None \<Rightarrow> p
      | Some fw \<Rightarrow> (case fwDeactivate (shNft env) fw (l3Kernel p) of (_, _, k') \<Rightarrow> p\<lparr>l3Fw := None, l3Kernel := k'\<rparr>)) m"

definition stepRoutes :: "shutEnv \<Rightarrow> machine \<Rightarrow> machine" where
  "stepRoutes env m = mapL3 (teardownRoutes (shTeardown env)) m"

definition stepTun :: "machine \<Rightarrow> machine" where
  "stepTun m = mapL3 (\<lambda>p. p\<lparr>l3Tun := None\<rparr>) m"

definition shutdownSteps :: "policyLib \<Rightarrow> shutEnv \<Rightarrow> (machine \<Rightarrow> machine) list" where
  "shutdownSteps lib env =
     [stepCaptive, stepHTTP, stepKillSwitch env, stepPolicies lib env, stepResolver env, stepVerify env, stepProxy,
      stepClient, stepFirewall env, stepRoutes env, stepTun]"

definition runSteps :: "(machine \<Rightarrow> machine) list \<Rightarrow> machine \<Rightarrow> machine" where
  "runSteps steps m = fold (\<lambda>s m. s m) steps m"

definition shutdown :: "policyLib \<Rightarrow> shutEnv \<Rightarrow> machine \<Rightarrow> machine" where
  "shutdown lib env m = runSteps (shutdownSteps lib env) m"

end
