(* ===== verification/Browser_Props.thy ===== *)
theory Browser_Props
  imports Browser
begin

text \<open>
  What the browser policies leave behind: the detection finds every installed browser once, a clean
  stop and a recovery after a crash both put the policy files back, and the one point of the
  sequence where a crash loses the original.
\<close>

section \<open>Detection\<close>

definition policyFile :: "browserInfo \<Rightarrow> string" where
  "policyFile b =
     (case biFamily b of Chromium \<Rightarrow> joinPath (biPath b) chromiumPolicyFileName | Firefox \<Rightarrow> biPath b)"

definition known :: "(string \<Rightarrow> bool) \<Rightarrow> browserInfo \<Rightarrow> bool" where
  "known stat b \<longleftrightarrow> browserInfoForLinux stat (biName b) = Some b"

lemma vendors_distinct:
  "distinct (map snd chromiumVendorLinux)" "distinct (map fst chromiumVendorLinux)"
  "list_all (\<lambda>(n, d). joinPath d chromiumPolicyFileName \<notin> set (policyStateFilePath # firefoxPolicyPathsLinux) \<and>
     HasSuffix d ''/'') chromiumVendorLinux"
  "policyStateFilePath \<notin> set firefoxPolicyPathsLinux" "''Firefox'' \<notin> fst ` set chromiumVendorLinux"
  by code_simp+

lemma browserInfo_cases:
  assumes "browserInfoForLinux stat n = Some b"
  obtains "n = ''Firefox''" "biName b = n" "biFamily b = Firefox" "biPath b \<in> set firefoxPolicyPathsLinux"
  | d where "(n, d) \<in> set chromiumVendorLinux" "biName b = n" "biFamily b = Chromium" "biPath b = d"
proof (cases "n = ''Firefox''")
  case True
  have "firefoxPolicyPathsLinux ! 0 \<in> set firefoxPolicyPathsLinux" by (simp add: firefoxPolicyPathsLinux_def)
  then have "biPath b \<in> set firefoxPolicyPathsLinux"
    using assms True by (auto simp: browserInfoForLinux_def find_Some_iff split: option.splits)
  then show ?thesis using assms True that(1) by (auto simp: browserInfoForLinux_def)
next
  case False
  then show ?thesis using assms that(2) by (auto simp: browserInfoForLinux_def split: option.splits dest: map_of_SomeD)
qed

lemma vendor_file:
  assumes "(n, d) \<in> set chromiumVendorLinux"
  shows "joinPath d chromiumPolicyFileName = d @ chromiumPolicyFileName"
    and "joinPath d chromiumPolicyFileName \<notin> set (policyStateFilePath # firefoxPolicyPathsLinux)"
  using assms vendors_distinct(3) by (auto simp: list_all_iff joinPath_def)

lemma vendor_inj:
  assumes "(n, d) \<in> set chromiumVendorLinux" and "(n', d) \<in> set chromiumVendorLinux"
  shows "n = n'"
proof -
  have "inj_on snd (set chromiumVendorLinux)" using vendors_distinct(1) unfolding distinct_map by blast
  from inj_onD [OF this _ assms] show ?thesis by simp
qed

lemma known_file:
  assumes "known stat b"
  shows "policyFile b \<noteq> policyStateFilePath"
proof -
  from assms have "browserInfoForLinux stat (biName b) = Some b" by (simp add: known_def)
  then show ?thesis
    by (cases rule: browserInfo_cases) (use vendors_distinct(4) vendor_file(2) in \<open>auto simp: policyFile_def\<close>)
qed

lemma known_inj:
  assumes "known stat b" and "known stat b'" and "policyFile b = policyFile b'"
  shows "b = b'"
proof -
  have B: "browserInfoForLinux stat (biName b) = Some b" "browserInfoForLinux stat (biName b') = Some b'"
    using assms(1,2) by (simp_all add: known_def)
  from B(1) show ?thesis
  proof (cases rule: browserInfo_cases)
    case 1
    note b = this
    from B(2) show ?thesis
    proof (cases rule: browserInfo_cases)
      case 1
      then show ?thesis using b B by (metis option.inject)
    next
      case (2 d)
      then have "policyFile b' \<notin> set firefoxPolicyPathsLinux" using vendor_file(2) [of "biName b'" d] by (simp add: policyFile_def)
      then show ?thesis using b assms(3) by (simp add: policyFile_def)
    qed
  next
    case (2 d)
    note b = this
    from B(2) show ?thesis
    proof (cases rule: browserInfo_cases)
      case 1
      have "policyFile b \<notin> set firefoxPolicyPathsLinux" using b vendor_file(2) [of "biName b" d] by (simp add: policyFile_def)
      then show ?thesis using 1 assms(3) by (simp add: policyFile_def)
    next
      case (2 d')
      then have d: "d = d'" using b assms(3) vendor_file(1) [of "biName b" d] vendor_file(1) [of "biName b'" d']
        by (simp add: policyFile_def)
      have "biName b = biName b'" by (rule vendor_inj [OF b(1) 2(1) [folded d]])
      then show ?thesis using B by (metis option.inject)
    qed
  qed
qed

definition detected :: "(string \<Rightarrow> bool) \<Rightarrow> string list \<times> browserInfo list \<Rightarrow> bool" where
  "detected stat acc \<longleftrightarrow> list_all (known stat) (snd acc) \<and> distinct (map biName (snd acc)) \<and> set (fst acc) = biName ` set (snd acc)"

lemma browserInfo_name: "browserInfoForLinux stat n = Some b \<Longrightarrow> biName b = n"
  by (erule browserInfo_cases) simp_all

lemma detectIn_detected: "detected stat acc \<Longrightarrow> detected stat (detectIn stat dir es acc)"
proof (induction stat dir es acc rule: detectIn.induct)
  case (2 stat dir exe name es seen bs)
  show ?case
  proof (cases "name \<in> set seen \<or> \<not> stat (joinPath dir exe) \<or> browserInfoForLinux stat name = None")
    case True
    then show ?thesis using 2 by (auto split: option.splits)
  next
    case False
    then obtain info where i: "browserInfoForLinux stat name = Some info" by auto
    have "detected stat (name # seen, bs @ [info])"
      using 2(5) False i browserInfo_name [OF i] by (auto simp: detected_def known_def)
    then show ?thesis using False i 2(4) by simp
  qed
qed simp

lemma detectIn_mono: "set (fst acc) \<subseteq> set (fst (detectIn stat dir es acc))"
  by (induction stat dir es acc rule: detectIn.induct) (auto split: option.splits)

lemma detectIn_finds:
  assumes "(exe, name) \<in> set es" and "stat (joinPath dir exe)" and "browserInfoForLinux stat name \<noteq> None"
  shows "name \<in> set (fst (detectIn stat dir es acc))"
  using assms
proof (induction stat dir es acc rule: detectIn.induct)
  case (2 stat dir exe' name' es seen bs)
  show ?case
  proof (cases "(exe, name) \<in> set es")
    case True
    then show ?thesis using 2 by (auto split: option.splits)
  next
    case False
    then have e: "exe' = exe" "name' = name" using 2(5) by auto
    obtain info where "browserInfoForLinux stat name = Some info" using 2(7) by auto
    then show ?thesis
      using e 2(6) detectIn_mono [of "(seen, bs)" stat dir es] detectIn_mono [of "(name # seen, bs @ [info])" stat dir es]
      by auto
  qed
qed simp

lemma detectIn_sound:
  assumes "name \<in> set (fst (detectIn stat dir es acc))"
  shows "name \<in> set (fst acc) \<or> (\<exists>exe. (exe, name) \<in> set es \<and> stat (joinPath dir exe))"
  using assms
  by (induction stat dir es acc rule: detectIn.induct) (auto split: if_splits option.splits)

lemma DetectBrowsers_detected: "detected stat (fold (\<lambda>dir. detectIn stat dir (order dir)) dirs acc)" if "detected stat acc"
  using that by (induction dirs arbitrary: acc) (simp_all add: detectIn_detected)

lemma Detect_known:
  "\<forall>b\<in>set (DetectBrowsers order stat). known stat b" "distinct (DetectBrowsers order stat)"
  "distinct (map policyFile (DetectBrowsers order stat))"
proof -
  have "detected stat ([], [])" by (simp add: detected_def)
  from DetectBrowsers_detected [OF this, of order linuxSearchDirs]
  have d: "\<forall>b\<in>set (DetectBrowsers order stat). known stat b" "distinct (map biName (DetectBrowsers order stat))"
    by (simp_all add: detected_def DetectBrowsers_def list_all_iff)
  then show "\<forall>b\<in>set (DetectBrowsers order stat). known stat b" "distinct (DetectBrowsers order stat)"
    by (auto simp: distinct_map)
  then show "distinct (map policyFile (DetectBrowsers order stat))"
    using known_inj d(1) unfolding distinct_map inj_on_def by blast
qed

section \<open>The merge and its undoing\<close>

definition tidyPolicies :: "jsonMap \<Rightarrow> jsonMap" where
  \<comment> \<open>the original without empty or non-object containers on the way to the preferences\<close>
  "tidyPolicies root =
     (let policies = memberObj root ''policies''
      in setOrDrop ''policies'' (setOrDrop ''Preferences'' (memberObj policies ''Preferences'') policies) root)"

lemma fmdrop_fmupd_same [simp]: "fmdrop k (fmupd k v m) = fmdrop k m"
  by (rule fmap_ext) auto

lemma fmupd_same: "fmlookup m k = Some v \<Longrightarrow> fmupd k v m = m"
  by (rule fmap_ext) auto

lemma restorePref_undo: "restorePref q k (fmupd k v q) = q"
  by (rule fmap_ext) (auto simp: restorePref_def split: option.splits)

lemma setOrDrop_upd [simp]: "setOrDrop k v (fmupd k x m) = setOrDrop k v m"
  by (auto simp: setOrDrop_def)

lemma unmerge_merge:
  assumes "plUnmarshal lib c = Some (Some root)"
  shows "unmergePrefs lib c (mergePrefs root) = Some (tidyPolicies root)"
  using assms
  by (simp add: unmergePrefs_def mergePrefs_def tidyPolicies_def asObject_def firefoxPrefs_def restorePref_undo Let_def)

lemma tidy_canonical:
  assumes "fmlookup root ''policies'' = Some (JObject p)" "fmlookup p ''Preferences'' = Some (JObject q)" "q \<noteq> fmempty"
  shows "tidyPolicies root = root"
proof -
  have "fmupd ''Preferences'' (JObject q) p = p" "fmupd ''policies'' (JObject p) root = root"
    using assms by (simp_all add: fmupd_same)
  moreover have "p \<noteq> fmempty" using assms(2) by auto
  ultimately show ?thesis using assms by (simp add: tidyPolicies_def memberObj_def asObject_def setOrDrop_def)
qed

section \<open>What a session writes and takes back\<close>

definition newContent :: "policyLib \<Rightarrow> browserInfo \<Rightarrow> string option \<Rightarrow> string" where
  "newContent lib b orig =
     (case biFamily b of
        Chromium \<Rightarrow> chromiumContent
      | Firefox \<Rightarrow> plIndent lib (mergePrefs (case orig of None \<Rightarrow> fmempty | Some c \<Rightarrow> the (the (plUnmarshal lib c)))) @ [CHR 0x0A])"

definition restoredFile :: "policyLib \<Rightarrow> browserInfo \<Rightarrow> string option \<Rightarrow> string option" where
  "restoredFile lib b orig =
     (case (biFamily b, orig) of
        (Firefox, Some c) \<Rightarrow> Some (plIndent lib (tidyPolicies (the (the (plUnmarshal lib c)))) @ [CHR 0x0A])
      | _ \<Rightarrow> orig)"

definition jsonLaw :: "policyLib \<Rightarrow> browserInfo \<Rightarrow> string option \<Rightarrow> bool" where
  \<comment> \<open>what is written for the browser reads back\<close>
  "jsonLaw lib b orig \<longleftrightarrow>
     (\<forall>c root. biFamily b = Firefox \<and> orig = Some c \<and> plUnmarshal lib c = Some (Some root) \<longrightarrow>
        plUnmarshal lib (plIndent lib (mergePrefs root) @ [CHR 0x0A]) = Some (Some (mergePrefs root)))"

definition allOk :: "polAnswers \<Rightarrow> bool" where
  "allOk env \<longleftrightarrow> (\<forall>p. paRead env p \<and> paWrite env p \<and> paRemove env p)"

lemma originalState_simps [simp]:
  "bsName (originalState b c) = biName b" "bsFamily (originalState b c) = biFamily b" "bsPath (originalState b c) = biPath b"
  "bsHad (originalState b c) = (c \<noteq> None)" "bsOriginal (originalState b (Some d)) = d"
  by (simp_all add: originalState_def)

lemma applyBrowser_saved:
  assumes "applyBrowser lib env b fs = (ApSaved s, fs1)" and "paRead env (policyFile b)"
  shows "s = originalState b (fs (policyFile b)) \<and> fs1 = fs(policyFile b \<mapsto> newContent lib b (fs (policyFile b))) \<and>
    (biFamily b = Firefox \<longrightarrow> (\<forall>c. fs (policyFile b) = Some c \<longrightarrow> (\<exists>root. plUnmarshal lib c = Some (Some root))))"
  using assms
  by (cases "biFamily b")
    (auto simp: applyBrowser_def applyChromium_def applyFirefox_def policyFile_def newContent_def polRead_def atomicWriteFile_def
      Let_def split: if_splits option.splits)

lemma applyBrowser_other: "applyBrowser lib env b fs = (r, fs1) \<Longrightarrow> (\<nexists>s. r = ApSaved s) \<Longrightarrow> fs1 = fs"
  by (cases "biFamily b")
    (auto simp: applyBrowser_def applyChromium_def applyFirefox_def atomicWriteFile_def Let_def split: if_splits option.splits)

lemma restoreOne:
  assumes "allOk env" and "fs (policyFile b) = Some (newContent lib b orig)" and "jsonLaw lib b orig"
    and "biFamily b = Firefox \<longrightarrow> (\<forall>c. orig = Some c \<longrightarrow> (\<exists>root. plUnmarshal lib c = Some (Some root)))"
  shows "restoreOneLinux lib env (originalState b orig) fs = (True, fs(policyFile b := restoredFile lib b orig))"
proof (cases "biFamily b")
  case Chromium
  then show ?thesis using assms(1,2)
    by (cases orig) (auto simp: restoreOneLinux_def policyFile_def restoredFile_def allOk_def atomicWriteFile_def polRemove_def Let_def)
next
  case Firefox
  show ?thesis
  proof (cases orig)
    case None
    then show ?thesis using Firefox assms(1,2)
      by (auto simp: restoreOneLinux_def restoreFirefoxLinux_def policyFile_def restoredFile_def allOk_def polRemove_def)
  next
    case (Some c)
    then obtain root where r: "plUnmarshal lib c = Some (Some root)" using Firefox assms(4) by blast
    then have "plUnmarshal lib (newContent lib b orig) = Some (Some (mergePrefs root))"
      using assms(3) Some Firefox by (simp add: jsonLaw_def newContent_def)
    then show ?thesis using Firefox Some assms(1,2) r unmerge_merge [OF r]
      by (simp add: restoreOneLinux_def restoreFirefoxLinux_def policyFile_def restoredFile_def allOk_def polRead_def atomicWriteFile_def)
  qed
qed

definition appliedTo :: "policyLib \<Rightarrow> polFiles \<Rightarrow> browserInfo list \<Rightarrow> polFiles \<Rightarrow> bool" where
  "appliedTo lib fs0 L fs \<longleftrightarrow>
     (\<forall>b\<in>set L. fs (policyFile b) = Some (newContent lib b (fs0 (policyFile b))) \<and>
        (biFamily b = Firefox \<longrightarrow> (\<forall>c. fs0 (policyFile b) = Some c \<longrightarrow> (\<exists>root. plUnmarshal lib c = Some (Some root))))) \<and>
     (\<forall>p. p \<notin> policyFile ` set L \<longrightarrow> p \<noteq> policyStateFilePath \<longrightarrow> fs p = fs0 p)"

definition takenBack :: "policyLib \<Rightarrow> polFiles \<Rightarrow> browserInfo list \<Rightarrow> polFiles \<Rightarrow> bool" where
  "takenBack lib fs0 L fs \<longleftrightarrow>
     (\<forall>b\<in>set L. fs (policyFile b) = restoredFile lib b (fs0 (policyFile b))) \<and>
     (\<forall>p. p \<notin> policyFile ` set L \<longrightarrow> p \<noteq> policyStateFilePath \<longrightarrow> fs p = fs0 p)"

definition record_of :: "polFiles \<Rightarrow> browserInfo list \<Rightarrow> browserSavedState list" where
  "record_of fs0 L = map (\<lambda>b. originalState b (fs0 (policyFile b))) L"

lemma restoreAll_files:
  assumes "allOk env" and "distinct (map policyFile L)"
    and "\<forall>b\<in>set L. fs (policyFile b) = Some (newContent lib b (fs0 (policyFile b))) \<and> jsonLaw lib b (fs0 (policyFile b)) \<and>
        (biFamily b = Firefox \<longrightarrow> (\<forall>c. fs0 (policyFile b) = Some c \<longrightarrow> (\<exists>root. plUnmarshal lib c = Some (Some root))))"
  shows "\<exists>fs1. restoreAll lib env (record_of fs0 L) ok fs = (ok, fs1) \<and>
    (\<forall>b\<in>set L. fs1 (policyFile b) = restoredFile lib b (fs0 (policyFile b))) \<and> (\<forall>p. p \<notin> policyFile ` set L \<longrightarrow> fs1 p = fs p)"
  using assms(2,3)
proof (induction L arbitrary: fs)
  case (Cons b L)
  let ?fs = "fs(policyFile b := restoredFile lib b (fs0 (policyFile b)))"
  have r: "restoreOneLinux lib env (originalState b (fs0 (policyFile b))) fs = (True, ?fs)"
    using Cons.prems by (intro restoreOne [OF assms(1)]) simp_all
  have "\<forall>b'\<in>set L. policyFile b' \<noteq> policyFile b" using Cons.prems(1) by (auto simp: image_iff)
  then have "\<exists>fs1. restoreAll lib env (record_of fs0 L) ok ?fs = (ok, fs1) \<and>
      (\<forall>b\<in>set L. fs1 (policyFile b) = restoredFile lib b (fs0 (policyFile b))) \<and> (\<forall>p. p \<notin> policyFile ` set L \<longrightarrow> fs1 p = ?fs p)"
    by (intro Cons.IH) (use Cons.prems in auto)
  then obtain fs1 where f: "restoreAll lib env (record_of fs0 L) ok ?fs = (ok, fs1)"
    "\<forall>b\<in>set L. fs1 (policyFile b) = restoredFile lib b (fs0 (policyFile b))" "\<forall>p. p \<notin> policyFile ` set L \<longrightarrow> fs1 p = ?fs p"
    by blast
  have "restoreAll lib env (record_of fs0 (b # L)) ok fs = (ok, fs1)" using r f(1) by (simp add: record_of_def)
  moreover have "fs1 (policyFile b) = restoredFile lib b (fs0 (policyFile b))" using f(3) Cons.prems(1) by auto
  ultimately show ?case using f by (intro exI [of _ fs1]) auto
qed (simp add: record_of_def)

lemma restoreAll_takenBack:
  assumes "allOk env" and "distinct (map policyFile L)" and "appliedTo lib fs0 L fs"
    and "\<forall>b\<in>set L. jsonLaw lib b (fs0 (policyFile b))"
  shows "\<exists>fs1. restoreAll lib env (record_of fs0 L) True fs = (True, fs1) \<and> takenBack lib fs0 L fs1"
  using restoreAll_files [OF assms(1,2), of fs lib fs0 True] assms(3,4)
  unfolding appliedTo_def takenBack_def by (metis (no_types, lifting))

definition recorded :: "policyLib \<Rightarrow> polFiles \<Rightarrow> browserInfo list \<Rightarrow> polFiles \<Rightarrow> bool" where
  "recorded lib fs0 L fs \<longleftrightarrow>
     fs policyStateFilePath = (if L = [] then fs0 policyStateFilePath else Some (plEncode lib (record_of fs0 L)))"

lemma appliedTo_snoc:
  assumes "appliedTo lib fs0 L fs" and "policyFile b \<notin> policyFile ` set L"
    and "biFamily b = Firefox \<longrightarrow> (\<forall>c. fs0 (policyFile b) = Some c \<longrightarrow> (\<exists>root. plUnmarshal lib c = Some (Some root)))"
    and "\<forall>b'\<in>set (b # L). policyFile b' \<noteq> policyStateFilePath"
  shows "appliedTo lib fs0 (L @ [b]) (fs(policyFile b \<mapsto> newContent lib b (fs0 (policyFile b)), policyStateFilePath := x))"
    and "appliedTo lib fs0 (L @ [b]) (fs(policyFile b \<mapsto> newContent lib b (fs0 (policyFile b))))"
  using assms by (auto simp: appliedTo_def image_iff)

lemma takenBack_state: "takenBack lib fs0 L fs \<Longrightarrow> policyStateFilePath \<notin> policyFile ` set L \<Longrightarrow> takenBack lib fs0 L (fs(policyStateFilePath := x))"
  unfolding takenBack_def by (metis fun_upd_apply imageI)

lemma removePersisted_upd: "\<exists>x. removePersistedState env fs = fs(policyStateFilePath := x)"
proof (cases "fs policyStateFilePath \<noteq> None \<and> paRemove env policyStateFilePath")
  case True
  then show ?thesis by (intro exI [of _ None]) (auto simp: removePersistedState_def polRemove_def)
next
  case False
  then show ?thesis by (intro exI [of _ "fs policyStateFilePath"]) (auto simp: removePersistedState_def polRemove_def)
qed

definition sessionEnd :: "policyLib \<Rightarrow> polFiles \<Rightarrow> browserInfo list \<Rightarrow> applyEnd \<Rightarrow> browserSavedState list option \<Rightarrow> polFiles \<Rightarrow> bool" where
  "sessionEnd lib fs0 L e st fs \<longleftrightarrow>
     (if e = ApplyErrPersist then st = None \<and> takenBack lib fs0 L fs
      else st = Some (record_of fs0 L) \<and> appliedTo lib fs0 L fs \<and> recorded lib fs0 L fs)"

lemma applyLoop_end:
  assumes "applyLoop lib env rb bs res (record_of fs0 L) fs = (e, res', st', fs')"
    and "appliedTo lib fs0 L fs" and "recorded lib fs0 L fs" and "distinct (map policyFile (L @ bs))"
    and "\<forall>b\<in>set (L @ bs). policyFile b \<noteq> policyStateFilePath \<and> jsonLaw lib b (fs0 (policyFile b))"
    and "\<forall>b\<in>set bs. paRead env (policyFile b)" and "allOk rb"
  shows "\<exists>L'. set L' \<subseteq> set (L @ bs) \<and> distinct (map policyFile L') \<and> sessionEnd lib fs0 L' e st' fs'"
  using assms(1-6)
proof (induction bs arbitrary: res fs L)
  case Nil
  then show ?case by (intro exI [of _ L]) (auto simp: sessionEnd_def)
next
  case (Cons b bs)
  obtain r fs1 where a: "applyBrowser lib env b fs = (r, fs1)" by fastforce
  have drop: "distinct (map policyFile (L @ bs))" "set (L @ bs) \<subseteq> set (L @ b # bs)" using Cons.prems(4) by auto
  show ?case
  proof (cases r)
    case (ApSaved s)
    have sep: "policyFile b \<notin> policyFile ` set L" "policyFile b \<noteq> policyStateFilePath"
      using Cons.prems(4,5) by auto
    then have "fs (policyFile b) = fs0 (policyFile b)" using Cons.prems(2) by (auto simp: appliedTo_def)
    with applyBrowser_saved [OF a [unfolded ApSaved]] Cons.prems(6)
    have sv: "s = originalState b (fs0 (policyFile b))" "fs1 = fs(policyFile b \<mapsto> newContent lib b (fs0 (policyFile b)))"
      "biFamily b = Firefox \<longrightarrow> (\<forall>c. fs0 (policyFile b) = Some c \<longrightarrow> (\<exists>root. plUnmarshal lib c = Some (Some root)))"
      by auto
    have rec: "record_of fs0 L @ [s] = record_of fs0 (L @ [b])" using sv(1) by (simp add: record_of_def)
    have "\<forall>b'\<in>set (b # L). policyFile b' \<noteq> policyStateFilePath" using Cons.prems(5) by auto
    note ap = appliedTo_snoc [OF Cons.prems(2) sep(1) sv(3) this, folded sv(2)]
    let ?n = "length (record_of fs0 (L @ [b]))"
    show ?thesis
    proof (cases "paPersist env ?n")
      case True
      let ?fs2 = "fs1(policyStateFilePath \<mapsto> plEncode lib (record_of fs0 (L @ [b])))"
      have "applyLoop lib env rb bs (res\<lparr>arApplied := arApplied res @ [biName b]\<rparr>) (record_of fs0 (L @ [b])) ?fs2 = (e, res', st', fs')"
        using Cons.prems(1) a ApSaved rec True by (simp add: persistStateIncremental_def Let_def)
      then have "\<exists>L'. set L' \<subseteq> set ((L @ [b]) @ bs) \<and> distinct (map policyFile L') \<and> sessionEnd lib fs0 L' e st' fs'"
      proof (rule Cons.IH)
        show "appliedTo lib fs0 (L @ [b]) ?fs2" using ap(1) sv(2) by simp
        show "recorded lib fs0 (L @ [b]) ?fs2" by (simp add: recorded_def)
      qed (use Cons.prems in auto)
      then show ?thesis by simp
    next
      case False
      have "distinct (map policyFile (L @ [b]))" "\<forall>b\<in>set (L @ [b]). jsonLaw lib b (fs0 (policyFile b))"
        using Cons.prems(4,5) by auto
      from restoreAll_takenBack [OF assms(7) this(1) ap(2) this(2)]
      obtain fs2 where fs2: "restoreAll lib rb (record_of fs0 (L @ [b])) True fs1 = (True, fs2)" "takenBack lib fs0 (L @ [b]) fs2"
        by blast
      have "e = ApplyErrPersist" "st' = None" "fs' = fs2"
        using Cons.prems(1) a ApSaved rec False fs2(1) by (auto simp: persistStateIncremental_def Let_def)
      then have "sessionEnd lib fs0 (L @ [b]) e st' fs'" using fs2(2) by (simp add: sessionEnd_def)
      then show ?thesis using Cons.prems(4) by (intro exI [of _ "L @ [b]"]) auto
    qed
  next
    case (ApFail x)
    have "fs1 = fs" using applyBrowser_other [OF a] ApFail by simp
    then have "applyLoop lib env rb bs (res\<lparr>arFailed := arFailed res @ [(biName b, x)]\<rparr>) (record_of fs0 L) fs = (e, res', st', fs')"
      using Cons.prems(1) a ApFail by simp
    then have "\<exists>L'. set L' \<subseteq> set (L @ bs) \<and> distinct (map policyFile L') \<and> sessionEnd lib fs0 L' e st' fs'"
      by (rule Cons.IH [OF _ Cons.prems(2,3) drop(1)]) (use Cons.prems(5,6) in auto)
    then show ?thesis using drop(2) by (metis subset_trans)
  next
    case ApPanic
    have "fs1 = fs" using applyBrowser_other [OF a] ApPanic by simp
    then have "e = ApplyPanicked" "st' = Some (record_of fs0 L)" "fs' = fs" using Cons.prems(1) a ApPanic by auto
    then show ?thesis using Cons.prems(2-4) by (intro exI [of _ L]) (auto simp: sessionEnd_def)
  qed
qed

lemma ApplyPolicies_end:
  assumes "ApplyPolicies lib env rb bs newPolicyManager fs = (e, res, m, fs1)" and "distinct (map policyFile bs)"
    and "\<forall>b\<in>set bs. policyFile b \<noteq> policyStateFilePath \<and> jsonLaw lib b (fs (policyFile b)) \<and> paRead env (policyFile b)" and "allOk rb"
  shows "pmSaved m = None \<and> fs1 = fs \<or>
    (\<exists>L. set L \<subseteq> set bs \<and> distinct (map policyFile L) \<and> sessionEnd lib fs L e (pmSaved m) fs1)"
proof (cases "paLock env \<and> bs \<noteq> []")
  case True
  obtain e' res' st' fs' where l: "applyLoop lib env rb bs \<lparr>arApplied = [], arFailed = []\<rparr> [] fs = (e', res', st', fs')"
    by (metis prod_cases4)
  have "\<exists>L'. set L' \<subseteq> set ([] @ bs) \<and> distinct (map policyFile L') \<and> sessionEnd lib fs L' e' st' fs'"
    by (rule applyLoop_end [of lib env rb bs "\<lparr>arApplied = [], arFailed = []\<rparr>" fs "[]" fs])
      (use l assms in \<open>auto simp: record_of_def appliedTo_def recorded_def\<close>)
  then show ?thesis using assms(1) True l by (auto simp: ApplyPolicies_def newPolicyManager_def)
qed (use assms(1) in \<open>auto simp: ApplyPolicies_def newPolicyManager_def split: if_splits\<close>)

section \<open>Properties\<close>

lemma Recover_recorded:
  assumes "allOk env" and "paList env = Some []" and "fs policyStateFilePath = Some (plEncode lib st)"
    and "plDecode lib (plEncode lib st) = Some st" and "st \<noteq> []"
  shows "RecoverOrphanPolicies lib env fs =
    (fst (restoreAll lib env st True fs), removePersistedState env (snd (restoreAll lib env st True fs)))"
  using assms
  by (auto simp: RecoverOrphanPolicies_def cleanOrphanTemps_def loadPersistedState_def polRead_def allOk_def Let_def
      split: list.splits prod.splits)

lemma Recover_nothing:
  assumes "paList env = Some []" and "fs policyStateFilePath = None"
  shows "RecoverOrphanPolicies lib env fs = (True, fs)"
  using assms
  by (simp add: RecoverOrphanPolicies_def cleanOrphanTemps_def loadPersistedState_def loadOrphanTemp_def polRead_def Let_def)


definition polWell :: polAnswers where
  "polWell = \<lparr>paLock = True, paMkdir = (\<lambda>_. True), paRead = (\<lambda>_. True), paWrite = (\<lambda>_. True), paRemove = (\<lambda>_. True),
     paRename = (\<lambda>_. True), paPersist = (\<lambda>_. True), paList = Some []\<rparr>"

definition sampleRoot :: jsonMap where
  "sampleRoot = fmupd ''policies'' (JObject (fmupd ''DisableTelemetry'' (JBool True) fmempty)) fmempty"

definition sampleLib :: policyLib where
  "sampleLib = \<lparr>plUnmarshal = (\<lambda>c. if c = ''user policies'' then Some (Some sampleRoot)
                 else if c = ''merged'' @ [CHR 0x0A] then Some (Some (mergePrefs sampleRoot)) else None),
     plIndent = (\<lambda>m. if m = mergePrefs sampleRoot then ''merged'' else if m = tidyPolicies sampleRoot then ''tidy'' else ''other''),
     plEncode = (\<lambda>st. if st = [] then [] else ''state''),
     plDecode = (\<lambda>d. Some [\<lparr>bsName = ''Firefox'', bsFamily = Firefox, bsPath = ''/etc/firefox/policies/policies.json'',
       bsOriginal = ''user policies'', bsHad = True\<rparr>])\<rparr>"

definition firefoxOnly :: "string \<Rightarrow> bool" where
  "firefoxOnly p \<longleftrightarrow> p \<in> {''/usr/bin/firefox'', ''/etc/firefox/policies''}"

definition firefoxInfo :: browserInfo where
  "firefoxInfo = \<lparr>biName = ''Firefox'', biFamily = Firefox, biPath = ''/etc/firefox/policies/policies.json''\<rparr>"

definition userFiles :: polFiles where
  "userFiles = [''/etc/firefox/policies/policies.json'' \<mapsto> ''user policies'']"

lemma detect_firefox: "DetectBrowsers (\<lambda>_. linuxExeNames) firefoxOnly = [firefoxInfo]"
  by code_simp

lemma sample_facts:
  "policyFile firefoxInfo = ''/etc/firefox/policies/policies.json''" "dirOf ''/etc/firefox/policies/policies.json'' = ''/etc/firefox/policies''"
  "policyStateFilePath \<noteq> ''/etc/firefox/policies/policies.json''" "userFiles policyStateFilePath = None"
  "userFiles ''/etc/firefox/policies/policies.json'' = Some ''user policies''"
  by code_simp+

lemma polWell_ok: "allOk polWell"
  by (simp add: allOk_def polWell_def)

lemma sample_law: "jsonLaw sampleLib firefoxInfo (userFiles (policyFile firefoxInfo))"
  unfolding jsonLaw_def sample_facts(1,5) by (auto simp: sampleLib_def split: if_splits)

lemma sample_apply:
  "\<exists>res m fs1. ApplyPolicies sampleLib polWell polWell [firefoxInfo] newPolicyManager userFiles = (ApplyOk, res, m, fs1) \<and>
     pmSaved m = Some [\<lparr>bsName = ''Firefox'', bsFamily = Firefox, bsPath = ''/etc/firefox/policies/policies.json'',
       bsOriginal = ''user policies'', bsHad = True\<rparr>]"
  using sample_facts
  by (simp add: ApplyPolicies_def polWell_def applyBrowser_def applyFirefox_def firefoxInfo_def polRead_def sampleLib_def
      atomicWriteFile_def persistStateIncremental_def originalState_def newPolicyManager_def Let_def)


text \<open>
  C34: the policy is written before the original is recorded. If the daemon dies between the two, the
  recovery at the next start finds no record, the next session takes its own policy for the
  original, and the restoration at its end leaves that policy behind; the user's file is lost.
\<close>

theorem crash_before_record_keeps_policy:
  assumes "applyBrowser lib env b fs = (ApSaved s, fs1)" and "biFamily b = Chromium" and "known stat b" and "fs policyStateFilePath = None"
    and "paList env1 = Some []" and "paRead env2 (policyFile b)" and "allOk rb" and "allOk env3"
    and "ApplyPolicies lib env2 rb [b] newPolicyManager (snd (RecoverOrphanPolicies lib env1 fs1)) = (e, res, m, fs2)"
    and "RestorePolicies lib env3 m fs2 = (ok, m', fs3)"
  shows "fs3 (policyFile b) = Some chromiumContent"
proof -
  have n: "policyFile b \<noteq> policyStateFilePath" by (rule known_file [OF assms(3)])
  have f1: "fs1 = fs(policyFile b \<mapsto> chromiumContent)"
    using assms(1,2) by (auto simp: applyBrowser_def applyChromium_def atomicWriteFile_def policyFile_def Let_def split: if_splits)
  then have "RecoverOrphanPolicies lib env1 fs1 = (True, fs1)"
    using n assms(4,5) by (intro Recover_nothing) simp_all
  then have a: "ApplyPolicies lib env2 rb [b] newPolicyManager fs1 = (e, res, m, fs2)" using assms(9) by simp
  have c: "fs1 (policyFile b) = Some chromiumContent" using f1 by simp
  have law: "jsonLaw lib b x" for x using assms(2) by (simp add: jsonLaw_def)
  have rf: "restoredFile lib b x = x" for x using assms(2) by (simp add: restoredFile_def)
  have keep: "fs' (policyFile b) = Some chromiumContent" if "takenBack lib fs1 L fs'" "set L \<subseteq> set [b]" for fs' L
    using that c rf n by (cases "b \<in> set L") (auto simp: takenBack_def)
  have d: "distinct (map policyFile [b])" by simp
  have q: "\<forall>b'\<in>set [b]. policyFile b' \<noteq> policyStateFilePath \<and> jsonLaw lib b' (fs1 (policyFile b')) \<and> paRead env2 (policyFile b')"
    using n law assms(6) by simp
  from ApplyPolicies_end [OF a d q assms(7)] show ?thesis
  proof (elim disjE exE conjE)
    assume "pmSaved m = None" "fs2 = fs1"
    then show ?thesis using assms(10) c by (simp add: RestorePolicies_def)
  next
    fix L
    assume L: "set L \<subseteq> set [b]" "distinct (map policyFile L)" "sessionEnd lib fs1 L e (pmSaved m) fs2"
    show ?thesis
    proof (cases "e = ApplyErrPersist")
      case True
      then show ?thesis using L(1,3) assms(10) keep [of L fs2] by (auto simp: sessionEnd_def RestorePolicies_def)
    next
      case False
      with L(3) have s: "pmSaved m = Some (record_of fs1 L)" "appliedTo lib fs1 L fs2" by (simp_all add: sessionEnd_def)
      have "\<forall>b\<in>set L. jsonLaw lib b (fs1 (policyFile b))" using L(1) law by auto
      from restoreAll_takenBack [OF assms(8) L(2) s(2) this]
      obtain fs' where r: "restoreAll lib env3 (record_of fs1 L) True fs2 = (True, fs')" "takenBack lib fs1 L fs'" by blast
      obtain x where "removePersistedState env3 fs' = fs'(policyStateFilePath := x)" using removePersisted_upd by blast
      then have "fs3 = fs'(policyStateFilePath := x)" using assms(10) s(1) r(1) by (simp add: RestorePolicies_def)
      then show ?thesis using keep [OF r(2) L(1)] n by simp
    qed
  qed
qed

definition chromeInfo :: browserInfo where
  "chromeInfo = \<lparr>biName = ''Brave'', biFamily = Chromium, biPath = ''/etc/brave/policies/managed/''\<rparr>"

theorem crash_before_record_keeps_policy_witness:
  "snd (snd (RestorePolicies sampleLib polWell
      (fst (snd (snd (ApplyPolicies sampleLib polWell polWell [chromeInfo] newPolicyManager
         (snd (RecoverOrphanPolicies sampleLib polWell (snd (applyBrowser sampleLib polWell chromeInfo Map.empty))))))))
      (snd (snd (snd (ApplyPolicies sampleLib polWell polWell [chromeInfo] newPolicyManager
         (snd (RecoverOrphanPolicies sampleLib polWell (snd (applyBrowser sampleLib polWell chromeInfo Map.empty)))))))))) (policyFile chromeInfo)
   = Some chromiumContent"
proof -
  obtain e res m fs2 where a: "ApplyPolicies sampleLib polWell polWell [chromeInfo] newPolicyManager
      (snd (RecoverOrphanPolicies sampleLib polWell (snd (applyBrowser sampleLib polWell chromeInfo Map.empty)))) = (e, res, m, fs2)"
    by (metis prod_cases4)
  obtain ok m' fs3 where r: "RestorePolicies sampleLib polWell m fs2 = (ok, m', fs3)" by (metis prod_cases3)
  have "browserInfoForLinux firefoxOnly (biName chromeInfo) = Some chromeInfo" by code_simp
  then have k: "known firefoxOnly chromeInfo" by (simp add: known_def)
  obtain s where "applyBrowser sampleLib polWell chromeInfo Map.empty = (ApSaved s, snd (applyBrowser sampleLib polWell chromeInfo Map.empty))"
    by (auto simp: applyBrowser_def chromeInfo_def applyChromium_def polWell_def atomicWriteFile_def Let_def)
  from crash_before_record_keeps_policy [OF this _ k _ _ _ polWell_ok polWell_ok a r]
  have "fs3 (policyFile chromeInfo) = Some chromiumContent" by (simp add: chromeInfo_def polWell_def)
  then show ?thesis using a r by simp
qed

section \<open>A file that stops the daemon\<close>

lemma null_policies_panic:
  assumes "biFamily b = Firefox" and "paMkdir env (dirOf (biPath b))" and "paRead env (biPath b)"
    and "fs (biPath b) = Some c" and "plUnmarshal lib c = Some None"
  shows "applyBrowser lib env b fs = (ApPanic, fs)"
  using assms by (simp add: applyBrowser_def applyFirefox_def polRead_def)

end
