(* ===== verification/Lifecycle_Props.thy ===== *)
theory Lifecycle_Props
  imports Lifecycle Browser_Props Protection_Props
begin

text \<open>
  What the start and the stop of the daemon guarantee: a clean stop gives the host back as it was,
  in an order that never opens the firewall before the tunnel is down; and what a crash or a failed
  start leaves behind.
\<close>

section \<open>Projections\<close>

lemma onHost_simps [simp]:
  "mcHost (onHost f m) = f (mcHost m)" "mcL3 (onHost f m) = mcL3 m" "mcClient (onHost f m) = mcClient m"
  "ksMgr (mcKS (onHost f m)) = ksMgr (mcKS m)" "ksActive (mcKS (onHost f m)) = ksActive (mcKS m)" "mcHasDns (onHost f m) = mcHasDns m" "mcHasKS (onHost f m) = mcHasKS m"
  "mcWatch (onHost f m) = mcWatch m" "mcPolicies (onHost f m) = mcPolicies m"
  by (simp_all add: onHost_def mcHost_def)

lemma mapL3_simps [simp]:
  "mcL3 (mapL3 f m) = f (mcL3 m)" "mcKS (mapL3 f m) = mcKS m" "mcHost (mapL3 f m) = mcHost m" "mcClient (mapL3 f m) = mcClient m"
  "mcHasDns (mapL3 f m) = mcHasDns m" "mcHasKS (mapL3 f m) = mcHasKS m" "mcWatch (mapL3 f m) = mcWatch m"
  "mcPolicies (mapL3 f m) = mcPolicies m"
  by (simp_all add: mapL3_def mcHost_def)

lemma mapClient_simps [simp]:
  "mcL3 (mapClient g m) = mcL3 m" "mcKS (mapClient g m) = mcKS m" "mcHost (mapClient g m) = mcHost m"
  "mcClient (mapClient g m) = map_option g (mcClient m)" "mcHasDns (mapClient g m) = mcHasDns m"
  "mcHasKS (mapClient g m) = mcHasKS m" "mcWatch (mapClient g m) = mcWatch m" "mcPolicies (mapClient g m) = mcPolicies m"
  by (simp_all add: mapClient_def mcHost_def)

lemma mcHost_upd [simp]:
  "mcHost (m\<lparr>mcL3 := p\<rparr>) = mcHost m" "mcHost (m\<lparr>mcClient := c\<rparr>) = mcHost m" "mcHost (m\<lparr>mcPolicies := pm\<rparr>) = mcHost m"
  "mcHost (m\<lparr>mcKS := k\<rparr>) = ksHost k" "mcHost (m\<lparr>mcHasDns := b\<rparr>) = mcHost m" "mcHost (m\<lparr>mcHasKS := b\<rparr>) = mcHost m"
  "mcHost (m\<lparr>mcWatch := b\<rparr>) = mcHost m"
  by (simp_all add: mcHost_def)

lemma startProxies_files: "startProxies io http h = (ok, h') \<Longrightarrow> files h' = files h"
  by (auto simp: startProxies_def startProxy_def split: if_splits prod.splits bool.splits)

lemma startProxy_files: "startProxy io h = (ok, h') \<Longrightarrow> files h' = files h"
  by (auto simp: startProxy_def split: if_splits)

lemma startHTTP_files [simp]: "files (startHTTP env h) = files h"
  by (simp add: startHTTP_def)

lemma Activate_files: "p \<notin> {resolvConfPath, resolvConfBackup} \<Longrightarrow> files (ksHost (snd (Activate io k))) p = files (ksHost k) p"
  by (auto simp: Activate_def stopProxies_def Let_def split: prod.splits bool.splits
      dest: SetResolver_files ForceResolver_files)

lemma Deactivate_files: "files (ksHost (snd (Deactivate http io k))) = files (ksHost k)"
  by (auto simp: Deactivate_def split: prod.splits bool.splits dest: startProxies_files)

definition originalKept :: "string \<Rightarrow> killSwitch \<Rightarrow> bool" where
  \<comment> \<open>the manager holds the content of the user's file, on a host without resolvectl\<close>
  "originalKept c k \<longleftrightarrow>
     \<not> useResolvectl (ksMgr k) \<and> originalDNS (ksMgr k) = c \<and> files (ksHost k) resolvConfBackup = Some c"

lemma originalKept_Activate: "originalKept c k \<Longrightarrow> c \<noteq> [] \<Longrightarrow> originalKept c (snd (Activate io k))"
  by (auto simp: originalKept_def Activate_def stopProxies_def Let_def split: prod.splits bool.splits dest: ForceResolver_backup)

lemma originalKept_Deactivate: "originalKept c k \<Longrightarrow> originalKept c (snd (Deactivate http io k))"
  by (auto simp: originalKept_def Deactivate_def split: prod.splits bool.splits dest: startProxies_files)

lemma originalKept_cong:
  "ksMgr k' = ksMgr k \<Longrightarrow> files (ksHost k') resolvConfBackup = files (ksHost k) resolvConfBackup \<Longrightarrow> originalKept c k' = originalKept c k"
  by (simp add: originalKept_def)

section \<open>The service while it runs\<close>

datatype serveOp =
    SvKill sysAnswers
  | SvUnkill bool sysAnswers
  | SvDnsCheck cycleAnswers
  | SvL3 l3Op
  | SvReconnect cryptoLib "bytes option" transport bool int

fun serveStep :: "serveOp \<Rightarrow> machine \<Rightarrow> machine" where
  "serveStep (SvKill io) m = m\<lparr>mcKS := snd (Activate io (mcKS m))\<rparr>"
| "serveStep (SvUnkill http io) m = m\<lparr>mcKS := snd (Deactivate http io (mcKS m))\<rparr>"
| "serveStep (SvDnsCheck cy) m = onHost (checkAndFix cy ''127.0.0.1'') m"
| "serveStep (SvL3 x) m = mapL3 (l3Step x) m"
| "serveStep (SvReconnect lib rnd respond timedOut now) m =
     mapClient (\<lambda>c. snd (Connect lib rnd respond timedOut now (ResetTransport c))) m"

definition fileFrame :: "polFiles \<Rightarrow> polFiles \<Rightarrow> bool" where
  "fileFrame fs fs' \<longleftrightarrow> (\<forall>p. p \<notin> {resolvConfPath, resolvConfBackup} \<longrightarrow> fs' p = fs p)"

definition serving :: "string \<Rightarrow> polFiles \<Rightarrow> policyManager option \<Rightarrow> machine \<Rightarrow> bool" where
  "serving c fs pol m \<longleftrightarrow>
     mcHasDns m \<and> mcHasKS m \<and> originalKept c (mcKS m) \<and> mcPolicies m = pol \<and> fileFrame fs (files (mcHost m)) \<and> mcClient m \<noteq> None"

lemma serving_step:
  assumes "serving c fs pol m" and "c \<noteq> []"
  shows "serving c fs pol (serveStep x m)"
proof (cases x)
  case (SvKill io)
  then show ?thesis using assms Activate_files [of _ io "mcKS m"]
    by (auto simp: serving_def fileFrame_def mcHost_def intro: originalKept_Activate)
next
  case (SvUnkill http io)
  then show ?thesis using assms
    by (auto simp: serving_def fileFrame_def mcHost_def Deactivate_files intro: originalKept_Deactivate)
next
  case (SvDnsCheck cy)
  note e = checkAndFix_effect [of cy "''127.0.0.1''" "mcHost m"]
  have "originalKept c (mcKS (onHost (checkAndFix cy ''127.0.0.1'') m))"
    using assms(1) e by (auto simp: serving_def originalKept_def mcHost_def onHost_def)
  then show ?thesis using SvDnsCheck assms e by (auto simp: serving_def fileFrame_def)
qed (use assms in \<open>auto simp: serving_def\<close>)

lemma serving_steps: "serving c fs pol m \<Longrightarrow> c \<noteq> [] \<Longrightarrow> serving c fs pol (fold serveStep ops m)"
  by (induction ops arbitrary: m) (simp_all add: serving_step)

section \<open>What a complete start has done\<close>

lemma onHost_same [simp]: "onHost (\<lambda>h. h\<lparr>files := files h\<rparr>) m = m"
  by (simp add: onHost_def mcHost_def)

lemma Connect_sets_connected: "Connect lib rnd respond timedOut now c = (None, c') \<Longrightarrow> GetState (cState c') = StateConnected"
  by (auto simp: Connect_def split: prod.splits option.splits)

lemma startClient_ok:
  "startClient env m = (None, m') \<Longrightarrow> \<exists>c. m' = m\<lparr>mcClient := Some c\<rparr> \<and> GetState (cState c) = StateConnected"
  using Connect_sets_connected by (auto simp: startClient_def split: sum.splits prod.splits option.splits)

lemma startClient_not_running: "startClient env m = (Some e, m') \<Longrightarrow> e \<noteq> Running"
  by (auto simp: startClient_def split: sum.splits prod.splits option.splits)

lemma SetResolver_plain:
  assumes "SetResolver io ''127.0.0.1'' \<lparr>originalDNS = [], useResolvectl = False\<rparr> h = (True, dm, h')"
    and "files h resolvConfPath = Some c"
  shows "dm = \<lparr>originalDNS = c, useResolvectl = False\<rparr> \<and> files h' resolvConfBackup = Some c \<and>
    files h' resolvConfPath = Some (generatedConf ''127.0.0.1'')"
  using assms
  by (auto simp: SetResolver_def setResolverResolvConf_def ReadFile_def WriteFile_def Let_def split: option.splits prod.splits bool.splits if_splits)

lemma runStart_running:
  assumes "runStart lib env m = (Running, m1)" and "snd (RecoverOrphanPolicies lib (rnPolRecover env) (files (mcHost m))) = files (mcHost m)"
    and "\<not> fst (ansRun (rnDns env) [''which'', ''resolvectl''])"
  obtains h1 dm h2 c where "startL3 (rnStart env) (rnTun env) (mcL3 m) = (True, mcL3 m1)"
    and "mcClient m1 = Some c" and "GetState (cState c) = StateConnected"
    and "if rnPolicies env then \<exists>e res pm. ApplyPolicies lib (rnPolApply env) (rnPolRollback env)
          (DetectBrowsers (rnOrder env) (rnStat env)) newPolicyManager (files (mcHost m)) = (e, res, pm, files h1) \<and>
          e \<noteq> ApplyPanicked \<and> mcPolicies m1 = Some pm
     else files h1 = files (mcHost m) \<and> mcPolicies m1 = mcPolicies m"
    and "SetResolver (rnDns env) ''127.0.0.1'' \<lparr>originalDNS = [], useResolvectl = False\<rparr> h1 = (True, dm, h2)"
    and "mcKS m1 = SetForceResolver (NewKillSwitch dm h2)" and "mcHasDns m1" and "mcHasKS m1" and "mcWatch m1"
proof -
  have "onHost (\<lambda>h. h\<lparr>files := snd (RecoverOrphanPolicies lib (rnPolRecover env) (files h))\<rparr>) m = m"
    using assms(2) by (simp add: onHost_def mcHost_def)
  then have r: "(case startL3 (rnStart env) (rnTun env) (mcL3 m) of
        (False, p) \<Rightarrow> (StoppedL3, m\<lparr>mcL3 := p\<rparr>)
      | (True, p) \<Rightarrow>
          (case startClient env (m\<lparr>mcL3 := p\<rparr>) of
             (Some e, m1) \<Rightarrow> (e, m1)
           | (None, m1) \<Rightarrow>
               (case startProxy (rnProxy env) (mcHost m1) of
                  (False, h) \<Rightarrow> (StoppedProxy, runCleanup env (mapClient Disconnect (onHost (\<lambda>_. h) m1)))
                | (True, h) \<Rightarrow>
                    (case policiesPhase lib env (onHost (\<lambda>_. startHTTP env h) m1) of
                       (False, m2) \<Rightarrow> (RunPanicked, m2)
                     | (True, m2) \<Rightarrow> dnsPhase env m2)))) = (Running, m1)"
    using assms(1) by (simp add: runStart_def Let_def)
  then obtain p where p: "startL3 (rnStart env) (rnTun env) (mcL3 m) = (True, p)" by (auto split: prod.splits bool.splits)
  then obtain m2 where m2: "startClient env (m\<lparr>mcL3 := p\<rparr>) = (None, m2)"
    using r startClient_not_running by (auto split: prod.splits option.splits)
  then obtain c where c: "m2 = m\<lparr>mcL3 := p, mcClient := Some c\<rparr>" "GetState (cState c) = StateConnected"
    using startClient_ok by blast
  obtain h where h: "startProxy (rnProxy env) (mcHost m2) = (True, h)"
    using r p m2 by (auto split: prod.splits bool.splits)
  then have hf: "files h = files (mcHost m)" using startProxy_files c(1) by fastforce
  let ?m3 = "onHost (\<lambda>_. startHTTP env h) m2"
  obtain m4 where m4: "policiesPhase lib env ?m3 = (True, m4)" "dnsPhase env m4 = (Running, m1)"
    using r p m2 h by (auto split: prod.splits bool.splits)
  obtain dm0 h1 where n: "newManagerWithRunner (rnDns env) (mcHost m4) = (dm0, h1)" by fastforce
  then have dm0: "dm0 = \<lparr>originalDNS = [], useResolvectl = False\<rparr>" "files h1 = files (mcHost m4)"
    using assms(3) by (auto simp: newManagerWithRunner_def run_def split: prod.splits)
  obtain dm h2 where s: "SetResolver (rnDns env) ''127.0.0.1'' dm0 h1 = (True, dm, h2)"
    "m1 = m4\<lparr>mcKS := SetForceResolver (NewKillSwitch dm h2), mcHasDns := True, mcHasKS := True, mcWatch := True\<rparr>"
    using m4(2) n by (auto simp: dnsPhase_def split: prod.splits bool.splits)
  have pol: "if rnPolicies env then \<exists>e res pm. ApplyPolicies lib (rnPolApply env) (rnPolRollback env)
          (DetectBrowsers (rnOrder env) (rnStat env)) newPolicyManager (files (mcHost m)) = (e, res, pm, files (mcHost m4)) \<and>
          e \<noteq> ApplyPanicked \<and> mcPolicies m4 = Some pm
     else files (mcHost m4) = files (mcHost m) \<and> mcPolicies m4 = mcPolicies m"
    using m4(1) hf c(1) by (auto simp: policiesPhase_def split: prod.splits if_splits)
  have "mcL3 m4 = p" "mcClient m4 = Some c"
    using m4(1) c(1) by (auto simp: policiesPhase_def split: prod.splits if_splits)
  then show ?thesis using p c(2) pol dm0 s by (intro that [of c h1 dm h2]) simp_all
qed

section \<open>The policy files beside the resolver\<close>

definition besideDns :: "polFiles \<Rightarrow> polFiles \<Rightarrow> polFiles" where
  \<comment> \<open>the files but those of the resolver\<close>
  "besideDns fs0 fs = fs(resolvConfPath := fs0 resolvConfPath, resolvConfBackup := fs0 resolvConfBackup)"

lemma besideDns_simps [simp]: "p \<notin> {resolvConfPath, resolvConfBackup} \<Longrightarrow> besideDns fs0 fs p = fs p" "besideDns fs fs = fs"
  by (auto simp: besideDns_def)

lemma besideDns_frame: "fileFrame fs fs' \<Longrightarrow> besideDns fs0 fs' = besideDns fs0 fs"
  by (auto simp: besideDns_def fileFrame_def fun_eq_iff)

lemma vendors_beside_dns:
  "list_all (\<lambda>(n, d). d @ chromiumPolicyFileName \<notin> {resolvConfPath, resolvConfBackup}) chromiumVendorLinux"
  "set firefoxPolicyPathsLinux \<inter> {resolvConfPath, resolvConfBackup} = {}"
  "policyStateFilePath \<notin> {resolvConfPath, resolvConfBackup}"
  by code_simp+

lemma known_beside_dns:
  assumes "known stat b"
  shows "policyFile b \<notin> {resolvConfPath, resolvConfBackup}"
proof -
  from assms have "browserInfoForLinux stat (biName b) = Some b" by (simp add: known_def)
  then show ?thesis
  proof (cases rule: browserInfo_cases)
    case 1
    then show ?thesis using vendors_beside_dns(2) by (auto simp: policyFile_def)
  next
    case (2 d)
    have "d @ chromiumPolicyFileName \<notin> {resolvConfPath, resolvConfBackup}"
      using vendors_beside_dns(1) 2(1) unfolding list_all_iff by blast
    then show ?thesis using 2 vendor_file(1) [OF 2(1)] by (simp add: policyFile_def)
  qed
qed

definition polPending :: "policyLib \<Rightarrow> browserInfo list \<Rightarrow> polFiles \<Rightarrow> policyManager option \<Rightarrow> polFiles \<Rightarrow> bool" where
  \<comment> \<open>what the manager remembers is what the files, the resolver's aside, have undergone\<close>
  "polPending lib D fs0 pol fs \<longleftrightarrow>
     (\<exists>L. set L \<subseteq> set D \<and> distinct (map policyFile L) \<and>
        (case (case pol of None \<Rightarrow> None | Some pm \<Rightarrow> pmSaved pm) of
           None \<Rightarrow> takenBack lib fs0 L (besideDns fs0 fs)
         | Some st \<Rightarrow> st = record_of fs0 L \<and> appliedTo lib fs0 L (besideDns fs0 fs)))"

lemma polPending_frame: "fileFrame fs fs' \<Longrightarrow> polPending lib D fs0 pol fs' = polPending lib D fs0 pol fs"
  unfolding polPending_def by (simp only: besideDns_frame [of fs fs' fs0])

lemma polPending_start: "polPending lib D fs None fs"
  by (auto simp: polPending_def takenBack_def intro!: exI [of _ "[]"])

lemma beside_policy:
  assumes "set L \<subseteq> set (DetectBrowsers order stat)"
  shows "\<forall>b\<in>set L. policyFile b \<notin> {resolvConfPath, resolvConfBackup}"
  using assms known_beside_dns Detect_known(1) [of order stat] by blast

lemma same_beside:
  assumes "\<forall>b\<in>set L. policyFile b \<notin> {resolvConfPath, resolvConfBackup}"
  shows "appliedTo lib fs0 L fs \<Longrightarrow> besideDns fs0 fs = fs" "takenBack lib fs0 L fs \<Longrightarrow> besideDns fs0 fs = fs"
proof -
  have n: "resolvConfPath \<notin> policyFile ` set L" "resolvConfBackup \<notin> policyFile ` set L" using assms by auto
  have s: "resolvConfPath \<noteq> policyStateFilePath" "resolvConfBackup \<noteq> policyStateFilePath" using vendors_beside_dns(3) by auto
  show "appliedTo lib fs0 L fs \<Longrightarrow> besideDns fs0 fs = fs" "takenBack lib fs0 L fs \<Longrightarrow> besideDns fs0 fs = fs"
    unfolding appliedTo_def takenBack_def besideDns_def using n s by (metis fun_upd_triv)+
qed

definition polAssumptions :: "policyLib \<Rightarrow> runEnv \<Rightarrow> shutEnv \<Rightarrow> polFiles \<Rightarrow> bool" where
  \<comment> \<open>the library reads back what it writes, the existing files can be read, restorations can write\<close>
  "polAssumptions lib env senv fs \<longleftrightarrow>
     (\<forall>b\<in>set (DetectBrowsers (rnOrder env) (rnStat env)). jsonLaw lib b (fs (policyFile b)) \<and> paRead (rnPolApply env) (policyFile b)) \<and>
     allOk (rnPolRollback env) \<and> allOk (shPol senv)"

lemma polPending_apply:
  assumes "ApplyPolicies lib (rnPolApply env) (rnPolRollback env) (DetectBrowsers (rnOrder env) (rnStat env)) newPolicyManager fs = (e, res, pm, fs1)"
    and "polAssumptions lib env senv fs"
  shows "polPending lib (DetectBrowsers (rnOrder env) (rnStat env)) fs (Some pm) fs1 \<and> besideDns fs fs1 = fs1"
proof -
  let ?D = "DetectBrowsers (rnOrder env) (rnStat env)"
  have "\<forall>b\<in>set ?D. policyFile b \<noteq> policyStateFilePath \<and> jsonLaw lib b (fs (policyFile b)) \<and> paRead (rnPolApply env) (policyFile b)"
    using assms(2) known_file Detect_known(1) [of "rnOrder env" "rnStat env"] unfolding polAssumptions_def by blast
  moreover have "allOk (rnPolRollback env)" using assms(2) by (simp add: polAssumptions_def)
  ultimately have "pmSaved pm = None \<and> fs1 = fs \<or>
      (\<exists>L. set L \<subseteq> set ?D \<and> distinct (map policyFile L) \<and> sessionEnd lib fs L e (pmSaved pm) fs1)"
    by (rule ApplyPolicies_end [OF assms(1) Detect_known(3)])
  then show ?thesis
  proof (elim disjE exE conjE)
    assume "pmSaved pm = None" "fs1 = fs"
    then show ?thesis using polPending_start [of lib ?D fs] by (simp add: polPending_def)
  next
    fix L
    assume L: "set L \<subseteq> set ?D" "distinct (map policyFile L)" "sessionEnd lib fs L e (pmSaved pm) fs1"
    note b = same_beside [OF beside_policy [OF L(1)]]
    show ?thesis using L b by (auto simp: polPending_def sessionEnd_def split: if_splits intro!: exI [of _ L])
  qed
qed

lemma stepPolicies_pending:
  assumes "polPending lib (DetectBrowsers (rnOrder env) (rnStat env)) fs0 (mcPolicies m) (files (mcHost m))"
    and "polAssumptions lib env senv fs0"
  shows "\<exists>L. set L \<subseteq> set (DetectBrowsers (rnOrder env) (rnStat env)) \<and>
      takenBack lib fs0 L (besideDns fs0 (files (mcHost (stepPolicies lib senv m))))"
    and "\<forall>p \<in> {resolvConfPath, resolvConfBackup}. files (mcHost (stepPolicies lib senv m)) p = files (mcHost m) p"
proof -
  let ?D = "DetectBrowsers (rnOrder env) (rnStat env)" and ?fs = "files (mcHost m)"
  obtain L where L: "set L \<subseteq> set ?D" "distinct (map policyFile L)"
    "case (case mcPolicies m of None \<Rightarrow> None | Some pm \<Rightarrow> pmSaved pm) of
       None \<Rightarrow> takenBack lib fs0 L (besideDns fs0 ?fs)
     | Some st \<Rightarrow> st = record_of fs0 L \<and> appliedTo lib fs0 L (besideDns fs0 ?fs)"
    using assms(1) unfolding polPending_def by blast
  note bp = beside_policy [OF L(1)]
  have notin: "policyStateFilePath \<notin> policyFile ` set L"
    using L(1) known_file Detect_known(1) [of "rnOrder env" "rnStat env"] by (metis imageE subsetD)
  have both: "(\<exists>L. set L \<subseteq> set ?D \<and> takenBack lib fs0 L (besideDns fs0 (files (mcHost (stepPolicies lib senv m))))) \<and>
    (\<forall>p \<in> {resolvConfPath, resolvConfBackup}. files (mcHost (stepPolicies lib senv m)) p = ?fs p)"
  proof (cases "case mcPolicies m of None \<Rightarrow> None | Some pm \<Rightarrow> pmSaved pm")
    case None
    then have "files (mcHost (stepPolicies lib senv m)) = ?fs"
      by (auto simp: stepPolicies_def RestorePolicies_def split: option.splits)
    then show ?thesis using L None by auto
  next
    case (Some st)
    then obtain pm where pm: "mcPolicies m = Some pm" "pmSaved pm = Some st" by (auto split: option.splits)
    have ap: "st = record_of fs0 L" "appliedTo lib fs0 L (besideDns fs0 ?fs)" using L(3) Some by simp_all
    have "\<forall>b\<in>set L. ?fs (policyFile b) = besideDns fs0 ?fs (policyFile b)" using bp by simp
    then have pre: "\<forall>b\<in>set L. ?fs (policyFile b) = Some (newContent lib b (fs0 (policyFile b))) \<and> jsonLaw lib b (fs0 (policyFile b)) \<and>
        (biFamily b = Firefox \<longrightarrow> (\<forall>c. fs0 (policyFile b) = Some c \<longrightarrow> (\<exists>root. plUnmarshal lib c = Some (Some root))))"
      using ap(2) assms(2) L(1) unfolding appliedTo_def polAssumptions_def by (metis (no_types, lifting) subsetD)
    have ok: "allOk (shPol senv)" using assms(2) by (simp add: polAssumptions_def)
    from restoreAll_files [OF ok L(2) pre, of True]
    obtain fs1 where f: "restoreAll lib (shPol senv) (record_of fs0 L) True ?fs = (True, fs1)"
      "\<forall>b\<in>set L. fs1 (policyFile b) = restoredFile lib b (fs0 (policyFile b))" "\<forall>p. p \<notin> policyFile ` set L \<longrightarrow> fs1 p = ?fs p"
      by blast
    obtain x where x: "removePersistedState (shPol senv) fs1 = fs1(policyStateFilePath := x)" using removePersisted_upd by blast
    have res: "files (mcHost (stepPolicies lib senv m)) = fs1(policyStateFilePath := x)"
      using pm ap(1) f(1) x by (simp add: stepPolicies_def RestorePolicies_def)
    have dns: "\<forall>p \<in> {resolvConfPath, resolvConfBackup}. (fs1(policyStateFilePath := x)) p = ?fs p"
    proof
      fix p assume p: "p \<in> {resolvConfPath, resolvConfBackup}"
      then have "p \<notin> policyFile ` set L" using bp by auto
      moreover have "p \<noteq> policyStateFilePath" using p vendors_beside_dns(3) by auto
      ultimately show "(fs1(policyStateFilePath := x)) p = ?fs p" using f(3) by simp
    qed
    have "takenBack lib fs0 L (besideDns fs0 (fs1(policyStateFilePath := x)))"
      unfolding takenBack_def
    proof (intro conjI ballI allI impI)
      fix b assume b: "b \<in> set L"
      then have "policyFile b \<noteq> policyStateFilePath" using notin by (metis imageI)
      then show "besideDns fs0 (fs1(policyStateFilePath := x)) (policyFile b) = restoredFile lib b (fs0 (policyFile b))"
        using b bp f(2) by simp
    next
      fix p assume p: "p \<notin> policyFile ` set L" "p \<noteq> policyStateFilePath"
      show "besideDns fs0 (fs1(policyStateFilePath := x)) p = fs0 p"
      proof (cases "p \<in> {resolvConfPath, resolvConfBackup}")
        case True
        then show ?thesis by (auto simp: besideDns_def)
      next
        case False
        have "besideDns fs0 ?fs p = fs0 p" using p ap(2) unfolding appliedTo_def by blast
        then show ?thesis using False p f(3) by simp
      qed
    qed
    then show ?thesis using L(1) dns unfolding res by blast
  qed
  then show "\<exists>L. set L \<subseteq> set ?D \<and> takenBack lib fs0 L (besideDns fs0 (files (mcHost (stepPolicies lib senv m))))"
    "\<forall>p \<in> {resolvConfPath, resolvConfBackup}. files (mcHost (stepPolicies lib senv m)) p = ?fs p"
    by (rule conjunct1, rule conjunct2)
qed

section \<open>The shutdown\<close>

lemma RestoreResolver_plain:
  assumes "originalKept c k" and "c \<noteq> []" and "ansWrite io resolvConfPath"
    and "RestoreResolver io (ksMgr k) (ksHost k) = (ok, dm, h)"
  shows "files h resolvConfPath = Some c \<and> originalDNS dm = [] \<and> fileFrame (files (ksHost k)) (files h)"
  using assms
  by (auto simp: originalKept_def RestoreResolver_def restoreResolvConf_def ReadFile_def WriteFile_def RemoveFile_def fileFrame_def
      split: option.splits if_splits)

lemma serving_early:
  assumes "serving c fs pol m"
  shows "serving c fs pol (stepKillSwitch senv (stepHTTP (stepCaptive m)))"
proof -
  have a: "serving c fs pol (stepHTTP (stepCaptive m))"
    using assms by (simp add: serving_def stepHTTP_def stepCaptive_def originalKept_def onHost_def mcHost_def mapL3_def)
  then show ?thesis
    by (auto simp: stepKillSwitch_def serving_def fileFrame_def mcHost_def Deactivate_files intro: originalKept_Deactivate)
qed

definition stopEarly :: "policyLib \<Rightarrow> shutEnv \<Rightarrow> machine \<Rightarrow> machine" where
  \<comment> \<open>the steps up to the restoration of the policies\<close>
  "stopEarly lib senv m = stepPolicies lib senv (stepKillSwitch senv (stepHTTP (stepCaptive m)))"

definition stopLate :: "shutEnv \<Rightarrow> machine \<Rightarrow> machine" where
  \<comment> \<open>the steps after the check of the resolver\<close>
  "stopLate senv m = stepTun (stepRoutes senv (stepFirewall senv (stepClient (stepProxy m))))"

lemma shutdown_parts: "shutdown lib senv m = stopLate senv (stepVerify senv (stepResolver senv (stopEarly lib senv m)))"
  by (simp add: shutdown_def runSteps_def shutdownSteps_def stopLate_def stopEarly_def)

lemma stopLate_simps:
  "files (mcHost (stopLate senv m)) = files (mcHost m)" "\<not> proxyUp (mcHost (stopLate senv m))"
  "mcClient (stopLate senv m) = map_option (\<lambda>c. (Disconnect c)\<lparr>cState := CloseUpdates (cState (Disconnect c))\<rparr>) (mcClient m)"
  "l3Tun (mcL3 (stopLate senv m)) = None" "l3Fw (mcL3 (stopLate senv m)) = None" "l3Route (mcL3 (stopLate senv m)) = None"
  "l3Fw (mcL3 m) \<noteq> None \<Longrightarrow> neDelete (shNft senv) \<Longrightarrow> l3Kernel (mcL3 (stopLate senv m)) = None"
  by (auto simp: stopLate_def stepTun_def stepRoutes_def stepFirewall_def stepClient_def stepProxy_def teardownRoutes_def
      fwDeactivate_def Let_def split: option.splits prod.splits)

lemma closed_client:
  "GetState (cState ((Disconnect c)\<lparr>cState := CloseUpdates (cState (Disconnect c))\<rparr>)) = StateDisconnected"
  "closed (cState ((Disconnect c)\<lparr>cState := CloseUpdates (cState (Disconnect c))\<rparr>))"
  by (simp_all add: Disconnect_def ResetTransport_def stopHeartbeat_def resetDoHFailures_def setSt_def CloseUpdates_def GetState_def SetState_def Let_def)

lemma stepPolicies_simps [simp]:
  "mcL3 (stepPolicies lib senv m) = mcL3 m" "mcClient (stepPolicies lib senv m) = mcClient m" "mcHasDns (stepPolicies lib senv m) = mcHasDns m"
  "ksMgr (mcKS (stepPolicies lib senv m)) = ksMgr (mcKS m)"
  by (auto simp: stepPolicies_def split: option.splits prod.splits)

lemma stepKillSwitch_simps [simp]:
  "mcL3 (stepKillSwitch senv m) = mcL3 m" "mcClient (stepKillSwitch senv m) = mcClient m"
  "mcPolicies (stepKillSwitch senv m) = mcPolicies m"
  by (simp_all add: stepKillSwitch_def)

lemma stepResolver_simps [simp]:
  "mcL3 (stepResolver senv m) = mcL3 m" "mcClient (stepResolver senv m) = mcClient m"
  by (auto simp: stepResolver_def split: prod.splits)

lemma stop_resolver:
  assumes "serving c fs pol m" and "c \<noteq> []" and "ansWrite (shDns senv) resolvConfPath"
    and "\<forall>p \<in> {resolvConfPath, resolvConfBackup}. files (mcHost (stopEarly lib senv m)) p =
      files (mcHost (stepKillSwitch senv (stepHTTP (stepCaptive m)))) p"
  shows "files (mcHost (shutdown lib senv m)) resolvConfPath = Some c"
    and "besideDns fs0 (files (mcHost (shutdown lib senv m))) = besideDns fs0 (files (mcHost (stopEarly lib senv m)))"
proof -
  let ?m2 = "stopEarly lib senv m"
  have k: "originalKept c (mcKS ?m2)" "mcHasDns ?m2"
    using serving_early [OF assms(1), of senv] assms(4) by (auto simp: serving_def originalKept_def stopEarly_def mcHost_def)
  obtain ok dm h where r: "RestoreResolver (shDns senv) (ksMgr (mcKS ?m2)) (ksHost (mcKS ?m2)) = (ok, dm, h)" by (metis prod_cases3)
  note f = RestoreResolver_plain [OF k(1) assms(2,3) r]
  let ?m3 = "stepResolver senv ?m2"
  have m3: "mcKS ?m3 = (mcKS ?m2)\<lparr>ksMgr := dm, ksHost := h\<rparr>" using k(2) r by (simp add: stepResolver_def mcHost_def)
  then have "stepVerify senv ?m3 = ?m3" "mcHost ?m3 = h" using f by (simp_all add: stepVerify_def OriginalResolver_def mcHost_def)
  then have e: "files (mcHost (shutdown lib senv m)) = files h" by (simp add: shutdown_parts stopLate_simps)
  have "fileFrame (files (mcHost ?m2)) (files h)" using f by (simp add: mcHost_def)
  then show "besideDns fs0 (files (mcHost (shutdown lib senv m))) = besideDns fs0 (files (mcHost ?m2))"
    unfolding e by (rule besideDns_frame)
  show "files (mcHost (shutdown lib senv m)) resolvConfPath = Some c" using f by (simp add: e)
qed

lemma stop_restores:
  assumes "serving c fs pol m" and "c \<noteq> []" and "ansWrite (shDns senv) resolvConfPath"
    and "polPending lib (DetectBrowsers (rnOrder env) (rnStat env)) fs0 pol fs" and "polAssumptions lib env senv fs0"
  shows "files (mcHost (shutdown lib senv m)) resolvConfPath = Some c \<and>
    (\<exists>L. set L \<subseteq> set (DetectBrowsers (rnOrder env) (rnStat env)) \<and>
       takenBack lib fs0 L (besideDns fs0 (files (mcHost (shutdown lib senv m)))))"
proof -
  let ?m1 = "stepKillSwitch senv (stepHTTP (stepCaptive m))"
  have "polPending lib (DetectBrowsers (rnOrder env) (rnStat env)) fs0 (mcPolicies ?m1) (files (mcHost ?m1))"
    using serving_early [OF assms(1), of senv] assms(4) polPending_frame by (auto simp: serving_def)
  note p = stepPolicies_pending [OF this assms(5), folded stopEarly_def]
  show ?thesis
    using stop_resolver [OF assms(1-3) p(2)] p(1) by simp
qed

lemma running_serves:
  assumes "runStart lib env m = (Running, m1)" and "mcPolicies m = None"
    and "paList (rnPolRecover env) = Some []" and "files (mcHost m) policyStateFilePath = None"
    and "\<not> fst (ansRun (rnDns env) [''which'', ''resolvectl''])"
    and "files (mcHost m) resolvConfPath = Some c" and "rnPolicies env \<longrightarrow> polAssumptions lib env senv (files (mcHost m))"
  shows "\<exists>fs. serving c fs (mcPolicies m1) m1 \<and>
      polPending lib (DetectBrowsers (rnOrder env) (rnStat env)) (files (mcHost m)) (mcPolicies m1) fs"
    and "\<not> rnPolicies env \<Longrightarrow> mcPolicies m1 = None"
    and "\<not> rnPolicies env \<Longrightarrow> fileFrame (files (mcHost m)) (files (mcHost m1))"
    and "files (mcHost m1) resolvConfPath = Some (generatedConf ''127.0.0.1'')"
proof -
  have "snd (RecoverOrphanPolicies lib (rnPolRecover env) (files (mcHost m))) = files (mcHost m)"
    using Recover_nothing [where fs = "files (mcHost m)" and env = "rnPolRecover env" and lib = lib] assms(3,4) by simp
  from assms(1) this assms(5) obtain h1 dm h2 cl where R: "mcClient m1 = Some cl"
    "if rnPolicies env then \<exists>e res pm. ApplyPolicies lib (rnPolApply env) (rnPolRollback env)
          (DetectBrowsers (rnOrder env) (rnStat env)) newPolicyManager (files (mcHost m)) = (e, res, pm, files h1) \<and>
          e \<noteq> ApplyPanicked \<and> mcPolicies m1 = Some pm
     else files h1 = files (mcHost m) \<and> mcPolicies m1 = mcPolicies m"
    "SetResolver (rnDns env) ''127.0.0.1'' \<lparr>originalDNS = [], useResolvectl = False\<rparr> h1 = (True, dm, h2)"
    "mcKS m1 = SetForceResolver (NewKillSwitch dm h2)" "mcHasDns m1" "mcHasKS m1"
    by (rule runStart_running)
  have pol: "polPending lib (DetectBrowsers (rnOrder env) (rnStat env)) (files (mcHost m)) (mcPolicies m1) (files h1) \<and>
      besideDns (files (mcHost m)) (files h1) = files h1"
  proof (cases "rnPolicies env")
    case True
    then have "polAssumptions lib env senv (files (mcHost m))" using assms(7) by simp
    with True show ?thesis using R(2) polPending_apply by auto
  next
    case False
    then show ?thesis using R(2) assms(2) polPending_start by simp
  qed
  then have "files h1 resolvConfPath = files (mcHost m) resolvConfPath" by (metis besideDns_def fun_upd_apply)
  then have s: "dm = \<lparr>originalDNS = c, useResolvectl = False\<rparr> \<and> files h2 resolvConfBackup = Some c \<and>
      files h2 resolvConfPath = Some (generatedConf ''127.0.0.1'')"
    using SetResolver_plain [OF R(3)] assms(6) by simp
  have "fileFrame (files h1) (files h2)" using SetResolver_files [OF R(3)] by (simp add: fileFrame_def)
  then have "serving c (files h1) (mcPolicies m1) m1"
    using R s by (simp add: serving_def originalKept_def mcHost_def SetForceResolver_def NewKillSwitch_def)
  then show "\<exists>fs. serving c fs (mcPolicies m1) m1 \<and>
      polPending lib (DetectBrowsers (rnOrder env) (rnStat env)) (files (mcHost m)) (mcPolicies m1) fs"
    using pol by blast
  show "\<not> rnPolicies env \<Longrightarrow> mcPolicies m1 = None" using R(2) assms(2) by simp
  show "\<not> rnPolicies env \<Longrightarrow> fileFrame (files (mcHost m)) (files (mcHost m1))"
    using R(2,4) \<open>fileFrame (files h1) (files h2)\<close> by (simp add: mcHost_def SetForceResolver_def NewKillSwitch_def)
  show "files (mcHost m1) resolvConfPath = Some (generatedConf ''127.0.0.1'')"
    using R(4) s by (simp add: mcHost_def SetForceResolver_def NewKillSwitch_def)
qed

definition redirected :: "machine \<Rightarrow> bool" where
  "redirected m \<longleftrightarrow> files (mcHost m) resolvConfPath = Some (generatedConf ''127.0.0.1'')"

lemma ForceResolver_generated:
  "ForceResolver io ''127.0.0.1'' h = (ok, h') \<Longrightarrow>
     files h' resolvConfPath \<in> {files h resolvConfPath, Some (generatedConf ''127.0.0.1'')}"
  by (auto simp: ForceResolver_def discoverInterfaces_def WriteFile_def run_def Let_def
      split: prod.splits bool.splits option.splits if_splits dest: forceInterfaces_host)

lemma checkAndFix_generated:
  "files (checkAndFix cy ''127.0.0.1'' h) resolvConfPath \<in> {files h resolvConfPath, Some (generatedConf ''127.0.0.1'')}"
proof -
  obtain r h1 where c: "CheckCurrentResolver (cyCheck cy) h = (r, h1)" by fastforce
  obtain ok h2 where f: "ForceResolver (cyFix cy) ''127.0.0.1'' h1 = (ok, h2)" by fastforce
  obtain ok' h3 where g: "ForceResolver (cyRetry cy) ''127.0.0.1'' h2 = (ok', h3)" by fastforce
  show ?thesis
    using CheckCurrentResolver_host [OF c] ForceResolver_generated [OF f] ForceResolver_generated [OF g] c f g
    by (auto simp: checkAndFix_def split: option.splits bool.splits)
qed

lemma redirected_step:
  assumes "serving c fs pol m" and "c \<noteq> []" and "redirected m"
  shows "redirected (serveStep x m)"
proof (cases x)
  case (SvKill io)
  have "originalDNS (ksMgr (mcKS m)) \<noteq> []" using assms(1,2) by (simp add: serving_def originalKept_def)
  then show ?thesis using assms(3) SvKill
    by (auto simp: redirected_def mcHost_def Activate_def stopProxies_def Let_def split: prod.splits bool.splits dest!: ForceResolver_generated)
next
  case (SvDnsCheck cy)
  then show ?thesis using assms(3) checkAndFix_generated [of cy "mcHost m"] by (auto simp: redirected_def)
qed (use assms in \<open>auto simp: redirected_def mcHost_def Deactivate_files\<close>)

lemma redirected_steps:
  "serving c fs pol m \<Longrightarrow> c \<noteq> [] \<Longrightarrow> redirected m \<Longrightarrow> redirected (fold serveStep ops m)"
  by (induction ops arbitrary: m) (simp_all add: serving_step redirected_step)

section \<open>Every prefix of the shutdown\<close>

fun allPrefixes :: "('m \<Rightarrow> bool) \<Rightarrow> ('m \<Rightarrow> 'm) list \<Rightarrow> 'm \<Rightarrow> bool" where
  "allPrefixes P [] m \<longleftrightarrow> P m"
| "allPrefixes P (s # ss) m \<longleftrightarrow> P m \<and> allPrefixes P ss (s m)"

lemma allPrefixes_take: "allPrefixes P ss m \<Longrightarrow> P (runSteps (take n ss) m)"
proof (induction ss arbitrary: m n)
  case (Cons s ss)
  then show ?case by (cases n) (auto simp: runSteps_def)
qed (simp add: runSteps_def)

definition clientDown :: "machine \<Rightarrow> bool" where
  "clientDown m \<longleftrightarrow>
     (case mcClient m of None \<Rightarrow> True | Some c \<Rightarrow> GetState (cState c) = StateDisconnected \<and> closed (cState c))"

definition orderly :: "machine \<Rightarrow> machine \<Rightarrow> bool" where
  "orderly m s \<longleftrightarrow>
     (l3Kernel (mcL3 s) = l3Kernel (mcL3 m) \<or> clientDown s) \<and>
     (l3Routes (mcL3 s) = l3Routes (mcL3 m) \<or> l3Fw (mcL3 s) = None) \<and>
     (l3Tun (mcL3 s) = l3Tun (mcL3 m) \<or> l3Route (mcL3 s) = None)"

lemma stepVerify_simps [simp]:
  "mcL3 (stepVerify senv m) = mcL3 m" "mcClient (stepVerify senv m) = mcClient m"
  by (simp_all add: stepVerify_def)

lemma step_l3 [simp]:
  "l3Kernel (mcL3 (stepCaptive m)) = l3Kernel (mcL3 m)" "l3Routes (mcL3 (stepCaptive m)) = l3Routes (mcL3 m)"
  "l3Tun (mcL3 (stepCaptive m)) = l3Tun (mcL3 m)" "mcL3 (stepHTTP m) = mcL3 m" "mcL3 (stepProxy m) = mcL3 m"
  "mcL3 (stepClient m) = mcL3 m" "clientDown (stepClient m)" "clientDown (stepFirewall senv m) = clientDown m"
  "clientDown (stepRoutes senv m) = clientDown m" "clientDown (stepTun m) = clientDown m"
  "l3Fw (mcL3 (stepFirewall senv m)) = None" "l3Routes (mcL3 (stepFirewall senv m)) = l3Routes (mcL3 m)"
  "l3Tun (mcL3 (stepFirewall senv m)) = l3Tun (mcL3 m)"
  "l3Tun (mcL3 (stepRoutes senv m)) = l3Tun (mcL3 m)" "l3Route (mcL3 (stepRoutes senv m)) = None"
  "l3Fw (mcL3 (stepRoutes senv m)) = l3Fw (mcL3 m)" "l3Route (mcL3 (stepTun m)) = l3Route (mcL3 m)"
  "l3Fw (mcL3 (stepTun m)) = l3Fw (mcL3 m)"
  by (auto simp: stepCaptive_def stepHTTP_def stepProxy_def stepClient_def stepFirewall_def stepRoutes_def stepTun_def teardownRoutes_def
      clientDown_def closed_client [simplified] split: option.splits prod.splits)

lemma shutdown_orderly: "allPrefixes (orderly m) (shutdownSteps lib senv) m"
  by (simp add: shutdownSteps_def orderly_def)

section \<open>Properties\<close>


definition plainBoot :: runEnv where
  "plainBoot = \<lparr>rnPolRecover = polWell, rnStart = okStart, rnTun = ''levoile0'', rnLookup = (\<lambda>_. None), rnInsecure = False,
     rnDomain = ''relay.levoile.dev'', rnKey = ExportPublicKeyBase64 (replicate 32 0), rnCrypto = toyLib, rnRandom = Some [1, 2],
     rnRespond = (\<lambda>u n. Some (200, Some \<lparr>vrSignature = b64enc Std [2, 1, 1], vrSessionToken = None\<rparr>)),
     rnTimedOut = False, rnNow = 0, rnProxy = allWell, rnHTTP = True, rnPolicies = False, rnPolApply = polWell,
     rnPolRollback = polWell, rnOrder = (\<lambda>_. linuxExeNames), rnStat = (\<lambda>_. False), rnDns = allWell\<rparr>"

definition plainStop :: shutEnv where
  "plainStop = \<lparr>shKS = allWell, shHTTP = True, shPol = polWell, shDns = allWell, shCheck = allWell, shFix = allWell,
     shNft = okNft, shTeardown = (\<lambda>_. True)\<rparr>"

definition coldMachine :: machine where
  "coldMachine = \<lparr>mcL3 = bootState True, mcClient = None,
     mcKS = NewKillSwitch \<lparr>originalDNS = [], useResolvectl = False\<rparr>
       \<lparr>files = [resolvConfPath \<mapsto> ''nameserver 9.9.9.9''], commands = [], proxyUp = False, httpUp = False\<rparr>,
     mcHasDns = False, mcHasKS = False, mcWatch = False, mcPolicies = None\<rparr>"

lemma boot_tun: "startL3 env tun p = (go, q) \<Longrightarrow> cfTUNEnabled q = cfTUNEnabled p"
  by (auto simp: startL3_def l3Phase_def tunCleanup_def teardownRoutes_def Let_def split: if_splits option.splits prod.splits)

lemma plain_client: "\<exists>c. startClient plainBoot (coldMachine\<lparr>mcL3 := guardedState\<rparr>) = (None, coldMachine\<lparr>mcL3 := guardedState, mcClient := Some c\<rparr>)"
proof -
  have "cfTUNEnabled guardedState" using boot_tun [OF guardedState_simps(1)] by (simp add: bootState_def)
  moreover have "firstIPv4 [[9, 9, 9, 9]] = Some [9, 9, 9, 9]" by (simp add: firstIPv4_def)
  moreover have "ipString [9, 9, 9, 9] = ''9.9.9.9''" by code_simp
  ultimately have h: "relayHint plainBoot guardedState = ''9.9.9.9''"
    by (simp add: relayHint_def plainBoot_def okStart_def)
  have "ImportPublicKeyBase64 (ExportPublicKeyBase64 (replicate 32 0)) = Some (replicate 32 0)"
    by (simp add: ImportPublicKeyBase64_def ExportPublicKeyBase64_def del: b64enc.simps)
  moreover have "ParseIP ''9.9.9.9'' \<noteq> None" by code_simp
  ultimately obtain c where c: "NewClient (\<lambda>_. None) False False ''9.9.9.9'' ''relay.levoile.dev'' (ExportPublicKeyBase64 (replicate 32 0)) = Inr c"
    "relayPubKey c = replicate 32 0"
    by (auto simp: NewClient_def)
  let ?resp = "\<lambda>u n. Some (200, Some \<lparr>vrSignature = b64enc Std [2, 1, 1], vrSessionToken = None\<rparr>)"
  obtain e c' where k: "Connect toyLib (Some [1, 2]) ?resp False 0 c = (e, c')" by fastforce
  then have "e = None" using c(2)
    by (auto simp: Connect_def verifyRelay_def VerifyMsg_def toyLib_def setSt_def simp del: b64enc.simps)
  with h c(1) k have "startClient plainBoot (coldMachine\<lparr>mcL3 := guardedState\<rparr>) = (None, coldMachine\<lparr>mcL3 := guardedState, mcClient := Some c'\<rparr>)"
    by (simp add: startClient_def plainBoot_def del: b64enc.simps)
  then show ?thesis by blast
qed

lemma plain_files:
  "files (mcHost coldMachine) resolvConfPath = Some ''nameserver 9.9.9.9''" "files (mcHost coldMachine) policyStateFilePath = None"
  "mcPolicies coldMachine = None" "mcL3 coldMachine = bootState True"
  using vendors_beside_dns(3) by (simp_all add: coldMachine_def mcHost_def NewKillSwitch_def)

lemma plain_running: "\<exists>m1. runStart sampleLib plainBoot coldMachine = (Running, m1)"
proof -
  have "paList (rnPolRecover plainBoot) = Some []" by (simp add: plainBoot_def polWell_def)
  then have "snd (RecoverOrphanPolicies sampleLib (rnPolRecover plainBoot) (files (mcHost coldMachine))) = files (mcHost coldMachine)"
    using Recover_nothing [where fs = "files (mcHost coldMachine)" and env = "rnPolRecover plainBoot" and lib = sampleLib] plain_files(2)
    by simp
  then have o: "onHost (\<lambda>h. h\<lparr>files := snd (RecoverOrphanPolicies sampleLib (rnPolRecover plainBoot) (files h))\<rparr>) coldMachine = coldMachine"
    by (simp add: onHost_def mcHost_def)
  have l: "startL3 (rnStart plainBoot) (rnTun plainBoot) (mcL3 coldMachine) = (True, guardedState)"
    using guardedState_simps(1) by (simp add: plainBoot_def coldMachine_def)
  obtain c where c: "startClient plainBoot (coldMachine\<lparr>mcL3 := guardedState\<rparr>) = (None, coldMachine\<lparr>mcL3 := guardedState, mcClient := Some c\<rparr>)"
    using plain_client by blast
  let ?m = "coldMachine\<lparr>mcL3 := guardedState, mcClient := Some c\<rparr>"
  have p: "startProxy (rnProxy plainBoot) (mcHost ?m) = (True, (mcHost ?m)\<lparr>proxyUp := True\<rparr>)"
    by (simp add: plainBoot_def startProxy_def allWell_def)
  let ?m2 = "onHost (\<lambda>_. startHTTP plainBoot ((mcHost ?m)\<lparr>proxyUp := True\<rparr>)) ?m"
  have q: "policiesPhase sampleLib plainBoot ?m2 = (True, ?m2)" by (simp add: policiesPhase_def plainBoot_def)
  obtain m1 where d: "dnsPhase plainBoot ?m2 = (Running, m1)"
    using plain_files(1) loopback_parses
    by (auto simp: dnsPhase_def newManagerWithRunner_def run_def plainBoot_def allWell_def SetResolver_def setResolverResolvConf_def
        ReadFile_def WriteFile_def startHTTP_def Let_def)
  show ?thesis using o l c p q d by (simp add: runStart_def Let_def)
qed


text \<open>
  C31: the order of the shutdown. After every number of its steps, whatever the commands answer, the
  kernel table is still what it was or the tunnel is down, the routes are still what they were or
  the firewall has been released, and the interface is still there or the routes have been released.
\<close>

theorem shutdown_never_opens_early:
  "let s = runSteps (take n (shutdownSteps lib senv)) m in
     (l3Kernel (mcL3 s) = l3Kernel (mcL3 m) \<or> clientDown s) \<and>
     (l3Routes (mcL3 s) = l3Routes (mcL3 m) \<or> l3Fw (mcL3 s) = None) \<and>
     (l3Tun (mcL3 s) = l3Tun (mcL3 m) \<or> l3Route (mcL3 s) = None)"
  using allPrefixes_take [OF shutdown_orderly] unfolding orderly_def Let_def .

section \<open>Crashes\<close>

definition crash :: "machine \<Rightarrow> machine" where
  \<comment> \<open>the process dies: its memory and sockets are gone, the files, the kernel table and the rules stay\<close>
  "crash m =
     \<lparr>mcL3 = (mcL3 m)\<lparr>l3Captive := False, l3Tun := None, l3RelayIP := None, l3Fw := None, l3Route := None,
        l3Altered := False, l3Indeterminate := False\<rparr>,
      mcClient = None,
      mcKS = NewKillSwitch \<lparr>originalDNS = [], useResolvectl = False\<rparr> ((mcHost m)\<lparr>proxyUp := False, httpUp := False\<rparr>),
      mcHasDns = False, mcHasKS = False, mcWatch = False, mcPolicies = None\<rparr>"

lemma crash_simps [simp]: "files (mcHost (crash m)) = files (mcHost m)" "mcPolicies (crash m) = None"
  by (simp_all add: crash_def mcHost_def NewKillSwitch_def)

text \<open>
  C32: a crash loses the user's resolver. The daemon has started on a host without resolvectl and dies
  while it serves. The next start takes its own generated file for the original and overwrites the
  backup with it, so that the clean stop after it leaves the system resolver pointing at the stopped
  local proxy, whatever happens in between. The recovery function written for this case, which
  nothing calls, would have brought the file back.
\<close>

theorem crash_loses_the_resolver:
  assumes "runStart lib env m = (Running, m1)" and "mcPolicies m = None" and "\<not> rnPolicies env" and "\<not> rnPolicies env'"
    and "paList (rnPolRecover env) = Some []" and "paList (rnPolRecover env') = Some []" and "files (mcHost m) policyStateFilePath = None"
    and "\<not> fst (ansRun (rnDns env) [''which'', ''resolvectl''])" and "\<not> fst (ansRun (rnDns env') [''which'', ''resolvectl''])"
    and "files (mcHost m) resolvConfPath = Some c" and "c \<noteq> []" and "m2 = crash (fold serveStep ops m1)"
    and "runStart lib env' m2 = (Running, m3)" and "ansWrite (shDns senv) resolvConfPath"
  shows "files (mcHost (shutdown lib senv (fold serveStep ops' m3))) resolvConfPath = Some (generatedConf ''127.0.0.1'') \<and>
    (ansRead io resolvConfBackup \<and> ansWrite io resolvConfPath \<longrightarrow>
       files (snd (RecoverOrphanDNS io (mcHost m2))) resolvConfPath = Some c)"
proof -
  note A = running_serves [OF assms(1,2,5,7,8,10), of undefined]
  obtain fs where s: "serving c fs (mcPolicies m1) m1" using A(1) assms(3) by blast
  then have "serving c (files (mcHost m1)) (mcPolicies m1) m1" by (simp add: serving_def fileFrame_def)
  from serving_steps [OF this assms(11), of ops]
  have s2: "serving c (files (mcHost m1)) (mcPolicies m1) (fold serveStep ops m1)" .
  have pol: "policyStateFilePath \<notin> {resolvConfPath, resolvConfBackup}" by (rule vendors_beside_dns(3))
  have "files (mcHost m1) policyStateFilePath = None"
    using A(3) [OF _ assms(3)] assms(3,7) pol by (simp add: fileFrame_def)
  then have st: "files (mcHost m2) policyStateFilePath = None"
    using s2 pol unfolding assms(12) by (simp add: serving_def fileFrame_def)
  have "redirected m1" using A(4) assms(3) by (simp add: redirected_def)
  then have "redirected (fold serveStep ops m1)" by (rule redirected_steps [OF s assms(11)])
  then have g: "files (mcHost m2) resolvConfPath = Some (generatedConf ''127.0.0.1'')"
    unfolding assms(12) redirected_def by simp
  have "mcPolicies m2 = None" unfolding assms(12) by simp
  note B = running_serves [OF assms(13) this assms(6) st assms(9) g, of undefined]
  obtain fs' where t: "serving (generatedConf ''127.0.0.1'') fs' (mcPolicies m3) m3" using B(1) assms(4) by blast
  have ne: "generatedConf ''127.0.0.1'' \<noteq> []" by (simp add: generatedConf_def)
  have t2: "serving (generatedConf ''127.0.0.1'') fs' (mcPolicies m3) (fold serveStep ops' m3)" by (rule serving_steps [OF t ne])
  have "mcPolicies m3 = None" using B(2) assms(4) by simp
  then have "files (mcHost (stopEarly lib senv (fold serveStep ops' m3))) =
      files (mcHost (stepKillSwitch senv (stepHTTP (stepCaptive (fold serveStep ops' m3)))))"
    using t2 by (simp add: stopEarly_def stepPolicies_def stepHTTP_def stepCaptive_def serving_def)
  then have "files (mcHost (shutdown lib senv (fold serveStep ops' m3))) resolvConfPath = Some (generatedConf ''127.0.0.1'')"
    using stop_resolver(1) [OF t2 ne assms(14)] by simp
  moreover have "files (snd (RecoverOrphanDNS io (mcHost m2))) resolvConfPath = Some c"
    if "ansRead io resolvConfBackup" "ansWrite io resolvConfPath"
  proof -
    have "files (mcHost m2) resolvConfBackup = Some c"
      using s2 unfolding assms(12) by (simp add: serving_def originalKept_def mcHost_def [symmetric])
    then show ?thesis using that by (simp add: RecoverOrphanDNS_def ReadFile_def WriteFile_def RemoveFile_def)
  qed
  ultimately show ?thesis by blast
qed

definition dockBoot :: runEnv where
  "dockBoot = plainBoot\<lparr>rnDomain := ''9.9.9.9''\<rparr>"

definition dockMachine :: machine where
  \<comment> \<open>in a container: no network layer of its own\<close>
  "dockMachine = coldMachine\<lparr>mcL3 := (bootState True)\<lparr>cfTUNEnabled := False\<rparr>\<rparr>"

lemma dock_client:
  assumes "\<not> cfTUNEnabled (mcL3 m)"
  shows "\<exists>c. startClient dockBoot m = (None, m\<lparr>mcClient := Some c\<rparr>)"
proof -
  have h: "relayHint dockBoot (mcL3 m) = []" using assms by (simp add: relayHint_def)
  have "ImportPublicKeyBase64 (ExportPublicKeyBase64 (replicate 32 0)) = Some (replicate 32 0)"
    by (simp add: ImportPublicKeyBase64_def ExportPublicKeyBase64_def del: b64enc.simps)
  moreover have "ParseIP ''9.9.9.9'' \<noteq> None" by code_simp
  ultimately obtain c where c: "NewClient (\<lambda>_. None) False False [] ''9.9.9.9'' (ExportPublicKeyBase64 (replicate 32 0)) = Inr c"
    "relayPubKey c = replicate 32 0"
    by (auto simp: NewClient_def resolveRelayIP_def)
  let ?resp = "\<lambda>u n. Some (200, Some \<lparr>vrSignature = b64enc Std [2, 1, 1], vrSessionToken = None\<rparr>)"
  obtain e c' where k: "Connect toyLib (Some [1, 2]) ?resp False 0 c = (e, c')" by fastforce
  then have "e = None" using c(2)
    by (auto simp: Connect_def verifyRelay_def VerifyMsg_def toyLib_def setSt_def simp del: b64enc.simps)
  with h c(1) k have "startClient dockBoot m = (None, m\<lparr>mcClient := Some c'\<rparr>)"
    by (simp add: startClient_def dockBoot_def plainBoot_def del: b64enc.simps)
  then show ?thesis by blast
qed

lemma dock_running:
  assumes "\<not> cfTUNEnabled (mcL3 m)" and "files (mcHost m) policyStateFilePath = None" and "files (mcHost m) resolvConfPath = Some c"
  shows "\<exists>m1. runStart sampleLib dockBoot m = (Running, m1) \<and> mcL3 m1 = mcL3 m"
proof -
  have "paList (rnPolRecover dockBoot) = Some []" by (simp add: dockBoot_def plainBoot_def polWell_def)
  then have "snd (RecoverOrphanPolicies sampleLib (rnPolRecover dockBoot) (files (mcHost m))) = files (mcHost m)"
    using Recover_nothing [where fs = "files (mcHost m)" and env = "rnPolRecover dockBoot" and lib = sampleLib] assms(2) by simp
  then have o: "onHost (\<lambda>h. h\<lparr>files := snd (RecoverOrphanPolicies sampleLib (rnPolRecover dockBoot) (files h))\<rparr>) m = m"
    by (simp add: onHost_def mcHost_def)
  have l: "startL3 (rnStart dockBoot) (rnTun dockBoot) (mcL3 m) = (True, mcL3 m)"
    using assms(1) by (simp add: startL3_def l3Phase_def captivePhase_def Let_def)
  obtain cl where c: "startClient dockBoot m = (None, m\<lparr>mcClient := Some cl\<rparr>)" using dock_client [OF assms(1)] by blast
  let ?m = "m\<lparr>mcClient := Some cl\<rparr>"
  have p: "startProxy (rnProxy dockBoot) (mcHost ?m) = (True, (mcHost ?m)\<lparr>proxyUp := True\<rparr>)"
    by (simp add: dockBoot_def plainBoot_def startProxy_def allWell_def)
  let ?m2 = "onHost (\<lambda>_. startHTTP dockBoot ((mcHost ?m)\<lparr>proxyUp := True\<rparr>)) ?m"
  have q: "policiesPhase sampleLib dockBoot ?m2 = (True, ?m2)" by (simp add: policiesPhase_def dockBoot_def plainBoot_def)
  obtain m1 where d: "dnsPhase dockBoot ?m2 = (Running, m1)" "mcL3 m1 = mcL3 m"
    using assms(3) loopback_parses
    by (auto simp: dnsPhase_def newManagerWithRunner_def run_def dockBoot_def plainBoot_def allWell_def SetResolver_def setResolverResolvConf_def
        ReadFile_def WriteFile_def startHTTP_def Let_def)
  have "m\<lparr>mcL3 := mcL3 m\<rparr> = m" by simp
  then show ?thesis using o l c p q d by (simp add: runStart_def Let_def)
qed

theorem crash_loses_the_resolver_witness:
  "\<exists>m1 m3. runStart sampleLib dockBoot dockMachine = (Running, m1) \<and> runStart sampleLib dockBoot (crash m1) = (Running, m3) \<and>
     files (mcHost (shutdown sampleLib plainStop m3)) resolvConfPath = Some (generatedConf ''127.0.0.1'')"
proof -
  have f: "files (mcHost dockMachine) resolvConfPath = Some ''nameserver 9.9.9.9''" "files (mcHost dockMachine) policyStateFilePath = None"
    "mcPolicies dockMachine = None" "\<not> cfTUNEnabled (mcL3 dockMachine)"
    using plain_files by (simp_all add: dockMachine_def)
  have e: "\<not> rnPolicies dockBoot" "paList (rnPolRecover dockBoot) = Some []" "\<not> fst (ansRun (rnDns dockBoot) [''which'', ''resolvectl''])"
    "ansWrite (shDns plainStop) resolvConfPath"
    by (simp_all add: dockBoot_def plainBoot_def plainStop_def polWell_def allWell_def)
  obtain m1 where m1: "runStart sampleLib dockBoot dockMachine = (Running, m1)" "mcL3 m1 = mcL3 dockMachine"
    using dock_running [OF f(4,2,1)] by blast
  note A = running_serves [OF m1(1) f(3) e(2) f(2) e(3) f(1), of undefined]
  have "files (mcHost m1) policyStateFilePath = None"
    using A(3) [OF _ e(1)] e(1) f(2) vendors_beside_dns(3) by (simp add: fileFrame_def)
  moreover have "files (mcHost m1) resolvConfPath = Some (generatedConf ''127.0.0.1'')" using A(4) e(1) by simp
  moreover have "\<not> cfTUNEnabled (mcL3 (crash m1))" using m1(2) f(4) by (simp add: crash_def)
  ultimately obtain m3 where m3: "runStart sampleLib dockBoot (crash m1) = (Running, m3)"
    using dock_running [of "crash m1"] by auto
  have ne: "''nameserver 9.9.9.9'' \<noteq> []" by simp
  have c: "crash m1 = crash (fold serveStep [] m1)" by simp
  from crash_loses_the_resolver [OF m1(1) f(3) e(1) e(1) e(2) e(2) f(2) e(3) e(3) f(1) ne c m3 e(4), of "[]"] m1(1) m3
  show ?thesis by auto
qed

section \<open>A start that cannot set the resolver\<close>

lemma runCleanup_simps [simp]:
  "mcHost (runCleanup env m) = mcHost m" "mcPolicies (runCleanup env m) = mcPolicies m"
  by (simp_all add: runCleanup_def)

lemma failed_resolver_start:
  assumes "dnsPhase env m = (StoppedDns, m1)"
  shows "httpUp (mcHost m1) = httpUp (mcHost m) \<and> mcPolicies m1 = mcPolicies m \<and> \<not> proxyUp (mcHost m1)"
proof -
  obtain dm h1 where n: "newManagerWithRunner (rnDns env) (mcHost m) = (dm, h1)" by fastforce
  obtain ok dm1 h2 where s: "SetResolver (rnDns env) ''127.0.0.1'' dm h1 = (ok, dm1, h2)" by (metis prod_cases3)
  have "httpUp h1 = httpUp (mcHost m)" using n by (auto simp: newManagerWithRunner_def run_def split: prod.splits)
  then show ?thesis using assms n s SetResolver_host [OF s] by (cases ok) (auto simp: dnsPhase_def)
qed

section \<open>The check of the resolver at the end\<close>

lemma final_check_is_idle:
  assumes "ParseIP (originalDNS (ksMgr (mcKS m))) = None"
  shows "files (mcHost (stepVerify senv m)) = files (mcHost m)"
proof -
  have "ForceResolver io (originalDNS (ksMgr (mcKS m))) h = (False, h)" for io h using assms by (simp add: ForceResolver_def)
  then show ?thesis
    by (auto simp: stepVerify_def OriginalResolver_def VerifyAndRestore_def split: prod.splits option.splits dest: CheckCurrentResolver_host)
qed

end
